(* ===== verification/Prelude.thy ===== *)
theory Prelude
  imports Main
begin

text \<open>
  What every component of the development shares.

  \<^item> JSON values and the exceptions the backend raises.
  \<^item> The program monad: a handler is a function from the persistent state to its outcome
    (an exception or a value) and the state it leaves behind. The state survives an
    exception, as the database does.
  \<^item> A symbolic executor for such programs: the weakest precondition \<open>wp\<close> and its
    equations, collected in \<open>wp_simps\<close>.
  \<^item> Document collections (the list of documents of one MongoDB collection, in storage
    order) and their contract, the locale \<open>doc_store\<close>.
  \<^item> Python's \<open>str\<close> on booleans and on lists of strings, \<open>split\<close> and \<open>strip\<close>. Characters are the
    first 256 code points.
\<close>

named_theorems wp_simps \<open>equations of the weakest precondition\<close>

type_synonym time = int \<comment> \<open>a UTC instant, in microseconds\<close>

section \<open>JSON values and exceptions\<close>

text \<open>
  \<open>JTime t\<close> is the ISO 8601 string of the instant \<open>t\<close>; \<open>JFloat s\<close> is the floating-point number
  that Python prints as \<open>s\<close>.
\<close>

datatype json =
    JNull
  | JBool bool
  | JInt int
  | JFloat string
  | JStr string
  | JTime time
  | JList "json list"
  | JObj "(string \<times> json) list"

definition jopt :: "('a \<Rightarrow> json) \<Rightarrow> 'a option \<Rightarrow> json" where
  "jopt f x = (case x of None \<Rightarrow> JNull | Some v \<Rightarrow> f v)"

fun jget :: "string \<Rightarrow> json \<Rightarrow> json option" where
  "jget k (JObj kvs) = map_of kvs k"
| "jget k _ = None"

text \<open>Python's truth value and type name of a JSON value.\<close>

fun jtruthy :: "json \<Rightarrow> bool" where
  "jtruthy JNull = False"
| "jtruthy (JBool b) = b"
| "jtruthy (JInt n) = (n \<noteq> 0)"
| "jtruthy (JFloat s) = (s \<notin> {''0.0'', ''-0.0''})"
| "jtruthy (JStr s) = (s \<noteq> [])"
| "jtruthy (JTime t) = True"
| "jtruthy (JList js) = (js \<noteq> [])"
| "jtruthy (JObj kvs) = (kvs \<noteq> [])"

fun jtype :: "json \<Rightarrow> string" where
  "jtype JNull = ''NoneType''"
| "jtype (JBool b) = ''bool''"
| "jtype (JInt n) = ''int''"
| "jtype (JFloat s) = ''float''"
| "jtype (JStr s) = ''str''"
| "jtype (JTime t) = ''str''"
| "jtype (JList js) = ''list''"
| "jtype (JObj kvs) = ''dict''"

datatype link_error =
    SelfReferenceError string
  | TargetNotFoundError string
  | CrossProjectError string string
  | DuplicateLinkError string string
  | LinkNotFoundError string string
  | CycleError "string list"

datatype exn =
    HTTPException nat json
  | ToolError string
  | McpAuthError string
  | TaskLinkError string link_error
  | ValueError string
  | ValidationError string
  | KeyError string
  | AttributeError string
  | TypeError string
  | OverflowError
  | RedisError
  | OSError string
  | MongoError string
  | OAuthError string string

text \<open>Dictionaries, and what attribute access and a \<open>for\<close> loop make of a value.\<close>

type_synonym jdict = "(string \<times> json) list"

definition quoted :: "string \<Rightarrow> string" where
  "quoted s = [CHR 39] @ s @ [CHR 39]"

definition dict_get :: "string \<Rightarrow> json \<Rightarrow> jdict \<Rightarrow> json" where
  "dict_get k d kvs = (case map_of kvs k of None \<Rightarrow> d | Some v \<Rightarrow> v)"

definition no_get :: "json \<Rightarrow> exn" where
  "no_get j = AttributeError (quoted (jtype j) @ '' object has no attribute '' @ quoted ''get'')"

fun iterate :: "json \<Rightarrow> exn + json list" where
  "iterate (JList js) = Inr js"
| "iterate (JStr s) = Inr (map (\<lambda>c. JStr [c]) s)"
| "iterate (JObj kvs) = Inr (map (JStr \<circ> fst) kvs)"
| "iterate j = Inl (TypeError (quoted (jtype j) @ '' object is not iterable''))"

section \<open>The program monad\<close>

type_synonym ('s, 'a) prog = "'s \<Rightarrow> (exn + 'a) \<times> 's"

definition return :: "'a \<Rightarrow> ('s, 'a) prog" where
  "return x = (\<lambda>s. (Inr x, s))"

definition raise :: "exn \<Rightarrow> ('s, 'a) prog" where
  "raise e = (\<lambda>s. (Inl e, s))"

definition bindP :: "('s, 'a) prog \<Rightarrow> ('a \<Rightarrow> ('s, 'b) prog) \<Rightarrow> ('s, 'b) prog" where
  "bindP m f = (\<lambda>s. case m s of (Inl e, s') \<Rightarrow> (Inl e, s') | (Inr x, s') \<Rightarrow> f x s')"

definition gets :: "('s \<Rightarrow> 'a) \<Rightarrow> ('s, 'a) prog" where
  "gets f = (\<lambda>s. (Inr (f s), s))"

definition modify :: "('s \<Rightarrow> 's) \<Rightarrow> ('s, unit) prog" where
  "modify f = (\<lambda>s. (Inr (), f s))"

definition guard :: "bool \<Rightarrow> exn \<Rightarrow> ('s, unit) prog" where
  "guard b e = (if b then return () else raise e)"

definition whenP :: "bool \<Rightarrow> ('s, unit) prog \<Rightarrow> ('s, unit) prog" where
  "whenP b m = (if b then m else return ())"

definition some_or :: "'a option \<Rightarrow> exn \<Rightarrow> ('s, 'a) prog" where
  "some_or x e = (case x of None \<Rightarrow> raise e | Some v \<Rightarrow> return v)"

definition catchP :: "('s, 'a) prog \<Rightarrow> (exn \<Rightarrow> ('s, 'a) prog) \<Rightarrow> ('s, 'a) prog" where
  "catchP m h = (\<lambda>s. case m s of (Inl e, s') \<Rightarrow> h e s' | (Inr x, s') \<Rightarrow> (Inr x, s'))"

primrec forP :: "'a list \<Rightarrow> ('a \<Rightarrow> ('s, unit) prog) \<Rightarrow> ('s, unit) prog" where
  "forP [] f = return ()"
| "forP (x # xs) f = bindP (f x) (\<lambda>_. forP xs f)"

primrec foldP :: "('a \<Rightarrow> 'b \<Rightarrow> ('s, 'b) prog) \<Rightarrow> 'a list \<Rightarrow> 'b \<Rightarrow> ('s, 'b) prog" where
  "foldP f [] b = return b"
| "foldP f (x # xs) b = bindP (f x b) (foldP f xs)"

lemma bindP_assoc: "bindP (bindP m f) g = bindP m (\<lambda>x. bindP (f x) g)"
  by (auto simp: bindP_def fun_eq_iff split: prod.splits sum.splits)

lemma bindP_return: "bindP (return x) f = f x"
  by (simp add: bindP_def return_def)

section \<open>Weakest preconditions\<close>

text \<open>
  \<open>wp m Q E s\<close>: run from \<open>s\<close>, the program \<open>m\<close> ends in a value and a state that satisfy
  \<open>Q\<close>, or in an exception and a state that satisfy \<open>E\<close>.
\<close>

definition wp :: "('s, 'a) prog \<Rightarrow> ('a \<Rightarrow> 's \<Rightarrow> bool) \<Rightarrow> (exn \<Rightarrow> 's \<Rightarrow> bool) \<Rightarrow> 's \<Rightarrow> bool" where
  "wp m Q E s = (case m s of (Inl e, s') \<Rightarrow> E e s' | (Inr x, s') \<Rightarrow> Q x s')"

lemma wp_return [wp_simps]: "wp (return x) Q E s = Q x s"
  by (simp add: wp_def return_def)

lemma wp_return_fn: "wp (return x) Q E = Q x"
  by (simp add: fun_eq_iff wp_return)

lemma wp_raise [wp_simps]: "wp (raise e) Q E s = E e s"
  by (simp add: wp_def raise_def)

lemma wp_bindP [wp_simps]: "wp (bindP m f) Q E s = wp m (\<lambda>x. wp (f x) Q E) E s"
  by (auto simp: wp_def bindP_def split: prod.splits sum.splits)

lemma wp_gets [wp_simps]: "wp (gets f) Q E s = Q (f s) s"
  by (simp add: wp_def gets_def)

lemma wp_modify [wp_simps]: "wp (modify f) Q E s = Q () (f s)"
  by (simp add: wp_def modify_def)

lemma wp_guard [wp_simps]: "wp (guard b e) Q E s = (if b then Q () s else E e s)"
  by (simp add: guard_def wp_simps)

lemma wp_whenP [wp_simps]: "wp (whenP b m) Q E s = (if b then wp m Q E s else Q () s)"
  by (simp add: whenP_def wp_simps)

lemma wp_some_or [wp_simps]:
  "wp (some_or x e) Q E s = (case x of None \<Rightarrow> E e s | Some v \<Rightarrow> Q v s)"
  by (simp add: some_or_def wp_simps split: option.splits)

lemma wp_catchP [wp_simps]: "wp (catchP m h) Q E s = wp m Q (\<lambda>e. wp (h e) Q E) s"
  by (auto simp: wp_def catchP_def split: prod.splits sum.splits)

lemma wp_if [wp_simps]: "wp (if b then m else n) Q E s = (if b then wp m Q E s else wp n Q E s)"
  by simp

lemma wp_case_option [wp_simps]:
  "wp (case x of None \<Rightarrow> m | Some v \<Rightarrow> f v) Q E s
   = (case x of None \<Rightarrow> wp m Q E s | Some v \<Rightarrow> wp (f v) Q E s)"
  by (cases x) simp_all

lemma wp_Let [wp_simps]: "wp (let x = v in f x) Q E s = (let x = v in wp (f x) Q E s)"
  by simp

lemma wp_mono:
  "wp m Q E s \<Longrightarrow> (\<And>x s'. Q x s' \<Longrightarrow> Q' x s') \<Longrightarrow> (\<And>e s'. E e s' \<Longrightarrow> E' e s') \<Longrightarrow> wp m Q' E' s"
  by (auto simp: wp_def split: prod.splits sum.splits)

lemma wp_value: "wp m Q E s \<Longrightarrow> m s = (Inr x, s') \<Longrightarrow> Q x s'"
  by (simp add: wp_def)

lemma wp_exn: "wp m Q E s \<Longrightarrow> m s = (Inl e, s') \<Longrightarrow> E e s'"
  by (simp add: wp_def)

lemma wpI:
  "(\<And>x s'. m s = (Inr x, s') \<Longrightarrow> Q x s') \<Longrightarrow> (\<And>e s'. m s = (Inl e, s') \<Longrightarrow> E e s') \<Longrightarrow> wp m Q E s"
  by (auto simp: wp_def split: prod.splits sum.splits)

lemma wp_snd: "wp m (\<lambda>_. I) (\<lambda>_. I) s = I (snd (m s))"
  by (auto simp: wp_def split: prod.splits sum.splits)

lemma wp_succeeds: "(\<exists>x s'. m s = (Inr x, s')) \<longleftrightarrow> wp m (\<lambda>_ _. True) (\<lambda>_ _. False) s"
  by (auto simp: wp_def split: prod.splits sum.splits)

lemma wp_total: "(\<exists>x s'. m s = (Inr x, s') \<and> Q x s') \<longleftrightarrow> wp m Q (\<lambda>_ _. False) s"
  by (auto simp: wp_def split: prod.splits sum.splits)

lemma wp_fails: "m s = (Inl x, s) \<longleftrightarrow> wp m (\<lambda>_ _. False) (\<lambda>y s'. y = x \<and> s' = s) s"
  by (auto simp: wp_def split: prod.splits sum.splits)

text \<open>Introduction rules for the steps that only check.\<close>

lemma wp_guard_then: "(b \<Longrightarrow> wp (f ()) Q E s) \<Longrightarrow> (\<not> b \<Longrightarrow> E x s) \<Longrightarrow> wp (bindP (guard b x) f) Q E s"
  by (simp add: wp_simps)

lemma wp_some_or_then: "(\<And>v. y = Some v \<Longrightarrow> wp (f v) Q E s) \<Longrightarrow> (y = None \<Longrightarrow> E x s) \<Longrightarrow> wp (bindP (some_or y x) f) Q E s"
  by (simp add: wp_simps split: option.split)

lemma wp_gets_then: "wp (f (g s)) Q E s \<Longrightarrow> wp (bindP (gets g) f) Q E s"
  by (simp add: wp_simps)

lemma wp_modify_then: "wp (f ()) Q E (g s) \<Longrightarrow> wp (bindP (modify g) f) Q E s"
  by (simp add: wp_simps)

lemma wp_translate_then:
  "wp m (\<lambda>x. wp (f x) Q E) (\<lambda>x. E (h x)) s \<Longrightarrow> wp (bindP (catchP m (\<lambda>x. raise (h x))) f) Q E s"
  unfolding wp_bindP wp_catchP by (rule wp_mono) (simp_all add: wp_simps)

text \<open>Loops: an invariant that every iteration keeps.\<close>

lemma wp_forP:
  assumes "\<And>x s. x \<in> set xs \<Longrightarrow> I s \<Longrightarrow> wp (f x) (\<lambda>_. I) E s" and "I s"
    and "\<And>s. I s \<Longrightarrow> Q () s"
  shows "wp (forP xs f) Q E s"
  using assms
proof (induction xs arbitrary: s)
  case Nil
  then show ?case by (simp add: wp_simps)
next
  case (Cons x xs)
  from Cons.prems(1,2) have "wp (f x) (\<lambda>_. I) E s" by simp
  moreover have "I s' \<Longrightarrow> wp (forP xs f) Q E s'" for s'
    using Cons.prems(1,3) by (auto intro: Cons.IH)
  ultimately show ?case by (auto simp: wp_simps elim: wp_mono)
qed

lemma bindP_value: "bindP m f s = (Inr y, s') \<Longrightarrow> \<exists>x t. m s = (Inr x, t) \<and> f x t = (Inr y, s')"
  by (auto simp: bindP_def split: prod.splits sum.splits)

section \<open>Frames\<close>

text \<open>
  A frame is a reflexive and transitive relation between the states before and after a
  program. A program keeps it on every path, the exceptional ones included; the locale gives
  the rules by which programs built from parts that keep a frame keep it too.
\<close>

definition keeps :: "('s \<Rightarrow> 's \<Rightarrow> bool) \<Rightarrow> ('s, 'a) prog \<Rightarrow> bool" where
  "keeps R m \<longleftrightarrow> (\<forall>s. R s (snd (m s)))"

lemma keeps_wp: "keeps R m \<longleftrightarrow> (\<forall>s. wp m (\<lambda>_. R s) (\<lambda>_. R s) s)"
  by (simp add: keeps_def wp_snd)

lemma wp_keeps:
  "keeps R m \<Longrightarrow> (\<And>x s'. R s s' \<Longrightarrow> Q x s') \<Longrightarrow> (\<And>x s'. R s s' \<Longrightarrow> E x s') \<Longrightarrow> wp m Q E s"
  by (rule wp_mono [of m "\<lambda>_. R s" "\<lambda>_. R s"]) (auto simp: keeps_wp)

locale frame =
  fixes R :: "'s \<Rightarrow> 's \<Rightarrow> bool"
  assumes refl: "R s s"
    and trans: "R s t \<Longrightarrow> R t u \<Longrightarrow> R s u"
begin

text \<open>After a state the frame relates to the start, a program that keeps the frame ends in one.\<close>

lemma wp_after:
  assumes "keeps R m" and "R s0 s"
  shows "wp m (\<lambda>_. R s0) (\<lambda>_. R s0) s"
  by (rule wp_keeps [OF assms(1)]) (rule trans [OF assms(2)], assumption)+

lemma keeps_return: "keeps R (return x)"
  by (simp add: keeps_def return_def refl)

lemma keeps_raise: "keeps R (raise x)"
  by (simp add: keeps_def raise_def refl)

lemma keeps_guard: "keeps R (guard b x)"
  by (simp add: guard_def keeps_return keeps_raise)

lemma keeps_gets: "keeps R (gets f)"
  by (simp add: keeps_def gets_def refl)

lemma keeps_some_or: "keeps R (some_or x y)"
  by (cases x) (simp_all add: some_or_def keeps_return keeps_raise)

lemma keeps_modify: "(\<And>s. R s (f s)) \<Longrightarrow> keeps R (modify f)"
  by (simp add: keeps_def modify_def)

lemma keeps_whenP: "(b \<Longrightarrow> keeps R m) \<Longrightarrow> keeps R (whenP b m)"
  by (simp add: whenP_def keeps_return)

lemma keeps_if: "(b \<Longrightarrow> keeps R m) \<Longrightarrow> (\<not> b \<Longrightarrow> keeps R n) \<Longrightarrow> keeps R (if b then m else n)"
  by simp

lemma keeps_bindP: "keeps R m \<Longrightarrow> (\<And>x. keeps R (f x)) \<Longrightarrow> keeps R (bindP m f)"
  unfolding keeps_wp [of R "bindP m f"] wp_bindP by (blast intro: wp_keeps wp_after)

lemma keeps_catchP: "keeps R m \<Longrightarrow> (\<And>x. keeps R (h x)) \<Longrightarrow> keeps R (catchP m h)"
  unfolding keeps_wp [of R "catchP m h"] wp_catchP by (blast intro: wp_keeps wp_after)

lemma keeps_forP: "(\<And>x. x \<in> set xs \<Longrightarrow> keeps R (f x)) \<Longrightarrow> keeps R (forP xs f)"
  by (induction xs) (auto intro!: keeps_return keeps_bindP)

lemma keeps_case_option: "(x = None \<Longrightarrow> keeps R m) \<Longrightarrow> (\<And>v. x = Some v \<Longrightarrow> keeps R (f v)) \<Longrightarrow>
    keeps R (case x of None \<Rightarrow> m | Some v \<Rightarrow> f v)"
  by (cases x) simp_all

lemma keeps_case_prod: "(\<And>a b. x = (a, b) \<Longrightarrow> keeps R (f a b)) \<Longrightarrow> keeps R (case x of (a, b) \<Rightarrow> f a b)"
  by (cases x) simp

lemma keeps_Let: "(\<And>x. keeps R (f x)) \<Longrightarrow> keeps R (let x = v in f x)"
  by (simp add: Let_def)

lemmas keeps_intros = keeps_return keeps_raise keeps_guard keeps_gets keeps_some_or keeps_whenP keeps_if
  keeps_bindP keeps_catchP keeps_forP keeps_case_option keeps_case_prod keeps_Let

end

text \<open>
  The frame of a part of the state: a program that does not write the part keeps it. \<open>apart\<close> says
  that the part does not depend on a field.
\<close>

definition same :: "('s \<Rightarrow> 'a) \<Rightarrow> 's \<Rightarrow> 's \<Rightarrow> bool" where
  "same sel s s' \<longleftrightarrow> sel s' = sel s"

interpretation part: frame "same sel" for sel
  by unfold_locales (simp_all add: same_def)

definition apart :: "('s \<Rightarrow> 'a) \<Rightarrow> (('f \<Rightarrow> 'f) \<Rightarrow> 's \<Rightarrow> 's) \<Rightarrow> bool" where
  "apart sel put \<longleftrightarrow> (\<forall>f s. sel (put f s) = sel s)"

text \<open>
  A program that changes a part of the state in one place: from every part that satisfies \<open>P\<close> it
  ends, with a value or an exception, in one that \<open>T\<close> relates to it. What runs before and after
  the change keeps the part.
\<close>

definition transacts :: "('s \<Rightarrow> 'p) \<Rightarrow> ('p \<Rightarrow> bool) \<Rightarrow> ('p \<Rightarrow> 'p \<Rightarrow> bool) \<Rightarrow> ('s, 'a) prog \<Rightarrow> bool" where
  "transacts sel P T m \<longleftrightarrow> (\<forall>s. P (sel s) \<longrightarrow> T (sel s) (sel (snd (m s))))"

lemma transacts_wp: "transacts sel P T m \<longleftrightarrow> (\<forall>s. P (sel s) \<longrightarrow> wp m (\<lambda>_ s'. T (sel s) (sel s')) (\<lambda>_ s'. T (sel s) (sel s')) s)"
  by (simp add: transacts_def wp_snd)

lemma transacts_quiet: "keeps (same sel) m \<Longrightarrow> (\<And>p. P p \<Longrightarrow> T p p) \<Longrightarrow> transacts sel P T m"
  by (simp add: transacts_def keeps_def same_def)

lemma transacts_fetch:
  assumes "keeps (same sel) m" and "\<And>p. P p \<Longrightarrow> T p p" and "\<And>s. wp m (\<lambda>x s'. Q x (sel s')) (\<lambda>_ _. True) s"
    and "\<And>x. transacts sel (\<lambda>p. P p \<and> Q x p) T (f x)"
  shows "transacts sel P T (bindP m f)"
  unfolding transacts_wp
proof (intro allI impI)
  fix s assume P: "P (sel s)"
  have sel: "m s = (r, s') \<Longrightarrow> sel s' = sel s" for r s'
    using assms(1) [unfolded keeps_def same_def, rule_format, of s] by simp
  show "wp (bindP m f) (\<lambda>_ s'. T (sel s) (sel s')) (\<lambda>_ s'. T (sel s) (sel s')) s"
    unfolding wp_bindP
  proof (rule wpI)
    fix x s' assume m: "m s = (Inr x, s')"
    have "sel s' = sel s" by (rule sel [OF m])
    moreover have "Q x (sel s')" using wp_value [OF assms(3) m] .
    ultimately show "wp (f x) (\<lambda>_ s'. T (sel s) (sel s')) (\<lambda>_ s'. T (sel s) (sel s')) s'"
      using assms(4) [of x, unfolded transacts_wp, rule_format, of s'] P by simp
  next
    fix x s' assume "m s = (Inl x, s')"
    then have "sel s' = sel s" by (rule sel)
    then show "T (sel s) (sel s')" using assms(2) P by simp
  qed
qed

lemma transacts_before:
  assumes "keeps (same sel) m" and "\<And>p. P p \<Longrightarrow> T p p" and "\<And>x. transacts sel P T (f x)"
  shows "transacts sel P T (bindP m f)"
  by (rule transacts_fetch [where Q = "\<lambda>_ _. True", OF assms(1,2)]) (simp_all add: wp_snd assms(3))

lemma transacts_after:
  assumes "transacts sel P T m" and "\<And>x. keeps (same sel) (f x)"
  shows "transacts sel P T (bindP m f)"
  unfolding transacts_wp wp_bindP
  by (intro allI impI, rule wp_mono [OF assms(1) [unfolded transacts_wp, rule_format]], assumption)
     (rule wp_keeps [OF assms(2)], simp_all add: same_def)

lemma transacts_guard: "(\<And>p. P p \<Longrightarrow> T p p) \<Longrightarrow> (b \<Longrightarrow> transacts sel P T (f ())) \<Longrightarrow> transacts sel P T (bindP (guard b x) f)"
  by (cases b) (simp_all add: transacts_wp wp_simps)

lemma transacts_weaken: "transacts sel P T m \<Longrightarrow> (\<And>p. P' p \<Longrightarrow> P p) \<Longrightarrow> transacts sel P' T m"
  by (simp add: transacts_def)

lemma keeps_same_value: "keeps (same sel) m \<Longrightarrow> m s = (r, s') \<Longrightarrow> sel s' = sel s"
  by (metis keeps_def same_def snd_conv)

lemma wp_True: "wp m (\<lambda>_ _. True) (\<lambda>_ _. True) s"
  by (simp add: wp_snd)

section \<open>Document collections\<close>

text \<open>
  The contract of a document collection: \<open>get\<close> finds the document with a key, \<open>save\<close>
  replaces the stored document of the same key, \<open>insert\<close> adds a document with a new key,
  and \<open>inv\<close> (keys are unique) is kept.
\<close>

locale doc_store =
  fixes key :: "'d \<Rightarrow> 'k"
    and get :: "'c \<Rightarrow> 'k \<Rightarrow> 'd option"
    and save :: "'d \<Rightarrow> 'c \<Rightarrow> 'c"
    and insert :: "'d \<Rightarrow> 'c \<Rightarrow> 'c"
    and docs :: "'c \<Rightarrow> 'd set"
    and inv :: "'c \<Rightarrow> bool"
  assumes get_iff: "inv c \<Longrightarrow> get c k = Some d \<longleftrightarrow> d \<in> docs c \<and> key d = k"
    and docs_save: "inv c \<Longrightarrow> get c (key d) = Some old \<Longrightarrow>
          docs (save d c) = {x \<in> docs c. key x \<noteq> key d} \<union> {d}"
    and docs_insert: "inv c \<Longrightarrow> get c (key d) = None \<Longrightarrow> docs (insert d c) = docs c \<union> {d}"
    and inv_save: "inv c \<Longrightarrow> get c (key d) = Some old \<Longrightarrow> inv (save d c)"
    and inv_insert: "inv c \<Longrightarrow> get c (key d) = None \<Longrightarrow> inv (insert d c)"
begin

lemma get_key: "inv c \<Longrightarrow> get c k = Some d \<Longrightarrow> key d = k"
  by (simp add: get_iff)

lemma get_docs: "inv c \<Longrightarrow> get c k = Some d \<Longrightarrow> d \<in> docs c"
  by (simp add: get_iff)

lemma get_None: "inv c \<Longrightarrow> get c k = None \<longleftrightarrow> (\<forall>d \<in> docs c. key d \<noteq> k)"
  by (metis get_iff not_None_eq)

lemma get_eqI: "inv c \<Longrightarrow> inv c' \<Longrightarrow>
    (\<And>d. d \<in> docs c \<and> key d = k \<longleftrightarrow> d \<in> docs c' \<and> key d = k') \<Longrightarrow> get c k = get c' k'"
  by (metis get_iff not_None_eq)

lemma docs_key_unique: "inv c \<Longrightarrow> d \<in> docs c \<Longrightarrow> d' \<in> docs c \<Longrightarrow> key d = key d' \<Longrightarrow> d = d'"
  by (metis get_iff option.inject)

lemma get_save:
  assumes "inv c" and "get c (key d) = Some old"
  shows "get (save d c) k = (if k = key d then Some d else get c k)"
proof (cases "k = key d")
  case True
  then show ?thesis using assms by (simp add: get_iff inv_save docs_save)
next
  case False
  have "get (save d c) k = get c k"
    using assms False by (intro get_eqI) (auto simp: inv_save docs_save)
  with False show ?thesis by simp
qed

lemma get_insert:
  assumes "inv c" and "get c (key d) = None"
  shows "get (insert d c) k = (if k = key d then Some d else get c k)"
proof (cases "k = key d")
  case True
  then show ?thesis using assms by (simp add: get_iff inv_insert docs_insert)
next
  case False
  have "get (insert d c) k = get c k"
    using assms False by (intro get_eqI) (auto simp: inv_insert docs_insert)
  with False show ?thesis by simp
qed

lemma all_save:
  "inv c \<Longrightarrow> get c (key d) = Some old \<Longrightarrow> \<forall>x \<in> docs c. P x \<Longrightarrow> P d \<Longrightarrow> \<forall>x \<in> docs (save d c). P x"
  by (auto simp: docs_save)

lemma all_insert:
  "inv c \<Longrightarrow> get c (key d) = None \<Longrightarrow> \<forall>x \<in> docs c. P x \<Longrightarrow> P d \<Longrightarrow> \<forall>x \<in> docs (insert d c). P x"
  by (auto simp: docs_insert)

end

text \<open>
  The model of a collection: its documents in storage order. \<open>coll_find\<close> is a query (the
  filter's matches in storage order), \<open>coll_get\<close> the lookup by \<open>_id\<close>, \<open>coll_save\<close> Beanie's
  \<open>save\<close> (replace the document with this \<open>_id\<close>, or add it when there is none).
\<close>

definition coll_get :: "('d \<Rightarrow> string) \<Rightarrow> 'd list \<Rightarrow> string \<Rightarrow> 'd option" where
  "coll_get key ds k = List.find (\<lambda>d. key d = k) ds"

definition coll_find :: "('d \<Rightarrow> bool) \<Rightarrow> 'd list \<Rightarrow> 'd list" where
  "coll_find P ds = filter P ds"

definition coll_insert :: "'d \<Rightarrow> 'd list \<Rightarrow> 'd list" where
  "coll_insert d ds = ds @ [d]"

definition coll_save :: "('d \<Rightarrow> string) \<Rightarrow> 'd \<Rightarrow> 'd list \<Rightarrow> 'd list" where
  "coll_save key d ds =
     (if \<exists>x \<in> set ds. key x = key d then map (\<lambda>x. if key x = key d then d else x) ds
      else coll_insert d ds)"

definition keys_distinct :: "('d \<Rightarrow> string) \<Rightarrow> 'd list \<Rightarrow> bool" where
  "keys_distinct key ds \<longleftrightarrow> distinct (map key ds)"

lemma coll_get_Some:
  "keys_distinct key ds \<Longrightarrow> coll_get key ds k = Some d \<longleftrightarrow> d \<in> set ds \<and> key d = k"
  by (induction ds) (auto simp: coll_get_def keys_distinct_def)

lemma coll_get_in: "coll_get key ds k = Some d \<Longrightarrow> d \<in> set ds \<and> key d = k"
  by (auto simp: coll_get_def find_Some_iff)

lemma coll_get_None: "coll_get key ds k = None \<longleftrightarrow> (\<forall>d \<in> set ds. key d \<noteq> k)"
  by (auto simp: coll_get_def find_None_iff)

lemma map_key_update: "map key (map (\<lambda>x. if key x = key d then d else x) ds) = map key ds"
  by (induction ds) auto

lemma coll_save_eq_map:
  "coll_get key ds (key d) = Some old \<Longrightarrow>
   coll_save key d ds = map (\<lambda>x. if key x = key d then d else x) ds"
  by (auto simp: coll_save_def dest: coll_get_in)

lemma coll_save_keys:
  "coll_get key ds (key d) = Some old \<Longrightarrow> map key (coll_save key d ds) = map key ds"
  by (simp add: coll_save_eq_map map_key_update)

lemma coll_doc_store:
  "doc_store key (coll_get key) (coll_save key) coll_insert set (keys_distinct key)"
proof
  show "keys_distinct key c \<Longrightarrow> coll_get key c k = Some d \<longleftrightarrow> d \<in> set c \<and> key d = k" for c k d
    by (rule coll_get_Some)
  show "set (coll_save key d c) = {x \<in> set c. key x \<noteq> key d} \<union> {d}"
    if "keys_distinct key c" and g: "coll_get key c (key d) = Some old" for c d old
    using coll_get_in [OF g] by (auto simp: coll_save_eq_map [OF g])
  show "set (coll_insert d c) = set c \<union> {d}" for c d
    by (auto simp: coll_insert_def)
  show "keys_distinct key (coll_save key d c)"
    if "keys_distinct key c" "coll_get key c (key d) = Some old" for c d old
    using that by (simp add: keys_distinct_def coll_save_keys)
  show "keys_distinct key (coll_insert d c)"
    if "keys_distinct key c" "coll_get key c (key d) = None" for c d
    using that by (auto simp: keys_distinct_def coll_insert_def coll_get_None)
qed

lemma coll_save_middle:
  assumes "keys_distinct key (xs @ u # vs)" and "key u' = key u"
  shows "coll_save key u' (xs @ u # vs) = xs @ u' # vs"
proof -
  have other: "key x \<noteq> key u'" if "x \<in> set xs \<union> set vs" for x
    using assms that imageI [of x _ key] by (auto simp: keys_distinct_def image_iff)
  have "map (\<lambda>x. if key x = key u' then u' else x) xs = xs"
    by (rule map_idI) (use other in simp)
  moreover have "map (\<lambda>x. if key x = key u' then u' else x) vs = vs"
    by (rule map_idI) (use other in simp)
  ultimately show ?thesis using assms(2) by (simp add: coll_save_def)
qed

lemma coll_save_map:
  assumes "x \<in> set ds" and "\<And>y. key (g y) = key y" and "key d = key x"
  shows "coll_save key d (map g ds) = map (\<lambda>y. if key y = key x then d else g y) ds"
proof -
  have "\<exists>y \<in> set (map g ds). key y = key d" using assms by auto
  then show ?thesis using assms(2,3) by (simp add: coll_save_def)
qed

text \<open>Writing changed copies of the documents a query returned updates exactly those.\<close>

lemma fold_save_filter:
  assumes "keys_distinct key ts" and "\<And>t. key (h t) = key t"
  shows "fold (\<lambda>t. coll_save key (h t)) (filter P ts) ts = map (\<lambda>t. if P t then h t else t) ts"
proof -
  have "keys_distinct key (us @ vs) \<Longrightarrow>
        fold (\<lambda>t. coll_save key (h t)) (filter P us) (us @ vs) = map (\<lambda>t. if P t then h t else t) us @ vs" for us vs
  proof (induction us arbitrary: vs rule: rev_induct)
    case (snoc u us)
    let ?us' = "map (\<lambda>t. if P t then h t else t) us"
    have "map key (?us' @ u # vs) = map key (us @ u # vs)" using assms(2) by simp
    moreover have "distinct (map key (us @ u # vs))" using snoc.prems by (simp add: keys_distinct_def)
    ultimately have "keys_distinct key (?us' @ u # vs)" unfolding keys_distinct_def by presburger
    then have "coll_save key (h u) (?us' @ u # vs) = ?us' @ h u # vs"
      using assms(2) by (rule coll_save_middle)
    with snoc.IH [of "u # vs"] snoc.prems show ?case by simp
  qed simp
  from this [of ts "[]"] assms(1) show ?thesis by simp
qed

text \<open>Writing any list of documents with distinct keys that are all stored already.\<close>

lemma fold_save_map:
  assumes "distinct (map key us)" and "\<And>u. u \<in> set us \<Longrightarrow> \<exists>d \<in> set ds. key d = key u"
  shows "fold (coll_save key) us ds =
    map (\<lambda>d. case coll_get key us (key d) of None \<Rightarrow> d | Some u \<Rightarrow> u) ds"
  using assms
proof (induction us arbitrary: ds)
  case Nil
  then show ?case by (simp add: coll_get_def)
next
  case (Cons u us)
  let ?ds = "map (\<lambda>x. if key x = key u then u else x) ds"
  have save: "coll_save key u ds = ?ds" using Cons.prems(2) [of u] by (auto simp: coll_save_def)
  have fresh: "coll_get key us (key u) = None"
    using Cons.prems(1) by (auto simp: coll_get_None image_iff)
  have keys: "\<exists>d \<in> set ?ds. key d = key v" if v: "v \<in> set us" for v
  proof -
    obtain d where "d \<in> set ds" "key d = key v" using Cons.prems(2) [of v] v by auto
    then show ?thesis by (intro bexI [of _ "if key d = key u then u else d"]) auto
  qed
  have "fold (coll_save key) us ?ds =
      map (\<lambda>d. case coll_get key us (key d) of None \<Rightarrow> d | Some u \<Rightarrow> u) ?ds"
    by (rule Cons.IH) (use Cons.prems(1) keys in auto)
  then show ?case
    using fresh by (auto simp: save coll_get_def)
qed

section \<open>Python's str\<close>

definition str_bool :: "bool \<Rightarrow> string" where
  "str_bool b = (if b then ''True'' else ''False'')"

definition hex_digit :: "nat \<Rightarrow> char" where
  "hex_digit n = ''0123456789abcdef'' ! (n mod 16)"

text \<open>\<open>repr\<close> of one character inside a string delimited by the quote \<open>q\<close>.\<close>

definition py_repr_char :: "char \<Rightarrow> char \<Rightarrow> string" where
  "py_repr_char q c =
     (let n = (of_char c :: nat) in
      if c = q \<or> n = 92 then [CHR 92, c]
      else if n = 10 then [CHR 92, CHR ''n'']
      else if n = 13 then [CHR 92, CHR ''r'']
      else if n = 9 then [CHR 92, CHR ''t'']
      else if n < 32 \<or> (127 \<le> n \<and> n \<le> 160) \<or> n = 173
        then [CHR 92, CHR ''x'', hex_digit (n div 16), hex_digit n]
      else [c])"

definition py_repr :: "string \<Rightarrow> string" where
  "py_repr s =
     (let q = (if CHR 39 \<in> set s \<and> CHR 34 \<notin> set s then CHR 34 else CHR 39)
      in [q] @ concat (map (py_repr_char q) s) @ [q])"

fun join_with :: "string \<Rightarrow> string list \<Rightarrow> string" where
  "join_with sep [] = []"
| "join_with sep [x] = x"
| "join_with sep (x # y # xs) = x @ sep @ join_with sep (y # xs)"

fun split_on :: "char \<Rightarrow> string \<Rightarrow> string list" where
  "split_on c [] = [[]]"
| "split_on c (x # xs) =
     (if x = c then [] # split_on c xs
      else case split_on c xs of [] \<Rightarrow> [[x]] | y # ys \<Rightarrow> (x # y) # ys)"

text \<open>White space in the sense of \<open>str.isspace\<close>, among the first 256 code points.\<close>

definition py_space :: "char \<Rightarrow> bool" where
  "py_space c = (let n = (of_char c :: nat) in (9 \<le> n \<and> n \<le> 13) \<or> (28 \<le> n \<and> n \<le> 32) \<or> n = 133 \<or> n = 160)"

definition py_strip :: "string \<Rightarrow> string" where
  "py_strip s = rev (dropWhile py_space (rev (dropWhile py_space s)))"

text \<open>The operator \<open>in\<close> on strings.\<close>

fun is_prefix :: "string \<Rightarrow> string \<Rightarrow> bool" where
  "is_prefix [] s = True"
| "is_prefix (c # p) (d # s) = (c = d \<and> is_prefix p s)"
| "is_prefix (c # p) [] = False"

fun is_infix :: "string \<Rightarrow> string \<Rightarrow> bool" where
  "is_infix p [] = (p = [])"
| "is_infix p (c # s) = (is_prefix p (c # s) \<or> is_infix p s)"

text \<open>An optional string that counts as given: neither \<open>None\<close> nor empty.\<close>

definition truthy :: "string option \<Rightarrow> string option" where
  "truthy x = (case x of Some (c # cs) \<Rightarrow> Some (c # cs) | _ \<Rightarrow> None)"

definition py_str_list :: "string list \<Rightarrow> string" where
  "py_str_list xs = ''['' @ join_with '', '' (map py_repr xs) @ '']''"

lemma length_join_Cons:
  "length (join_with sep (x # xs)) = length x + (if xs = [] then 0 else length sep + length (join_with sep xs))"
  by (cases xs) simp_all

lemma length_join_snoc:
  "length (join_with sep (xs @ [x])) = length x + (if xs = [] then 0 else length (join_with sep xs) + length sep)"
  by (induction xs) (auto simp: length_join_Cons)

lemma length_join_filter:
  "length (join_with sep (map f (filter P xs))) \<le> length (join_with sep (map f xs))"
  by (induction xs) (auto simp: length_join_Cons)

lemma length_py_repr: "0 < length (py_repr s)"
  by (simp add: py_repr_def Let_def)

lemma length_join_filter_less:
  assumes "\<And>x. 0 < length (f x)" and "filter P xs \<noteq> xs"
  shows "length (join_with sep (map f (filter P xs))) < length (join_with sep (map f xs))"
  using assms(2)
proof (induction xs)
  case Nil
  then show ?case by simp
next
  case (Cons x xs)
  show ?case
  proof (cases "P x")
    case True
    with Cons.prems have "filter P xs \<noteq> xs" by simp
    with Cons.IH have "length (join_with sep (map f (filter P xs))) < length (join_with sep (map f xs))"
      by simp
    with True show ?thesis by (auto simp: length_join_Cons)
  next
    case False
    have "length (join_with sep (map f (filter P xs))) \<le> length (join_with sep (map f xs))"
      by (rule length_join_filter)
    moreover have "0 < length (f x)" by (rule assms(1))
    ultimately show ?thesis using False by (simp add: length_join_Cons del: length_greater_0_conv)
  qed
qed

lemma py_str_list_snoc: "py_str_list (xs @ [x]) \<noteq> py_str_list xs"
proof -
  have "length (py_str_list xs) < length (py_str_list (xs @ [x]))"
    using length_py_repr [of x] by (simp add: py_str_list_def length_join_snoc)
  then show ?thesis by auto
qed

lemma py_str_list_filter:
  assumes "filter P xs \<noteq> xs"
  shows "py_str_list (filter P xs) \<noteq> py_str_list xs"
proof -
  have "length (join_with '', '' (map py_repr (filter P xs))) < length (join_with '', '' (map py_repr xs))"
    by (rule length_join_filter_less [OF length_py_repr assms])
  then have "length (py_str_list (filter P xs)) < length (py_str_list xs)"
    by (simp add: py_str_list_def)
  then show ?thesis by auto
qed

section \<open>Reachability\<close>

text \<open>A set that holds the start and is closed under a relation holds everything reachable.\<close>

lemma closed_rtrancl:
  assumes "(a, b) \<in> E\<^sup>*" and "a \<in> S" and "\<And>x y. x \<in> S \<Longrightarrow> (x, y) \<in> E \<Longrightarrow> y \<in> S"
  shows "b \<in> S"
  using assms(1,2) by (induction rule: rtrancl_induct) (auto intro: assms(3))

end
