(* ===== verification/Url_Contract.thy ===== *)
theory Url_Contract
  imports Prelude
begin

text \<open>
  The URL contract (lib/url_contract.py): \<open>parse_url\<close> turns a URL into the resource it names,
  \<open>build_url\<close> writes the URL of a resource. Below them stands what they use of Python's
  \<open>urllib.parse\<close>. Text is its UTF-8 encoding; a percent escape that is not valid UTF-8 stays a
  byte here where Python substitutes U+FFFD, and neither is part of an identifier.

  The two functions are inverse to each other on well-formed resources; every parsed URL has
  the fields its kind promises; and an absolute URL is only accepted from the allowed hosts.
\<close>

section \<open>urllib.parse\<close>

definition before :: "char \<Rightarrow> string \<Rightarrow> string" where
  "before c s = takeWhile (\<lambda>x. x \<noteq> c) s"

definition after :: "char \<Rightarrow> string \<Rightarrow> string" where
  "after c s = drop 1 (dropWhile (\<lambda>x. x \<noteq> c) s)"

definition after_last :: "char \<Rightarrow> string \<Rightarrow> string" where
  "after_last c s = rev (before c (rev s))"

definition code :: "char \<Rightarrow> nat" where
  "code c = of_char c"

definition ascii_alpha :: "char \<Rightarrow> bool" where
  "ascii_alpha c = (65 \<le> code c \<and> code c \<le> 90 \<or> 97 \<le> code c \<and> code c \<le> 122)"

definition ascii_digit :: "char \<Rightarrow> bool" where
  "ascii_digit c = (48 \<le> code c \<and> code c \<le> 57)"

definition lower_char :: "char \<Rightarrow> char" where
  "lower_char c = (if 65 \<le> code c \<and> code c \<le> 90 then char_of (code c + 32) else c)"

definition scheme_char :: "char \<Rightarrow> bool" where
  "scheme_char c = (ascii_alpha c \<or> ascii_digit c \<or> c \<in> set ''+-.'')"

definition uses_params :: "string list" where
  "uses_params = ['''', ''ftp'', ''hdl'', ''prospero'', ''http'', ''imap'', ''https'', ''shttp'', ''rtsp'', ''rtsps'',
     ''rtspu'', ''sip'', ''sips'', ''mms'', ''sftp'', ''tel'']"

record parse_result =
  pr_scheme :: string
  pr_netloc :: string
  pr_path :: string
  pr_query :: string

text \<open>Leading control characters and blanks, and every tab and line end, do not count.\<close>

definition clean_url :: "string \<Rightarrow> string" where
  "clean_url s = filter (\<lambda>c. c \<notin> {CHR 9, CHR 10, CHR 13}) (dropWhile (\<lambda>c. code c \<le> 32) s)"

definition split_scheme :: "string \<Rightarrow> string \<times> string" where
  "split_scheme s =
     (let p = before CHR '':'' s in
      if CHR '':'' \<in> set s \<and> p \<noteq> [] \<and> ascii_alpha (hd p) \<and> list_all scheme_char p
      then (map lower_char p, after CHR '':'' s) else ([], s))"

definition split_netloc :: "string \<Rightarrow> string \<times> string" where
  "split_netloc s =
     (if take 2 s = ''//''
      then (takeWhile (\<lambda>c. c \<notin> set ''/?#'') (drop 2 s), dropWhile (\<lambda>c. c \<notin> set ''/?#'') (drop 2 s))
      else ([], s))"

text \<open>
  The checks of a host in brackets (an IPv6 address) and of a non-ASCII host (Unicode
  normalisation) are the parameter \<open>bad_host\<close>: the message of the \<open>ValueError\<close>, if any.
\<close>

definition netloc_error :: "(string \<Rightarrow> string option) \<Rightarrow> string \<Rightarrow> string option" where
  "netloc_error bad_host n =
     (let l = CHR ''['' \<in> set n; r = CHR '']'' \<in> set n in
      if l \<noteq> r then Some ''Invalid IPv6 URL''
      else if l \<or> \<not> list_all (\<lambda>c. code c < 128) n then bad_host n else None)"

text \<open>The parameters of the last path segment, from its first semicolon on.\<close>

definition strip_params :: "string \<Rightarrow> string" where
  "strip_params p =
     (let seg = after_last CHR ''/'' p in take (length p - length seg) p @ before CHR '';'' seg)"

definition urlparse :: "(string \<Rightarrow> string option) \<Rightarrow> string \<Rightarrow> exn + parse_result" where
  "urlparse bad_host url =
     (let (scheme, rest) = split_scheme (clean_url url);
          (netloc, rest') = split_netloc rest;
          pq = before CHR ''#'' rest';
          path = before CHR ''?'' pq
      in case netloc_error bad_host netloc of
           Some msg \<Rightarrow> Inl (ValueError msg)
         | None \<Rightarrow> Inr \<lparr>pr_scheme = scheme, pr_netloc = netloc,
             pr_path = (if scheme \<in> set uses_params then strip_params path else path),
             pr_query = after CHR ''?'' pq\<rparr>)"

definition hostname :: "parse_result \<Rightarrow> string option" where
  "hostname p =
     (let hostinfo = after_last CHR ''@'' (pr_netloc p);
          host = (if CHR ''['' \<in> set hostinfo then before CHR '']'' (after CHR ''['' hostinfo)
                  else before CHR '':'' hostinfo)
      in if host = [] then None
         else Some (map lower_char (before CHR ''%'' host) @ dropWhile (\<lambda>x. x \<noteq> CHR ''%'') host))"

definition hex_val :: "char \<Rightarrow> nat option" where
  "hex_val c =
     (let n = code c in
      if 48 \<le> n \<and> n \<le> 57 then Some (n - 48)
      else if 97 \<le> n \<and> n \<le> 102 then Some (n - 87)
      else if 65 \<le> n \<and> n \<le> 70 then Some (n - 55) else None)"

fun unquote :: "string \<Rightarrow> string" where
  "unquote (c # a # b # s) =
     (if c = CHR ''%'' then
        case (hex_val a, hex_val b) of
          (Some x, Some y) \<Rightarrow> char_of (16 * x + y) # unquote s
        | _ \<Rightarrow> c # unquote (a # b # s)
      else c # unquote (a # b # s))"
| "unquote s = s"

definition unquote_plus :: "string \<Rightarrow> string" where
  "unquote_plus s = unquote (map (\<lambda>c. if c = CHR ''+'' then CHR '' '' else c) s)"

definition parse_qsl :: "string \<Rightarrow> (string \<times> string) list" where
  "parse_qsl qs =
     map (\<lambda>nv. (unquote_plus (before CHR ''='' nv), unquote_plus (after CHR ''='' nv)))
       (filter (\<lambda>nv. nv \<noteq> []) (split_on CHR ''&'' qs))"

section \<open>The parser\<close>

datatype resource_kind =
    K_task | K_document | K_document_full | K_bookmark | K_knowledge | K_docsite_page | K_project | K_unknown

fun kind_str :: "resource_kind \<Rightarrow> string" where
  "kind_str K_task = ''task''"
| "kind_str K_document = ''document''"
| "kind_str K_document_full = ''document_full''"
| "kind_str K_bookmark = ''bookmark''"
| "kind_str K_knowledge = ''knowledge''"
| "kind_str K_docsite_page = ''docsite_page''"
| "kind_str K_project = ''project''"
| "kind_str K_unknown = ''unknown''"

record parsed_url =
  pu_kind :: resource_kind
  pu_project_id :: "string option"
  pu_resource_id :: "string option"
  pu_path :: "string option"
  pu_site_id :: "string option"
  pu_had_unknown_params :: bool
  pu_redirect_to :: "string option"

definition new_parsed_url :: "resource_kind \<Rightarrow> parsed_url" where
  "new_parsed_url k = \<lparr>pu_kind = k, pu_project_id = None, pu_resource_id = None, pu_path = None, pu_site_id = None,
     pu_had_unknown_params = False, pu_redirect_to = None\<rparr>"

definition parsed_url_to_dict :: "parsed_url \<Rightarrow> json" where
  "parsed_url_to_dict r = JObj
     [(''kind'', JStr (kind_str (pu_kind r))), (''project_id'', jopt JStr (pu_project_id r)),
      (''resource_id'', jopt JStr (pu_resource_id r)), (''path'', jopt JStr (pu_path r)),
      (''site_id'', jopt JStr (pu_site_id r)), (''had_unknown_params'', JBool (pu_had_unknown_params r)),
      (''redirect_to'', jopt JStr (pu_redirect_to r))]"

text \<open>
  The pattern is matched from the start, and its dollar sign also accepts the position before
  a final line end.
\<close>

definition lower_hex :: "char \<Rightarrow> bool" where
  "lower_hex c = (97 \<le> code c \<and> code c \<le> 102 \<or> ascii_digit c)"

definition hex24 :: "string \<Rightarrow> bool" where
  "hex24 s = (length s = 24 \<and> list_all lower_hex s)"

definition is_object_id :: "string \<Rightarrow> bool" where
  "is_object_id s = (hex24 (take 24 s) \<and> drop 24 s \<in> {[], [CHR 10]})"

definition allowed_hosts :: "string list" where
  "allowed_hosts = [''todo.vtech-studios.com'']"

definition origin_allowed :: "parse_result \<Rightarrow> bool" where
  "origin_allowed p =
     (let host = map lower_char (case hostname p of None \<Rightarrow> [] | Some h \<Rightarrow> h)
      in host \<in> set allowed_hosts \<or> host = ''localhost'')"

definition lstrip_slash :: "string \<Rightarrow> string" where
  "lstrip_slash s = dropWhile (\<lambda>c. c = CHR ''/'') s"

definition normalise_path :: "string \<Rightarrow> string list option" where
  "normalise_path path =
     (if path = [] \<or> path = ''/'' then Some []
      else let stripped = rev (lstrip_slash (rev (lstrip_slash path)))
           in if stripped = [] then Some []
              else let segments = split_on CHR ''/'' stripped
                   in if \<exists>s \<in> set segments. s \<in> {[], ''.'', ''..''} then None else Some segments)"

definition recognised_query_keys :: "string list" where
  "recognised_query_keys = [''task'', ''doc'']"

text \<open>The dictionary keeps the newest pair first, so that \<open>map_of\<close> reads the last one set.\<close>

definition split_query :: "string \<Rightarrow> (string \<times> string) list \<times> bool" where
  "split_query query =
     fold (\<lambda>(k, v) (out, had_unknown). if k \<in> set recognised_query_keys then ((k, v) # out, had_unknown) else (out, True))
       (parse_qsl query) ([], False)"

definition unknown_url :: "bool \<Rightarrow> parsed_url" where
  "unknown_url had = (new_parsed_url K_unknown)\<lparr>pu_had_unknown_params := had\<rparr>"

definition project_url :: "string \<Rightarrow> bool \<Rightarrow> parsed_url" where
  "project_url pid had = (new_parsed_url K_project)\<lparr>pu_project_id := Some pid, pu_had_unknown_params := had\<rparr>"

text \<open>The query of a project URL: \<open>task\<close> before \<open>doc\<close>, a malformed identifier degrades.\<close>

definition match_project :: "(string \<times> string) list \<Rightarrow> bool \<Rightarrow> string \<Rightarrow> parsed_url" where
  "match_project query_dict had pid =
     (if \<not> is_object_id pid then unknown_url had
      else case map_of query_dict ''task'' of
        Some tid \<Rightarrow>
          if is_object_id tid then (project_url pid had)\<lparr>pu_kind := K_task, pu_resource_id := Some tid\<rparr>
          else project_url pid True
      | None \<Rightarrow> (case map_of query_dict ''doc'' of
          Some did \<Rightarrow>
            if is_object_id did then (project_url pid had)\<lparr>pu_kind := K_document, pu_resource_id := Some did\<rparr>
            else project_url pid True
        | None \<Rightarrow> project_url pid had))"

definition match_single :: "resource_kind \<Rightarrow> bool \<Rightarrow> string \<Rightarrow> parsed_url" where
  "match_single k had rid =
     (if is_object_id rid then (new_parsed_url k)\<lparr>pu_resource_id := Some rid, pu_had_unknown_params := had\<rparr>
      else unknown_url had)"

definition match_segments :: "(string \<times> string) list \<Rightarrow> bool \<Rightarrow> string list \<Rightarrow> parsed_url" where
  "match_segments query_dict had segments =
     (let n = length segments; s = (\<lambda>i. segments ! i) in
      if n = 2 \<and> s 0 = ''workbench'' then
        (if is_object_id (s 1) then (project_url (s 1) had)\<lparr>pu_redirect_to := Some (''/projects/'' @ s 1)\<rparr>
         else unknown_url had)
      else if n = 4 \<and> s 0 = ''projects'' \<and> s 2 = ''documents'' then
        (if \<not> is_object_id (s 1) \<or> \<not> is_object_id (s 3) then unknown_url had
         else (project_url (s 1) had)\<lparr>pu_kind := K_document_full, pu_resource_id := Some (s 3)\<rparr>)
      else if n = 2 \<and> s 0 = ''projects'' then match_project query_dict had (s 1)
      else if n = 2 \<and> s 0 = ''bookmarks'' then match_single K_bookmark had (s 1)
      else if n = 2 \<and> s 0 = ''knowledge'' then match_single K_knowledge had (s 1)
      else if n \<ge> 3 \<and> s 0 = ''docsites'' then
        (if \<not> is_object_id (s 1) then unknown_url had
         else (new_parsed_url K_docsite_page)\<lparr>pu_site_id := Some (s 1),
                pu_path := Some (join_with ''/'' (drop 2 segments)), pu_had_unknown_params := had\<rparr>)
      else unknown_url had)"

definition parse_url :: "(string \<Rightarrow> string option) \<Rightarrow> string \<Rightarrow> exn + parsed_url" where
  "parse_url bad_host url =
     (if py_strip url = [] then Inr (unknown_url False)
      else case urlparse bad_host url of
        Inl x \<Rightarrow> Inl x
      | Inr parsed \<Rightarrow>
          if pr_scheme parsed \<noteq> [] \<and> \<not> origin_allowed parsed then Inr (unknown_url False)
          else let (query_dict, had) = split_query (pr_query parsed)
               in case normalise_path (pr_path parsed) of
                    None \<Rightarrow> Inr (unknown_url had)
                  | Some segments \<Rightarrow> Inr (match_segments query_dict had segments))"

section \<open>The builder\<close>

definition require :: "resource_kind \<Rightarrow> string option \<Rightarrow> string \<Rightarrow> exn + string" where
  "require kind v name =
     (case truthy v of
        None \<Rightarrow> Inl (ValueError (''build_url: missing required '' @ name @ '' for kind='' @ py_repr (kind_str kind)))
      | Some x \<Rightarrow>
          if is_object_id x then Inr x
          else Inl (ValueError (''build_url: invalid id format for '' @ name @ '': '' @ py_repr x)))"

text \<open>
  A segment that is one or two dots, or (as the dollar sign of the pattern allows) a last
  segment of this form followed by a line end.
\<close>

definition path_traversal :: "string \<Rightarrow> bool" where
  "path_traversal path =
     (let segs = split_on CHR ''/'' path
      in (\<exists>s \<in> set segs. s \<in> {''.'', ''..''}) \<or> last segs \<in> {''.'' @ [CHR 10], ''..'' @ [CHR 10]})"

definition both :: "exn + 'a \<Rightarrow> exn + 'b \<Rightarrow> ('a \<Rightarrow> 'b \<Rightarrow> 'c) \<Rightarrow> exn + 'c" where
  "both x y f = (case x of Inl e \<Rightarrow> Inl e | Inr a \<Rightarrow> (case y of Inl e \<Rightarrow> Inl e | Inr b \<Rightarrow> Inr (f a b)))"

definition build_docsite :: "string option \<Rightarrow> string \<Rightarrow> exn + string" where
  "build_docsite path sid =
     (case truthy path of
        None \<Rightarrow> Inl (ValueError (''build_url: missing required path for kind='' @ py_repr (kind_str K_docsite_page)))
      | Some p \<Rightarrow>
          if path_traversal p \<or> take 1 p = ''/''
          then Inl (ValueError (''build_url: invalid docsite path (traversal/leading slash): '' @ py_repr p))
          else Inr (''/docsites/'' @ sid @ ''/'' @ p))"

fun build_url ::
  "resource_kind \<Rightarrow> string option \<Rightarrow> string option \<Rightarrow> string option \<Rightarrow> string option \<Rightarrow> exn + string" where
  "build_url K_unknown project_id resource_id path site_id =
     Inl (ValueError (''build_url: unsupported kind: '' @ py_repr (kind_str K_unknown)))"
| "build_url K_task project_id resource_id path site_id =
     both (require K_task project_id ''project_id'') (require K_task resource_id ''resource_id'')
       (\<lambda>pid rid. ''/projects/'' @ pid @ ''?task='' @ rid)"
| "build_url K_document project_id resource_id path site_id =
     both (require K_document project_id ''project_id'') (require K_document resource_id ''resource_id'')
       (\<lambda>pid rid. ''/projects/'' @ pid @ ''?doc='' @ rid)"
| "build_url K_document_full project_id resource_id path site_id =
     both (require K_document_full project_id ''project_id'') (require K_document_full resource_id ''resource_id'')
       (\<lambda>pid rid. ''/projects/'' @ pid @ ''/documents/'' @ rid)"
| "build_url K_bookmark project_id resource_id path site_id =
     map_sum id (\<lambda>rid. ''/bookmarks/'' @ rid) (require K_bookmark resource_id ''resource_id'')"
| "build_url K_knowledge project_id resource_id path site_id =
     map_sum id (\<lambda>rid. ''/knowledge/'' @ rid) (require K_knowledge resource_id ''resource_id'')"
| "build_url K_docsite_page project_id resource_id path site_id =
     (case require K_docsite_page site_id ''site_id'' of Inl e \<Rightarrow> Inl e | Inr sid \<Rightarrow> build_docsite path sid)"
| "build_url K_project project_id resource_id path site_id =
     map_sum id (\<lambda>pid. ''/projects/'' @ pid) (require K_project project_id ''project_id'')"


section \<open>Text\<close>

named_theorems url_text \<open>cutting and joining of text\<close>

lemma before_id [url_text]: "c \<notin> set s \<Longrightarrow> before c s = s"
  by (auto simp: before_def takeWhile_eq_all_conv)

lemma after_none [url_text]: "c \<notin> set s \<Longrightarrow> after c s = []"
  by (induction s) (auto simp: after_def)

lemma before_append [url_text]: "c \<notin> set a \<Longrightarrow> before c (a @ c # b) = a"
  by (induction a) (auto simp: before_def)

lemma after_append [url_text]: "c \<notin> set a \<Longrightarrow> after c (a @ c # b) = b"
  by (induction a) (auto simp: after_def)

lemma set_before: "x \<in> set (before c s) \<Longrightarrow> x \<in> set s \<and> x \<noteq> c"
  by (auto simp: before_def dest: set_takeWhileD)

lemma set_after: "x \<in> set (after c s) \<Longrightarrow> x \<in> set s"
  by (auto simp: after_def dest!: in_set_dropD set_dropWhileD)

lemma after_last_suffix: "take (length s - length (after_last c s)) s @ after_last c s = s"
proof -
  have "rev s = before c (rev s) @ dropWhile (\<lambda>x. x \<noteq> c) (rev s)" by (simp add: before_def)
  then have "s = rev (dropWhile (\<lambda>x. x \<noteq> c) (rev s)) @ after_last c s"
    by (metis after_last_def rev_append rev_rev_ident)
  then show ?thesis by (metis append_eq_append_conv append_take_drop_id length_append length_take diff_le_self min.absorb2 diff_add_inverse2)
qed

lemma strip_params_id: "CHR '';'' \<notin> set (after_last CHR ''/'' p) \<Longrightarrow> strip_params p = p"
  by (simp add: strip_params_def before_id after_last_suffix)

lemma set_strip_params: "set (strip_params p) \<subseteq> set p"
  by (auto simp: strip_params_def Let_def after_last_def dest!: set_before in_set_takeD)

lemma split_on_not_Nil [simp]: "split_on c s \<noteq> []"
  by (induction s) (auto split: list.splits)

lemma split_on_no_sep [url_text]: "c \<notin> set s \<Longrightarrow> split_on c s = [s]"
  by (induction s) auto

lemma split_on_append [url_text]: "c \<notin> set a \<Longrightarrow> split_on c (a @ c # s) = a # split_on c s"
  by (induction a) auto

lemma split_on_clean: "a \<in> set (split_on c s) \<Longrightarrow> c \<notin> set a \<and> set a \<subseteq> set s"
proof (induction s arbitrary: a)
  case (Cons x s)
  obtain y ys where "split_on c s = y # ys" by (cases "split_on c s") auto
  with Cons show ?case by (fastforce split: if_splits)
qed simp

lemma join_split: "join_with [c] (split_on c s) = s"
proof (induction s)
  case (Cons x s)
  obtain y ys where y: "split_on c s = y # ys" by (cases "split_on c s") auto
  with Cons show ?case by (cases ys) auto
qed simp

lemma split_join: "xs \<noteq> [] \<Longrightarrow> \<forall>x \<in> set xs. c \<notin> set x \<Longrightarrow> split_on c (join_with [c] xs) = xs"
  by (induction "[c]" xs rule: join_with.induct) (auto simp: url_text)

lemma join_Cons: "xs \<noteq> [] \<Longrightarrow> join_with sep (x # xs) = x @ sep @ join_with sep xs"
  by (cases xs) auto

lemma set_join: "z \<in> set (join_with [c] xs) \<Longrightarrow> z = c \<or> (\<exists>x \<in> set xs. z \<in> set x)"
  by (induction "[c]" xs rule: join_with.induct) auto

lemma unquote_plain [url_text]: "CHR ''%'' \<notin> set s \<Longrightarrow> unquote s = s"
  by (induction s rule: unquote.induct) auto

lemma unquote_plus_plain [url_text]:
  assumes "CHR ''%'' \<notin> set s" and "CHR ''+'' \<notin> set s"
  shows "unquote_plus s = s"
proof -
  have "map (\<lambda>c. if c = CHR ''+'' then CHR '' '' else c) s = s" using assms(2) by (intro map_idI) auto
  with assms(1) show ?thesis by (simp add: unquote_plus_def unquote_plain)
qed

section \<open>Parsing what was built\<close>

text \<open>Characters that end or change a query, and those that end or change a path.\<close>

definition query_special :: "char set" where
  "query_special = {CHR 9, CHR 10, CHR 13, CHR ''#''}"

definition url_special :: "char set" where
  "url_special = insert CHR ''?'' query_special"

lemmas special_defs = url_special_def query_special_def

lemma clean_url_slash: "set s \<inter> {CHR 9, CHR 10, CHR 13} = {} \<Longrightarrow> clean_url (CHR ''/'' # s) = CHR ''/'' # s"
  by (auto simp: clean_url_def code_def filter_id_conv)

lemma split_scheme_slash: "split_scheme (CHR ''/'' # s) = ([], CHR ''/'' # s)"
  by (simp add: split_scheme_def before_def ascii_alpha_def code_def)

lemma netloc_error_empty [simp]: "netloc_error bad_host [] = None"
  by (simp add: netloc_error_def)

lemma urlparse_path_query:
  assumes "set p \<inter> url_special = {}" and "set q \<inter> query_special = {}" and "take 1 p \<noteq> ''/''"
    and "CHR '';'' \<notin> set (after_last CHR ''/'' (CHR ''/'' # p))" and "z = (if q = [] then [] else CHR ''?'' # q)"
  shows "urlparse bad_host (CHR ''/'' # p @ z) =
    Inr \<lparr>pr_scheme = [], pr_netloc = [], pr_path = CHR ''/'' # p, pr_query = q\<rparr>"
proof -
  have z: "set z \<subseteq> insert CHR ''?'' (set q)" unfolding assms(5) by simp
  have no: "CHR ''#'' \<notin> set (CHR ''/'' # p @ z)" "CHR ''?'' \<notin> set (CHR ''/'' # p)"
    using assms(1,2) z by (auto simp: special_defs)
  have c: "clean_url (CHR ''/'' # p @ z) = CHR ''/'' # p @ z"
    by (rule clean_url_slash) (use assms(1,2) z in \<open>auto simp: special_defs\<close>)
  have n: "split_netloc (CHR ''/'' # p @ z) = ([], CHR ''/'' # p @ z)"
    using assms(3,5) by (cases p) (auto simp: split_netloc_def)
  have b: "before CHR ''?'' (CHR ''/'' # p @ z) = CHR ''/'' # p" "after CHR ''?'' (CHR ''/'' # p @ z) = q"
    using assms(5) before_append [OF no(2), of q] after_append [OF no(2), of q] before_id [OF no(2)] after_none [OF no(2)]
    by (simp_all split: if_splits)
  show ?thesis
    using before_id [OF no(1)] strip_params_id [OF assms(4)]
    by (simp add: urlparse_def c split_scheme_slash n b uses_params_def)
qed

definition good_segment :: "string \<Rightarrow> bool" where
  "good_segment s = (s \<notin> {[], ''.'', ''..''} \<and> CHR ''/'' \<notin> set s \<and> set s \<inter> url_special = {})"

lemma normalise_path_join:
  assumes "segs \<noteq> []" and "list_all good_segment segs"
  shows "normalise_path (CHR ''/'' # join_with ''/'' segs) = Some segs"
proof -
  let ?j = "join_with ''/'' segs"
  obtain a as where segs: "segs = a # as" using assms(1) by (cases segs) auto
  obtain zs z where snoc: "segs = zs @ [z]" using assms(1) by (cases segs rule: rev_cases) auto
  have ends: "a \<noteq> []" "CHR ''/'' \<notin> set a" "z \<noteq> []" "CHR ''/'' \<notin> set z"
    using assms(2) unfolding segs by (auto simp: good_segment_def segs) (use assms(2) snoc in \<open>auto simp: good_segment_def\<close>)
  obtain c cs where c: "a = c # cs" "c \<noteq> CHR ''/''" using ends(1,2) by (cases a) auto
  obtain ds d where d: "z = ds @ [d]" "d \<noteq> CHR ''/''" using ends(3,4) by (cases z rule: rev_cases) auto
  have l: "lstrip_slash (CHR ''/'' # ?j) = ?j" using c by (cases as) (simp_all add: lstrip_slash_def segs)
  have "\<exists>ys. join_with ''/'' (zs @ [z]) = ys @ z" by (induction zs) (auto simp: join_Cons)
  then have r: "lstrip_slash (rev ?j) = rev ?j" using d by (auto simp: lstrip_slash_def snoc)
  have ne: "?j \<noteq> []" using c by (cases as) (simp_all add: segs)
  have sp: "split_on CHR ''/'' ?j = segs"
    by (rule split_join) (use assms in \<open>auto simp: good_segment_def list_all_iff\<close>)
  show ?thesis using assms(2) ne by (auto simp: normalise_path_def l r sp good_segment_def list_all_iff)
qed

lemma set_join_special: "list_all good_segment segs \<Longrightarrow> set (join_with ''/'' segs) \<inter> url_special = {}"
proof -
  assume good: "list_all good_segment segs"
  have "z \<notin> url_special" if "z \<in> set (join_with ''/'' segs)" for z
    using set_join [OF that]
  proof
    assume "\<exists>x \<in> set segs. z \<in> set x"
    with good show ?thesis unfolding list_all_iff good_segment_def by blast
  qed (simp add: special_defs)
  then show ?thesis by blast
qed

lemma py_strip_slash: "py_strip (CHR ''/'' # s) \<noteq> []"
proof
  assume "py_strip (CHR ''/'' # s) = []"
  then have "\<forall>c \<in> set (CHR ''/'' # s). py_space c"
    by (simp add: py_strip_def py_space_def dropWhile_eq_Nil_conv)
  then show False by (simp add: py_space_def)
qed

theorem parse_url_segments:
  assumes "segs \<noteq> []" and "list_all good_segment segs" and "CHR '';'' \<notin> set (last segs)"
    and "set q \<inter> query_special = {}" and "z = (if q = [] then [] else CHR ''?'' # q)"
  shows "parse_url bad_host (''/'' @ join_with ''/'' segs @ z) =
    Inr (match_segments (fst (split_query q)) (snd (split_query q)) segs)"
proof -
  let ?j = "join_with ''/'' segs"
  obtain zs y where snoc: "segs = zs @ [y]" using assms(1) by (cases segs rule: rev_cases) auto
  have y: "CHR ''/'' \<notin> set y" using assms(2) snoc by (simp add: good_segment_def)
  have "\<exists>ys. CHR ''/'' # join_with ''/'' (zs @ [y]) = ys @ CHR ''/'' # y"
    by (induction zs) (auto simp: join_Cons Cons_eq_append_conv)
  then obtain ys where "CHR ''/'' # ?j = ys @ CHR ''/'' # y" unfolding snoc by blast
  then have "after_last CHR ''/'' (CHR ''/'' # ?j) = y"
    using y before_append [of "CHR ''/''" "rev y"] by (simp only: after_last_def) simp
  with assms(3) snoc have last_seg: "CHR '';'' \<notin> set (after_last CHR ''/'' (CHR ''/'' # ?j))" by simp
  obtain a as c cs where "segs = (c # cs) # as" "a = c # cs" "c \<noteq> CHR ''/''"
    using assms(1,2) by (cases segs; cases "hd segs") (auto simp: good_segment_def)
  then have hd: "take 1 ?j \<noteq> ''/''" by (cases as) auto
  show ?thesis
    using urlparse_path_query [OF set_join_special [OF assms(2)] assms(4) hd last_seg assms(5)]
      normalise_path_join [OF assms(1,2)] py_strip_slash
    by (simp add: parse_url_def split_beta)
qed

section \<open>Identifiers\<close>

lemma hex24_avoids:
  assumes "hex24 s" and "\<not> lower_hex c"
  shows "c \<notin> set s"
  using assms by (auto simp: hex24_def list_all_iff)

lemma not_lower_hex [simp]:
  "\<not> lower_hex CHR 9" "\<not> lower_hex CHR 10" "\<not> lower_hex CHR 13" "\<not> lower_hex CHR ''#''" "\<not> lower_hex CHR ''?''"
  "\<not> lower_hex CHR '';''" "\<not> lower_hex CHR ''/''" "\<not> lower_hex CHR ''%''" "\<not> lower_hex CHR ''+''"
  "\<not> lower_hex CHR ''&''" "\<not> lower_hex CHR ''=''" "\<not> lower_hex CHR ''.''"
  by (simp_all add: lower_hex_def ascii_digit_def code_def)

lemmas hex24_char [simp] = hex24_avoids [OF _ not_lower_hex(1)] hex24_avoids [OF _ not_lower_hex(2)]
  hex24_avoids [OF _ not_lower_hex(3)] hex24_avoids [OF _ not_lower_hex(4)] hex24_avoids [OF _ not_lower_hex(5)]
  hex24_avoids [OF _ not_lower_hex(6)] hex24_avoids [OF _ not_lower_hex(7)] hex24_avoids [OF _ not_lower_hex(8)]
  hex24_avoids [OF _ not_lower_hex(9)] hex24_avoids [OF _ not_lower_hex(10)] hex24_avoids [OF _ not_lower_hex(11)]

lemma hex24_not_Nil [simp]: "hex24 s \<Longrightarrow> s \<noteq> []"
  by (auto simp: hex24_def)

lemma hex24_segment [simp]: "hex24 s \<Longrightarrow> good_segment s"
  by (auto simp: good_segment_def special_defs) (simp_all add: hex24_def)

lemma hex24_object_id [simp]: "hex24 s \<Longrightarrow> is_object_id s"
  by (simp add: is_object_id_def hex24_def)

lemma object_id_hex24: "is_object_id s \<Longrightarrow> CHR 10 \<notin> set s \<Longrightarrow> hex24 s"
proof -
  assume s: "is_object_id s" "CHR 10 \<notin> set s"
  have "CHR 10 \<notin> set (drop 24 s)" using s(2) by (auto dest: in_set_dropD)
  with s(1) have "drop 24 s = []" by (auto simp: is_object_id_def)
  with s(1) show ?thesis by (simp add: is_object_id_def)
qed

lemma good_object_id: "good_segment s \<Longrightarrow> is_object_id s \<longleftrightarrow> hex24 s"
  using object_id_hex24 by (auto simp: good_segment_def special_defs)

lemma split_query_Nil [simp]: "split_query [] = ([], False)"
  by (simp add: split_query_def parse_qsl_def)

lemma split_query_id:
  assumes "hex24 rid"
  shows "split_query (''task='' @ rid) = ([(''task'', rid)], False)" "split_query (''doc='' @ rid) = ([(''doc'', rid)], False)"
  using assms before_append [of "CHR ''=''" "''task''" rid] after_append [of "CHR ''=''" "''task''" rid]
    before_append [of "CHR ''=''" "''doc''" rid] after_append [of "CHR ''=''" "''doc''" rid]
  by (simp_all add: split_query_def parse_qsl_def url_text recognised_query_keys_def)

lemmas split_query_ids [simp] = split_query_id [simplified]

section \<open>Round trips\<close>

text \<open>The resource a set of arguments names: the fields its kind has.\<close>

definition named_resource ::
  "resource_kind \<Rightarrow> string option \<Rightarrow> string option \<Rightarrow> string option \<Rightarrow> string option \<Rightarrow> parsed_url" where
  "named_resource k project_id resource_id path site_id =
     (new_parsed_url k)\<lparr>
       pu_project_id := (if k \<in> {K_task, K_document, K_document_full, K_project} then project_id else None),
       pu_resource_id := (if k \<in> {K_task, K_document, K_document_full, K_bookmark, K_knowledge} then resource_id else None),
       pu_path := (if k = K_docsite_page then path else None),
       pu_site_id := (if k = K_docsite_page then site_id else None)\<rparr>"

text \<open>
  The arguments that survive the round trip: identifiers without a line end, and docsite paths
  of non-empty segments without delimiters.
\<close>

definition one_line :: "string option \<Rightarrow> bool" where
  "one_line v = (case v of None \<Rightarrow> True | Some s \<Rightarrow> CHR 10 \<notin> set s)"

definition plain_path :: "string option \<Rightarrow> bool" where
  "plain_path v = (case v of None \<Rightarrow> True
     | Some p \<Rightarrow> list_all good_segment (split_on CHR ''/'' p) \<and> CHR '';'' \<notin> set (last (split_on CHR ''/'' p)))"

lemma require_one_line: "require k v n = Inr x \<Longrightarrow> one_line v \<Longrightarrow> v = Some x \<and> hex24 x"
  using object_id_hex24 by (auto simp: require_def truthy_def one_line_def split: option.splits list.splits if_splits)

lemma both_Inr: "both x y f = Inr z \<longleftrightarrow> (\<exists>a b. x = Inr a \<and> y = Inr b \<and> z = f a b)"
  by (auto simp: both_def split: sum.splits)

lemma map_sum_Inr: "map_sum id f x = Inr z \<longleftrightarrow> (\<exists>a. x = Inr a \<and> z = f a)"
  by (cases x) auto

lemma keyword_segments [simp]:
  "good_segment ''projects''" "good_segment ''documents''" "good_segment ''bookmarks''" "good_segment ''knowledge''"
  "good_segment ''docsites''"
  by (auto simp: good_segment_def special_defs)

text \<open>The URLs of the kinds, segment by segment.\<close>

lemma parse_project_query:
  assumes "hex24 pid" and "set q \<inter> query_special = {}" and "q \<noteq> []"
  shows "parse_url bad_host (''/projects/'' @ pid @ ''?'' @ q) =
    Inr (match_project (fst (split_query q)) (snd (split_query q)) pid)"
  using parse_url_segments [of "[''projects'', pid]" q "CHR ''?'' # q" bad_host] assms
  by (simp add: match_segments_def)

lemma parse_pair:
  assumes "hex24 rid" and "good_segment a"
  shows "parse_url bad_host (''/'' @ a @ ''/'' @ rid) = Inr (match_segments [] False [a, rid])"
  using parse_url_segments [of "[a, rid]" "[]" "[]" bad_host] assms by simp

lemma parse_document_full:
  assumes "hex24 pid" and "hex24 rid"
  shows "parse_url bad_host (''/projects/'' @ pid @ ''/documents/'' @ rid) =
    Inr (match_segments [] False [''projects'', pid, ''documents'', rid])"
  using parse_url_segments [of "[''projects'', pid, ''documents'', rid]" "[]" "[]" bad_host] assms by simp

lemma parse_docsite:
  assumes "hex24 sid" and "plain_path (Some p)"
  shows "parse_url bad_host (''/docsites/'' @ sid @ ''/'' @ p) = Inr (named_resource K_docsite_page None None (Some p) (Some sid))"
proof -
  let ?ps = "split_on CHR ''/'' p"
  have "parse_url bad_host (''/'' @ join_with ''/'' (''docsites'' # sid # ?ps) @ []) =
      Inr (match_segments (fst (split_query [])) (snd (split_query [])) (''docsites'' # sid # ?ps))"
    by (rule parse_url_segments) (use assms in \<open>simp_all add: plain_path_def query_special_def\<close>)
  moreover have "length ?ps \<ge> 1" by (cases ?ps) auto
  ultimately show ?thesis
    using assms(1) by (simp add: join_Cons join_split match_segments_def named_resource_def new_parsed_url_def)
qed

lemma query_free: "hex24 rid \<Longrightarrow> set (''task='' @ rid) \<inter> query_special = {}" "hex24 rid \<Longrightarrow> set (''doc='' @ rid) \<inter> query_special = {}"
  by (auto simp: query_special_def)

lemmas url_shape = match_segments_def match_project_def match_single_def project_url_def named_resource_def new_parsed_url_def
  unknown_url_def

lemma parse_built:
  assumes "build_url k project_id resource_id path site_id = Inr url"
    and "one_line project_id" and "one_line resource_id" and "one_line site_id" and "plain_path path"
  shows "parse_url bad_host url = Inr (named_resource k project_id resource_id path site_id)"
proof (cases k)
  case K_task
  then obtain pid rid where r: "hex24 pid" "hex24 rid" "project_id = Some pid" "resource_id = Some rid"
    and u: "url = ''/projects/'' @ pid @ ''?'' @ ''task='' @ rid"
    using assms by (auto simp: both_Inr dest!: require_one_line)
  show ?thesis using parse_project_query [OF r(1) query_free(1) [OF r(2)]] r K_task
    by (simp add: u url_shape)
next
  case K_document
  then obtain pid rid where r: "hex24 pid" "hex24 rid" "project_id = Some pid" "resource_id = Some rid"
    and u: "url = ''/projects/'' @ pid @ ''?'' @ ''doc='' @ rid"
    using assms by (auto simp: both_Inr dest!: require_one_line)
  show ?thesis using parse_project_query [OF r(1) query_free(2) [OF r(2)]] r K_document
    by (simp add: u url_shape)
next
  case K_document_full
  then obtain pid rid where "hex24 pid" "hex24 rid" "project_id = Some pid" "resource_id = Some rid"
    "url = ''/projects/'' @ pid @ ''/documents/'' @ rid"
    using assms by (auto simp: both_Inr dest!: require_one_line)
  with K_document_full show ?thesis using parse_document_full [of pid rid bad_host] by (simp add: url_shape)
next
  case K_bookmark
  then obtain rid where "hex24 rid" "resource_id = Some rid" "url = ''/'' @ ''bookmarks'' @ ''/'' @ rid"
    using assms by (auto simp: map_sum_Inr dest!: require_one_line)
  with K_bookmark show ?thesis using parse_pair [of rid "''bookmarks''" bad_host] by (simp add: url_shape)
next
  case K_knowledge
  then obtain rid where "hex24 rid" "resource_id = Some rid" "url = ''/'' @ ''knowledge'' @ ''/'' @ rid"
    using assms by (auto simp: map_sum_Inr dest!: require_one_line)
  with K_knowledge show ?thesis using parse_pair [of rid "''knowledge''" bad_host] by (simp add: url_shape)
next
  case K_project
  then obtain pid where "hex24 pid" "project_id = Some pid" "url = ''/'' @ ''projects'' @ ''/'' @ pid"
    using assms by (auto simp: map_sum_Inr dest!: require_one_line)
  with K_project show ?thesis using parse_pair [of pid "''projects''" bad_host] by (simp add: url_shape)
next
  case K_docsite_page
  then obtain sid p where "hex24 sid" "site_id = Some sid" "path = Some p" "url = ''/docsites/'' @ sid @ ''/'' @ p"
    using assms(1,4) by (auto simp: build_docsite_def truthy_def split: sum.splits option.splits list.splits if_splits
        dest!: require_one_line)
  with K_docsite_page assms(5) show ?thesis using parse_docsite [of sid p bad_host] by (simp add: named_resource_def)
next
  case K_unknown
  with assms(1) show ?thesis by simp
qed

text \<open>
  C39. What \<open>build_url\<close> makes of identifiers without a line end and, for a docsite page, a plain path,
  \<open>parse_url\<close> reads back: the URL parses to the same resource, with no unknown parameter and no
  redirect. A path is plain when its segments are not empty, dot or dot-dot, hold no question
  mark, number sign, tab or line end, and the last one no semicolon; other paths are accepted and do not
  come back.
\<close>

theorem build_parse_roundtrip:
  assumes "build_url k project_id resource_id path site_id = Inr url"
    and "one_line project_id" and "one_line resource_id" and "one_line site_id" and "plain_path path"
  shows "parse_url bad_host url = Inr (named_resource k project_id resource_id path site_id)"
  using assms by (rule parse_built)

definition demo_id :: string where
  "demo_id = ''0123456789abcdef01234567''"

lemma demo_id [simp]: "hex24 demo_id" "one_line (Some demo_id)"
  by (simp_all add: demo_id_def one_line_def hex24_def lower_hex_def ascii_digit_def code_def)

theorem build_parse_roundtrip_witness:
  "parse_url Some (''/docsites/'' @ demo_id @ ''/guide/intro'') =
     Inr (named_resource K_docsite_page None None (Some ''guide/intro'') (Some demo_id))"
proof (rule build_parse_roundtrip)
  have "demo_id = CHR ''0'' # tl demo_id" by (simp add: demo_id_def)
  then have "truthy (Some demo_id) = Some demo_id" by (simp add: truthy_def split: list.splits)
  then show "build_url K_docsite_page None None (Some ''guide/intro'') (Some demo_id) = Inr (''/docsites/'' @ demo_id @ ''/guide/intro'')"
    by (simp add: build_docsite_def path_traversal_def require_def truthy_def [of "Some (CHR ''g'' # _)"])
  show "plain_path (Some ''guide/intro'')" by (auto simp: plain_path_def good_segment_def special_defs)
qed (simp_all add: one_line_def [of None])

section \<open>What a parsed URL holds\<close>

text \<open>
  The format of an identifier, spelled out: 24 characters, each a digit or a letter from a to f. The
  pattern of the code also lets a line end follow, which an identifier of a path never has, but
  one of a query may.
\<close>

definition hex_chars :: string where
  "hex_chars = ''0123456789abcdef''"

definition object_id_format :: "string \<Rightarrow> bool" where
  "object_id_format s = (length s = 24 \<and> set s \<subseteq> set hex_chars)"

definition query_id_format :: "string \<Rightarrow> bool" where
  "query_id_format s = (\<exists>h. object_id_format h \<and> s \<in> {h, h @ [CHR 10]})"

lemma lower_hex_iff: "lower_hex c \<longleftrightarrow> c \<in> set hex_chars"
proof
  have "\<forall>n \<in> set ([48..<58] @ [97..<103]). (char_of n :: char) \<in> set hex_chars" by code_simp
  moreover assume "lower_hex c"
  then have "code c \<in> {48..<58} \<union> {97..<103}" unfolding lower_hex_def ascii_digit_def by auto
  then have "code c \<in> set ([48..<58] @ [97..<103])" unfolding set_append set_upt .
  ultimately show "c \<in> set hex_chars" unfolding code_def by (metis char_of_char)
qed (auto simp: hex_chars_def lower_hex_def ascii_digit_def code_def)

lemma hex24_format: "hex24 s \<longleftrightarrow> object_id_format s"
  by (auto simp: hex24_def object_id_format_def list_all_iff lower_hex_iff)

lemma object_id_query: "is_object_id s \<longleftrightarrow> query_id_format s"
proof -
  define h t where "h = take 24 s" and "t = drop 24 s"
  have s: "s = h @ t" by (simp add: h_def t_def)
  show ?thesis
  proof
    assume "is_object_id s"
    then have "hex24 h" "t \<in> {[], [CHR 10]}" by (simp_all add: is_object_id_def h_def t_def)
    then have "object_id_format h \<and> s \<in> {h, h @ [CHR 10]}" unfolding hex24_format s by auto
    then show "query_id_format s" unfolding query_id_format_def by blast
  next
    assume "query_id_format s"
    then obtain h where "hex24 h" "s \<in> {h, h @ [CHR 10]}" by (auto simp: query_id_format_def hex24_format)
    then show "is_object_id s" by (auto simp: is_object_id_def hex24_def)
  qed
qed

text \<open>The fields each kind has. A redirect belongs to a project URL.\<close>

definition holds :: "(string \<Rightarrow> bool) \<Rightarrow> string option \<Rightarrow> bool" where
  "holds P v = (case v of None \<Rightarrow> False | Some s \<Rightarrow> P s)"

fun fields_ok :: "resource_kind \<Rightarrow> string option \<Rightarrow> string option \<Rightarrow> string option \<Rightarrow> string option \<Rightarrow> bool" where
  "fields_ok K_task pid rid path sid = (holds object_id_format pid \<and> holds query_id_format rid \<and> path = None \<and> sid = None)"
| "fields_ok K_document pid rid path sid = (holds object_id_format pid \<and> holds query_id_format rid \<and> path = None \<and> sid = None)"
| "fields_ok K_document_full pid rid path sid = (holds object_id_format pid \<and> holds object_id_format rid \<and> path = None \<and> sid = None)"
| "fields_ok K_bookmark pid rid path sid = (pid = None \<and> holds object_id_format rid \<and> path = None \<and> sid = None)"
| "fields_ok K_knowledge pid rid path sid = (pid = None \<and> holds object_id_format rid \<and> path = None \<and> sid = None)"
| "fields_ok K_docsite_page pid rid path sid =
     (pid = None \<and> rid = None \<and> holds (\<lambda>p. list_all good_segment (split_on CHR ''/'' p)) path \<and> holds object_id_format sid)"
| "fields_ok K_project pid rid path sid = (holds object_id_format pid \<and> rid = None \<and> path = None \<and> sid = None)"
| "fields_ok K_unknown pid rid path sid = (pid = None \<and> rid = None \<and> path = None \<and> sid = None)"

lemmas id_formats = hex24_format [symmetric] object_id_query [symmetric]

definition url_ok :: "parsed_url \<Rightarrow> bool" where
  "url_ok r =
     (fields_ok (pu_kind r) (pu_project_id r) (pu_resource_id r) (pu_path r) (pu_site_id r) \<and>
      (case pu_redirect_to r of None \<Rightarrow> True
       | Some t \<Rightarrow> pu_kind r = K_project \<and> holds (\<lambda>pid. t = ''/projects/'' @ pid) (pu_project_id r)))"

lemma unknown_ok: "url_ok (unknown_url had)"
  by (simp add: url_ok_def unknown_url_def new_parsed_url_def)

lemma project_ok: "good_segment pid \<Longrightarrow> url_ok (match_project d had pid)"
  by (auto simp: match_project_def unknown_ok good_object_id split: option.splits)
    (simp_all add: url_ok_def project_url_def new_parsed_url_def holds_def id_formats)

lemma single_ok: "good_segment rid \<Longrightarrow> k \<in> {K_bookmark, K_knowledge} \<Longrightarrow> url_ok (match_single k had rid)"
  by (auto simp: match_single_def unknown_ok good_object_id) (simp_all add: url_ok_def new_parsed_url_def holds_def id_formats)

lemma docsite_ok:
  assumes "list_all good_segment segs" and "segs \<noteq> []" and "hex24 sid"
  shows "url_ok ((new_parsed_url K_docsite_page)\<lparr>pu_site_id := Some sid, pu_path := Some (join_with ''/'' segs),
    pu_had_unknown_params := had\<rparr>)"
proof -
  have "split_on CHR ''/'' (join_with ''/'' segs) = segs"
    by (rule split_join) (use assms in \<open>auto simp: list_all_iff good_segment_def\<close>)
  with assms show ?thesis by (simp add: url_ok_def new_parsed_url_def holds_def id_formats)
qed

lemma match_segments_ok:
  assumes "list_all good_segment segs"
  shows "url_ok (match_segments d had segs)"
proof -
  have seg: "good_segment (segs ! i)" if "i < length segs" for i using assms that by (simp add: list_all_length)
  have site: "list_all good_segment (drop 2 segs)" using assms by (auto simp: list_all_iff dest: in_set_dropD)
  have wb: "url_ok ((project_url pid had)\<lparr>pu_redirect_to := Some (''/projects/'' @ pid)\<rparr>)" if "hex24 pid" for pid
    using that by (simp add: url_ok_def project_url_def new_parsed_url_def holds_def id_formats)
  have full: "url_ok ((project_url pid had)\<lparr>pu_kind := K_document_full, pu_resource_id := Some did\<rparr>)"
    if "hex24 pid" "hex24 did" for pid did
    using that by (simp add: url_ok_def project_url_def new_parsed_url_def holds_def id_formats)
  show ?thesis
    unfolding match_segments_def Let_def
    by (simp only: if_split [where P = url_ok]; intro conjI impI)
      (simp_all add: unknown_ok wb [simplified] full project_ok single_ok docsite_ok site seg good_object_id)
qed

lemma set_clean_url: "set (clean_url s) \<inter> {CHR 9, CHR 10, CHR 13} = {}"
  by (auto simp: clean_url_def)

lemma set_split_scheme: "set (snd (split_scheme s)) \<subseteq> set s"
  by (auto simp: split_scheme_def Let_def dest: set_after)

lemma set_split_netloc: "set (snd (split_netloc s)) \<subseteq> set s"
  by (auto simp: split_netloc_def dest: set_dropWhileD in_set_dropD)

lemma urlparse_path_clean:
  assumes "urlparse bad_host url = Inr p"
  shows "set (pr_path p) \<inter> url_special = {}"
proof -
  define rest where "rest = snd (split_netloc (snd (split_scheme (clean_url url))))"
  have "set (pr_path p) \<subseteq> set (before CHR ''?'' (before CHR ''#'' rest))"
    using assms
    by (auto simp: urlparse_def rest_def split_beta Let_def split: option.splits if_splits dest: subsetD [OF set_strip_params])
  moreover have "set (before CHR ''?'' (before CHR ''#'' rest)) \<subseteq> set rest - {CHR ''?'', CHR ''#''}"
    by (auto dest!: set_before)
  moreover have "set rest \<inter> {CHR 9, CHR 10, CHR 13} = {}"
    using set_split_netloc [of "snd (split_scheme (clean_url url))"] set_split_scheme [of "clean_url url"] set_clean_url [of url]
    unfolding rest_def by blast
  ultimately show ?thesis unfolding special_defs by blast
qed

lemma normalise_path_good:
  assumes "normalise_path path = Some segs" and "set path \<inter> url_special = {}"
  shows "list_all good_segment segs"
proof (cases "segs = []")
  case False
  then obtain s where segs: "segs = split_on CHR ''/'' s" "\<forall>x \<in> set segs. x \<notin> {[], ''.'', ''..''}"
    and s: "s = rev (lstrip_slash (rev (lstrip_slash path)))"
    using assms(1) by (auto simp: normalise_path_def Let_def split: if_splits)
  have "set s \<subseteq> set path" unfolding s lstrip_slash_def by (auto dest!: set_dropWhileD)
  then have "CHR ''/'' \<notin> set x \<and> set x \<inter> url_special = {}" if "x \<in> set segs" for x
    using split_on_clean that assms(2) unfolding segs(1) by blast
  with segs(2) show ?thesis by (auto simp: list_all_iff good_segment_def)
qed simp

lemma parsed_fields: "parse_url bad_host url = Inr r \<Longrightarrow> url_ok r"
  using urlparse_path_clean [of bad_host url] normalise_path_good match_segments_ok unknown_ok
  by (fastforce simp: parse_url_def split_beta Let_def split: if_splits sum.splits option.splits)

text \<open>
  C38. A URL that parses gives a well-formed record: exactly the fields of its kind are present; the
  identifiers of its path are 24 lower-case hexadecimal digits, and the task or document of its
  query is that too, or that with one line end behind it; a docsite path has no empty, dot or
  dot-dot segment; and only a project URL carries a redirect, to the URL of the same project.
\<close>

theorem parse_url_ok:
  assumes "parse_url bad_host url = Inr r"
  shows "url_ok r"
  using assms by (rule parsed_fields)

theorem parse_url_ok_witness:
  "url_ok ((project_url demo_id False)\<lparr>pu_redirect_to := Some (''/projects/'' @ demo_id)\<rparr>)"
proof (rule parse_url_ok)
  show "parse_url Some (''/'' @ ''workbench'' @ ''/'' @ demo_id) = Inr ((project_url demo_id False)\<lparr>pu_redirect_to := Some (''/projects/'' @ demo_id)\<rparr>)"
    using parse_pair [of demo_id "''workbench''" Some]
    by (simp add: match_segments_def good_segment_def special_defs)
qed

lemma truthy_Some [simp]: "s \<noteq> [] \<Longrightarrow> truthy (Some s) = Some s"
  by (cases s) (simp_all add: truthy_def)

lemma require_id [simp]: "is_object_id s \<Longrightarrow> require k (Some s) n = Inr s"
  by (cases "s = []") (simp_all add: require_def, simp add: is_object_id_def hex24_def)

lemma build_docsite_plain:
  assumes "list_all good_segment (split_on CHR ''/'' p)"
  shows "build_docsite (Some p) sid = Inr (''/docsites/'' @ sid @ ''/'' @ p)"
proof -
  let ?ps = "split_on CHR ''/'' p"
  have good: "good_segment s" if "s \<in> set ?ps" for s using assms that by (simp add: list_all_iff)
  have "hd ?ps \<in> set ?ps" "last ?ps \<in> set ?ps" by simp_all
  then have hl: "hd ?ps \<noteq> []" "CHR 10 \<notin> set (last ?ps)"
    using good by (auto simp: good_segment_def special_defs)
  then have "p \<noteq> []" "take 1 p \<noteq> ''/''" by (cases p; auto)+
  moreover have "\<not> path_traversal p"
    using good hl(2) by (auto simp: path_traversal_def good_segment_def Let_def)
  ultimately show ?thesis by (simp add: build_docsite_def)
qed

text \<open>Every well-formed record but that of an unknown URL has a URL.\<close>

lemma build_url_total:
  assumes "fields_ok k pid rid path sid" and "k \<noteq> K_unknown"
  shows "\<exists>u. build_url k pid rid path sid = Inr u"
  using assms
  by (cases k) (auto simp: holds_def both_def build_docsite_plain id_formats split: option.splits)

lemma named_resource_fields:
  assumes "fields_ok (pu_kind r) (pu_project_id r) (pu_resource_id r) (pu_path r) (pu_site_id r)"
  shows "named_resource (pu_kind r) (pu_project_id r) (pu_resource_id r) (pu_path r) (pu_site_id r) =
    r\<lparr>pu_had_unknown_params := False, pu_redirect_to := None\<rparr>"
  using assms by (cases "pu_kind r") (simp_all add: named_resource_def new_parsed_url_def)

lemma fields_one_line:
  assumes "fields_ok k pid rid path sid"
  shows "one_line pid" "one_line sid"
  using assms by (cases k; auto simp: holds_def one_line_def id_formats split: option.splits)+

text \<open>
  What a URL parses to has a canonical URL, and it names the same resource: building the URL
  of a parsed resource succeeds, and parsing that gives the resource again, without the flags
  that describe the original URL.
\<close>

theorem parse_build_roundtrip:
  assumes "parse_url bad_host url = Inr r" and "pu_kind r \<noteq> K_unknown"
    and "one_line (pu_resource_id r)" and "plain_path (pu_path r)"
  shows "\<exists>u. build_url (pu_kind r) (pu_project_id r) (pu_resource_id r) (pu_path r) (pu_site_id r) = Inr u \<and>
    parse_url bad_host u = Inr (r\<lparr>pu_had_unknown_params := False, pu_redirect_to := None\<rparr>)"
proof -
  have f: "fields_ok (pu_kind r) (pu_project_id r) (pu_resource_id r) (pu_path r) (pu_site_id r)"
    using parsed_fields [OF assms(1)] by (simp add: url_ok_def)
  obtain u where u: "build_url (pu_kind r) (pu_project_id r) (pu_resource_id r) (pu_path r) (pu_site_id r) = Inr u"
    using build_url_total [OF f assms(2)] by blast
  have "parse_url bad_host u = Inr (named_resource (pu_kind r) (pu_project_id r) (pu_resource_id r) (pu_path r) (pu_site_id r))"
    by (rule parse_built [OF u fields_one_line(1) [OF f] assms(3) fields_one_line(2) [OF f] assms(4)])
  with u show ?thesis by (simp add: named_resource_fields [OF f])
qed

theorem parse_build_roundtrip_witness:
  "\<exists>u. build_url K_project (Some demo_id) None None None = Inr u \<and>
     parse_url Some u = Inr (project_url demo_id False)"
proof -
  let ?r = "(project_url demo_id False)\<lparr>pu_redirect_to := Some (''/projects/'' @ demo_id)\<rparr>"
  have "parse_url Some (''/'' @ ''workbench'' @ ''/'' @ demo_id) = Inr ?r"
    using parse_pair [of demo_id "''workbench''" Some] by (simp add: match_segments_def good_segment_def special_defs)
  from parse_build_roundtrip [OF this] show ?thesis
    by (simp add: project_url_def new_parsed_url_def one_line_def plain_path_def)
qed

section \<open>Origins\<close>

text \<open>
  The host an authority names: what follows the user information, up to the port. An allowed
  host is compared without regard to case.
\<close>

definition authority_host :: "string \<Rightarrow> string" where
  "authority_host a = map lower_char (before CHR '':'' (after_last CHR ''@'' a))"

definition trusted_hosts :: "string list" where
  "trusted_hosts = [''todo.vtech-studios.com'', ''localhost'']"

lemma lower_char_idem [simp]: "lower_char (lower_char c) = lower_char c"
  by (simp add: lower_char_def code_def of_char_of take_bit_nat_def)

lemma lower_char_comp [simp]: "lower_char \<circ> lower_char = lower_char"
  by (simp add: fun_eq_iff)

lemma lower_hostname:
  assumes "CHR ''['' \<notin> set (pr_netloc p)"
  shows "map lower_char (case hostname p of None \<Rightarrow> [] | Some h \<Rightarrow> h) = authority_host (pr_netloc p)"
proof -
  have "CHR ''['' \<notin> set (after_last CHR ''@'' (pr_netloc p))"
    using assms by (auto simp: after_last_def dest: set_before)
  moreover have "map lower_char (before CHR ''%'' h) @ map lower_char (dropWhile (\<lambda>x. x \<noteq> CHR ''%'') h) = map lower_char h" for h
    by (simp add: before_def flip: map_append)
  ultimately show ?thesis by (simp add: hostname_def Let_def authority_host_def)
qed

text \<open>How an absolute URL is taken apart.\<close>

definition scheme_ok :: "string \<Rightarrow> bool" where
  "scheme_ok s = (s \<noteq> [] \<and> ascii_alpha (hd s) \<and> list_all scheme_char s)"

definition authority_ok :: "string \<Rightarrow> bool" where
  "authority_ok a = (set a \<inter> {CHR 9, CHR 10, CHR 13, CHR ''/'', CHR ''?'', CHR ''#'', CHR ''['', CHR '']''} = {})"

lemma scheme_char_avoids: "list_all scheme_char s \<Longrightarrow> \<not> scheme_char c \<Longrightarrow> c \<notin> set s"
  by (auto simp: list_all_iff)

lemma not_scheme_char [simp]: "\<not> scheme_char CHR 9" "\<not> scheme_char CHR 10" "\<not> scheme_char CHR 13" "\<not> scheme_char CHR '':''"
  by (simp_all add: scheme_char_def ascii_alpha_def ascii_digit_def code_def)

lemma split_netloc_authority:
  assumes "authority_ok a" and "rest = [] \<or> hd rest \<in> set ''/?#''"
  shows "split_netloc (''//'' @ a @ rest) = (a, rest)"
proof -
  have "\<forall>c \<in> set a. c \<notin> set ''/?#''" using assms(1) by (auto simp: authority_ok_def)
  then show ?thesis using assms(2) by (cases rest) (auto simp: split_netloc_def takeWhile_append2 dropWhile_append2)
qed

lemma urlparse_absolute:
  assumes "scheme_ok sch" and "authority_ok a" and "rest = [] \<or> hd rest \<in> set ''/?#''"
    and "urlparse bad_host (sch @ ''://'' @ a @ rest) = Inr p"
  shows "pr_scheme p \<noteq> []" "pr_netloc p = a"
proof -
  let ?rest = "filter (\<lambda>c. c \<notin> {CHR 9, CHR 10, CHR 13}) rest"
  obtain c cs where c: "sch = c # cs" "ascii_alpha c" using assms(1) by (cases sch) (auto simp: scheme_ok_def)
  have chars: "CHR 9 \<notin> set sch" "CHR 10 \<notin> set sch" "CHR 13 \<notin> set sch" "CHR '':'' \<notin> set sch"
    using assms(1) by (simp_all add: scheme_ok_def scheme_char_avoids)
  have keep: "filter (\<lambda>c. c \<notin> {CHR 9, CHR 10, CHR 13}) sch = sch" "filter (\<lambda>c. c \<notin> {CHR 9, CHR 10, CHR 13}) a = a"
    using chars assms(2) by (auto simp: filter_id_conv authority_ok_def)
  have "dropWhile (\<lambda>c. code c \<le> 32) (sch @ ''://'' @ a @ rest) = sch @ ''://'' @ a @ rest"
    using c by (auto simp: ascii_alpha_def)
  then have clean: "clean_url (sch @ ''://'' @ a @ rest) = sch @ CHR '':'' # ''//'' @ a @ ?rest"
    using keep by (simp add: clean_url_def)
  have split: "split_scheme (sch @ CHR '':'' # ''//'' @ a @ ?rest) = (map lower_char sch, ''//'' @ a @ ?rest)"
    using assms(1) by (simp add: split_scheme_def before_append [OF chars(4)] after_append [OF chars(4)] scheme_ok_def)
  have "?rest = [] \<or> hd ?rest \<in> set ''/?#''" using assms(3) by (cases rest) auto
  from split_netloc_authority [OF assms(2) this]
  show "pr_scheme p \<noteq> []" "pr_netloc p = a"
    using assms(4) c unfolding urlparse_def clean split by (auto simp: Let_def split: option.splits)
qed

text \<open>
  An absolute URL of a foreign host is never taken for a resource, whatever the case of its
  letters, its port, its user information (which may well be the name of a trusted host) and
  its path: parsing gives an unknown URL, or the error of an ill-formed host.
\<close>

theorem foreign_origin_unknown:
  assumes "scheme_ok sch" and "authority_ok a" and "rest = [] \<or> hd rest \<in> set ''/?#''"
    and "authority_host a \<notin> set trusted_hosts"
    and "parse_url bad_host (sch @ ''://'' @ a @ rest) = Inr r"
  shows "r = unknown_url False"
proof (cases "urlparse bad_host (sch @ ''://'' @ a @ rest)")
  case (Inr p)
  have p: "pr_scheme p \<noteq> []" "pr_netloc p = a" using urlparse_absolute [OF assms(1-3) Inr] by auto
  have "CHR ''['' \<notin> set a" using assms(2) by (simp add: authority_ok_def)
  then have "\<not> origin_allowed p"
    using lower_hostname [of p] p(2) assms(4) by (simp add: origin_allowed_def Let_def trusted_hosts_def allowed_hosts_def)
  with Inr p(1) assms(5) show ?thesis by (auto simp: parse_url_def split: if_splits)
qed (use assms(5) in \<open>auto simp: parse_url_def split: if_splits\<close>)

theorem foreign_origin_unknown_witness: "parse_url Some ''https://localhost@evil.example.com/projects'' = Inr (unknown_url False)"
proof -
  have ok: "scheme_ok ''https''" "authority_ok ''localhost@evil.example.com''"
    "authority_host ''localhost@evil.example.com'' \<notin> set trusted_hosts"
    by code_simp+
  have "parse_url Some ''https://localhost@evil.example.com/projects'' \<noteq> Inl x" for x by code_simp
  then obtain r where "parse_url Some (''https'' @ ''://'' @ ''localhost@evil.example.com'' @ ''/projects'') = Inr r"
    by (cases "parse_url Some ''https://localhost@evil.example.com/projects''") auto
  with foreign_origin_unknown [OF ok(1,2) _ ok(3) this] show ?thesis by simp
qed

text \<open>
  The check is bound to the scheme: a URL that starts with two slashes names a host as well, and
  is accepted from any.
\<close>

theorem scheme_relative_unchecked:
  "parse_url bad_host (''//evil.example.com/projects/'' @ demo_id) = Inr (project_url demo_id False)"
proof -
  let ?u = "''//evil.example.com/projects/'' @ demo_id"
  have "split_netloc ?u = (''evil.example.com'', ''/projects/'' @ demo_id)" by code_simp
  moreover have "clean_url ?u = ?u" "split_scheme ?u = ([], ?u)" "py_strip ?u \<noteq> []" by code_simp+
  moreover have "normalise_path (strip_params (''/projects/'' @ demo_id)) = Some [''projects'', demo_id]" by code_simp
  moreover have "before CHR ''#'' (''/projects/'' @ demo_id) = ''/projects/'' @ demo_id"
    "before CHR ''?'' (''/projects/'' @ demo_id) = ''/projects/'' @ demo_id" "after CHR ''?'' (''/projects/'' @ demo_id) = []"
    by code_simp+
  moreover have "netloc_error bad_host ''evil.example.com'' = None" by (simp add: netloc_error_def code_def)
  ultimately show ?thesis
    by (simp only: parse_url_def urlparse_def) (simp add: uses_params_def match_segments_def match_project_def)
qed

text \<open>Of the URLs without a resource, some are an error: brackets that do not match.\<close>

lemma unbalanced_bracket_raises: "parse_url bad_host ''http://['' = Inl (ValueError ''Invalid IPv6 URL'')"
proof -
  have "py_strip ''http://['' \<noteq> []" "clean_url ''http://['' = ''http://[''"
    "split_scheme ''http://['' = (''http'', ''//['')" "split_netloc ''//['' = (''['', [])"
    by code_simp+
  then show ?thesis by (simp add: parse_url_def urlparse_def netloc_error_def)
qed

end
