(* ===== verification/Py_Regex.thy ===== *)
theory Py_Regex
  imports Url_Contract
begin

text \<open>
  The regular expressions of Python's \<open>re\<close> that the backend uses: sequences of repeated character
  classes with word boundaries, the end of the text and marks for the borders of groups. The
  matcher backtracks in the order of \<open>re\<close> (longest repetition first, or shortest first for a lazy
  one), \<open>rx_sub\<close> and \<open>rx_finditer\<close> scan from the left and continue behind each match. No expression
  used here matches the empty text. The section on \<open>str\<close> prints the JSON values.
\<close>

section \<open>Matching\<close>

datatype rx_item =
    Rep "char \<Rightarrow> bool" nat "nat option" bool \<comment> \<open>class, least and greatest number, greedy\<close>
  | Boundary
  | Mark
  | Or_end "char \<Rightarrow> bool" \<comment> \<open>a character of the class, or the end of the text\<close>

type_synonym rx = "rx_item list"

definition word_char :: "char \<Rightarrow> bool" where
  "word_char c = (let n = code c in
     ascii_alpha c \<or> ascii_digit c \<or> c = CHR ''_'' \<or> n \<in> {170, 178, 179, 181, 185, 186, 188, 189, 190} \<or>
     (192 \<le> n \<and> n \<noteq> 215 \<and> n \<noteq> 247))"

definition word_at :: "string \<Rightarrow> bool" where
  "word_at s = (case s of [] \<Rightarrow> False | c # _ \<Rightarrow> word_char c)"

definition at_end :: "string \<Rightarrow> bool" where
  "at_end s = (s \<in> {[], [CHR 10]})"

fun first_some :: "('a \<Rightarrow> 'b option) \<Rightarrow> 'a list \<Rightarrow> 'b option" where
  "first_some f [] = None"
| "first_some f (x # xs) = (case f x of None \<Rightarrow> first_some f xs | Some y \<Rightarrow> Some y)"

text \<open>How often a class may repeat at the start of a text, in the order the matcher tries.\<close>

definition counts :: "(char \<Rightarrow> bool) \<Rightarrow> nat \<Rightarrow> nat option \<Rightarrow> bool \<Rightarrow> string \<Rightarrow> nat list" where
  "counts p lo hi greedy s =
     (let n = length (takeWhile p s); m = (case hi of None \<Rightarrow> n | Some h \<Rightarrow> min n h); ks = [lo..<Suc m]
      in if greedy then rev ks else ks)"

text \<open>
  \<open>rx_match r past rest marks\<close>: the text is \<open>rev past @ rest\<close>, and the match goes on at \<open>rest\<close>. The
  result is the text behind the match and the positions of the marks.
\<close>

primrec rx_match :: "rx \<Rightarrow> string \<Rightarrow> string \<Rightarrow> nat list \<Rightarrow> (string \<times> nat list) option" where
  "rx_match [] past rest marks = Some (rest, marks)"
| "rx_match (i # r) past rest marks =
     (case i of
        Rep p lo hi greedy \<Rightarrow>
          first_some (\<lambda>k. rx_match r (rev (take k rest) @ past) (drop k rest) marks) (counts p lo hi greedy rest)
      | Boundary \<Rightarrow> if word_at past \<noteq> word_at rest then rx_match r past rest marks else None
      | Mark \<Rightarrow> rx_match r past rest (marks @ [length past])
      | Or_end p \<Rightarrow>
          (case (if rest \<noteq> [] \<and> p (hd rest) then rx_match r (hd rest # past) (tl rest) marks else None) of
             Some x \<Rightarrow> Some x
           | None \<Rightarrow> if at_end rest then rx_match r past rest marks else None))"

lemma first_some_SomeD: "first_some f xs = Some y \<Longrightarrow> \<exists>x \<in> set xs. f x = Some y"
  by (induction xs) (auto split: option.splits)

lemma rx_match_length: "rx_match r past rest marks = Some (rest', marks') \<Longrightarrow> length rest' \<le> length rest"
proof (induction r arbitrary: past rest marks)
  case (Cons i r)
  then show ?case
    by (cases i) (fastforce dest!: first_some_SomeD split: if_splits option.splits)+
qed simp

text \<open>The group between two marks, in the whole text.\<close>

definition slice :: "string \<Rightarrow> nat \<Rightarrow> nat \<Rightarrow> string" where
  "slice s a b = drop a (take b s)"

text \<open>All matches from the left: the text before a match, its groups, and what follows the last.\<close>

function rx_scan :: "rx \<Rightarrow> string \<Rightarrow> string \<Rightarrow> string \<Rightarrow> (string \<times> string list) list \<times> string" where
  "rx_scan r past gap [] = ([], rev gap)"
| "rx_scan r past gap (c # s) =
     (case rx_match r past (c # s) [] of
        Some (rest, marks) \<Rightarrow>
          if length rest < length (c # s) then
            let taken = take (length (c # s) - length rest) (c # s); text = rev past @ taken;
                groups = map (\<lambda>i. slice text (marks ! i) (marks ! Suc i)) [i \<leftarrow> [0..<length marks - 1]. even i];
                (ms, tl) = rx_scan r (rev text) [] rest
            in ((rev gap, groups) # ms, tl)
          else rx_scan r (c # past) (c # gap) s
      | None \<Rightarrow> rx_scan r (c # past) (c # gap) s)"
  by pat_completeness auto
termination by (relation "measure (\<lambda>(r, past, gap, s). length s)") auto

definition rx_sub :: "rx \<Rightarrow> (string list \<Rightarrow> string) \<Rightarrow> string \<Rightarrow> string" where
  "rx_sub r repl s = (let (ms, tl) = rx_scan r [] [] s in concat (map (\<lambda>(g, gs). g @ repl gs) ms) @ tl)"

definition rx_finditer :: "rx \<Rightarrow> string \<Rightarrow> string list list" where
  "rx_finditer r s = map snd (fst (rx_scan r [] [] s))"

section \<open>Building expressions\<close>

definition one :: "(char \<Rightarrow> bool) \<Rightarrow> rx" where "one p = [Rep p 1 (Some 1) True]"
definition some :: "(char \<Rightarrow> bool) \<Rightarrow> rx" where "some p = [Rep p 1 None True]"
definition many :: "(char \<Rightarrow> bool) \<Rightarrow> rx" where "many p = [Rep p 0 None True]"
definition at_least :: "nat \<Rightarrow> (char \<Rightarrow> bool) \<Rightarrow> rx" where "at_least n p = [Rep p n None True]"
definition exactly :: "nat \<Rightarrow> (char \<Rightarrow> bool) \<Rightarrow> rx" where "exactly n p = [Rep p n (Some n) True]"
definition lit :: "string \<Rightarrow> rx" where "lit s = concat (map (\<lambda>c. one (\<lambda>x. x = c)) s)"
definition lit_i :: "string \<Rightarrow> rx" where "lit_i s = concat (map (\<lambda>c. one (\<lambda>x. lower_char x = lower_char c)) s)"
definition group :: "rx \<Rightarrow> rx" where "group r = [Mark] @ r @ [Mark]"

definition any_of :: "string \<Rightarrow> char \<Rightarrow> bool" where "any_of s c = (c \<in> set s)"
definition alnum :: "char \<Rightarrow> bool" where "alnum c = (ascii_alpha c \<or> ascii_digit c)"

section \<open>Numbers and values as text\<close>

fun dec :: "nat \<Rightarrow> string" where
  "dec n = (if n < 10 then [hex_digit n] else dec (n div 10) @ [hex_digit (n mod 10)])"

declare dec.simps [simp del]

definition str_int :: "int \<Rightarrow> string" where
  "str_int i = (if i < 0 then CHR ''-'' # dec (nat (- i)) else dec (nat i))"

text \<open>\<open>repr\<close> and \<open>str\<close> of a parsed JSON value. No such value is a \<open>JTime\<close>.\<close>

fun jrepr :: "json \<Rightarrow> string" where
  "jrepr JNull = ''None''"
| "jrepr (JBool b) = str_bool b"
| "jrepr (JInt i) = str_int i"
| "jrepr (JFloat s) = s"
| "jrepr (JStr s) = py_repr s"
| "jrepr (JTime t) = []"
| "jrepr (JList js) = ''['' @ join_with '', '' (map jrepr js) @ '']''"
| "jrepr (JObj kvs) = ''{'' @ join_with '', '' (map (\<lambda>(k, v). py_repr k @ '': '' @ jrepr v) kvs) @ ''}''"

definition jstr :: "json \<Rightarrow> string" where
  "jstr j = (case j of JStr s \<Rightarrow> s | _ \<Rightarrow> jrepr j)"

end
