(* ===== verification/Error_Scrub.thy ===== *)
theory Error_Scrub
  imports Py_Regex
begin

text \<open>
  The scrubber of the error tracker (services/error_tracker/scrubber.py): it removes personal
  data and secrets from an event before the event is grouped or stored. Its rules are the
  regular expressions of the source, run by the matcher of \<open>Py_Regex\<close>. Whatever the event, no
  value below a sensitive key survives, at any depth, and no sensitive query parameter.
\<close>

section \<open>Rules\<close>

definition FILTERED :: string where
  "FILTERED = ''[filtered]''"

definition not_newline :: "char \<Rightarrow> bool" where
  "not_newline c = (c \<noteq> CHR 10)"

definition key_is :: "string \<Rightarrow> string \<Rightarrow> bool" where
  "key_is name key = (case rx_match (lit_i name) [] key [] of None \<Rightarrow> False | Some (rest, _) \<Rightarrow> at_end rest)"

definition key_has :: "rx \<Rightarrow> string \<Rightarrow> bool" where
  "key_has r key = (rx_match (many not_newline @ r @ many not_newline) [] key [] \<noteq> None)"

definition opt_dash :: rx where
  "opt_dash = [Rep (any_of ''_-'') 0 (Some 1) True]"

definition is_sensitive_key :: "string \<Rightarrow> bool" where
  "is_sensitive_key key =
     (list_ex (\<lambda>name. key_is name key)
        [''authorization'', ''cookie'', ''set-cookie'', ''x-api-key'', ''x-auth-token'', ''x-csrf-token''] \<or>
      list_ex (\<lambda>r. key_has r key)
        [lit_i ''password'', lit_i ''secret'', lit_i ''token'', lit_i ''api'' @ opt_dash @ lit_i ''key'',
         lit_i ''credential'', lit_i ''session'' @ opt_dash @ lit_i ''id''])"

definition token_char :: "char \<Rightarrow> bool" where
  "token_char c = (alnum c \<or> c \<in> set ''_-'')"

definition bearer_rx :: rx where
  "bearer_rx = lit_i ''Bearer'' @ some py_space @ some (\<lambda>c. alnum c \<or> c \<in> set ''._-'')"

definition jwt_rx :: rx where
  "jwt_rx = [Boundary] @ lit ''eyJ'' @ at_least 8 token_char @ lit ''.'' @ at_least 8 token_char @ lit ''.'' @
     at_least 8 token_char @ [Boundary]"

definition stripe_rx :: rx where
  "stripe_rx = [Boundary] @ lit ''sk_live_'' @ at_least 16 alnum @ [Boundary]"

definition aws_rx :: rx where
  "aws_rx = [Boundary] @ lit ''AKIA'' @ exactly 16 (\<lambda>c. ascii_digit c \<or> 65 \<le> code c \<and> code c \<le> 90) @ [Boundary]"

definition email_rx :: rx where
  "email_rx = [Boundary] @ group (one alnum) @ many (\<lambda>c. alnum c \<or> c \<in> set ''._%+-'') @ lit ''@'' @
     group (some (\<lambda>c. alnum c \<or> c \<in> set ''.-'') @ lit ''.'' @ at_least 2 ascii_alpha) @ [Boundary]"

definition value_substitutions :: "(rx \<times> (string list \<Rightarrow> string)) list" where
  "value_substitutions =
     [(bearer_rx, \<lambda>_. ''Bearer [filtered]''), (jwt_rx, \<lambda>_. ''[filtered-jwt]''), (stripe_rx, \<lambda>_. ''[filtered-stripe]''),
      (aws_rx, \<lambda>_. ''[filtered-aws]''), (email_rx, \<lambda>g. g ! 0 @ ''***@'' @ g ! 1)]"

definition qs_sensitive_params :: "string list" where
  "qs_sensitive_params = [''token'', ''access_token'', ''id_token'', ''refresh_token'', ''api_key'', ''apikey'', ''secret'',
     ''password'', ''jwt'', ''auth'', ''authorization'']"

section \<open>Scrubbing\<close>

definition scrub_str :: "string \<Rightarrow> string" where
  "scrub_str s = fold (\<lambda>(r, repl). rx_sub r repl) value_substitutions s"

definition scrub_pair :: "string \<Rightarrow> string" where
  "scrub_pair pair =
     (if CHR ''='' \<in> set pair then
        let k = before CHR ''='' pair; v = after CHR ''='' pair
        in if map lower_char k \<in> set qs_sensitive_params then k @ ''='' @ FILTERED else k @ ''='' @ scrub_str v
      else pair)"

definition scrub_qs :: "string \<Rightarrow> string" where
  "scrub_qs qs =
     (if CHR ''='' \<notin> set qs \<and> CHR ''&'' \<notin> set qs then qs
      else join_with ''&'' (map scrub_pair (split_on CHR ''&'' qs)))"

definition scrub_url :: "string \<Rightarrow> string" where
  "scrub_url u =
     (if CHR ''?'' \<notin> set u then scrub_str u
      else let base = before CHR ''?'' u; qs = after CHR ''?'' u; fragment = after CHR ''#'' qs
           in base @ ''?'' @ scrub_qs (before CHR ''#'' qs) @ (if fragment = [] then [] else ''#'' @ fragment))"

definition vars_key :: "string \<Rightarrow> bool" where
  "vars_key k = (map lower_char k = ''vars'')"

text \<open>One entry of a dictionary, with the scrubbed value at hand.\<close>

definition scrub_entry :: "string \<Rightarrow> json \<Rightarrow> json \<Rightarrow> json" where
  "scrub_entry k v scrubbed =
     (let lower = map lower_char k in
      if is_sensitive_key k then JStr FILTERED
      else if vars_key k then JNull
      else case v of
             JStr s \<Rightarrow> if lower = ''query_string'' then JStr (scrub_qs s)
                       else if lower = ''url'' then JStr (scrub_url s) else scrubbed
           | _ \<Rightarrow> scrubbed)"

fun scrub_obj :: "json \<Rightarrow> json" where
  "scrub_obj (JObj kvs) = JObj (map (\<lambda>(k, v). (k, scrub_entry k v (scrub_obj v))) kvs)"
| "scrub_obj (JList js) = JList (map scrub_obj js)"
| "scrub_obj (JStr s) = JStr (scrub_str s)"
| "scrub_obj j = j"

text \<open>\<open>user[k] = v\<close> on a dictionary that has the key, and \<open>user.pop(k, None)\<close>.\<close>

definition dict_pop :: "string \<Rightarrow> jdict \<Rightarrow> jdict" where
  "dict_pop k kvs = filter (\<lambda>(k', _). k' \<noteq> k) kvs"

definition dict_set :: "string \<Rightarrow> json \<Rightarrow> jdict \<Rightarrow> jdict" where
  "dict_set k v kvs = map (\<lambda>(k', v'). (k', if k' = k then v else v')) kvs"

definition scrub_user :: "bool \<Rightarrow> jdict \<Rightarrow> jdict" where
  "scrub_user scrub_ip user0 =
     (let user = (if scrub_ip then dict_pop ''ip_address'' (dict_pop ''ip'' user0) else user0)
      in case map_of user ''email'' of
           Some (JStr email) \<Rightarrow>
             if CHR ''@'' \<in> set email then dict_set ''email'' (JStr (scrub_str email)) user else user
         | _ \<Rightarrow> user)"

definition scrub_dict :: "jdict \<Rightarrow> jdict" where
  "scrub_dict kvs = map (\<lambda>(k, v). (k, scrub_entry k v (scrub_obj v))) kvs"

definition scrub_event :: "bool \<Rightarrow> jdict \<Rightarrow> jdict" where
  "scrub_event scrub_ip event =
     (let scrubbed = scrub_dict event
      in case map_of scrubbed ''user'' of
           Some (JObj user) \<Rightarrow> dict_set ''user'' (JObj (scrub_user scrub_ip user)) scrubbed
         | _ \<Rightarrow> scrubbed)"

section \<open>Substitution adds no delimiter\<close>

lemma rx_match_suffix: "rx_match r past rest marks = Some (rest', marks') \<Longrightarrow> \<exists>k. rest' = drop k rest"
proof (induction r arbitrary: past rest marks)
  case Nil
  then show ?case by (auto intro: exI [of _ 0])
next
  case (Cons i r)
  have step: "\<exists>k. rest' = drop k rest" if "rx_match r p (drop n rest) ms = Some (rest', marks')" for p n ms
    using Cons.IH [OF that] by (metis drop_drop)
  show ?case
  proof (cases i)
    case (Or_end p)
    with Cons.prems show ?thesis
      using step [of _ 1] step [of _ 0] by (auto simp: drop_Suc split: if_splits option.splits)
  qed (use Cons.prems step [of _ 0] in \<open>auto dest!: first_some_SomeD step split: if_splits\<close>)
qed

lemma rx_match_marks:
  "rx_match r past rest marks = Some (rest', marks') \<Longrightarrow>
   length marks' = length marks + length (filter (\<lambda>i. i = Mark) r)"
proof (induction r arbitrary: past rest marks)
  case (Cons i r)
  then show ?case
    by (cases i) (fastforce dest!: first_some_SomeD split: if_splits option.splits)+
qed simp

text \<open>The pieces a scan returns: they are made of characters of the text, and every match has all its groups.\<close>

definition marks_of :: "rx \<Rightarrow> nat" where
  "marks_of r = length (filter (\<lambda>i. i = Mark) r)"

definition piece_ok :: "rx \<Rightarrow> char set \<Rightarrow> char set \<Rightarrow> string \<times> string list \<Rightarrow> bool" where
  "piece_ok r A B m = (set (fst m) \<subseteq> A \<and> (\<forall>x \<in> set (snd m). set x \<subseteq> B) \<and>
     length (snd m) = length [i \<leftarrow> [0..<marks_of r - 1]. even i])"

lemma piece_ok_mono: "piece_ok r A B m \<Longrightarrow> A \<subseteq> A' \<Longrightarrow> B \<subseteq> B' \<Longrightarrow> piece_ok r A' B' m"
  unfolding piece_ok_def by blast

lemma set_slice: "set (slice t a b) \<subseteq> set t"
  by (auto simp: slice_def dest: in_set_dropD in_set_takeD)

lemma rx_scan_pieces:
  "(\<forall>m \<in> set (fst (rx_scan r past gap s)). piece_ok r (set gap \<union> set s) (set past \<union> set s) m) \<and>
   set (snd (rx_scan r past gap s)) \<subseteq> set gap \<union> set s"
proof (induction r past gap s rule: rx_scan.induct)
  case (2 r past gap c s)
  have skip: ?case if "rx_scan r past gap (c # s) = rx_scan r (c # past) (c # gap) s"
    "(\<forall>m \<in> set (fst (rx_scan r (c # past) (c # gap) s)). piece_ok r (set (c # gap) \<union> set s) (set (c # past) \<union> set s) m) \<and>
     set (snd (rx_scan r (c # past) (c # gap) s)) \<subseteq> set (c # gap) \<union> set s"
    using that by simp
  show ?case
  proof (cases "rx_match r past (c # s) []")
    case None
    then show ?thesis using 2(1) [OF None] by (intro skip) simp_all
  next
    case (Some m)
    obtain rest marks where m: "m = (rest, marks)" by (cases m)
    note Some = Some [unfolded m]
    show ?thesis
    proof (cases "length rest < length (c # s)")
      case False
      then show ?thesis using 2(3) [OF Some refl False] Some by (intro skip) simp_all
    next
      case True
      let ?taken = "take (length (c # s) - length rest) (c # s)"
      let ?text = "rev past @ ?taken"
      let ?gs = "map (\<lambda>i. slice ?text (marks ! i) (marks ! Suc i)) [i \<leftarrow> [0..<length marks - 1]. even i]"
      have eq: "rx_scan r past gap (c # s) =
          ((rev gap, ?gs) # fst (rx_scan r (rev ?text) [] rest), snd (rx_scan r (rev ?text) [] rest))"
        using Some True by (simp add: split_beta Let_def)
      have chars: "set ?text \<subseteq> set past \<union> set (c # s)" by (auto dest: in_set_takeD simp del: take_Suc_Cons)
      have rest: "set rest \<subseteq> set (c # s)" using rx_match_suffix [OF Some] by (auto dest: in_set_dropD simp del: drop_Suc_Cons)
      have first: "piece_ok r (set gap \<union> set (c # s)) (set past \<union> set (c # s)) (rev gap, ?gs)"
        using chars rx_match_marks [OF Some] set_slice by (fastforce simp: piece_ok_def marks_of_def)
      have "(\<forall>m \<in> set (fst (rx_scan r (rev ?text) [] rest)). piece_ok r (set [] \<union> set rest) (set (rev ?text) \<union> set rest) m) \<and>
          set (snd (rx_scan r (rev ?text) [] rest)) \<subseteq> set [] \<union> set rest"
        by (rule 2(2) [OF Some refl True refl refl refl])
      then show ?thesis unfolding eq using first chars rest by (auto intro: piece_ok_mono)
    qed
  qed
qed simp

lemma set_rx_sub:
  assumes "\<And>gs. (\<forall>g \<in> set gs. set g \<subseteq> set s) \<Longrightarrow> length gs = length [i \<leftarrow> [0..<marks_of r - 1]. even i] \<Longrightarrow>
    set (repl gs) \<subseteq> set s \<union> L"
  shows "set (rx_sub r repl s) \<subseteq> set s \<union> L"
proof -
  obtain ms rest where scan: "rx_scan r [] [] s = (ms, rest)" by (cases "rx_scan r [] [] s")
  have "set (fst m @ repl (snd m)) \<subseteq> set s \<union> L" if "m \<in> set ms" for m
  proof -
    have "piece_ok r (set s) (set s) m" using rx_scan_pieces [of r "[]" "[]" s] that scan by simp
    then show ?thesis using assms [of "snd m"] unfolding piece_ok_def by auto
  qed
  moreover have "set rest \<subseteq> set s" using rx_scan_pieces [of r "[]" "[]" s] scan by simp
  ultimately show ?thesis by (fastforce simp: rx_sub_def scan)
qed

text \<open>The characters that the replacements bring in.\<close>

definition replacement_chars :: string where
  "replacement_chars = ''Bearer [filtered-jwtstripeaws]***@''"

lemma marks_email: "marks_of email_rx = 4"
  by (simp add: marks_of_def email_rx_def group_def one_def some_def many_def at_least_def lit_def)

lemma two_groups: "length [i \<leftarrow> [0..<4 - 1]. even (i::nat)] = 2"
  by (simp add: upt_rec)

lemma set_email_sub: "set (rx_sub email_rx (\<lambda>g. g ! 0 @ ''***@'' @ g ! 1) s) \<subseteq> set s \<union> set replacement_chars"
proof (rule set_rx_sub)
  fix gs :: "string list"
  assume g: "\<forall>g \<in> set gs. set g \<subseteq> set s" and "length gs = length [i \<leftarrow> [0..<marks_of email_rx - 1]. even i]"
  then have "gs ! 0 \<in> set gs" "gs ! 1 \<in> set gs" by (simp_all only: marks_email two_groups) auto
  with g show "set (gs ! 0 @ ''***@'' @ gs ! 1) \<subseteq> set s \<union> set replacement_chars"
    by (auto simp: replacement_chars_def)
qed

lemma set_const_sub: "set t \<subseteq> L \<Longrightarrow> set (rx_sub r (\<lambda>_. t) s) \<subseteq> set s \<union> L"
  by (rule set_rx_sub) auto

lemma set_scrub_str: "set (scrub_str s) \<subseteq> set s \<union> set replacement_chars"
proof -
  define L where "L = set replacement_chars"
  have words: "set ''Bearer [filtered]'' \<subseteq> L" "set ''[filtered-jwt]'' \<subseteq> L" "set ''[filtered-stripe]'' \<subseteq> L"
    "set ''[filtered-aws]'' \<subseteq> L"
    unfolding L_def replacement_chars_def by simp_all
  define a where "a = rx_sub bearer_rx (\<lambda>_. ''Bearer [filtered]'') s"
  define b where "b = rx_sub jwt_rx (\<lambda>_. ''[filtered-jwt]'') a"
  define c where "c = rx_sub stripe_rx (\<lambda>_. ''[filtered-stripe]'') b"
  define d where "d = rx_sub aws_rx (\<lambda>_. ''[filtered-aws]'') c"
  have "set a \<subseteq> set s \<union> L" unfolding a_def by (rule set_const_sub [OF words(1)])
  moreover have "set b \<subseteq> set a \<union> L" unfolding b_def by (rule set_const_sub [OF words(2)])
  moreover have "set c \<subseteq> set b \<union> L" unfolding c_def by (rule set_const_sub [OF words(3)])
  moreover have "set d \<subseteq> set c \<union> L" unfolding d_def by (rule set_const_sub [OF words(4)])
  moreover have "scrub_str s = rx_sub email_rx (\<lambda>g. g ! 0 @ ''***@'' @ g ! 1) d"
    by (simp add: scrub_str_def value_substitutions_def a_def b_def c_def d_def)
  ultimately show ?thesis using set_email_sub [of d] unfolding L_def by (simp only:) blast
qed

lemma scrub_str_no_amp: "CHR ''&'' \<notin> set s \<Longrightarrow> CHR ''&'' \<notin> set (scrub_str s)"
  using set_scrub_str [of s] by (auto simp: replacement_chars_def)

section \<open>Query strings\<close>

lemma scrub_pair_no_amp:
  assumes "CHR ''&'' \<notin> set p"
  shows "CHR ''&'' \<notin> set (scrub_pair p)"
proof -
  have "CHR ''&'' \<notin> set (before CHR ''='' p)" "CHR ''&'' \<notin> set (after CHR ''='' p)"
    using assms set_before set_after by blast+
  then show ?thesis using assms scrub_str_no_amp by (simp add: scrub_pair_def Let_def FILTERED_def)
qed

lemma split_scrub_qs: "split_on CHR ''&'' (scrub_qs qs) = map scrub_pair (split_on CHR ''&'' qs)"
proof (cases "CHR ''='' \<notin> set qs \<and> CHR ''&'' \<notin> set qs")
  case True
  then show ?thesis by (simp add: scrub_qs_def split_on_no_sep scrub_pair_def)
next
  case False
  then have "scrub_qs qs = join_with ''&'' (map scrub_pair (split_on CHR ''&'' qs))" by (auto simp: scrub_qs_def)
  moreover have "split_on CHR ''&'' (join_with ''&'' (map scrub_pair (split_on CHR ''&'' qs))) =
      map scrub_pair (split_on CHR ''&'' qs)"
    by (rule split_join) (use split_on_clean scrub_pair_no_amp in \<open>simp, fastforce\<close>)
  ultimately show ?thesis by simp
qed

lemma scrub_pair_filtered:
  assumes "CHR ''='' \<in> set (scrub_pair p)" and "map lower_char (before CHR ''='' (scrub_pair p)) \<in> set qs_sensitive_params"
  shows "after CHR ''='' (scrub_pair p) = FILTERED"
proof -
  have no: "CHR ''='' \<notin> set (before CHR ''='' p)" by (auto dest: set_before)
  show ?thesis
    using assms before_append [OF no] after_append [OF no] by (auto simp: scrub_pair_def Let_def split: if_splits)
qed

text \<open>
  A scrubbed query string has the parameters of the original, in their order, and each
  parameter with a sensitive name (in any case of its letters) carries the value
  \<open>[filtered]\<close>.
\<close>

theorem scrub_qs_filters:
  "length (split_on CHR ''&'' (scrub_qs qs)) = length (split_on CHR ''&'' qs) \<and>
   (\<forall>p \<in> set (split_on CHR ''&'' (scrub_qs qs)).
      CHR ''='' \<in> set p \<longrightarrow> map lower_char (before CHR ''='' p) \<in> set qs_sensitive_params \<longrightarrow> after CHR ''='' p = FILTERED)"
  by (auto simp: split_scrub_qs intro: scrub_pair_filtered)

theorem scrub_qs_filters_witness:
  "after CHR ''='' ''Token=[filtered]'' = FILTERED"
proof -
  have "''Token=[filtered]'' \<in> set (split_on CHR ''&'' (scrub_qs ''a=1&Token=xyz''))" by code_simp
  moreover have "CHR ''='' \<in> set ''Token=[filtered]''" "map lower_char (before CHR ''='' ''Token=[filtered]'') \<in> set qs_sensitive_params"
    by code_simp+
  ultimately show ?thesis using scrub_qs_filters [of "''a=1&Token=xyz''"] by blast
qed

section \<open>Names of secrets\<close>

text \<open>
  What counts as the name of a secret, without reference to the expressions of the code: a header
  that carries credentials, or a name with a telling word in it (in its first line), in any letter
  case. They include what docs/error-tracker/README.md lists in section 5.
\<close>

definition secret_headers :: "string list" where
  "secret_headers = [''authorization'', ''cookie'', ''set-cookie'', ''x-api-key'', ''x-auth-token'', ''x-csrf-token'']"

definition secret_words :: "string list" where
  "secret_words = [''password'', ''secret'', ''token'', ''credential''] @
     map (\<lambda>sep. ''api'' @ sep @ ''key'') [[], ''_'', ''-''] @ map (\<lambda>sep. ''session'' @ sep @ ''id'') [[], ''_'', ''-'']"

definition secret_name :: "string \<Rightarrow> bool" where
  "secret_name key \<longleftrightarrow> map lower_char key \<in> set secret_headers \<or>
     (\<exists>a w b. key = a @ w @ b \<and> CHR 10 \<notin> set a \<and> map lower_char w \<in> set secret_words)"

lemma first_some_None: "first_some f xs = None \<longleftrightarrow> (\<forall>x \<in> set xs. f x = None)"
  by (induction xs) (auto split: option.splits)

lemma rep_match:
  assumes "list_all p a" and "lo \<le> length a" and "case hi of None \<Rightarrow> True | Some h \<Rightarrow> length a \<le> h"
    and "rx_match r (rev a @ past) b marks \<noteq> None"
  shows "rx_match (Rep p lo hi greedy # r) past (a @ b) marks \<noteq> None"
proof -
  have "length a \<le> length (takeWhile p (a @ b))" using assms(1) by (simp add: list_all_iff takeWhile_append2)
  then have "length a \<in> set (counts p lo hi greedy (a @ b))"
    using assms(2,3) by (auto simp: counts_def Let_def less_Suc_eq_le split: option.splits)
  then show ?thesis using assms(4) by (auto simp: first_some_None intro!: bexI [of _ "length a"])
qed

lemma lit_i_match:
  "map lower_char w = map lower_char l \<Longrightarrow> rx_match (lit_i l @ r) past (w @ b) marks = rx_match r (rev w @ past) b marks"
proof (induction l arbitrary: w past)
  case (Cons c l)
  then obtain d v where "w = d # v" "lower_char d = lower_char c" "map lower_char v = map lower_char l" by (cases w) auto
  with Cons.IH [of v "d # past"] show ?case
    by (simp add: lit_i_def one_def counts_def split: option.split)
qed (simp add: lit_i_def)

lemma key_has_match:
  assumes "CHR 10 \<notin> set a" and "\<And>r past. (\<And>past. rx_match r past b [] \<noteq> None) \<Longrightarrow> rx_match (m @ r) past (w @ b) [] \<noteq> None"
  shows "key_has m (a @ w @ b)"
proof -
  have tail: "rx_match (many not_newline) past b [] \<noteq> None" for past
    using rep_match [of not_newline "[]" 0 None "[]" past b "[]" True] by (simp add: many_def)
  have "rx_match (Rep not_newline 0 None True # m @ many not_newline) [] (a @ w @ b) [] \<noteq> None"
    using assms(1) assms(2) [OF tail] by (intro rep_match) (auto simp: not_newline_def list_all_iff)
  then show ?thesis by (simp add: key_has_def many_def)
qed

lemma word_match:
  "map lower_char w = map lower_char l \<Longrightarrow> CHR 10 \<notin> set a \<Longrightarrow> key_has (lit_i l) (a @ w @ b)"
  by (rule key_has_match) (simp_all add: lit_i_match)

lemma lower_dash: "lower_char c \<in> set ''_-'' \<Longrightarrow> c \<in> set ''_-''"
proof -
  have "\<forall>n \<in> set [65..<91]. (char_of (n + 32) :: char) \<notin> set ''_-''" by code_simp
  moreover have "code c \<in> set [65..<91]" if "65 \<le> code c" "code c \<le> 90" using that unfolding set_upt by simp
  ultimately show "lower_char c \<in> set ''_-'' \<Longrightarrow> c \<in> set ''_-''" unfolding lower_char_def by (metis (full_types))
qed

lemma dashed_match:
  assumes "map lower_char w = map lower_char l @ sep @ map lower_char l'" and "sep \<in> {[], ''_'', ''-''}" and "CHR 10 \<notin> set a"
  shows "key_has (lit_i l @ opt_dash @ lit_i l') (a @ w @ b)"
proof -
  from assms(1) obtain u v where 1: "w = u @ v" "map lower_char u = map lower_char l" "map lower_char v = sep @ map lower_char l'"
    by (metis map_eq_append_conv)
  from 1(3) obtain d x where 2: "v = d @ x" "map lower_char d = sep" "map lower_char x = map lower_char l'"
    by (metis map_eq_append_conv)
  have d: "list_all (any_of ''_-'') d \<and> length d \<le> 1" using 2(2) assms(2) lower_dash by (auto simp: any_of_def)
  show ?thesis
  proof (rule key_has_match [OF assms(3)])
    fix r :: rx and past assume r: "\<And>past. rx_match r past b [] \<noteq> None"
    have "rx_match (opt_dash @ lit_i l' @ r) (rev u @ past) (d @ x @ b) [] \<noteq> None"
      unfolding opt_dash_def using d lit_i_match [OF 2(3)] r by (simp only: append_Cons append_Nil) (intro rep_match, simp_all)
    then show "rx_match ((lit_i l @ opt_dash @ lit_i l') @ r) past (w @ b) [] \<noteq> None"
      using lit_i_match [OF 1(2), of "opt_dash @ lit_i l' @ r" past "d @ x @ b"] by (simp add: 1(1) 2(1))
  qed
qed

lemma key_is_match: "map lower_char key = map lower_char name \<Longrightarrow> key_is name key"
  using lit_i_match [of key name "[]" "[]" "[]" "[]"] by (simp add: key_is_def at_end_def)

text \<open>The expressions of the code find every name of a secret.\<close>

lemma secret_sensitive: "secret_name key \<Longrightarrow> is_sensitive_key key"
proof -
  have lower: "map lower_char w = w" if "w \<in> set (secret_headers @ secret_words)" for w
    using that by (auto simp: secret_headers_def secret_words_def lower_char_def code_def)
  have word: "is_sensitive_key (a @ w @ b)" if "map lower_char w \<in> set secret_words" "CHR 10 \<notin> set a" for a w b
  proof -
    define v where "v = map lower_char w"
    have v: "v \<in> set secret_words" using that(1) by (simp add: v_def)
    have plain: "key_has (lit_i l) (a @ w @ b)" if "v = l" "l \<in> set secret_words" for l
      using that lower [of l] word_match [of w l a b] \<open>CHR 10 \<notin> set a\<close> by (simp add: v_def)
    have dashed: "key_has (lit_i l @ opt_dash @ lit_i l') (a @ w @ b)"
      if "v = l @ sep @ l'" "sep \<in> set [[], ''_'', ''-'']" "map lower_char l = l" "map lower_char l' = l'" for l sep l'
      using that dashed_match [of w l sep l' a b] \<open>CHR 10 \<notin> set a\<close> by (simp add: v_def)
    have parts: "map lower_char ''api'' = ''api''" "map lower_char ''key'' = ''key''" "map lower_char ''session'' = ''session''" "map lower_char ''id'' = ''id''"
      by (simp_all add: lower_char_def code_def)
    have has: "is_sensitive_key (a @ w @ b)"
      if "key_has m (a @ w @ b)" "m \<in> set [lit_i ''password'', lit_i ''secret'', lit_i ''token'', lit_i ''api'' @ opt_dash @ lit_i ''key'',
         lit_i ''credential'', lit_i ''session'' @ opt_dash @ lit_i ''id'']" for m
      using that unfolding is_sensitive_key_def list_ex_iff by blast
    have "v \<in> set [''password'', ''secret'', ''token'', ''credential''] \<or> v \<in> (\<lambda>sep. ''api'' @ sep @ ''key'') ` set [[], ''_'', ''-''] \<or>
        v \<in> (\<lambda>sep. ''session'' @ sep @ ''id'') ` set [[], ''_'', ''-'']"
      using v unfolding secret_words_def set_append set_map Un_iff .
    then consider "v \<in> set [''password'', ''secret'', ''token'', ''credential'']"
      | sep where "v = ''api'' @ sep @ ''key''" "sep \<in> set [[], ''_'', ''-'']" | sep where "v = ''session'' @ sep @ ''id''" "sep \<in> set [[], ''_'', ''-'']"
      by (elim disjE imageE)
    then show ?thesis
    proof cases
      case 1
      then have "lit_i v \<in> lit_i ` set [''password'', ''secret'', ''token'', ''credential'']" by (rule imageI)
      then show ?thesis by (intro has [OF plain [OF refl v]]) (simp only: list.set image_insert image_empty insert_iff empty_iff, argo)
    next
      case (2 sep)
      then show ?thesis by (intro has [OF dashed [OF 2 parts(1,2)]]) simp
    next
      case (3 sep)
      then show ?thesis by (intro has [OF dashed [OF 3 parts(3,4)]]) simp
    qed
  qed
  have header: "is_sensitive_key key" if "map lower_char key \<in> set secret_headers"
    using that lower [of "map lower_char key"] key_is_match [of key "map lower_char key"]
    unfolding is_sensitive_key_def secret_headers_def by auto
  show "secret_name key \<Longrightarrow> is_sensitive_key key" using word header unfolding secret_name_def by blast
qed

section \<open>Events\<close>

text \<open>
  A clean value: in every dictionary, at any depth, the name of a secret has the value \<open>[filtered]\<close>
  and a block of local variables is dropped.
\<close>

fun clean :: "json \<Rightarrow> bool" where
  "clean (JObj kvs) = list_all (\<lambda>(k, v). clean v \<and> (secret_name k \<longrightarrow> v = JStr FILTERED) \<and>
     (vars_key k \<longrightarrow> v \<in> {JNull, JStr FILTERED})) kvs"
| "clean (JList js) = list_all clean js"
| "clean j = True"

lemma clean_entry: "clean scrubbed \<Longrightarrow> clean (scrub_entry k v scrubbed)"
  by (simp add: scrub_entry_def Let_def split: json.splits)

lemma clean_scrub_obj: "clean (scrub_obj j)"
proof (induction j rule: scrub_obj.induct)
  case (1 kvs)
  have "clean (scrub_entry k v (scrub_obj v)) \<and> (secret_name k \<longrightarrow> scrub_entry k v (scrub_obj v) = JStr FILTERED) \<and>
      (vars_key k \<longrightarrow> scrub_entry k v (scrub_obj v) \<in> {JNull, JStr FILTERED})" if "(k, v) \<in> set kvs" for k v
    using 1 [OF that refl] clean_entry secret_sensitive by (auto simp: scrub_entry_def Let_def)
  then show ?case by (auto simp: list_all_iff)
qed (auto simp: list_all_iff)

lemma clean_scrub_dict: "clean (JObj (scrub_dict kvs))"
  using clean_scrub_obj [of "JObj kvs"] by (simp add: scrub_dict_def)

lemma clean_pop: "clean (JObj kvs) \<Longrightarrow> clean (JObj (dict_pop k kvs))"
  by (auto simp: dict_pop_def list_all_iff)

lemma clean_set:
  "clean (JObj kvs) \<Longrightarrow> clean v \<Longrightarrow> \<not> is_sensitive_key k \<Longrightarrow> \<not> vars_key k \<Longrightarrow> clean (JObj (dict_set k v kvs))"
  using secret_sensitive [of k] by (cases "secret_name k", blast, thin_tac "_ \<Longrightarrow> _") (fastforce simp: dict_set_def list_all_iff)

lemma plain_keys: "\<not> is_sensitive_key ''user''" "\<not> is_sensitive_key ''email''" "\<not> vars_key ''user''" "\<not> vars_key ''email''"
  by code_simp+

lemma clean_user: "clean (JObj user) \<Longrightarrow> clean (JObj (scrub_user scrub_ip user))"
  unfolding scrub_user_def Let_def
  by (auto intro!: clean_set clean_pop simp: plain_keys split: option.splits json.splits simp del: clean.simps(1))

lemma clean_member: "clean (JObj kvs) \<Longrightarrow> map_of kvs k = Some v \<Longrightarrow> clean v"
  by (auto simp: list_all_iff dest!: map_of_SomeD)

text \<open>The user block loses the address of the client.\<close>

lemma map_of_pop: "map_of (dict_pop k kvs) k' = (if k' = k then None else map_of kvs k')"
  by (induction kvs) (auto simp: dict_pop_def)

lemma map_of_set: "map_of (dict_set k v kvs) k' = (if k' = k then map_option (\<lambda>_. v) (map_of kvs k) else map_of kvs k')"
  by (induction kvs) (auto simp: dict_set_def)

lemma scrub_user_ip:
  "map_of (scrub_user True user) ''ip'' = None" "map_of (scrub_user True user) ''ip_address'' = None"
  by (simp_all add: scrub_user_def Let_def map_of_pop map_of_set split: option.splits json.splits)

lemma clean_scrub_event: "clean (JObj (scrub_event scrub_ip event))"
  unfolding scrub_event_def Let_def
  by (auto intro!: clean_set clean_user clean_scrub_dict intro: clean_member [OF clean_scrub_dict]
      simp: plain_keys split: option.splits json.splits simp del: clean.simps(1))

text \<open>
  C32. A scrubbed event holds, at any depth, no value below the name of a secret (a header of
  \<open>secret_headers\<close>, or a name with a word of \<open>secret_words\<close> in its first line, in any letter case) and
  no local variables; it keeps the keys of the event; and if the configuration has \<open>scrub_ip\<close> set,
  its user block holds no address under \<open>ip\<close> or \<open>ip_address\<close>.
\<close>

theorem scrub_event_clean:
  "clean (JObj (scrub_event scrub_ip event)) \<and>
   map fst (scrub_event scrub_ip event) = map fst event \<and>
   (\<forall>user. scrub_ip \<longrightarrow> map_of (scrub_event scrub_ip event) ''user'' = Some (JObj user) \<longrightarrow>
      map_of user ''ip'' = None \<and> map_of user ''ip_address'' = None)"
proof (intro conjI allI impI)
  show "clean (JObj (scrub_event scrub_ip event))" by (rule clean_scrub_event)
  have keys: "map fst (scrub_dict event) = map fst event" by (simp add: scrub_dict_def split_beta comp_def)
  moreover have "map fst (dict_set k v kvs) = map fst kvs" for k v kvs by (simp add: dict_set_def split_beta comp_def)
  ultimately show "map fst (scrub_event scrub_ip event) = map fst event"
    by (simp add: scrub_event_def Let_def split: option.splits json.splits)
next
  fix user
  assume "scrub_ip" and u: "map_of (scrub_event scrub_ip event) ''user'' = Some (JObj user)"
  then obtain user0 where "user = scrub_user True user0"
    by (auto simp: scrub_event_def Let_def map_of_set split: option.splits json.splits)
  then show "map_of user ''ip'' = None" "map_of user ''ip_address'' = None" using scrub_user_ip by auto
qed

theorem scrub_event_clean_witness:
  "clean (JObj (scrub_event True [(''user'', JObj [(''ip'', JStr ''10.0.0.1''), (''password'', JStr ''x'')])]))"
  using scrub_event_clean [of True "[(''user'', JObj [(''ip'', JStr ''10.0.0.1''), (''password'', JStr ''x'')])]"] by blast

end
