(* ===== verification/Error_Envelope.thy ===== *)
theory Error_Envelope
  imports Error_Scrub
begin

text \<open>
  The wire format of the error tracker (services/error_tracker/envelope.py): an envelope is a
  header line followed by items, each a header line and a payload. The JSON parser of orjson is
  the parameter \<open>loads\<close>; a failure is the text of its exception. The position in the body is the
  rest of the body behind it.
\<close>

section \<open>The parser\<close>

record envelope_item =
  en_type :: string
  en_payload :: string
  en_header :: jdict

record envelope =
  env_header :: jdict
  env_items :: "envelope_item list"

type_synonym json_loads = "string \<Rightarrow> string + json"

definition EnvelopeParseError :: "string \<Rightarrow> exn" where
  "EnvelopeParseError msg = ValueError msg"

definition envelope_event_id :: "envelope \<Rightarrow> string option" where
  "envelope_event_id env =
     (case map_of (env_header env) ''event_id'' of
        None \<Rightarrow> None
      | Some eid \<Rightarrow> if jtruthy eid then Some (jstr eid) else None)"

definition decode_json_line :: "json_loads \<Rightarrow> string \<Rightarrow> exn + jdict" where
  "decode_json_line loads line =
     (case loads line of
        Inl msg \<Rightarrow> Inl (EnvelopeParseError (''invalid JSON in envelope: '' @ msg))
      | Inr (JObj kvs) \<Rightarrow> Inr kvs
      | Inr _ \<Rightarrow> Inl (EnvelopeParseError ''envelope header or item header must be a JSON object''))"

text \<open>A length is an \<open>int\<close>, and a \<open>bool\<close> is one, that is not negative.\<close>

definition item_length :: "jdict \<Rightarrow> nat option" where
  "item_length hdr =
     (case map_of hdr ''length'' of
        Some (JInt n) \<Rightarrow> if 0 \<le> n then Some (nat n) else None
      | Some (JBool b) \<Rightarrow> Some (of_bool b)
      | _ \<Rightarrow> None)"

definition item_type :: "jdict \<Rightarrow> string" where
  "item_type hdr = (case map_of hdr ''type'' of None \<Rightarrow> [] | Some t \<Rightarrow> if jtruthy t then jstr t else [])"

definition drop_newline :: "string \<Rightarrow> string" where
  "drop_newline s = (if take 1 s = [CHR 10] then drop 1 s else s)"

text \<open>The payload of an item and the rest of the body behind it.\<close>

definition item_payload :: "jdict \<Rightarrow> string \<Rightarrow> exn + string \<times> string" where
  "item_payload hdr rest =
     (case item_length hdr of
        Some n \<Rightarrow>
          if n > length rest
          then Inl (EnvelopeParseError (''item type='' @ py_repr (item_type hdr) @ '' length='' @
             jstr (the (map_of hdr ''length'')) @ '' exceeds envelope body ('' @ dec (length rest) @ '' bytes available)''))
          else Inr (take n rest, drop_newline (drop n rest))
      | None \<Rightarrow> Inr (before CHR 10 rest, after CHR 10 rest))"

definition skip_newlines :: "string \<Rightarrow> string" where
  "skip_newlines s = dropWhile (\<lambda>c. c = CHR 10) s"

lemma length_after: "length (after c s) \<le> length s"
  using length_dropWhile_le [of "\<lambda>x. x \<noteq> c" s] by (simp add: after_def)

lemma length_after_less: "c \<in> set s \<Longrightarrow> length (after c s) < length s"
proof -
  assume "c \<in> set s"
  then have "dropWhile (\<lambda>x. x \<noteq> c) s \<noteq> []" by auto
  moreover have "length (dropWhile (\<lambda>x. x \<noteq> c) s) \<le> length s" by (rule length_dropWhile_le)
  ultimately show ?thesis by (cases "dropWhile (\<lambda>x. x \<noteq> c) s") (auto simp: after_def)
qed

lemma item_payload_length: "item_payload hdr rest = Inr (p, rest') \<Longrightarrow> length rest' \<le> length rest"
  by (auto simp: item_payload_def drop_newline_def length_after split: option.splits if_splits)

lemma length_skip: "length (skip_newlines s) \<le> length s"
  by (simp add: skip_newlines_def length_dropWhile_le)

function parse_items :: "json_loads \<Rightarrow> string \<Rightarrow> exn + envelope_item list" where
  "parse_items loads body =
     (let rest = skip_newlines body in
      if rest = [] then Inr []
      else if CHR 10 \<notin> set rest then Inl (EnvelopeParseError ''envelope truncated in item header'')
      else case decode_json_line loads (before CHR 10 rest) of
             Inl x \<Rightarrow> Inl x
           | Inr hdr \<Rightarrow>
               (case item_payload hdr (after CHR 10 rest) of
                  Inl x \<Rightarrow> Inl x
                | Inr (payload, rest') \<Rightarrow>
                    (case parse_items loads rest' of
                       Inl x \<Rightarrow> Inl x
                     | Inr items \<Rightarrow> Inr (\<lparr>en_type = item_type hdr, en_payload = payload, en_header = hdr\<rparr> # items))))"
  by pat_completeness auto
termination
proof (relation "measure (\<lambda>(loads, body). length body)"; clarsimp)
  fix loads and body rest' payload :: string and hdr
  assume "CHR ''\<newline>'' \<in> set (skip_newlines body)" and "item_payload hdr (after CHR ''\<newline>'' (skip_newlines body)) = Inr (payload, rest')"
  then show "length rest' < length body"
    using length_skip [of body] length_after_less [of "CHR 10" "skip_newlines body"] item_payload_length by fastforce
qed

declare parse_items.simps [simp del]

definition parse_envelope :: "json_loads \<Rightarrow> string \<Rightarrow> exn + envelope" where
  "parse_envelope loads body =
     (if body = [] then Inl (EnvelopeParseError ''empty envelope body'')
      else case decode_json_line loads (before CHR 10 body) of
             Inl x \<Rightarrow> Inl x
           | Inr hdr \<Rightarrow>
               if CHR 10 \<notin> set body then Inr \<lparr>env_header = hdr, env_items = []\<rparr>
               else map_sum id (\<lambda>items. \<lparr>env_header = hdr, env_items = items\<rparr>) (parse_items loads (after CHR 10 body)))"

section \<open>Reference printer\<close>

text \<open>An item with its length in the header, and an envelope of such items.\<close>

definition with_length :: "jdict \<Rightarrow> string \<Rightarrow> jdict" where
  "with_length hdr payload = hdr @ [(''length'', JInt (int (length payload)))]"

definition print_item :: "(json \<Rightarrow> string) \<Rightarrow> jdict \<Rightarrow> string \<Rightarrow> string" where
  "print_item dumps hdr payload = dumps (JObj (with_length hdr payload)) @ [CHR 10] @ payload @ [CHR 10]"

definition print_envelope :: "(json \<Rightarrow> string) \<Rightarrow> jdict \<Rightarrow> (jdict \<times> string) list \<Rightarrow> string" where
  "print_envelope dumps header items =
     dumps (JObj header) @ [CHR 10] @ concat (map (\<lambda>(hdr, payload). print_item dumps hdr payload) items)"

definition printed_item :: "jdict \<Rightarrow> string \<Rightarrow> envelope_item" where
  "printed_item hdr payload =
     (let h = with_length hdr payload
      in \<lparr>en_type = item_type h, en_payload = payload, en_header = h\<rparr>)"

text \<open>
  What the JSON library does on one header: the printed object is a non-empty line, and parses
  back to the object.
\<close>

definition prints_line :: "(json \<Rightarrow> string) \<Rightarrow> json_loads \<Rightarrow> jdict \<Rightarrow> bool" where
  "prints_line dumps loads h =
     (loads (dumps (JObj h)) = Inr (JObj h) \<and> CHR 10 \<notin> set (dumps (JObj h)) \<and> dumps (JObj h) \<noteq> [])"

lemma parse_printed_item:
  assumes "map_of hdr ''length'' = None" and "prints_line dumps loads (with_length hdr payload)"
  shows "parse_items loads (print_item dumps hdr payload @ rest) =
    map_sum id (\<lambda>items. printed_item hdr payload # items) (parse_items loads rest)"
proof -
  let ?h = "with_length hdr payload"
  let ?line = "dumps (JObj ?h)"
  have one_line: "CHR 10 \<notin> set ?line" and loads: "loads ?line = Inr (JObj ?h)" and "?line \<noteq> []"
    using assms(2) by (simp_all add: prints_line_def)
  then obtain c cs where c: "?line = c # cs" by (cases ?line) auto
  then have "c \<noteq> CHR 10" using one_line by auto
  then have skip: "skip_newlines (?line @ CHR 10 # payload @ CHR 10 # rest) = ?line @ CHR 10 # payload @ CHR 10 # rest"
    by (simp add: skip_newlines_def c)
  have hdr: "decode_json_line loads (before CHR 10 (?line @ CHR 10 # payload @ CHR 10 # rest)) = Inr ?h"
    by (simp add: before_append [OF one_line] decode_json_line_def loads)
  have "item_length ?h = Some (length payload)" using assms by (simp add: item_length_def with_length_def map_add_def)
  then have payload: "item_payload ?h (after CHR 10 (?line @ CHR 10 # payload @ CHR 10 # rest)) = Inr (payload, rest)"
    by (simp add: after_append [OF one_line] item_payload_def drop_newline_def)
  show ?thesis
    by (subst parse_items.simps)
      (auto simp: print_item_def skip hdr payload printed_item_def Let_def split: sum.splits)
qed

definition printable :: "(json \<Rightarrow> string) \<Rightarrow> json_loads \<Rightarrow> (jdict \<times> string) list \<Rightarrow> bool" where
  "printable dumps loads items =
     list_all (\<lambda>(hdr, payload). map_of hdr ''length'' = None \<and> prints_line dumps loads (with_length hdr payload)) items"

lemma parse_printed_items:
  assumes "printable dumps loads items"
  shows "parse_items loads (concat (map (\<lambda>(hdr, payload). print_item dumps hdr payload) items)) =
    Inr (map (\<lambda>(hdr, payload). printed_item hdr payload) items)"
  using assms
proof (induction items)
  case Nil
  show ?case by (subst parse_items.simps) (simp add: skip_newlines_def)
next
  case (Cons i items)
  then show ?case by (cases i) (simp add: parse_printed_item printable_def)
qed

text \<open>
  C37. An envelope printed with the length of every payload parses back to its header and its
  items, whatever bytes the payloads hold, line ends included. The JSON library is assumed to
  print the headers of this envelope as lines it can read.
\<close>

theorem envelope_roundtrip:
  assumes "prints_line dumps loads header" and "printable dumps loads items"
  shows "parse_envelope loads (print_envelope dumps header items) =
    Inr \<lparr>env_header = header, env_items = map (\<lambda>(hdr, payload). printed_item hdr payload) items\<rparr>"
proof -
  have one_line: "CHR 10 \<notin> set (dumps (JObj header))" using assms(1) by (simp add: prints_line_def)
  show ?thesis
    using parse_printed_items [OF assms(2)] assms(1)
    by (simp add: parse_envelope_def print_envelope_def before_append [OF one_line] after_append [OF one_line]
        decode_json_line_def prints_line_def)
qed

definition demo_dumps :: "json \<Rightarrow> string" where
  "demo_dumps j = (if j = JObj [] then ''{}'' else ''{?type?:?event?,?length?:3}'')"

definition demo_loads :: json_loads where
  "demo_loads s = (if s = ''{}'' then Inr (JObj []) else Inr (JObj (with_length [(''type'', JStr ''event'')] ''a-b'')))"

theorem envelope_roundtrip_witness:
  "parse_envelope demo_loads (print_envelope demo_dumps [] [([(''type'', JStr ''event'')], [CHR ''a'', CHR 10, CHR ''b''])]) =
     Inr \<lparr>env_header = [], env_items = [printed_item [(''type'', JStr ''event'')] [CHR ''a'', CHR 10, CHR ''b'']]\<rparr>"
proof -
  have "prints_line demo_dumps demo_loads []" by (simp add: prints_line_def demo_dumps_def demo_loads_def)
  moreover have "printable demo_dumps demo_loads [([(''type'', JStr ''event'')], [CHR ''a'', CHR 10, CHR ''b''])]"
    by (simp add: printable_def prints_line_def demo_dumps_def demo_loads_def with_length_def)
  ultimately show ?thesis using envelope_roundtrip by fastforce
qed

section \<open>Bounds and errors\<close>

text \<open>A payload with a length in its header has exactly this length, and it lies in the body.\<close>

lemma item_payload_part:
  assumes "item_payload hdr rest = Inr (p, rest')"
  shows "length p + length rest' \<le> length rest \<and> (\<exists>k. rest = p @ drop k rest) \<and> (\<forall>n. item_length hdr = Some n \<longrightarrow> length p = n)"
proof (cases "item_length hdr")
  case None
  then have p: "p = before CHR 10 rest" "rest' = after CHR 10 rest" using assms by (auto simp: item_payload_def)
  have d: "rest = p @ dropWhile (\<lambda>x. x \<noteq> CHR 10) rest" by (simp add: p before_def)
  then have "length rest = length p + length (dropWhile (\<lambda>x. x \<noteq> CHR 10) rest)" by (metis length_append)
  then have "length p + length rest' \<le> length rest" by (simp add: p(2) after_def)
  moreover have "rest = p @ drop (length p) rest" by (metis d append_eq_conv_conj)
  ultimately show ?thesis using None by auto
next
  case (Some n)
  then have "n \<le> length rest" "p = take n rest" "rest' = drop_newline (drop n rest)"
    using assms by (auto simp: item_payload_def split: if_splits)
  then show ?thesis using Some by (auto simp: drop_newline_def intro: exI [of _ n])
qed

definition payload_bytes :: "envelope_item list \<Rightarrow> nat" where
  "payload_bytes items = sum_list (map (\<lambda>i. length (en_payload i)) items)"

lemma parse_items_bound: "parse_items loads body = Inr items \<Longrightarrow> payload_bytes items + length items \<le> length body"
proof (induction loads body arbitrary: items rule: parse_items.induct)
  case (1 loads body)
  let ?rest = "skip_newlines body"
  have skip: "length ?rest \<le> length body" by (rule length_skip)
  show ?case
  proof (cases "?rest = []")
    case True
    with 1(2) show ?thesis by (subst (asm) parse_items.simps) (simp add: payload_bytes_def)
  next
    case False
    then obtain hdr p rest' items' where h: "CHR 10 \<in> set ?rest" "decode_json_line loads (before CHR 10 ?rest) = Inr hdr"
      "item_payload hdr (after CHR 10 ?rest) = Inr (p, rest')" "parse_items loads rest' = Inr items'"
      and items: "items = \<lparr>en_type = item_type hdr, en_payload = p, en_header = hdr\<rparr> # items'"
      using 1(2) by (subst (asm) (1) parse_items.simps) (auto simp: Let_def split: if_splits sum.splits prod.splits)
    have "payload_bytes items' + length items' \<le> length rest'"
      by (rule 1(1) [OF refl False _ h(2) h(3) refl h(4)]) (use h(1) in simp)
    then show ?thesis
      using item_payload_part [OF h(3)] length_after_less [OF h(1)] skip by (simp add: items payload_bytes_def)
  qed
qed

lemma parsed_bytes:
  assumes "parse_envelope loads body = Inr env"
  shows "payload_bytes (env_items env) + length (env_items env) \<le> length body"
  using assms parse_items_bound length_after [of "CHR 10" body]
  by (fastforce simp: parse_envelope_def map_sum_Inr payload_bytes_def split: if_splits sum.splits)

text \<open>
  The payloads of a parsed envelope and one line end per item fit into the body: the parser
  never reads a byte twice and never reads behind the end, whatever lengths the headers claim.
\<close>

theorem parse_envelope_bound:
  assumes "parse_envelope loads body = Inr env"
  shows "payload_bytes (env_items env) + length (env_items env) \<le> length body"
  using assms by (rule parsed_bytes)

theorem parse_envelope_bound_witness:
  "payload_bytes [printed_item [(''type'', JStr ''event'')] [CHR ''a'', CHR 10, CHR ''b'']] + 1 \<le>
     length (print_envelope demo_dumps [] [([(''type'', JStr ''event'')], [CHR ''a'', CHR 10, CHR ''b''])])"
proof -
  have "parse_envelope demo_loads (print_envelope demo_dumps [] [([(''type'', JStr ''event'')], [CHR ''a'', CHR 10, CHR ''b''])]) =
     Inr \<lparr>env_header = [], env_items = [printed_item [(''type'', JStr ''event'')] [CHR ''a'', CHR 10, CHR ''b'']]\<rparr>"
    by code_simp
  from parse_envelope_bound [OF this] show ?thesis by simp
qed

end
