(* ===== verification/Task_Model.thy ===== *)
theory Task_Model
  imports Prelude
begin

text \<open>
  The task document (models/task.py) with its value types, the three methods that change it
  (\<open>record_change\<close>, \<open>transition_status\<close>, \<open>save_updated\<close>) and its serialisation
  (services/serializers.py). \<open>task_ok\<close> is the invariant of one document: the review flags
  exclude each other, and a completion time belongs to a task that is done.
\<close>

section \<open>Value types\<close>

datatype task_status = Todo | In_progress | On_hold | Done | Cancelled

datatype task_priority = Low | Medium | High | Urgent

datatype task_type = Action | Decision

datatype actor_type = Human | Ai | System

text \<open>The members of a \<open>StrEnum\<close> are strings; \<open>status_str\<close> and its kin give the string.\<close>

fun status_str :: "task_status \<Rightarrow> string" where
  "status_str Todo = ''todo''"
| "status_str In_progress = ''in_progress''"
| "status_str On_hold = ''on_hold''"
| "status_str Done = ''done''"
| "status_str Cancelled = ''cancelled''"

fun priority_str :: "task_priority \<Rightarrow> string" where
  "priority_str Low = ''low''"
| "priority_str Medium = ''medium''"
| "priority_str High = ''high''"
| "priority_str Urgent = ''urgent''"

fun task_type_str :: "task_type \<Rightarrow> string" where
  "task_type_str Action = ''action''"
| "task_type_str Decision = ''decision''"

fun actor_str :: "actor_type \<Rightarrow> string" where
  "actor_str Human = ''human''"
| "actor_str Ai = ''ai''"
| "actor_str System = ''system''"

text \<open>\<open>TaskStatus(s)\<close> and its kin: the member with this value; \<open>None\<close> is Python's \<open>ValueError\<close>.\<close>

definition enum_of_str :: "('a \<Rightarrow> string) \<Rightarrow> 'a list \<Rightarrow> string \<Rightarrow> 'a option" where
  "enum_of_str f members s = List.find (\<lambda>m. f m = s) members"

abbreviation status_members :: "task_status list" where
  "status_members \<equiv> [Todo, In_progress, On_hold, Done, Cancelled]"

abbreviation priority_members :: "task_priority list" where
  "priority_members \<equiv> [Low, Medium, High, Urgent]"

abbreviation task_type_members :: "task_type list" where
  "task_type_members \<equiv> [Action, Decision]"

definition parse_status :: "string \<Rightarrow> task_status option" where
  "parse_status = enum_of_str status_str status_members"

definition parse_priority :: "string \<Rightarrow> task_priority option" where
  "parse_priority = enum_of_str priority_str priority_members"

definition parse_task_type :: "string \<Rightarrow> task_type option" where
  "parse_task_type = enum_of_str task_type_str task_type_members"

record decision_option =
  do_label :: string
  do_description :: string

record decision_context =
  dc_background :: string
  dc_decision_point :: string
  dc_options :: "decision_option list"
  dc_recommendation :: "string option"

record activity_entry =
  ae_field :: string
  ae_old_value :: "string option"
  ae_new_value :: "string option"
  ae_changed_by :: string
  ae_changed_at :: time
  ae_actor_type :: actor_type

record attachment =
  at_id :: string
  at_filename :: string
  at_content_type :: string
  at_size :: int
  at_created_at :: time

record comment =
  cm_id :: string
  cm_content :: string
  cm_author_id :: string
  cm_author_name :: string
  cm_created_at :: time

section \<open>The task document\<close>

record task =
  t_id :: string
  t_project_id :: string
  t_title :: string
  t_description :: string
  t_status :: task_status
  t_priority :: task_priority
  t_due_date :: "time option"
  t_assignee_id :: "string option"
  t_parent_task_id :: "string option"
  t_blocks :: "string list"
  t_blocked_by :: "string list"
  t_active_form :: "string option"
  t_task_type :: task_type
  t_decision_context :: "decision_context option"
  t_decider_id :: "string option"
  t_decision_requested_at :: "time option"
  t_tags :: "string list"
  t_comments :: "comment list"
  t_attachments :: "attachment list"
  t_activity_log :: "activity_entry list"
  t_created_by :: string
  t_completion_report :: "string option"
  t_completed_at :: "time option"
  t_is_deleted :: bool
  t_archived :: bool
  t_needs_detail :: bool
  t_approved :: bool
  t_sort_order :: int
  t_created_at :: time
  t_updated_at :: time

text \<open>
  \<open>Task(project_id=\<dots>, title=\<dots>, created_by=\<dots>)\<close>: the field defaults of the class, and the
  \<open>_id\<close> the database driver assigns on insert.
\<close>

definition new_task :: "string \<Rightarrow> time \<Rightarrow> string \<Rightarrow> string \<Rightarrow> string \<Rightarrow> task" where
  "new_task oid now project_id title created_by =
     \<lparr>t_id = oid, t_project_id = project_id, t_title = title, t_description = '''',
      t_status = Todo, t_priority = Medium, t_due_date = None, t_assignee_id = None,
      t_parent_task_id = None, t_blocks = [], t_blocked_by = [], t_active_form = None,
      t_task_type = Action, t_decision_context = None, t_decider_id = None,
      t_decision_requested_at = None, t_tags = [], t_comments = [], t_attachments = [],
      t_activity_log = [], t_created_by = created_by, t_completion_report = None,
      t_completed_at = None, t_is_deleted = False, t_archived = False,
      t_needs_detail = False, t_approved = False, t_sort_order = 0,
      t_created_at = now, t_updated_at = now\<rparr>"

definition record_change ::
  "string \<Rightarrow> string option \<Rightarrow> string option \<Rightarrow> string \<Rightarrow> actor_type \<Rightarrow> time \<Rightarrow> task \<Rightarrow> task" where
  "record_change field old_value new_value changed_by actor_type now t =
     (if old_value = new_value then t
      else t\<lparr>t_activity_log := t_activity_log t @
        [\<lparr>ae_field = field, ae_old_value = old_value, ae_new_value = new_value,
          ae_changed_by = changed_by, ae_changed_at = now, ae_actor_type = actor_type\<rparr>]\<rparr>)"

definition transition_status :: "task_status \<Rightarrow> time \<Rightarrow> task \<Rightarrow> task" where
  "transition_status new_status now t =
     (let t' = (if new_status = Done \<and> t_status t \<noteq> Done then t\<lparr>t_completed_at := Some now\<rparr>
                else if new_status \<noteq> Done then t\<lparr>t_completed_at := None\<rparr>
                else t)
      in t'\<lparr>t_status := new_status\<rparr>)"

text \<open>\<open>save_updated\<close> stamps the document and writes it; \<open>touch\<close> is the stamp.\<close>

definition touch :: "time \<Rightarrow> task \<Rightarrow> task" where
  "touch now t = t\<lparr>t_updated_at := now\<rparr>"

section \<open>Serialisation\<close>

record task_extras =
  ex_subtask_count :: "int option"
  ex_assignee_name :: "string option"
  ex_decider_name :: "string option"

definition no_extras :: task_extras where
  "no_extras = \<lparr>ex_subtask_count = None, ex_assignee_name = None, ex_decider_name = None\<rparr>"

definition decision_context_to_dict :: "decision_context \<Rightarrow> json" where
  "decision_context_to_dict dc = JObj
     [(''background'', JStr (dc_background dc)),
      (''decision_point'', JStr (dc_decision_point dc)),
      (''options'', JList (map (\<lambda>o'. JObj [(''label'', JStr (do_label o')),
                                          (''description'', JStr (do_description o'))])
                               (dc_options dc))),
      (''recommendation'', jopt JStr (dc_recommendation dc))]"

definition comment_to_dict :: "comment \<Rightarrow> json" where
  "comment_to_dict c = JObj
     [(''id'', JStr (cm_id c)), (''content'', JStr (cm_content c)),
      (''author_id'', JStr (cm_author_id c)), (''author_name'', JStr (cm_author_name c)),
      (''created_at'', JTime (cm_created_at c))]"

definition attachment_to_dict :: "attachment \<Rightarrow> json" where
  "attachment_to_dict a = JObj
     [(''id'', JStr (at_id a)), (''filename'', JStr (at_filename a)),
      (''content_type'', JStr (at_content_type a)), (''size'', JInt (at_size a)),
      (''created_at'', JTime (at_created_at a))]"

definition task_to_dict :: "task \<Rightarrow> task_extras \<Rightarrow> json" where
  "task_to_dict t extras = JObj
     [(''id'', JStr (t_id t)),
      (''project_id'', JStr (t_project_id t)),
      (''title'', JStr (t_title t)),
      (''description'', JStr (t_description t)),
      (''status'', JStr (status_str (t_status t))),
      (''priority'', JStr (priority_str (t_priority t))),
      (''due_date'', jopt JTime (t_due_date t)),
      (''assignee_id'', jopt JStr (t_assignee_id t)),
      (''assignee_name'', jopt JStr (ex_assignee_name extras)),
      (''parent_task_id'', jopt JStr (t_parent_task_id t)),
      (''blocks'', JList (map JStr (t_blocks t))),
      (''blocked_by'', JList (map JStr (t_blocked_by t))),
      (''blocked_by_count'', JInt (int (length (t_blocked_by t)))),
      (''subtask_count'', jopt JInt (ex_subtask_count extras)),
      (''active_form'', jopt JStr (t_active_form t)),
      (''task_type'', JStr (task_type_str (t_task_type t))),
      (''decider_id'', jopt JStr (t_decider_id t)),
      (''decider_name'', jopt JStr (ex_decider_name extras)),
      (''decision_requested_at'', jopt JTime (t_decision_requested_at t)),
      (''decision_context'', jopt decision_context_to_dict (t_decision_context t)),
      (''tags'', JList (map JStr (t_tags t))),
      (''comments'', JList (map comment_to_dict (t_comments t))),
      (''attachments'', JList (map attachment_to_dict (t_attachments t))),
      (''created_by'', JStr (t_created_by t)),
      (''completion_report'', jopt JStr (t_completion_report t)),
      (''completed_at'', jopt JTime (t_completed_at t)),
      (''archived'', JBool (t_archived t)),
      (''needs_detail'', JBool (t_needs_detail t)),
      (''approved'', JBool (t_approved t)),
      (''sort_order'', JInt (t_sort_order t)),
      (''created_at'', JTime (t_created_at t)),
      (''updated_at'', JTime (t_updated_at t))]"

abbreviation task_dict :: "task \<Rightarrow> json" where
  "task_dict t \<equiv> task_to_dict t no_extras"

section \<open>The invariant of one document\<close>

definition task_ok :: "task \<Rightarrow> bool" where
  "task_ok t \<longleftrightarrow> \<not> (t_approved t \<and> t_needs_detail t) \<and> (t_completed_at t \<noteq> None \<longrightarrow> t_status t = Done)"

text \<open>
  The part of a document the dependency graph is built from. Operations that leave it alone
  leave the graph alone.
\<close>

definition same_links :: "task \<Rightarrow> task \<Rightarrow> bool" where
  "same_links t t' \<longleftrightarrow> t_id t' = t_id t \<and> t_project_id t' = t_project_id t \<and>
     t_blocks t' = t_blocks t \<and> t_blocked_by t' = t_blocked_by t \<and>
     t_is_deleted t' = t_is_deleted t"

named_theorems task_simps \<open>how the document methods act on the fields of a task\<close>

lemma record_change_fields [task_simps]:
  "t_id (record_change f x y b a n t) = t_id t"
  "t_project_id (record_change f x y b a n t) = t_project_id t"
  "t_status (record_change f x y b a n t) = t_status t"
  "t_parent_task_id (record_change f x y b a n t) = t_parent_task_id t"
  "t_blocks (record_change f x y b a n t) = t_blocks t"
  "t_blocked_by (record_change f x y b a n t) = t_blocked_by t"
  "t_decider_id (record_change f x y b a n t) = t_decider_id t"
  "t_completed_at (record_change f x y b a n t) = t_completed_at t"
  "t_is_deleted (record_change f x y b a n t) = t_is_deleted t"
  "t_needs_detail (record_change f x y b a n t) = t_needs_detail t"
  "t_approved (record_change f x y b a n t) = t_approved t"
  "t_title (record_change f x y b a n t) = t_title t"
  "t_archived (record_change f x y b a n t) = t_archived t"
  by (simp_all add: record_change_def)

lemma transition_status_fields [task_simps]:
  "t_id (transition_status st n t) = t_id t"
  "t_project_id (transition_status st n t) = t_project_id t"
  "t_status (transition_status st n t) = st"
  "t_parent_task_id (transition_status st n t) = t_parent_task_id t"
  "t_blocks (transition_status st n t) = t_blocks t"
  "t_blocked_by (transition_status st n t) = t_blocked_by t"
  "t_decider_id (transition_status st n t) = t_decider_id t"
  "t_is_deleted (transition_status st n t) = t_is_deleted t"
  "t_needs_detail (transition_status st n t) = t_needs_detail t"
  "t_approved (transition_status st n t) = t_approved t"
  "t_title (transition_status st n t) = t_title t"
  "t_archived (transition_status st n t) = t_archived t"
  by (simp_all add: transition_status_def Let_def)

lemma touch_fields [task_simps]:
  "t_id (touch n t) = t_id t"
  "t_project_id (touch n t) = t_project_id t"
  "t_status (touch n t) = t_status t"
  "t_parent_task_id (touch n t) = t_parent_task_id t"
  "t_blocks (touch n t) = t_blocks t"
  "t_blocked_by (touch n t) = t_blocked_by t"
  "t_completed_at (touch n t) = t_completed_at t"
  "t_is_deleted (touch n t) = t_is_deleted t"
  "t_needs_detail (touch n t) = t_needs_detail t"
  "t_approved (touch n t) = t_approved t"
  "t_activity_log (touch n t) = t_activity_log t"
  "t_title (touch n t) = t_title t"
  "t_archived (touch n t) = t_archived t"
  "t_comments (touch n t) = t_comments t"
  "t_updated_at (touch n t) = n"
  by (simp_all add: touch_def)

lemma transition_status_completed [task_simps]:
  "t_completed_at (transition_status st n t) =
     (if st \<noteq> Done then None else if t_status t = Done then t_completed_at t else Some n)"
  by (simp add: transition_status_def Let_def)

lemma same_links_refl [simp]: "same_links t t"
  by (simp add: same_links_def)

lemma same_links_trans: "same_links t u \<Longrightarrow> same_links u v \<Longrightarrow> same_links t v"
  by (simp add: same_links_def)

lemma enum_roundtrip:
  "parse_status (status_str s) = Some s"
  "parse_priority (priority_str p) = Some p"
  "parse_task_type (task_type_str k) = Some k"
  by (cases s, simp_all add: parse_status_def enum_of_str_def)
    (cases p, simp_all add: parse_priority_def enum_of_str_def,
     cases k, simp_all add: parse_task_type_def enum_of_str_def)

lemma parse_status_Some: "parse_status s = Some st \<Longrightarrow> s = status_str st"
  by (auto simp: parse_status_def enum_of_str_def split: if_splits)

end
