(* ===== verification/World.thy ===== *)
theory World
  imports Task_Model
begin

text \<open>
  The persistent state the request handlers work on, and what they share.

  \<^item> \<open>env\<close>: what one request sees of the code outside the repository and of the deployment:
    the identifier functions of bson, the clock, whether Redis answers, whether this process
    owns the search index, which writes of a \<open>gather\<close> the database refuses and with which message, the identifiers the
    driver draws for new documents, the UUIDs drawn for embedded ones, whether the upload
    directory can be made and written, files in it be removed, and which files \<open>rmtree\<close> fails to remove, the monotonic clock, the lifetime of cached credentials, the
    digest of API keys and the parser of ISO dates, the texts of foreign exceptions, the
    full-text search service (the identifiers it finds, or no answer where it raises), and how
    bulk inserts end: after how many documents \<open>insert_many\<close> raises, which identifier it leaves
    in the document at a position, and which single inserts raise, and how the database orders
    documents that agree on the sort keys of a query (\<open>tie_rank\<close>, by identifier). The clock is read
    once per request. Writes of single documents are not refused otherwise.
  \<^item> \<open>world\<close>: the collections (each the list of its documents in storage order), the events
    published on the Redis channel, the entries written for the search index, the uploaded
    files (directory and name below the upload root), the API keys and the credentials
    and project names cached by the MCP process.
  \<^item> The primitives: \<open>Task.get\<close>, \<open>save_updated\<close>, \<open>publish_event\<close>, \<open>index_task\<close>, the access checks
    of the REST layer, and the lifecycle hooks of the error tracker.
\<close>

section \<open>Projects, users and error issues\<close>

datatype project_status = Active | Archived

datatype member_role = Owner | Member

record project_member =
  pm_user_id :: string
  pm_role :: member_role
  pm_joined_at :: time

record project_remote_binding =
  rb_agent_id :: string
  rb_remote_path :: string
  rb_label :: string
  rb_updated_at :: time

record project =
  p_id :: string
  p_name :: string
  p_description :: string
  p_color :: string
  p_status :: project_status
  p_is_locked :: bool
  p_sort_order :: int
  p_hidden :: bool
  p_remote :: "project_remote_binding option"
  p_members :: "project_member list"
  p_created_by :: string
  p_created_at :: time
  p_updated_at :: time

definition has_member :: "project \<Rightarrow> string \<Rightarrow> bool" where
  "has_member p user_id = list_ex (\<lambda>m. pm_user_id m = user_id) (p_members p)"

definition is_owner :: "project \<Rightarrow> string \<Rightarrow> bool" where
  "is_owner p user_id = list_ex (\<lambda>m. pm_user_id m = user_id \<and> pm_role m = Owner) (p_members p)"

definition get_member :: "project \<Rightarrow> string \<Rightarrow> project_member option" where
  "get_member p user_id = List.find (\<lambda>m. pm_user_id m = user_id) (p_members p)"

datatype auth_type = Admin_auth | Google_auth

datatype user_status = User_active | User_invited | User_suspended

record webauthn_credential =
  wc_credential_id :: string
  wc_public_key :: string
  wc_sign_count :: int
  wc_transports :: "string list"
  wc_created_at :: time
  wc_name :: string

record user =
  u_id :: string
  u_email :: string
  u_name :: string
  u_auth_type :: auth_type
  u_google_id :: "string option"
  u_password_hash :: "string option"
  u_is_active :: bool
  u_status :: user_status
  u_is_admin :: bool
  u_picture_url :: "string option"
  u_password_disabled :: bool
  u_webauthn_credentials :: "webauthn_credential list"
  u_last_active_at :: "time option"
  u_created_at :: time
  u_updated_at :: time

text \<open>
  The platform, release, environment and tags of an issue are stored as the client sent them, of
  whatever type.
\<close>

datatype issue_status = Unresolved | Resolved | Ignored

datatype issue_level = Fatal | Error_level | Warning_level | Info_level | Debug_level

record error_issue =
  i_id :: string
  i_project_id :: string
  i_error_project_id :: string
  i_fingerprint :: string
  i_fingerprint_legacy :: "string option"
  i_title :: string
  i_culprit :: string
  i_level :: issue_level
  i_platform :: json
  i_status :: issue_status
  i_resolution :: "string option"
  i_ignored_until :: "time option"
  i_first_seen :: time
  i_last_seen :: time
  i_event_count :: int
  i_user_count :: int
  i_user_count_hll :: "string option"
  i_release :: json
  i_environment :: json
  i_assignee_id :: "string option"
  i_linked_task_ids :: "string list"
  i_tags :: json
  i_created_at :: time
  i_updated_at :: time

section \<open>MCP credentials\<close>

record mcp_api_key =
  ak_id :: string
  ak_key_hash :: string
  ak_name :: string
  ak_created_by :: "string option"
  ak_last_used_at :: "time option"
  ak_is_active :: bool
  ak_created_at :: time

text \<open>The dictionary \<open>authenticate\<close> returns; OAuth subjects have no key.\<close>

record key_info =
  ki_key_id :: "string option"
  ki_key_name :: "string option"
  ki_user_id :: string
  ki_user_name :: string
  ki_is_admin :: bool
  ki_auth_kind :: string

section \<open>Environment and state\<close>

record env =
  oid_valid :: "string \<Rightarrow> bool"
  oid_canon :: "string \<Rightarrow> string"
  now :: time
  redis_up :: bool
  has_indexer :: bool
  enable_indexers :: bool
  save_raises :: "string \<Rightarrow> bool"
  save_error :: "string \<Rightarrow> string"
  new_oid :: "nat \<Rightarrow> string"
  new_uuid :: "nat \<Rightarrow> string"
  disk_ok :: bool
  mkdir_ok :: bool
  unlink_ok :: bool
  rmtree_leaves :: "string \<times> string \<Rightarrow> bool"
  monotonic :: time
  auth_cache_ttl :: int
  hash_api_key :: "string \<Rightarrow> string"
  fromisoformat :: "string \<Rightarrow> time option"
  exn_text :: "exn \<Rightarrow> string"
  search_svc :: "(string \<Rightarrow> string \<Rightarrow> string option \<Rightarrow> nat \<Rightarrow> string list option) option"
  insert_many_stops :: "nat option"
  insert_many_id :: "nat \<Rightarrow> string"
  insert_raises :: "nat \<Rightarrow> bool"
  tie_rank :: "string \<Rightarrow> nat"

record event =
  ev_type :: string
  ev_project_id :: string
  ev_data :: json
  ev_server_time :: time

text \<open>
  Entries of the search index: written by the indexer of this process (\<open>Indexed\<close>,
  \<open>Deindexed\<close>), or a hint on the stream the indexing sidecar consumes (\<open>Notified\<close>).
\<close>

datatype index_note =
    Indexed string
  | Deindexed string
  | Notified string string string

record world =
  w_tasks :: "task list"
  w_projects :: "project list"
  w_users :: "user list"
  w_issues :: "error_issue list"
  w_events :: "event list"
  w_index :: "index_note list"
  w_files :: "(string \<times> string) list"
  w_api_keys :: "mcp_api_key list"
  w_auth_cache :: "(string \<times> key_info \<times> time) list"
  w_project_cache :: "string \<rightharpoonup> string \<times> time"

section \<open>Lookups and writes\<close>

text \<open>
  \<open>valid_object_id\<close> (core/validators.py), and \<open>_as_object_id\<close> (services/task_links.py): the
  identifier a string denotes, or the string itself when it denotes none.
\<close>

definition valid_object_id :: "env \<Rightarrow> string \<Rightarrow> (world, unit) prog" where
  "valid_object_id e value = guard (oid_valid e value) (HTTPException 400 (JStr (''Invalid ID format: '' @ value)))"

definition as_object_id :: "env \<Rightarrow> string \<Rightarrow> string" where
  "as_object_id e task_id = (if oid_valid e task_id then oid_canon e task_id else task_id)"

text \<open>\<open>Document.get\<close>: a string that is no identifier raises, an unknown identifier gives \<open>None\<close>.\<close>

definition task_get :: "env \<Rightarrow> string \<Rightarrow> (world, task option) prog" where
  "task_get e tid = (if oid_valid e tid then gets (\<lambda>w. coll_get t_id (w_tasks w) (oid_canon e tid))
                     else raise (ValidationError tid))"

definition project_get :: "env \<Rightarrow> string \<Rightarrow> (world, project option) prog" where
  "project_get e pid = (if oid_valid e pid then gets (\<lambda>w. coll_get p_id (w_projects w) (oid_canon e pid))
                        else raise (ValidationError pid))"

definition user_get :: "env \<Rightarrow> string \<Rightarrow> (world, user option) prog" where
  "user_get e uid = (if oid_valid e uid then gets (\<lambda>w. coll_get u_id (w_users w) (oid_canon e uid))
                     else raise (ValidationError uid))"

definition store_task :: "task \<Rightarrow> world \<Rightarrow> world" where
  "store_task t w = w\<lparr>w_tasks := coll_save t_id t (w_tasks w)\<rparr>"

definition save_updated :: "env \<Rightarrow> task \<Rightarrow> (world, task) prog" where
  "save_updated e t = bindP (modify (store_task (touch (now e) t))) (\<lambda>_. return (touch (now e) t))"

definition task_insert :: "task \<Rightarrow> (world, unit) prog" where
  "task_insert t = modify (\<lambda>w. w\<lparr>w_tasks := coll_insert t (w_tasks w)\<rparr>)"

definition query_tasks :: "(task \<Rightarrow> bool) \<Rightarrow> (world, task list) prog" where
  "query_tasks P = gets (\<lambda>w. coll_find P (w_tasks w))"

text \<open>
  \<open>asyncio.gather(*[t.save_updated() for t in ts], return_exceptions=True)\<close>: every document
  is written, except where the write raises; the result lists what was written and what not.
\<close>

primrec gather_saves :: "env \<Rightarrow> task list \<Rightarrow> (world, (task \<times> bool) list) prog" where
  "gather_saves e [] = return []"
| "gather_saves e (t # ts) =
     (if save_raises e (t_id t) then
        bindP (gather_saves e ts) (\<lambda>rs. return ((touch (now e) t, False) # rs))
      else
        bindP (save_updated e t) (\<lambda>t'. bindP (gather_saves e ts) (\<lambda>rs. return ((t', True) # rs))))"

text \<open>\<open>asyncio.gather(*[t.save_updated() for t in ts])\<close>.\<close>

primrec save_all :: "env \<Rightarrow> task list \<Rightarrow> (world, task list) prog" where
  "save_all e [] = return []"
| "save_all e (t # ts) = bindP (save_updated e t) (\<lambda>t'. bindP (save_all e ts) (\<lambda>rs. return (t' # rs)))"

definition not_deleted :: "task option \<Rightarrow> task option" where
  "not_deleted x = (case x of None \<Rightarrow> None | Some t \<Rightarrow> if t_is_deleted t then None else Some t)"

section \<open>Events and the search index\<close>

definition publish_event :: "env \<Rightarrow> string \<Rightarrow> string \<Rightarrow> json \<Rightarrow> (world, unit) prog" where
  "publish_event e project_id event_type data =
     modify (\<lambda>w. if redis_up e
       then w\<lparr>w_events := w_events w @
         [\<lparr>ev_type = event_type, ev_project_id = project_id, ev_data = data, ev_server_time = now e\<rparr>]\<rparr>
       else w)"

definition publish_note :: "env \<Rightarrow> string \<Rightarrow> string \<Rightarrow> string \<Rightarrow> (world, unit) prog" where
  "publish_note e kind entity_id op =
     (if enable_indexers e then return ()
      else bindP (guard (entity_id \<noteq> []) (ValueError
        (''index_notifications._publish: refusing to publish empty entity_id for kind='' @ py_repr kind @ '' op='' @ py_repr op))) (\<lambda>_.
           bindP (guard (redis_up e) RedisError) (\<lambda>_.
           modify (\<lambda>w. w\<lparr>w_index := w_index w @ [Notified kind entity_id op]\<rparr>))))"

definition index_task :: "env \<Rightarrow> task \<Rightarrow> (world, unit) prog" where
  "index_task e t =
     (if has_indexer e then modify (\<lambda>w. w\<lparr>w_index := w_index w @ [Indexed (t_id t)]\<rparr>)
      else whenP (\<not> enable_indexers e)
        (whenP (t_id t \<noteq> []) (publish_note e ''task'' (t_id t) ''upsert'')))"

definition deindex_task :: "env \<Rightarrow> string \<Rightarrow> (world, unit) prog" where
  "deindex_task e task_id =
     (if has_indexer e then modify (\<lambda>w. w\<lparr>w_index := w_index w @ [Deindexed task_id]\<rparr>)
      else whenP (\<not> enable_indexers e)
        (whenP (task_id \<noteq> []) (publish_note e ''task'' task_id ''delete'')))"

section \<open>Access checks of the REST layer\<close>

definition check_project_access :: "env \<Rightarrow> string \<Rightarrow> user \<Rightarrow> (world, project) prog" where
  "check_project_access e project_id u =
     bindP (valid_object_id e project_id) (\<lambda>_.
     bindP (project_get e project_id) (\<lambda>p.
     case p of
       None \<Rightarrow> raise (HTTPException 404 (JStr ''Project not found''))
     | Some project \<Rightarrow>
         bindP (guard (p_status project \<noteq> Archived) (HTTPException 404 (JStr ''Project not found''))) (\<lambda>_.
         bindP (guard (u_is_admin u \<or> has_member project (u_id u)) (HTTPException 403 (JStr ''No access''))) (\<lambda>_.
         return project))))"

definition check_not_locked :: "project \<Rightarrow> (world, unit) prog" where
  "check_not_locked p = guard (\<not> p_is_locked p) (HTTPException 423 (JStr ''Project is locked''))"

section \<open>Error-tracker hooks on the task lifecycle\<close>

text \<open>\<open>update_many\<close> on the issues linked to a task that are still unresolved.\<close>

definition set_linked_issues :: "env \<Rightarrow> issue_status \<Rightarrow> string \<Rightarrow> (world, nat) prog" where
  "set_linked_issues e st task_id =
     bindP (gets (\<lambda>w. length (filter (\<lambda>i. task_id \<in> set (i_linked_task_ids i) \<and> i_status i = Unresolved) (w_issues w)))) (\<lambda>n.
     bindP (modify (\<lambda>w. w\<lparr>w_issues := map (\<lambda>i.
        if task_id \<in> set (i_linked_task_ids i) \<and> i_status i = Unresolved
        then i\<lparr>i_status := st, i_updated_at := now e\<rparr> else i) (w_issues w)\<rparr>)) (\<lambda>_.
     return n))"

definition resolve_linked_issues :: "env \<Rightarrow> string \<Rightarrow> (world, nat) prog" where
  "resolve_linked_issues e task_id = set_linked_issues e Resolved task_id"

definition ignore_linked_issues :: "env \<Rightarrow> string \<Rightarrow> (world, nat) prog" where
  "ignore_linked_issues e task_id = set_linked_issues e Ignored task_id"

section \<open>The collections keep the store contract\<close>

interpretation task_store: doc_store t_id "coll_get t_id" "coll_save t_id" coll_insert set "keys_distinct t_id"
  by (rule coll_doc_store)

interpretation project_store: doc_store p_id "coll_get p_id" "coll_save p_id" coll_insert set "keys_distinct p_id"
  by (rule coll_doc_store)

interpretation user_store: doc_store u_id "coll_get u_id" "coll_save u_id" coll_insert set "keys_distinct u_id"
  by (rule coll_doc_store)

section \<open>Symbolic execution of the primitives\<close>

lemma wp_valid_object_id [wp_simps]:
  "wp (valid_object_id e v) Q E w =
     (if oid_valid e v then Q () w else E (HTTPException 400 (JStr (''Invalid ID format: '' @ v))) w)"
  by (simp add: valid_object_id_def wp_simps)

lemma wp_task_get [wp_simps]:
  "wp (task_get e tid) Q E w =
     (if oid_valid e tid then Q (coll_get t_id (w_tasks w) (oid_canon e tid)) w else E (ValidationError tid) w)"
  by (simp add: task_get_def wp_simps)

lemma wp_project_get [wp_simps]:
  "wp (project_get e pid) Q E w =
     (if oid_valid e pid then Q (coll_get p_id (w_projects w) (oid_canon e pid)) w else E (ValidationError pid) w)"
  by (simp add: project_get_def wp_simps)

lemma wp_user_get [wp_simps]:
  "wp (user_get e uid) Q E w =
     (if oid_valid e uid then Q (coll_get u_id (w_users w) (oid_canon e uid)) w else E (ValidationError uid) w)"
  by (simp add: user_get_def wp_simps)

lemma wp_save_updated [wp_simps]:
  "wp (save_updated e t) Q E w = Q (touch (now e) t) (store_task (touch (now e) t) w)"
  by (simp add: save_updated_def wp_simps)

text \<open>Writing a list of documents, as one update of the collection.\<close>

definition store_tasks :: "env \<Rightarrow> task list \<Rightarrow> world \<Rightarrow> world" where
  "store_tasks e ts w = fold (\<lambda>t. store_task (touch (now e) t)) ts w"

lemma wp_save_all [wp_simps]:
  "wp (save_all e ts) Q E w = Q (map (touch (now e)) ts) (store_tasks e ts w)"
  by (induction ts arbitrary: Q w) (simp_all add: wp_simps store_tasks_def)

lemma wp_gather_saves [wp_simps]:
  "wp (gather_saves e ts) Q E w =
     Q (map (\<lambda>t. (touch (now e) t, \<not> save_raises e (t_id t))) ts)
       (store_tasks e (filter (\<lambda>t. \<not> save_raises e (t_id t)) ts) w)"
  by (induction ts arbitrary: Q w) (simp_all add: wp_simps store_tasks_def)

lemma w_tasks_store_tasks:
  "w_tasks (store_tasks e ts w) = fold (\<lambda>t. coll_save t_id (touch (now e) t)) ts (w_tasks w)"
  by (induction ts arbitrary: w) (simp_all add: store_tasks_def store_task_def)

lemma w_store_tasks [simp]:
  "w_projects (store_tasks e ts w) = w_projects w" "w_users (store_tasks e ts w) = w_users w"
  "w_issues (store_tasks e ts w) = w_issues w" "w_files (store_tasks e ts w) = w_files w"
  by (induction ts arbitrary: w) (simp_all add: store_tasks_def store_task_def)

text \<open>Writing back a changed copy of every task a query found.\<close>

lemma w_tasks_store_query:
  assumes "keys_distinct t_id (w_tasks w)" and "\<And>t. t_id (g t) = t_id t"
  shows "w_tasks (store_tasks e (map g (coll_find P (w_tasks w))) w) =
    map (\<lambda>t. if P t then touch (now e) (g t) else t) (w_tasks w)"
  using fold_save_filter [of t_id "w_tasks w" "\<lambda>t. touch (now e) (g t)" P] assms
  by (simp add: w_tasks_store_tasks coll_find_def fold_map comp_def task_simps)

lemma not_deleted_Some: "not_deleted x = Some t \<longleftrightarrow> x = Some t \<and> \<not> t_is_deleted t"
  by (auto simp: not_deleted_def split: option.splits)

lemma w_tasks_store_task [simp]: "w_tasks (store_task t w) = coll_save t_id t (w_tasks w)"
  by (simp add: store_task_def)

lemma w_store_task [simp]:
  "w_projects (store_task t w) = w_projects w" "w_users (store_task t w) = w_users w"
  "w_issues (store_task t w) = w_issues w" "w_events (store_task t w) = w_events w"
  "w_index (store_task t w) = w_index w" "w_files (store_task t w) = w_files w"
  by (simp_all add: store_task_def)

lemma wp_query_tasks [wp_simps]: "wp (query_tasks P) Q E w = Q (coll_find P (w_tasks w)) w"
  by (simp add: query_tasks_def wp_simps)

lemma wp_check_not_locked [wp_simps]:
  "wp (check_not_locked p) Q E w =
     (if p_is_locked p then E (HTTPException 423 (JStr ''Project is locked'')) w else Q () w)"
  by (simp add: check_not_locked_def wp_simps)

text \<open>
  The access check never writes, and lets a caller through only to a project that exists, is
  not archived, and that the caller administers or is a member of.
\<close>

definition may_access :: "env \<Rightarrow> world \<Rightarrow> string \<Rightarrow> user \<Rightarrow> project \<Rightarrow> bool" where
  "may_access e w pid u p \<longleftrightarrow> oid_valid e pid \<and> coll_get p_id (w_projects w) (oid_canon e pid) = Some p \<and>
     p_status p \<noteq> Archived \<and> (u_is_admin u \<or> has_member p (u_id u))"

lemma wp_check_project_access:
  assumes "\<And>p. may_access e w pid u p \<Longrightarrow> Q p w" and "\<And>x. E x w"
  shows "wp (check_project_access e pid u) Q E w"
  using assms by (auto simp: check_project_access_def may_access_def wp_simps split: option.splits)

lemma check_project_access_iff:
  "(\<exists>w'. check_project_access e pid u w = (Inr p, w')) \<longleftrightarrow> may_access e w pid u p"
  by (auto simp: check_project_access_def may_access_def valid_object_id_def project_get_def
      bindP_def guard_def return_def raise_def gets_def split: option.splits)

text \<open>
  Publishing and indexing touch the event and index logs only; programs that are built from
  them keep every property of the collections.
\<close>

definition same_docs :: "world \<Rightarrow> world \<Rightarrow> bool" where
  "same_docs w w' \<longleftrightarrow> w_tasks w' = w_tasks w \<and> w_projects w' = w_projects w \<and> w_users w' = w_users w \<and>
     w_issues w' = w_issues w"

lemma same_docs_refl [simp]: "same_docs w w"
  by (simp add: same_docs_def)

lemma wp_publish_event:
  "(\<And>w'. same_docs w w' \<Longrightarrow> Q () w') \<Longrightarrow> wp (publish_event e p k d) Q E w"
  by (simp add: publish_event_def wp_simps same_docs_def)

lemma wp_index_task:
  "(\<And>x w'. same_docs w w' \<Longrightarrow> Q x w') \<Longrightarrow> (\<And>x. E x w) \<Longrightarrow> wp (index_task e t) Q E w"
  by (simp add: index_task_def publish_note_def wp_simps same_docs_def)

lemma wp_deindex_task:
  "(\<And>x w'. same_docs w w' \<Longrightarrow> Q x w') \<Longrightarrow> (\<And>x. E x w) \<Longrightarrow> wp (deindex_task e t) Q E w"
  by (simp add: deindex_task_def publish_note_def wp_simps same_docs_def)

lemma wp_set_linked_issues:
  "(\<And>x is. Q x (w\<lparr>w_issues := is\<rparr>)) \<Longrightarrow> wp (set_linked_issues e st tid) Q E w"
  by (simp add: set_linked_issues_def wp_simps)

section \<open>A concrete deployment\<close>

text \<open>
  An environment and a small database to run the programs on: every string is an identifier
  in canonical form, Redis answers, the indexing sidecar is in use, no write fails.
\<close>

definition plain_env :: env where
  "plain_env = \<lparr>oid_valid = (\<lambda>_. True), oid_canon = id, now = 0, redis_up = True, has_indexer = False,
     enable_indexers = False, save_raises = (\<lambda>_. False), save_error = (\<lambda>_. ''''), new_oid = (\<lambda>n. replicate (Suc n) (CHR ''n'')),
     new_uuid = (\<lambda>n. replicate (Suc n) (CHR ''k'')), disk_ok = True, mkdir_ok = True, unlink_ok = True, rmtree_leaves = (\<lambda>_. False),
     monotonic = 0, auth_cache_ttl = 60000000, hash_api_key = (\<lambda>k. CHR ''h'' # k), fromisoformat = (\<lambda>_. None),
     exn_text = (\<lambda>_. ''''), search_svc = None, insert_many_stops = None, insert_many_id = (\<lambda>n. replicate (Suc n) (CHR ''n'')),
     insert_raises = (\<lambda>_. False), tie_rank = (\<lambda>_. 0)\<rparr>"

definition empty_world :: world where
  "empty_world = \<lparr>w_tasks = [], w_projects = [], w_users = [], w_issues = [], w_events = [], w_index = [], w_files = [],
     w_api_keys = [], w_auth_cache = [], w_project_cache = Map.empty\<rparr>"

definition demo_task :: "string \<Rightarrow> string list \<Rightarrow> string list \<Rightarrow> task" where
  "demo_task oid bs bbs = (new_task oid 0 ''p'' ''demo'' ''u'')\<lparr>t_blocks := bs, t_blocked_by := bbs\<rparr>"

definition demo_project :: project where
  "demo_project = \<lparr>p_id = ''p'', p_name = ''demo'', p_description = '''', p_color = '''', p_status = Active,
     p_is_locked = False, p_sort_order = 0, p_hidden = False, p_remote = None,
     p_members = [\<lparr>pm_user_id = ''u'', pm_role = Member, pm_joined_at = 0\<rparr>], p_created_by = ''u'',
     p_created_at = 0, p_updated_at = 0\<rparr>"

definition demo_user :: user where
  "demo_user = \<lparr>u_id = ''u'', u_email = '''', u_name = ''U'', u_auth_type = Admin_auth, u_google_id = None,
     u_password_hash = None, u_is_active = True, u_status = User_active, u_is_admin = False, u_picture_url = None,
     u_password_disabled = False, u_webauthn_credentials = [], u_last_active_at = None, u_created_at = 0, u_updated_at = 0\<rparr>"

text \<open>Tasks \<open>a\<close>, \<open>b\<close>, \<open>c\<close> of one project, where \<open>a\<close> blocks \<open>b\<close>.\<close>

definition demo_tasks :: "task list" where
  "demo_tasks = [demo_task ''a'' [''b''] [], demo_task ''b'' [] [''a''], demo_task ''c'' [] []]"

definition demo_world :: world where
  "demo_world = empty_world\<lparr>w_tasks := demo_tasks, w_projects := [demo_project], w_users := [demo_user]\<rparr>"

lemmas demo_defs = plain_env_def empty_world_def demo_task_def demo_project_def demo_user_def demo_tasks_def
  demo_world_def new_task_def

lemma plain_env_as_object_id [simp]: "as_object_id plain_env x = x"
  by (simp add: as_object_id_def plain_env_def)

text \<open>Reading the demonstration database.\<close>

lemma plain_env_fields [simp]:
  "oid_valid plain_env x" "oid_canon plain_env x = x" "now plain_env = 0" "redis_up plain_env"
  "\<not> has_indexer plain_env" "\<not> enable_indexers plain_env" "\<not> save_raises plain_env x" "disk_ok plain_env" "\<not> rmtree_leaves plain_env f"
  by (simp_all add: plain_env_def)

lemma demo_task_fields [simp]:
  "t_id (demo_task x bs bbs) = x" "t_project_id (demo_task x bs bbs) = ''p''" "t_blocks (demo_task x bs bbs) = bs"
  "t_blocked_by (demo_task x bs bbs) = bbs" "t_status (demo_task x bs bbs) = Todo"
  "\<not> t_is_deleted (demo_task x bs bbs)" "\<not> t_approved (demo_task x bs bbs)" "\<not> t_needs_detail (demo_task x bs bbs)"
  "t_parent_task_id (demo_task x bs bbs) = None" "t_completed_at (demo_task x bs bbs) = None"
  "t_comments (demo_task x bs bbs) = []" "t_attachments (demo_task x bs bbs) = []" "t_sort_order (demo_task x bs bbs) = 0"
  by (simp_all add: demo_task_def new_task_def)

lemma demo_world_fields [simp]:
  "w_tasks demo_world = demo_tasks" "w_projects demo_world = [demo_project]" "w_users demo_world = [demo_user]"
  "w_issues demo_world = []" "w_events demo_world = []" "w_files demo_world = []"
  by (simp_all add: demo_world_def empty_world_def)

lemma demo_tasks_get [simp]:
  "coll_get t_id demo_tasks ''a'' = Some (demo_task ''a'' [''b''] [])"
  "coll_get t_id demo_tasks ''b'' = Some (demo_task ''b'' [] [''a''])"
  "coll_get t_id demo_tasks ''c'' = Some (demo_task ''c'' [] [])"
  by (simp_all add: coll_get_def demo_tasks_def)

lemma demo_project_fields [simp]:
  "p_id demo_project = ''p''" "p_status demo_project = Active" "\<not> p_is_locked demo_project"
  "has_member demo_project x \<longleftrightarrow> x = ''u''" "coll_get p_id [demo_project] ''p'' = Some demo_project"
  "u_id demo_user = ''u''" "\<not> u_is_admin demo_user"
  by (auto simp: demo_project_def demo_user_def has_member_def coll_get_def)

end
