(* ===== verification/Error_Ingest.thy ===== *)
theory Error_Ingest
  imports Error_Envelope World
begin

text \<open>
  The front of the error tracker: its documents (models/error_tracker.py), the authentication and
  origin check of a client (services/error_tracker/auth.py), the rate limiter (rate_limit.py), the
  Redis stream (stream.py) and the ingest endpoint (api/error_tracker_ingest.py).

  \<open>et_env\<close> is what one request or one run of the worker sees of foreign code: the digest, the JSON
  parser, Unicode and IPv6 checks of hosts, ISO dates, Redis and the failures of the database.
  \<open>et_state\<close> holds the collections of the tracker, its Redis keys and the stream; \<open>et_app\<close> is the
  database of the application, with the tasks and the issues.
\<close>

section \<open>Documents and state\<close>

datatype auto_task_priority = Auto_low | Auto_medium | Auto_high | Auto_urgent

record dsn_key_record =
  dk_public_key :: string
  dk_secret_key_hash :: string
  dk_secret_key_prefix :: string
  dk_created_at :: time
  dk_expire_at :: "time option"

record error_tracking_config =
  ec_id :: string
  ec_project_id :: string
  ec_numeric_dsn_id :: int
  ec_name :: string
  ec_keys :: "dsn_key_record list"
  ec_allowed_origins :: "string list"
  ec_allowed_origin_wildcard :: bool
  ec_rate_limit_per_min :: int
  ec_max_event_size_kb :: int
  ec_retention_days :: int
  ec_scrub_ip :: bool
  ec_auto_create_task_on_new_issue :: bool
  ec_auto_task_priority :: auto_task_priority
  ec_auto_task_assignee_id :: "string option"
  ec_auto_task_tags :: "string list"
  ec_enabled :: bool
  ec_created_by :: string
  ec_created_at :: time
  ec_updated_at :: time

definition active_public_keys :: "time \<Rightarrow> error_tracking_config \<Rightarrow> string list" where
  "active_public_keys t c =
     map dk_public_key (filter (\<lambda>k. case dk_expire_at k of None \<Rightarrow> True | Some x \<Rightarrow> x > t) (ec_keys c))"

record error_event =
  ee_event_id :: string
  ee_issue_id :: string
  ee_project_id :: string
  ee_error_project_id :: string
  ee_fingerprint :: string
  ee_received_at :: time
  ee_timestamp :: time
  ee_platform :: json
  ee_level :: issue_level
  ee_payload :: jdict \<comment> \<open>message, exception, breadcrumbs, request, user, tags, contexts, sdk\<close>
  ee_release :: json
  ee_environment :: json
  ee_user_agent :: "string option"
  ee_symbolicated :: bool

record stream_entry =
  se_project_id :: string
  se_error_project_id :: string
  se_event_id :: string
  se_item_type :: string
  se_received_at :: string
  se_payload :: string
  se_client_ip :: "string option"
  se_user_agent :: "string option"

record et_env =
  et_base :: env
  sha256_hex :: "string \<Rightarrow> string"
  orjson_loads :: json_loads
  bad_host :: "string \<Rightarrow> string option"
  isoformat :: "time \<Rightarrow> string"
  max_envelope_kb :: nat
  event_uuid :: "nat \<Rightarrow> string"
  xadd_ok :: bool
  stream_trim :: "nat \<Rightarrow> nat"
  hll_estimate :: "string list \<Rightarrow> int"
  counter_raises :: bool
  issue_update_raises :: "string \<Rightarrow> bool"
  issue_upsert_error :: "error_issue \<Rightarrow> string option"
  event_insert_error :: "string option"
  xack_ok :: bool
  worker_batch :: nat

record et_state =
  et_app :: world
  et_configs :: "error_tracking_config list"
  et_events :: "(string \<times> error_event list) list" \<comment> \<open>the daily collections\<close>
  rs_counts :: "string \<rightharpoonup> int \<times> time" \<comment> \<open>counters that expire\<close>
  rs_evt :: "string \<rightharpoonup> int"
  rs_last :: "string \<rightharpoonup> time"
  rs_hll :: "string \<rightharpoonup> string list"
  rs_dirty :: "string list"
  rs_stream :: "(nat \<times> stream_entry) list" \<comment> \<open>with their identifiers, ascending\<close>
  rs_next_id :: nat
  rs_group :: "nat option" \<comment> \<open>the group has read the identifiers below\<close>
  rs_pending :: "(nat \<times> time) list" \<comment> \<open>read and not acknowledged, with the time of delivery\<close>

section \<open>Numbers in text\<close>

definition digits_value :: "string \<Rightarrow> int" where
  "digits_value ds = fold (\<lambda>c n. 10 * n + (int (code c) - 48)) ds 0"

text \<open>
  \<open>int(s)\<close>: white space around, a sign, digits with single underscores between them, and not more
  digits than the interpreter converts. The text of a header is Latin-1, whose only decimal digits
  are those of ASCII.
\<close>

definition max_int_digits :: nat where
  "max_int_digits = 4300"

definition py_int :: "string \<Rightarrow> int option" where
  "py_int s =
     (let t = py_strip s; neg = take 1 t = ''-''; ds = (if take 1 t \<in> {''-'', ''+''} then drop 1 t else t);
          parts = split_on CHR ''_'' ds
      in if list_all (\<lambda>p. p \<noteq> [] \<and> list_all ascii_digit p) parts \<and> length (concat parts) \<le> max_int_digits
         then Some ((if neg then -1 else 1) * digits_value (concat parts)) else None)"

text \<open>
  Text that comes from a path or a body is held as its UTF-8 bytes. \<open>utf8_lead\<close> gives the bits of a
  leading byte and the ranges of the bytes that must follow it; \<open>utf8_step\<close> reads one character,
  \<open>None\<close> for an ill-formed one, and says how many of the following bytes belong to it.
\<close>

definition utf8_lead :: "nat \<Rightarrow> (nat \<times> (nat \<times> nat) list) option" where
  "utf8_lead b =
     (if b < 128 then Some (b, [])
      else if 194 \<le> b \<and> b \<le> 223 then Some (b - 192, [(128, 191)])
      else if 224 \<le> b \<and> b \<le> 239
      then Some (b - 224, [(if b = 224 then 160 else 128, if b = 237 then 159 else 191), (128, 191)])
      else if 240 \<le> b \<and> b \<le> 244
      then Some (b - 240, [(if b = 240 then 144 else 128, if b = 244 then 143 else 191), (128, 191), (128, 191)])
      else None)"

fun utf8_tail :: "nat \<Rightarrow> (nat \<times> nat) list \<Rightarrow> string \<Rightarrow> nat option \<times> nat" where
  "utf8_tail v [] cs = (Some v, 0)"
| "utf8_tail v ((lo, hi) # rs) [] = (None, 0)"
| "utf8_tail v ((lo, hi) # rs) (c # cs) =
     (if lo \<le> code c \<and> code c \<le> hi
      then let (r, n) = utf8_tail (64 * v + (code c - 128)) rs cs in (r, Suc n)
      else (None, 0))"

definition utf8_step :: "char \<Rightarrow> string \<Rightarrow> nat option \<times> nat" where
  "utf8_step c cs = (case utf8_lead (code c) of None \<Rightarrow> (None, 0) | Some (v, rs) \<Rightarrow> utf8_tail v rs cs)"

text \<open>The characters of a text, and \<open>payload.decode("utf-8", errors="replace")\<close>: what is ill-formed becomes U+FFFD.\<close>

fun utf8_points :: "string \<Rightarrow> nat list" where
  "utf8_points [] = []"
| "utf8_points (c # cs) =
     (let (r, n) = utf8_step c cs in (case r of None \<Rightarrow> 65533 | Some p \<Rightarrow> p) # utf8_points (drop n cs))"

fun utf8_replace :: "string \<Rightarrow> string" where
  "utf8_replace [] = []"
| "utf8_replace (c # cs) =
     (let (r, n) = utf8_step c cs
      in (case r of None \<Rightarrow> map char_of [239, 191, 189 :: nat] | Some _ \<Rightarrow> c # take n cs) @ utf8_replace (drop n cs))"

text \<open>The decimal digits of Unicode 15 come in rows from 0 to 9; \<open>isdigit\<close> also accepts those that are no decimals.\<close>

definition decimal_zeros :: "nat list" where
  "decimal_zeros =
     [48, 1632, 1776, 1984, 2406, 2534, 2662, 2790, 2918, 3046, 3174, 3302, 3430, 3558, 3664, 3792, 3872, 4160, 4240, 6112,
      6160, 6470, 6608, 6784, 6800, 6992, 7088, 7232, 7248, 42528, 43216, 43264, 43472, 43504, 43600, 44016, 65296, 66720,
      68912, 69734, 69872, 69942, 70096, 70384, 70736, 70864, 71248, 71360, 71472, 71904, 72016, 72784, 73040, 73120, 73552,
      92768, 92864, 93008, 120782, 120792, 120802, 120812, 120822, 123200, 123632, 124144, 125264, 130032]"

definition other_digits :: "(nat \<times> nat) list" where
  "other_digits =
     [(178, 179), (185, 185), (4969, 4977), (6618, 6618), (8304, 8304), (8308, 8313), (8320, 8329), (9312, 9320),
      (9332, 9340), (9352, 9360), (9450, 9450), (9461, 9469), (9471, 9471), (10102, 10110), (10112, 10120),
      (10122, 10130), (68160, 68163), (69216, 69224), (69714, 69722), (127232, 127242)]"

definition decimal_value :: "nat \<Rightarrow> nat option" where
  "decimal_value p = map_option (\<lambda>z. p - z) (find (\<lambda>z. z \<le> p \<and> p < z + 10) decimal_zeros)"

definition isdigit :: "string \<Rightarrow> bool" where
  "isdigit s =
     (s \<noteq> [] \<and>
      list_all (\<lambda>p. decimal_value p \<noteq> None \<or> list_ex (\<lambda>(lo, hi). lo \<le> p \<and> p \<le> hi) other_digits) (utf8_points s))"

text \<open>\<open>int(s)\<close> of such a text.\<close>

definition digits_int :: "string \<Rightarrow> int option" where
  "digits_int s =
     (let vs = map decimal_value (utf8_points s) in
      if list_all (\<lambda>v. v \<noteq> None) vs \<and> length vs \<le> max_int_digits
      then Some (fold (\<lambda>v n. 10 * n + int (the v)) vs 0) else None)"

section \<open>Authentication\<close>

datatype auth_error = AuthError string string nat

definition auth_kv_rx :: rx where
  "auth_kv_rx = many py_space @ group (one (\<lambda>c. ascii_alpha c \<or> c = CHR ''_'') @ many (\<lambda>c. alnum c \<or> c = CHR ''_'')) @
     many py_space @ lit ''='' @ many py_space @ group [Rep (\<lambda>c. c \<noteq> CHR '','') 1 None False] @ many py_space @
     [Or_end (\<lambda>c. c = CHR '','')]"

text \<open>The dictionary keeps the newest pair first.\<close>

definition parse_sentry_auth_header :: "string option \<Rightarrow> (string \<times> string) list" where
  "parse_sentry_auth_header header =
     (case truthy header of
        None \<Rightarrow> []
      | Some s \<Rightarrow>
          let h0 = py_strip s; h = (if map lower_char (take 7 h0) = ''sentry '' then drop 7 h0 else h0)
          in fold (\<lambda>g out. let key = map lower_char (g ! 0); v = py_strip (g ! 1) in if v = [] then out else (key, v) # out)
               (rx_finditer auth_kv_rx h) [])"

definition extract_public_key :: "string option \<Rightarrow> (string \<times> string) list \<Rightarrow> string option" where
  "extract_public_key auth_header query =
     (case map_of (parse_sentry_auth_header auth_header) ''sentry_key'' of
        Some k \<Rightarrow> Some k
      | None \<Rightarrow> truthy (map_of query ''sentry_key''))"

text \<open>
  \<open>find_one\<close> by the numeric identifier of the DSN, then by the identifier of the project. A number
  beyond 64 bits has no place in a query: the driver raises, and so do both endpoints.
\<close>

definition dsn_overflow :: "string \<Rightarrow> bool" where
  "dsn_overflow url_project_id =
     (isdigit url_project_id \<and> (case digits_int url_project_id of None \<Rightarrow> False | Some n \<Rightarrow> 2 ^ 63 \<le> n))"

definition find_config :: "error_tracking_config list \<Rightarrow> string \<Rightarrow> error_tracking_config option" where
  "find_config cs url_project_id =
     (let by_number = (if isdigit url_project_id then
            (case digits_int url_project_id of None \<Rightarrow> None | Some n \<Rightarrow> find (\<lambda>c. ec_numeric_dsn_id c = n) cs)
          else None)
      in case by_number of
           Some c \<Rightarrow> Some c
         | None \<Rightarrow> find (\<lambda>c. ec_project_id c = url_project_id) cs)"

definition resolve_error_project ::
  "time \<Rightarrow> error_tracking_config list \<Rightarrow> string \<Rightarrow> string \<Rightarrow> auth_error + error_tracking_config" where
  "resolve_error_project t cs url_project_id public_key =
     (if public_key = [] then Inl (AuthError ''invalid_dsn'' ''missing sentry_key'' 401)
      else case find_config cs url_project_id of
        None \<Rightarrow> Inl (AuthError ''project_not_found'' (''no error project for project_id='' @ py_repr url_project_id) 401)
      | Some ep \<Rightarrow>
          if \<not> ec_enabled ep
          then Inl (AuthError ''project_disabled'' (''error project for '' @ py_repr url_project_id @ '' is disabled'') 403)
          else if public_key \<notin> set (active_public_keys t ep)
          then Inl (AuthError ''invalid_dsn'' ''public_key does not match this project'' 401)
          else Inr ep)"

section \<open>Origins\<close>

text \<open>The port of a parsed URL; a port that is no number up to 65535 raises.\<close>

definition url_port :: "parse_result \<Rightarrow> exn + nat option" where
  "url_port p =
     (let hostinfo = after_last CHR ''@'' (pr_netloc p);
          port = (if CHR ''['' \<in> set hostinfo then after CHR '':'' (after CHR '']'' (after CHR ''['' hostinfo))
                  else after CHR '':'' hostinfo)
      in if port = [] then Inr None
         else if \<not> list_all ascii_digit port
         then Inl (ValueError (''Port could not be cast to integer value as '' @ py_repr port))
         else if digits_value port > 65535 then Inl (ValueError ''Port out of range 0-65535'')
         else Inr (Some (nat (digits_value port))))"

definition normalize_origin :: "(string \<Rightarrow> string option) \<Rightarrow> string option \<Rightarrow> exn + string option" where
  "normalize_origin bad origin =
     (case truthy (map_option py_strip (truthy origin)) of
        None \<Rightarrow> Inr None
      | Some o' \<Rightarrow>
          (case urlparse bad o' of
             Inl _ \<Rightarrow> Inr None
           | Inr u \<Rightarrow>
               (case hostname u of
                  None \<Rightarrow> Inr None
                | Some host \<Rightarrow>
                    if pr_scheme u = [] then Inr None
                    else (case url_port u of
                            Inl x \<Rightarrow> Inl x
                          | Inr port \<Rightarrow>
                              let netloc = (case port of
                                    None \<Rightarrow> host
                                  | Some n \<Rightarrow>
                                      if (pr_scheme u = ''http'' \<and> n = 80) \<or> (pr_scheme u = ''https'' \<and> n = 443)
                                      then host else host @ '':'' @ dec n)
                              in Inr (Some (pr_scheme u @ ''://'' @ netloc))))))"

primrec normalize_all :: "(string \<Rightarrow> string option) \<Rightarrow> string list \<Rightarrow> exn + string option list" where
  "normalize_all bad [] = Inr []"
| "normalize_all bad (o' # os) =
     (case normalize_origin bad (Some o') of
        Inl x \<Rightarrow> Inl x
      | Inr n \<Rightarrow> (case normalize_all bad os of Inl x \<Rightarrow> Inl x | Inr ns \<Rightarrow> Inr (n # ns)))"

definition error_origin_allowed :: "(string \<Rightarrow> string option) \<Rightarrow> error_tracking_config \<Rightarrow> string option \<Rightarrow> exn + bool" where
  "error_origin_allowed bad c origin =
     (if origin = None then Inr True
      else case normalize_origin bad origin of
        Inl x \<Rightarrow> Inl x
      | Inr None \<Rightarrow> Inr False
      | Inr (Some n) \<Rightarrow>
          if ec_allowed_origin_wildcard c then Inr True
          else (case normalize_all bad (ec_allowed_origins c) of
                  Inl x \<Rightarrow> Inl x
                | Inr ns \<Rightarrow> Inr (Some n \<in> set ns)))"

type_synonym headers = "(string \<times> string) list"

definition cors_headers_for :: "(string \<Rightarrow> string option) \<Rightarrow> error_tracking_config \<Rightarrow> string option \<Rightarrow> exn + headers" where
  "cors_headers_for bad c origin =
     (let base = [(''Vary'', ''Origin''), (''Access-Control-Allow-Methods'', ''POST, OPTIONS''),
                  (''Access-Control-Allow-Headers'', ''X-Sentry-Auth, Content-Type''), (''Access-Control-Max-Age'', ''600'')]
      in case truthy origin of
           None \<Rightarrow> Inr base
         | Some o' \<Rightarrow>
             (case error_origin_allowed bad c origin of
                Inl x \<Rightarrow> Inl x
              | Inr ok \<Rightarrow> Inr (if ok then base @ [(''Access-Control-Allow-Origin'', o')] else base)))"

section \<open>Rate limiter\<close>

record rate_decision =
  rd_allowed :: bool
  rd_remaining :: int
  rd_retry_after_sec :: int
  rd_limit :: int

definition wildcard_cap :: int where
  "wildcard_cap = 300"

definition effective_limit :: "error_tracking_config \<Rightarrow> int" where
  "effective_limit c =
     (let limit = ec_rate_limit_per_min c
      in max 1 (if ec_allowed_origin_wildcard c then min limit wildcard_cap else limit))"

definition seconds :: "time \<Rightarrow> int" where
  "seconds t = t div 1000000"

definition minute :: "time \<Rightarrow> int" where
  "minute t = seconds t div 60"

text \<open>\<open>INCR\<close> and \<open>EXPIRE\<close> in one transaction; a counter whose time has come is gone.\<close>

definition incr_expire :: "string \<Rightarrow> time \<Rightarrow> time \<Rightarrow> (et_state, int) prog" where
  "incr_expire key t ttl =
     bindP (gets (\<lambda>s. case rs_counts s key of None \<Rightarrow> 0 | Some (n, x) \<Rightarrow> if t < x then n else 0)) (\<lambda>n.
     bindP (modify (\<lambda>s. s\<lparr>rs_counts := (rs_counts s)(key \<mapsto> (n + 1, t + ttl))\<rparr>)) (\<lambda>_.
     return (n + 1)))"

definition two_minutes :: time where
  "two_minutes = 120000000"

definition rate_key :: "string \<Rightarrow> time \<Rightarrow> string" where
  "rate_key pid t = ''ratelimit:error:'' @ pid @ '':'' @ str_int (minute t)"

definition rate_check :: "et_env \<Rightarrow> error_tracking_config \<Rightarrow> (et_state, rate_decision) prog" where
  "rate_check e c =
     (let limit = effective_limit c; t = now (et_base e) in
      if \<not> redis_up (et_base e)
      then return \<lparr>rd_allowed = False, rd_remaining = 0, rd_retry_after_sec = 60, rd_limit = limit\<rparr>
      else bindP (incr_expire (rate_key (ec_project_id c) t) t two_minutes) (\<lambda>count.
        return (if count > limit
          then \<lparr>rd_allowed = False, rd_remaining = 0, rd_retry_after_sec = 60 - seconds t mod 60, rd_limit = limit\<rparr>
          else \<lparr>rd_allowed = True, rd_remaining = max 0 (limit - count), rd_retry_after_sec = 0, rd_limit = limit\<rparr>)))"

section \<open>The stream\<close>

text \<open>\<open>XADD\<close>, with the payload decoded.\<close>

definition enqueue_event :: "et_env \<Rightarrow> stream_entry \<Rightarrow> (et_state, unit) prog" where
  "enqueue_event e entry =
     bindP (guard (redis_up (et_base e) \<and> xadd_ok e) RedisError) (\<lambda>_.
     modify (\<lambda>s. let q = rs_stream s @ [(rs_next_id s, entry\<lparr>se_payload := utf8_replace (se_payload entry)\<rparr>)]
       in s\<lparr>rs_stream := drop (stream_trim e (length q)) q, rs_next_id := rs_next_id s + 1\<rparr>))"

section \<open>The endpoint\<close>

record ingest_request =
  rq_origin :: "string option"
  rq_content_length :: "string option"
  rq_body :: string
  rq_sentry_auth :: "string option"
  rq_query :: "(string \<times> string) list"
  rq_cf_connecting_ip :: "string option"
  rq_x_forwarded_for :: "string option"
  rq_client_host :: "string option"
  rq_user_agent :: "string option"

record response =
  rp_status :: nat
  rp_body :: json
  rp_headers :: headers

definition error_response :: "string \<Rightarrow> string \<Rightarrow> nat \<Rightarrow> jdict \<Rightarrow> headers \<Rightarrow> response" where
  "error_response err msg status details headers =
     \<lparr>rp_status = status,
      rp_body = JObj [(''error'', JObj [(''code'', JStr err), (''message'', JStr msg), (''details'', JObj details)])],
      rp_headers = headers\<rparr>"

definition extract_client_ip :: "ingest_request \<Rightarrow> string option" where
  "extract_client_ip r =
     (case truthy (rq_cf_connecting_ip r) of
        Some cf \<Rightarrow> Some (py_strip (hd (split_on CHR '','' cf)))
      | None \<Rightarrow>
          (case truthy (map_option (\<lambda>xff. py_strip (hd (split_on CHR '','' xff))) (truthy (rq_x_forwarded_for r))) of
             Some first \<Rightarrow> Some first
           | None \<Rightarrow> rq_client_host r))"

definition envelope_preflight :: "et_env \<Rightarrow> string \<Rightarrow> ingest_request \<Rightarrow> (et_state, response) prog" where
  "envelope_preflight e project_id r =
     bindP (guard (\<not> dsn_overflow project_id) OverflowError) (\<lambda>_.
     bindP (gets (\<lambda>s. find_config (et_configs s) project_id)) (\<lambda>c.
     case c of
       None \<Rightarrow> return \<lparr>rp_status = 204, rp_body = JNull, rp_headers = [(''Vary'', ''Origin'')]\<rparr>
     | Some project \<Rightarrow>
         (case error_origin_allowed (bad_host e) project (rq_origin r) of
            Inl x \<Rightarrow> raise x
          | Inr False \<Rightarrow> return \<lparr>rp_status = 204, rp_body = JNull, rp_headers = [(''Vary'', ''Origin'')]\<rparr>
          | Inr True \<Rightarrow>
              (case cors_headers_for (bad_host e) project (rq_origin r) of
                 Inl x \<Rightarrow> raise x
               | Inr h \<Rightarrow> return \<lparr>rp_status = 204, rp_body = JNull, rp_headers = h\<rparr>))))"

definition max_bytes :: "et_env \<Rightarrow> nat" where
  "max_bytes e = max_envelope_kb e * 1024"

definition too_large :: "et_env \<Rightarrow> response" where
  "too_large e = error_response ''payload_too_large'' (''envelope exceeds '' @ dec (max_bytes e) @ '' bytes'') 413 [] []"

text \<open>
  What the loop over the items does with each. \<open>first_event_id\<close>, the number of events put on the
  stream and whether an attachment was seen are its state.
\<close>

definition item_event_id :: "et_env \<Rightarrow> envelope \<Rightarrow> nat \<Rightarrow> envelope_item \<Rightarrow> string" where
  "item_event_id e env n item =
     (let h = dict_get ''event_id'' JNull (en_header item); own = (if jtruthy h then jstr h else []) in
      if own \<noteq> [] then own
      else case truthy (envelope_event_id env) of Some i \<Rightarrow> i | None \<Rightarrow> event_uuid e n)"

definition ingest_item ::
  "et_env \<Rightarrow> error_tracking_config \<Rightarrow> ingest_request \<Rightarrow> envelope \<Rightarrow> envelope_item \<Rightarrow> string option \<times> nat \<times> bool \<Rightarrow>
   (et_state, string option \<times> nat \<times> bool) prog" where
  "ingest_item e project r env item st =
     (let (first_event_id, enqueued, saw_attachment) = st; t = map lower_char (en_type item) in
      if t = ''event'' then
        let eid = item_event_id e env enqueued item in
        bindP (enqueue_event e \<lparr>se_project_id = ec_project_id project, se_error_project_id = ec_id project,
                 se_event_id = eid, se_item_type = ''event'', se_received_at = isoformat e (now (et_base e)),
                 se_payload = en_payload item, se_client_ip = truthy (extract_client_ip r),
                 se_user_agent = truthy (rq_user_agent r)\<rparr>) (\<lambda>_.
        return (case first_event_id of None \<Rightarrow> Some eid | Some i \<Rightarrow> Some i, enqueued + 1, saw_attachment))
      else if t = ''attachment'' then return (first_event_id, enqueued, True)
      else return (first_event_id, enqueued, saw_attachment))"

definition liftE :: "exn + 'a \<Rightarrow> ('s, 'a) prog" where
  "liftE x = (case x of Inl e \<Rightarrow> raise e | Inr a \<Rightarrow> return a)"

definition rate_limited :: "rate_decision \<Rightarrow> headers \<Rightarrow> response" where
  "rate_limited d headers =
     (let status = (if rd_limit d > 0 then 429 else 503); after = str_int (rd_retry_after_sec d) in
      error_response (if status = 429 then ''rate_limited'' else ''internal'')
        (if status = 429 then ''rate limit exceeded'' else ''rate limiter unavailable'') status
        [(''limit_per_min'', JInt (rd_limit d))]
        (headers @ [(''Retry-After'', after), (''X-Sentry-Rate-Limits'', after @ ''::organization'')]))"

text \<open>The handler behind authentication: origin, rate, envelope, items.\<close>

definition ingest_authed :: "et_env \<Rightarrow> error_tracking_config \<Rightarrow> ingest_request \<Rightarrow> (et_state, response) prog" where
  "ingest_authed e project r =
     bindP (liftE (error_origin_allowed (bad_host e) project (rq_origin r))) (\<lambda>ok.
     if \<not> ok then return (error_response ''origin_not_allowed'' ''Origin is not in the project allowlist'' 403 [] [(''Vary'', ''Origin'')])
     else
       bindP (rate_check e project) (\<lambda>decision.
       bindP (liftE (cors_headers_for (bad_host e) project (rq_origin r))) (\<lambda>headers.
       if \<not> rd_allowed decision then return (rate_limited decision headers)
       else
         (case parse_envelope (orjson_loads e) (rq_body r) of
            Inl (ValueError msg) \<Rightarrow> return (error_response ''invalid_envelope'' msg 400 [] headers)
          | Inl x \<Rightarrow> raise x
          | Inr env \<Rightarrow>
              bindP (foldP (ingest_item e project r env) (env_items env) (envelope_event_id env, 0, False)) (\<lambda>(first_event_id, enqueued, saw_attachment).
              if saw_attachment \<and> enqueued = 0
              then return (error_response ''unsupported_item'' ''attachment items are not supported'' 400 [] headers)
              else return \<lparr>rp_status = 200,
                rp_body = JObj (case truthy first_event_id of None \<Rightarrow> [] | Some i \<Rightarrow> [(''id'', JStr i)]),
                rp_headers = headers\<rparr>)))))"

definition envelope_ingest :: "et_env \<Rightarrow> string \<Rightarrow> ingest_request \<Rightarrow> (et_state, response) prog" where
  "envelope_ingest e project_id r =
     (if (case rq_content_length r of
            None \<Rightarrow> False
          | Some s \<Rightarrow> (case py_int s of None \<Rightarrow> False | Some n \<Rightarrow> n > int (max_bytes e)))
      then return (too_large e)
      else if length (rq_body r) > max_bytes e then return (too_large e)
      else case extract_public_key (rq_sentry_auth r) (rq_query r) of
        None \<Rightarrow> return (error_response ''invalid_dsn'' ''missing sentry_key in header/query'' 401 [] [])
      | Some public_key \<Rightarrow>
          bindP (guard (public_key = [] \<or> \<not> dsn_overflow project_id) OverflowError) (\<lambda>_.
          bindP (gets (\<lambda>s. resolve_error_project (now (et_base e)) (et_configs s) project_id public_key)) (\<lambda>authed.
          case authed of
            Inl (AuthError err msg status) \<Rightarrow> return (error_response err msg status [] [])
          | Inr project \<Rightarrow> ingest_authed e project r)))"

end
