(* ===== verification/Calendar.thy ===== *)
theory Calendar
  imports Prelude
begin

text \<open>
  What the backend uses of Python's proleptic Gregorian calendar: the ordinal of a day (1 for the
  first day of year 1), the weekday (0 for Monday), the year and month of a
  day, and the first day of the next month.
\<close>

definition day_us :: int where
  "day_us = 86400 * 1000000"

definition epoch_ordinal :: int where
  "epoch_ordinal = 719163"

definition ordinal :: "time \<Rightarrow> int" where
  "ordinal t = t div day_us + epoch_ordinal"

definition weekday :: "time \<Rightarrow> int" where
  "weekday t = (ordinal t + 6) mod 7"

definition is_leap :: "int \<Rightarrow> bool" where
  "is_leap y \<longleftrightarrow> 4 dvd y \<and> (\<not> 100 dvd y \<or> 400 dvd y)"

definition days_before_year :: "int \<Rightarrow> int" where
  "days_before_year y = (let z = y - 1 in z * 365 + z div 4 - z div 100 + z div 400)"

definition days_in_month :: "int \<Rightarrow> nat \<Rightarrow> int" where
  "days_in_month y m = (if m = 2 \<and> is_leap y then 29 else [31, 28, 31, 30, 31, 30, 31, 31, 30, 31, 30, 31] ! (m - 1))"

definition days_before_month :: "int \<Rightarrow> nat \<Rightarrow> int" where
  "days_before_month y m = sum_list (map (days_in_month y) [1..<m])"

definition year_of :: "int \<Rightarrow> int" where
  "year_of n = (let y = (n * 400) div 146097 + 1 in
     if n \<le> days_before_year y then y - 1 else if days_before_year (y + 1) < n then y + 1 else y)"

definition month_of :: "int \<Rightarrow> nat" where
  "month_of n = (let y = year_of n; d = n - days_before_year y in
     length (filter (\<lambda>m. days_before_month y m < d) [1..<13]))"

definition next_month_start :: "int \<Rightarrow> int" where
  "next_month_start n = (let y = year_of n; m = month_of n in
     if m = 12 then days_before_year (y + 1) + 1 else days_before_year y + days_before_month y (m + 1) + 1)"

definition max_instant :: time where
  "max_instant = (days_before_year 10000 - epoch_ordinal + 1) * day_us"

definition min_instant :: time where
  "min_instant = (1 - epoch_ordinal) * day_us"

section \<open>Every day lies in its year and its month\<close>

lemma days_before_year_bounds:
  "146097 * (y - 1) - 699 \<le> 400 * days_before_year y" "400 * days_before_year y \<le> 146097 * (y - 1) + 396"
proof -
  define z q4 q100 q400 where "z = y - 1" and "q4 = z div 4" and "q100 = z div 100" and "q400 = z div 400"
  have "4 * q4 \<le> z" "z \<le> 4 * q4 + 3" "100 * q100 \<le> z" "z \<le> 100 * q100 + 99" "400 * q400 \<le> z" "z \<le> 400 * q400 + 399"
    unfolding q4_def q100_def q400_def by presburger+
  moreover have "days_before_year y = z * 365 + q4 - q100 + q400"
    by (simp add: days_before_year_def z_def q4_def q100_def q400_def Let_def)
  ultimately have "0 \<le> 400 * days_before_year y - (146097 * (y - 1) - 699)" "0 \<le> 146097 * (y - 1) + 396 - 400 * days_before_year y"
    unfolding z_def by simp_all
  then show "146097 * (y - 1) - 699 \<le> 400 * days_before_year y" "400 * days_before_year y \<le> 146097 * (y - 1) + 396" by simp_all
qed

lemma div_succ:
  fixes k z :: int
  assumes "0 < k"
  shows "(z + 1) div k = z div k + of_bool (k dvd z + 1)"
proof -
  define q r where "q = z div k" and "r = z mod k"
  have z: "z = k * q + r" and r: "0 \<le> r" "r < k" using assms by (simp_all add: q_def r_def)
  show ?thesis
  proof (cases "r = k - 1")
    case True
    then have "z + 1 = k * (q + 1)" by (simp add: z algebra_simps)
    with assms show ?thesis unfolding q_def [symmetric] by simp
  next
    case False
    then have b: "0 \<le> r + 1" "r + 1 < k" using r by simp_all
    have eq: "z + 1 = (r + 1) + k * q" by (simp add: z)
    have "(z + 1) div k = q" "(z + 1) mod k = r + 1"
      unfolding eq using assms b by (simp_all only: div_mult_self2 mod_mult_self2 div_pos_pos_trivial mod_pos_pos_trivial)
    with r show ?thesis unfolding q_def [symmetric] by (simp add: dvd_eq_mod_eq_0)
  qed
qed

lemma year_length: "days_before_year (y + 1) = days_before_year y + 365 + of_bool (is_leap y)"
proof -
  define a b where "a k = (y - 1) div k" and "b k = y div k" for k
  have "b k = a k + of_bool (k dvd y)" if "0 < k" for k using div_succ [OF that, of "y - 1"] by (simp add: a_def b_def)
  then have eqs: "b 4 = a 4 + of_bool (4 dvd y)" "b 100 = a 100 + of_bool (100 dvd y)" "b 400 = a 400 + of_bool (400 dvd y)"
    by simp_all
  have dvd: "100 dvd y \<Longrightarrow> 4 dvd y" "400 dvd y \<Longrightarrow> 100 dvd y"
    by (rule dvd_trans [rotated], assumption, simp)+
  have "days_before_year (y + 1) = y * 365 + b 4 - b 100 + b 400" "days_before_year y = (y - 1) * 365 + a 4 - a 100 + a 400"
    by (simp_all add: days_before_year_def a_def b_def Let_def)
  with dvd show ?thesis
    unfolding eqs is_leap_def by (cases "4 dvd y"; cases "100 dvd y"; cases "400 dvd y") simp_all
qed

lemma year_of_bounds:
  assumes "1 \<le> n"
  shows "days_before_year (year_of n) < n \<and> n \<le> days_before_year (year_of n + 1)"
proof -
  define y where "y = (n * 400) div 146097 + 1"
  have n: "146097 * (y - 1) \<le> n * 400" "n * 400 < 146097 * (y - 1) + 146097"
    using div_mult_mod_eq [of "n * 400" 146097] pos_mod_bound [of 146097 "n * 400"] pos_mod_sign [of 146097 "n * 400"]
    unfolding y_def by simp_all
  have low: "days_before_year y \<le> n" and high: "n \<le> days_before_year (y + 1 + 1)"
    using n days_before_year_bounds [of y] days_before_year_bounds [of "y + 1 + 1"] by simp_all
  have "days_before_year (y - 1) < n" if "n \<le> days_before_year y"
    using year_length [of "y - 1"] low that by simp
  then show ?thesis using low high by (auto simp: year_of_def y_def [symmetric] Let_def)
qed

lemma month_table:
  "days_before_month y 1 = 0" "days_before_month y 2 = 31" "days_before_month y 3 = 59 + of_bool (is_leap y)"
  "days_before_month y 4 = 90 + of_bool (is_leap y)" "days_before_month y 5 = 120 + of_bool (is_leap y)"
  "days_before_month y 6 = 151 + of_bool (is_leap y)" "days_before_month y 7 = 181 + of_bool (is_leap y)"
  "days_before_month y 8 = 212 + of_bool (is_leap y)" "days_before_month y 9 = 243 + of_bool (is_leap y)"
  "days_before_month y 10 = 273 + of_bool (is_leap y)" "days_before_month y 11 = 304 + of_bool (is_leap y)"
  "days_before_month y 12 = 334 + of_bool (is_leap y)" "days_before_month y 13 = 365 + of_bool (is_leap y)"
  by (simp_all add: days_before_month_def days_in_month_def upt_rec numeral_nat)

lemma days_before_month_Suc: "1 \<le> m \<Longrightarrow> days_before_month y (Suc m) = days_before_month y m + days_in_month y m"
  by (simp add: days_before_month_def)

text \<open>The number of passed elements of an ascending sequence is the position of the last one.\<close>

lemma count_ascending:
  fixes f :: "nat \<Rightarrow> int"
  assumes "\<And>m. 1 \<le> m \<Longrightarrow> m < k \<Longrightarrow> f m \<le> f (Suc m)" and "f 1 < d" and "d \<le> f k" and "1 \<le> k" and "m = length (filter (\<lambda>m. f m < d) [1..<k])"
  shows "1 \<le> m \<and> m < k \<and> f m < d \<and> d \<le> f (Suc m)"
  using assms
proof (induction k arbitrary: m)
  case (Suc k)
  have "1 \<le> k" using Suc.prems by (cases k) auto
  show ?case
  proof (cases "f k < d")
    case True
    have "f j \<le> f k" if "1 \<le> j" "j \<le> k" for j
      using that(2,1) Suc.prems(1) by (induction rule: inc_induct) (simp, meson Suc_leD le_SucI less_SucI order.trans)
    then have "filter (\<lambda>m. f m < d) [1..<Suc k] = [1..<Suc k]" using True by (force simp: filter_id_conv)
    then have "m = k" using Suc.prems(5) by simp
    then show ?thesis using True Suc.prems(3) \<open>1 \<le> k\<close> by simp
  next
    case False
    then have m: "m = length (filter (\<lambda>m. f m < d) [1..<k])" using Suc.prems(5) \<open>1 \<le> k\<close> by simp
    have "1 \<le> m \<and> m < k \<and> f m < d \<and> d \<le> f (Suc m)"
      by (rule Suc.IH [OF _ Suc.prems(2) _ \<open>1 \<le> k\<close> m]) (use False Suc.prems(1) in auto)
    then show ?thesis by simp
  qed
qed simp

lemma month_of_bounds:
  assumes "1 \<le> n" and "y = year_of n" and "m = month_of n" and "d = n - days_before_year y"
  shows "1 \<le> m \<and> m \<le> 12 \<and> days_before_month y m < d \<and> d \<le> days_before_month y m + days_in_month y m"
proof -
  have "0 < d" "d \<le> 365 + of_bool (is_leap y)"
    using year_of_bounds [OF assms(1)] year_length [of y] by (auto simp: assms(2,4))
  moreover have "0 \<le> days_in_month y m" if "1 \<le> m" "m < 13" for m
    using that unfolding days_in_month_def by (auto simp: less_Suc_eq numeral_nat)
  ultimately have "1 \<le> m \<and> m < 13 \<and> days_before_month y m < d \<and> d \<le> days_before_month y (Suc m)"
    by (intro count_ascending) (simp_all add: days_before_month_Suc month_table [simplified] assms(2-4) month_of_def Let_def)
  then show ?thesis by (auto simp: days_before_month_Suc)
qed

end
