(* ===== verification/Link_Search.thy ===== *)
theory Link_Search
  imports World
begin

text \<open>
  The two graph searches of services/task_links.py over the stored tasks: \<open>has_cycle\<close>, a
  breadth-first search of the \<open>blocks\<close> graph that issues one query per layer, and
  \<open>has_parent_cycle\<close>, the walk up the parent chain. Both are total, and both decide the
  reachability question they are meant to decide.
\<close>

section \<open>Breadth-first search over the blocks graph\<close>

text \<open>
  \<open>predecessor\<close> is the Python dictionary, newest entry first. \<open>walk_back\<close> is the loop
  \<open>while cur in predecessor\<close>; its fuel is the size of the dictionary.
\<close>

type_synonym bfs_state = "string set \<times> (string \<times> string) list \<times> string list"

fun walk_back :: "nat \<Rightarrow> (string \<times> string) list \<Rightarrow> string \<Rightarrow> string list" where
  "walk_back 0 predecessor cur = []"
| "walk_back (Suc n) predecessor cur =
     (case map_of predecessor cur of None \<Rightarrow> [] | Some c \<Rightarrow> c # walk_back n predecessor c)"

text \<open>The body of the loop over one document: its neighbours in order.\<close>

fun scan_neighbors :: "string \<Rightarrow> string \<Rightarrow> string list \<Rightarrow> bfs_state \<Rightarrow> string list + bfs_state" where
  "scan_neighbors source_id current_id [] st = Inr st"
| "scan_neighbors source_id current_id (neighbor_id # ns) (visited, predecessor, next_frontier) =
     (if neighbor_id = source_id then
        Inl (rev ([source_id, current_id] @ walk_back (length predecessor) predecessor current_id))
      else if neighbor_id \<in> visited then
        scan_neighbors source_id current_id ns (visited, predecessor, next_frontier)
      else
        scan_neighbors source_id current_id ns
          (insert neighbor_id visited, (neighbor_id, current_id) # predecessor, next_frontier @ [neighbor_id]))"

fun scan_layer :: "string \<Rightarrow> task list \<Rightarrow> bfs_state \<Rightarrow> string list + bfs_state" where
  "scan_layer source_id [] st = Inr st"
| "scan_layer source_id (doc # docs) st =
     (case scan_neighbors source_id (t_id doc) (t_blocks doc) st of
        Inl path \<Rightarrow> Inl path
      | Inr st' \<Rightarrow> scan_layer source_id docs st')"

definition layer_docs :: "env \<Rightarrow> string \<Rightarrow> string list \<Rightarrow> task list \<Rightarrow> task list" where
  "layer_docs e project_id frontier ts =
     coll_find (\<lambda>t. t_project_id t = project_id \<and> \<not> t_is_deleted t \<and>
                    t_id t \<in> set (map (as_object_id e) frontier)) ts"

definition all_blocks :: "task list \<Rightarrow> string set" where
  "all_blocks ts = (\<Union>t \<in> set ts. set (t_blocks t))"

lemma finite_all_blocks [simp]: "finite (all_blocks ts)"
  by (simp add: all_blocks_def)

lemma all_blocks_layer: "all_blocks (layer_docs e pid fr ts) \<subseteq> all_blocks ts"
  by (auto simp: all_blocks_def layer_docs_def coll_find_def)

lemma scan_neighbors_Inr:
  "scan_neighbors src cur ns (v, p, n) = Inr (v', p', n') \<Longrightarrow>
   v' = v \<union> set ns \<and> src \<notin> set ns \<and> (\<exists>m. n' = n @ m \<and> set m = set ns - v)"
proof (induction src cur ns "(v, p, n)" arbitrary: v p n rule: scan_neighbors.induct)
  case (1 src cur)
  then show ?case by simp
next
  case (2 src cur x ns v p n)
  show ?case
  proof (cases "x \<in> v")
    case True
    with 2 show ?thesis by (auto split: if_splits)
  next
    case False
    with 2 obtain m where "v' = insert x v \<union> set ns" "src \<notin> set ns" "src \<noteq> x"
      "n' = (n @ [x]) @ m" "set m = set ns - insert x v"
      by (fastforce split: if_splits)
    then have "n' = n @ (x # m)" "set (x # m) = set (x # ns) - v" "v' = v \<union> set (x # ns)"
      "src \<notin> set (x # ns)"
      using False by auto
    then show ?thesis by blast
  qed
qed

lemma scan_layer_Inr:
  "scan_layer src ds (v, p, n) = Inr (v', p', n') \<Longrightarrow>
   v' = v \<union> all_blocks ds \<and> src \<notin> all_blocks ds \<and> (\<exists>m. n' = n @ m \<and> set m = all_blocks ds - v)"
proof (induction ds arbitrary: v p n)
  case Nil
  then show ?case by (simp add: all_blocks_def)
next
  case (Cons d ds)
  from Cons.prems obtain v1 p1 n1 where
    1: "scan_neighbors src (t_id d) (t_blocks d) (v, p, n) = Inr (v1, p1, n1)" and
    2: "scan_layer src ds (v1, p1, n1) = Inr (v', p', n')"
    by (auto split: sum.splits)
  from scan_neighbors_Inr [OF 1] obtain m1 where
    a: "v1 = v \<union> set (t_blocks d)" "src \<notin> set (t_blocks d)" "n1 = n @ m1" "set m1 = set (t_blocks d) - v"
    by blast
  from Cons.IH [OF 2] obtain m2 where
    b: "v' = v1 \<union> all_blocks ds" "src \<notin> all_blocks ds" "n' = n1 @ m2" "set m2 = all_blocks ds - v1"
    by blast
  have "n' = n @ (m1 @ m2)" and "set (m1 @ m2) = all_blocks (d # ds) - v"
    using a b by (auto simp: all_blocks_def)
  then show ?case using a b by (auto simp: all_blocks_def)
qed

function bfs_layers ::
  "env \<Rightarrow> string \<Rightarrow> string \<Rightarrow> task list \<Rightarrow> string set \<Rightarrow> (string \<times> string) list \<Rightarrow> string list \<Rightarrow> string list option"
where
  "bfs_layers e project_id source_id ts visited predecessor frontier =
     (if frontier = [] then None
      else case scan_layer source_id (layer_docs e project_id frontier ts) (visited, predecessor, []) of
        Inl path \<Rightarrow> Some path
      | Inr (visited', predecessor', next_frontier) \<Rightarrow>
          bfs_layers e project_id source_id ts visited' predecessor' next_frontier)"
  by pat_completeness auto

lemma bfs_layers_decreases:
  assumes "fr \<noteq> []" and s: "scan_layer src (layer_docs e pid fr ts) (v, p, []) = Inr (v', p', n')"
  shows "card (all_blocks ts - v') + (if n' = [] then 0 else 1) < card (all_blocks ts - v) + 1"
proof (cases "n' = []")
  case True
  have "card (all_blocks ts - v') \<le> card (all_blocks ts - v)"
    using scan_layer_Inr [OF s] by (intro card_mono) auto
  with True show ?thesis by simp
next
  case False
  let ?B = "all_blocks (layer_docs e pid fr ts)"
  from scan_layer_Inr [OF s] have v': "v' = v \<union> ?B" and n': "set n' = ?B - v" by auto
  from False obtain x where "x \<in> set n'" by (cases n') auto
  with n' all_blocks_layer have "x \<in> all_blocks ts - v" "x \<notin> all_blocks ts - v'"
    using v' by blast+
  moreover have "all_blocks ts - v' \<subseteq> all_blocks ts - v" using v' by auto
  ultimately have "all_blocks ts - v' \<subset> all_blocks ts - v" by blast
  then have "card (all_blocks ts - v') < card (all_blocks ts - v)"
    by (intro psubset_card_mono) auto
  with False show ?thesis by simp
qed

termination bfs_layers
  by (relation "measure (\<lambda>(e, pid, src, ts, v, p, fr). card (all_blocks ts - v) + (if fr = [] then 0 else 1))")
    (use bfs_layers_decreases in \<open>auto simp del: scan_layer.simps split: if_splits\<close>)

declare bfs_layers.simps [simp del]

definition has_cycle :: "env \<Rightarrow> string \<Rightarrow> string \<Rightarrow> string \<Rightarrow> task list \<Rightarrow> string list option" where
  "has_cycle e project_id source_id target_id ts =
     (if source_id = target_id then Some [source_id]
      else bfs_layers e project_id source_id ts {target_id} [] [target_id])"

section \<open>The search decides reachability\<close>

text \<open>The \<open>blocks\<close> edges of the live tasks of one project, and paths along a relation.\<close>

definition blocks_edges :: "string \<Rightarrow> task list \<Rightarrow> (string \<times> string) set" where
  "blocks_edges pid ts =
     {(t_id t, y) | t y. t \<in> set ts \<and> t_project_id t = pid \<and> \<not> t_is_deleted t \<and> y \<in> set (t_blocks t)}"

lemma blocks_edges_iff:
  "(a, b) \<in> blocks_edges pid ts \<longleftrightarrow>
     (\<exists>t \<in> set ts. t_id t = a \<and> t_project_id t = pid \<and> \<not> t_is_deleted t \<and> b \<in> set (t_blocks t))"
  by (auto simp: blocks_edges_def)

fun is_path :: "('a \<times> 'a) set \<Rightarrow> 'a list \<Rightarrow> bool" where
  "is_path E [] = False"
| "is_path E [x] = True"
| "is_path E (x # y # zs) = ((x, y) \<in> E \<and> is_path E (y # zs))"

lemma is_path_append: "xs \<noteq> [] \<Longrightarrow> ys \<noteq> [] \<Longrightarrow>
    is_path E (xs @ ys) \<longleftrightarrow> is_path E xs \<and> is_path E ys \<and> (last xs, hd ys) \<in> E"
  by (induction E xs rule: is_path.induct) (auto simp: neq_Nil_conv)

lemma is_path_rev: "is_path (E\<inverse>) xs \<longleftrightarrow> is_path E (rev xs)"
proof (induction "E\<inverse>" xs rule: is_path.induct)
  case (3 x y zs)
  have "is_path E (rev (y # zs) @ [x]) \<longleftrightarrow> is_path E (rev (y # zs)) \<and> (y, x) \<in> E"
    by (subst is_path_append) auto
  with 3 show ?case by auto
qed auto

lemma is_path_rtrancl: "is_path E xs \<Longrightarrow> (hd xs, last xs) \<in> E\<^sup>*"
  by (induction E xs rule: is_path.induct) (auto intro: converse_rtrancl_into_rtrancl)

lemma is_path_trancl: "is_path E xs \<Longrightarrow> hd xs \<noteq> last xs \<Longrightarrow> (hd xs, last xs) \<in> E\<^sup>+"
  by (metis is_path_rtrancl rtranclD)

text \<open>
  The predecessor dictionary: every entry is an edge taken backwards, to a node that was
  discovered before it.
\<close>

fun pred_ok :: "string \<Rightarrow> (string \<times> string) set \<Rightarrow> (string \<times> string) list \<Rightarrow> bool" where
  "pred_ok tgt E [] = True"
| "pred_ok tgt E ((x, c) # p) =
     ((c, x) \<in> E \<and> x \<noteq> tgt \<and> x \<notin> fst ` set p \<and> c \<in> insert tgt (fst ` set p) \<and> pred_ok tgt E p)"

lemma pred_ok_range: "pred_ok tgt E p \<Longrightarrow> snd ` set p \<subseteq> insert tgt (fst ` set p)"
  by (induction tgt E p rule: pred_ok.induct) auto

lemma pred_ok_start: "pred_ok tgt E p \<Longrightarrow> map_of p tgt = None"
  by (induction tgt E p rule: pred_ok.induct) auto

lemma walk_back_skip:
  "x \<notin> snd ` set p \<Longrightarrow> k \<noteq> x \<Longrightarrow> walk_back n ((x, c) # p) k = walk_back n p k"
proof (induction n arbitrary: k)
  case (Suc n)
  show ?case
  proof (cases "map_of p k")
    case None
    with Suc.prems show ?thesis by simp
  next
    case (Some d)
    then have "d \<noteq> x" using Suc.prems(1) map_of_SomeD [OF Some] by force
    with Some Suc show ?thesis by simp
  qed
qed simp

lemma walk_back_path:
  assumes "pred_ok tgt E p" and "cur \<in> insert tgt (fst ` set p)" and "length p \<le> n"
  shows "is_path (E\<inverse>) (cur # walk_back n p cur) \<and> last (cur # walk_back n p cur) = tgt"
  using assms
proof (induction p arbitrary: cur n)
  case Nil
  then show ?case by (cases n) auto
next
  case (Cons xc p)
  obtain x c where xc: "xc = (x, c)" by force
  from Cons.prems(1) xc have p: "pred_ok tgt E p" and c: "c \<in> insert tgt (fst ` set p)"
    and E: "(c, x) \<in> E" and x: "x \<noteq> tgt" "x \<notin> fst ` set p" by auto
  then have x_snd: "x \<notin> snd ` set p" and "c \<noteq> x" using pred_ok_range [OF p] by auto
  from Cons.prems(3) obtain m where n: "n = Suc m" "length p \<le> m" by (cases n) auto
  show ?case
  proof (cases "cur = x")
    case True
    have "walk_back n (xc # p) cur = c # walk_back m p c"
      using walk_back_skip [OF x_snd \<open>c \<noteq> x\<close>, of m] by (simp add: n xc True)
    moreover have "is_path (E\<inverse>) (c # walk_back m p c) \<and> last (c # walk_back m p c) = tgt"
      by (rule Cons.IH [OF p c n(2)])
    ultimately show ?thesis using E True by auto
  next
    case False
    with Cons.prems(2) xc have "cur \<in> insert tgt (fst ` set p)" by auto
    moreover have "length p \<le> n" using n by simp
    ultimately show ?thesis
      using Cons.IH [OF p, of cur n] walk_back_skip [OF x_snd False, of n] xc by simp
  qed
qed

text \<open>What the search keeps true while it scans the documents of a layer.\<close>

definition scan_inv :: "string \<Rightarrow> (string \<times> string) set \<Rightarrow> bfs_state \<Rightarrow> bool" where
  "scan_inv tgt E st = (case st of (v, p, n) \<Rightarrow> pred_ok tgt E p \<and> v = insert tgt (fst ` set p))"

lemma scan_neighbors_inv:
  assumes "scan_inv tgt E st" and "cur \<in> fst st" and "\<forall>y \<in> set ns. (cur, y) \<in> E"
  shows "case scan_neighbors src cur ns st of
           Inl path \<Rightarrow> is_path E path \<and> hd path = tgt \<and> last path = src
         | Inr st' \<Rightarrow> scan_inv tgt E st' \<and> fst st \<subseteq> fst st'"
  using assms
proof (induction src cur ns st rule: scan_neighbors.induct)
  case (2 src cur x ns v p n)
  show ?case
  proof (cases "x = src")
    case True
    let ?w = "cur # walk_back (length p) p cur"
    from "2.prems" have "is_path (E\<inverse>) ?w" "last ?w = tgt"
      using walk_back_path [of tgt E p cur "length p"] by (auto simp: scan_inv_def)
    then have "is_path E (rev ?w)" "hd (rev ?w) = tgt" by (simp_all only: is_path_rev hd_rev)
    moreover have "(cur, src) \<in> E" using "2.prems" True by auto
    ultimately show ?thesis
      using True by (auto simp: is_path_append [of "rev ?w" "[src]", simplified] hd_append)
  next
    case False
    show ?thesis
    proof (cases "x \<in> v")
      case True
      with False "2.IH"(1) "2.prems" show ?thesis by simp
    next
      case new: False
      from "2.prems" new have "scan_inv tgt E (insert x v, (x, cur) # p, n @ [x])"
        by (auto simp: scan_inv_def)
      with False new "2.IH"(2) "2.prems" show ?thesis by (auto split: sum.splits)
    qed
  qed
qed auto

lemma scan_layer_inv:
  assumes "scan_inv tgt E st" and "\<forall>d \<in> set ds. t_id d \<in> fst st"
    and "\<forall>d \<in> set ds. \<forall>y \<in> set (t_blocks d). (t_id d, y) \<in> E"
  shows "case scan_layer src ds st of
           Inl path \<Rightarrow> is_path E path \<and> hd path = tgt \<and> last path = src
         | Inr st' \<Rightarrow> scan_inv tgt E st' \<and> fst st \<subseteq> fst st'"
  using assms
proof (induction src ds st rule: scan_layer.induct)
  case (2 src d ds st)
  have d: "case scan_neighbors src (t_id d) (t_blocks d) st of
             Inl path \<Rightarrow> is_path E path \<and> hd path = tgt \<and> last path = src
           | Inr st' \<Rightarrow> scan_inv tgt E st' \<and> fst st \<subseteq> fst st'"
    using "2.prems" by (intro scan_neighbors_inv) auto
  show ?case
  proof (cases "scan_neighbors src (t_id d) (t_blocks d) st")
    case (Inl path)
    with d show ?thesis by simp
  next
    case (Inr st1)
    with d have st1: "scan_inv tgt E st1" "fst st \<subseteq> fst st1" by auto
    have "case scan_layer src ds st1 of
            Inl path \<Rightarrow> is_path E path \<and> hd path = tgt \<and> last path = src
          | Inr st' \<Rightarrow> scan_inv tgt E st' \<and> fst st1 \<subseteq> fst st'"
      using "2.IH" [OF Inr] st1 "2.prems" by auto
    with Inr st1 show ?thesis by (auto split: sum.splits)
  qed
qed simp

text \<open>
  The identifiers stored in \<open>blocks\<close> are written in the form the database prints, so that a
  query for them finds the document they name.
\<close>

definition canon_blocks :: "env \<Rightarrow> task list \<Rightarrow> bool" where
  "canon_blocks e ts \<longleftrightarrow> (\<forall>x \<in> all_blocks ts. as_object_id e x = x)"

definition bfs_inv ::
  "env \<Rightarrow> string \<Rightarrow> string \<Rightarrow> string \<Rightarrow> task list \<Rightarrow> string set \<Rightarrow> (string \<times> string) list \<Rightarrow> string list \<Rightarrow> bool"
where
  "bfs_inv e pid src tgt ts v p fr \<longleftrightarrow>
     scan_inv tgt (blocks_edges pid ts) (v, p, []) \<and> set fr \<subseteq> v \<and> src \<notin> v \<and>
     (\<forall>x y. x \<in> v - set fr \<longrightarrow> (x, y) \<in> blocks_edges pid ts \<longrightarrow> y \<in> v) \<and>
     (\<forall>x \<in> set fr. as_object_id e x = x)"

lemma layer_docs_frontier:
  "\<forall>x \<in> set fr. as_object_id e x = x \<Longrightarrow>
   d \<in> set (layer_docs e pid fr ts) \<longleftrightarrow> d \<in> set ts \<and> t_project_id d = pid \<and> \<not> t_is_deleted d \<and> t_id d \<in> set fr"
  by (auto simp: layer_docs_def coll_find_def image_iff)

lemma bfs_inv_step:
  assumes inv: "bfs_inv e pid src tgt ts v p fr" and canon: "canon_blocks e ts"
    and s: "scan_layer src (layer_docs e pid fr ts) (v, p, []) = Inr (v', p', n')"
  shows "bfs_inv e pid src tgt ts v' p' n'"
proof -
  let ?E = "blocks_edges pid ts" and ?ds = "layer_docs e pid fr ts"
  have fr: "\<forall>x \<in> set fr. as_object_id e x = x" using inv by (simp add: bfs_inv_def)
  note ds = layer_docs_frontier [OF fr, of _ pid ts]
  have "case scan_layer src ?ds (v, p, []) of
          Inl path \<Rightarrow> is_path ?E path \<and> hd path = tgt \<and> last path = src
        | Inr st' \<Rightarrow> scan_inv tgt ?E st' \<and> fst (v, p, [] :: string list) \<subseteq> fst st'"
    using inv ds by (intro scan_layer_inv) (auto simp: bfs_inv_def blocks_edges_def)
  with s have a: "scan_inv tgt ?E (v', p', [])" by (simp add: scan_inv_def)
  from scan_layer_Inr [OF s] have b: "v' = v \<union> all_blocks ?ds" "src \<notin> all_blocks ?ds" "set n' = all_blocks ?ds - v"
    by auto
  have "y \<in> v'" if x: "x \<in> v' - set n'" and xy: "(x, y) \<in> ?E" for x y
  proof (cases "x \<in> set fr")
    case True
    from xy obtain t where "t \<in> set ts" "t_id t = x" "t_project_id t = pid" "\<not> t_is_deleted t" "y \<in> set (t_blocks t)"
      by (auto simp: blocks_edges_def)
    with True ds have "y \<in> all_blocks ?ds" by (auto simp: all_blocks_def)
    with b show ?thesis by simp
  next
    case False
    with x b xy inv have "y \<in> v" unfolding bfs_inv_def by blast
    with b show ?thesis by simp
  qed
  moreover have "\<forall>x \<in> set n'. as_object_id e x = x"
    using b(3) all_blocks_layer [of e pid fr ts] canon by (auto simp: canon_blocks_def)
  ultimately show ?thesis using a b inv by (auto simp: bfs_inv_def)
qed

lemma bfs_layers_correct:
  assumes "canon_blocks e ts" and "bfs_inv e pid src tgt ts v p fr"
  shows "case bfs_layers e pid src ts v p fr of
           None \<Rightarrow> (tgt, src) \<notin> (blocks_edges pid ts)\<^sup>*
         | Some path \<Rightarrow> is_path (blocks_edges pid ts) path \<and> hd path = tgt \<and> last path = src"
  using assms
proof (induction e pid src ts v p fr rule: bfs_layers.induct)
  case (1 e pid src ts v p fr)
  let ?E = "blocks_edges pid ts"
  show ?case
  proof (cases "fr = []")
    case True
    have "src \<in> v" if "(tgt, src) \<in> ?E\<^sup>*"
      using that by (rule closed_rtrancl) (use "1.prems"(2) True in \<open>auto simp: bfs_inv_def scan_inv_def\<close>)
    moreover have "bfs_layers e pid src ts v p fr = None"
      using True by (subst bfs_layers.simps) simp
    ultimately show ?thesis using "1.prems"(2) by (auto simp: bfs_inv_def)
  next
    case False
    show ?thesis
    proof (cases "scan_layer src (layer_docs e pid fr ts) (v, p, [])")
      case (Inl path)
      have fr: "\<forall>x \<in> set fr. as_object_id e x = x" using "1.prems"(2) by (simp add: bfs_inv_def)
      have "case scan_layer src (layer_docs e pid fr ts) (v, p, []) of
              Inl path \<Rightarrow> is_path ?E path \<and> hd path = tgt \<and> last path = src
            | Inr st' \<Rightarrow> scan_inv tgt ?E st' \<and> fst (v, p, [] :: string list) \<subseteq> fst st'"
        using "1.prems"(2) layer_docs_frontier [OF fr, of _ pid ts]
        by (intro scan_layer_inv) (auto simp: bfs_inv_def blocks_edges_def)
      with Inl False show ?thesis by (simp add: bfs_layers.simps [of e pid src ts v p fr])
    next
      case (Inr st)
      obtain v' p' n' where st: "st = (v', p', n')" by (cases st)
      from bfs_inv_step [OF "1.prems"(2,1)] Inr st have "bfs_inv e pid src tgt ts v' p' n'" by simp
      with "1.IH" [OF False Inr st [symmetric] refl] "1.prems"(1)
      show ?thesis using Inr False st by (simp add: bfs_layers.simps [of e pid src ts v p fr])
    qed
  qed
qed

lemma bfs_inv_start: "src \<noteq> tgt \<Longrightarrow> as_object_id e tgt = tgt \<Longrightarrow> bfs_inv e pid src tgt ts {tgt} [] [tgt]"
  by (auto simp: bfs_inv_def scan_inv_def)

lemma has_cycle_None:
  assumes "canon_blocks e ts" and "as_object_id e tgt = tgt" and "has_cycle e pid src tgt ts = None"
  shows "src \<noteq> tgt \<and> (tgt, src) \<notin> (blocks_edges pid ts)\<^sup>*"
  using assms bfs_layers_correct [OF assms(1) bfs_inv_start [OF _ assms(2)], of src pid]
  by (auto simp: has_cycle_def split: if_splits)

lemma has_cycle_Some:
  assumes "canon_blocks e ts" and "as_object_id e tgt = tgt" and "has_cycle e pid src tgt ts = Some path"
  shows "is_path (blocks_edges pid ts) path \<and> hd path = tgt \<and> last path = src"
  using assms bfs_layers_correct [OF assms(1) bfs_inv_start [OF _ assms(2)], of src pid]
  by (auto simp: has_cycle_def split: if_splits)

section \<open>The walk up the parent chain\<close>

definition find_live :: "env \<Rightarrow> string \<Rightarrow> string \<Rightarrow> task list \<Rightarrow> task option" where
  "find_live e project_id tid ts =
     List.find (\<lambda>t. t_id t = as_object_id e tid \<and> t_project_id t = project_id \<and> \<not> t_is_deleted t) ts"

definition all_parents :: "task list \<Rightarrow> string set" where
  "all_parents ts = (\<Union>t \<in> set ts. set_option (t_parent_task_id t))"

lemma finite_all_parents [simp]: "finite (all_parents ts)"
  by (simp add: all_parents_def)

lemma find_live_in:
  "find_live e pid tid ts = Some d \<Longrightarrow>
     d \<in> set ts \<and> t_id d = as_object_id e tid \<and> t_project_id d = pid \<and> \<not> t_is_deleted d"
  by (auto simp: find_live_def find_Some_iff)

function parent_walk ::
  "env \<Rightarrow> string \<Rightarrow> string \<Rightarrow> task list \<Rightarrow> string set \<Rightarrow> string list \<Rightarrow> string option \<Rightarrow> string list option"
where
  "parent_walk e project_id task_id ts visited chain current =
     (case current of
        None \<Rightarrow> None
      | Some c \<Rightarrow>
          if c \<in> visited then None
          else if c = task_id then Some (rev (chain @ [c]))
          else case find_live e project_id c ts of
            None \<Rightarrow> None
          | Some doc \<Rightarrow>
              parent_walk e project_id task_id ts (insert c visited) (chain @ [c]) (t_parent_task_id doc))"
  by pat_completeness auto

lemma parent_walk_decreases:
  assumes "c \<notin> v" and "find_live e pid c ts = Some d"
  shows "card (all_parents ts \<union> set_option (t_parent_task_id d) - insert c v) < card (all_parents ts \<union> {c} - v)"
proof (rule psubset_card_mono)
  have "set_option (t_parent_task_id d) \<subseteq> all_parents ts"
    using find_live_in [OF assms(2)] by (auto simp: all_parents_def)
  then show "all_parents ts \<union> set_option (t_parent_task_id d) - insert c v \<subset> all_parents ts \<union> {c} - v"
    using assms(1) by blast
qed simp

termination parent_walk
  by (relation "measure (\<lambda>(e, pid, tid, ts, v, ch, cur). card (all_parents ts \<union> set_option cur - v))")
    (use parent_walk_decreases in auto)

declare parent_walk.simps [simp del]

definition has_parent_cycle :: "env \<Rightarrow> string \<Rightarrow> string \<Rightarrow> string \<Rightarrow> task list \<Rightarrow> string list option" where
  "has_parent_cycle e project_id task_id new_parent_id ts =
     (if task_id = new_parent_id then Some [task_id]
      else parent_walk e project_id task_id ts {} [] (Some new_parent_id))"

text \<open>The parent edges of the live tasks of one project.\<close>

definition parent_edges :: "string \<Rightarrow> task list \<Rightarrow> (string \<times> string) set" where
  "parent_edges pid ts =
     {(t_id t, q) | t q. t \<in> set ts \<and> t_project_id t = pid \<and> \<not> t_is_deleted t \<and> t_parent_task_id t = Some q}"

definition canon_parents :: "env \<Rightarrow> task list \<Rightarrow> bool" where
  "canon_parents e ts \<longleftrightarrow> (\<forall>x \<in> all_parents ts. as_object_id e x = x)"

lemma keys_distinct_eq:
  "keys_distinct t_id ts \<Longrightarrow> t \<in> set ts \<Longrightarrow> u \<in> set ts \<Longrightarrow> t_id t = t_id u \<Longrightarrow> t = u"
  by (rule task_store.docs_key_unique)

lemma parent_edges_find:
  assumes "keys_distinct t_id ts" and "as_object_id e c = c"
  shows "(c, q) \<in> parent_edges pid ts \<longleftrightarrow> (\<exists>d. find_live e pid c ts = Some d \<and> t_parent_task_id d = Some q)"
proof
  assume "(c, q) \<in> parent_edges pid ts"
  then obtain t where t: "t \<in> set ts" "t_id t = c" "t_project_id t = pid" "\<not> t_is_deleted t" "t_parent_task_id t = Some q"
    by (auto simp: parent_edges_def)
  then have "find_live e pid c ts \<noteq> None"
    using assms(2) by (auto simp: find_live_def find_None_iff)
  then obtain d where d: "find_live e pid c ts = Some d" by blast
  with find_live_in [OF d] t assms have "d = t" by (auto intro: keys_distinct_eq)
  with d t show "\<exists>d. find_live e pid c ts = Some d \<and> t_parent_task_id d = Some q" by blast
next
  assume "\<exists>d. find_live e pid c ts = Some d \<and> t_parent_task_id d = Some q"
  then show "(c, q) \<in> parent_edges pid ts"
    using assms(2) by (force simp: parent_edges_def dest: find_live_in)
qed

text \<open>
  The walk's invariant: the chain is a path of parent edges that starts at the proposed
  parent, does not hold the task, and is closed under parent edges but for the node the walk
  stands at.
\<close>

definition walk_inv :: "(string \<times> string) set \<Rightarrow> string \<Rightarrow> string \<Rightarrow> string set \<Rightarrow> string list \<Rightarrow> string option \<Rightarrow> bool" where
  "walk_inv P tid start v chain cur \<longleftrightarrow>
     v = set chain \<and> tid \<notin> v \<and> (start \<in> v \<or> chain = [] \<and> cur = Some start) \<and>
     (\<forall>x y. x \<in> v \<longrightarrow> (x, y) \<in> P \<longrightarrow> y \<in> v \<or> cur = Some y) \<and>
     (\<forall>c. cur = Some c \<longrightarrow> is_path P (chain @ [c]) \<and> hd (chain @ [c]) = start)"

lemma walk_inv_stuck:
  assumes "walk_inv P tid start v chain cur" and "cur = None \<or> cur = Some c \<and> c \<in> v"
  shows "(start, tid) \<notin> P\<^sup>*"
proof
  assume "(start, tid) \<in> P\<^sup>*"
  moreover have "start \<in> v" using assms by (auto simp: walk_inv_def)
  ultimately have "tid \<in> v"
    by (rule closed_rtrancl) (use assms in \<open>auto simp: walk_inv_def\<close>)
  with assms(1) show False unfolding walk_inv_def by blast
qed

lemma walk_inv_broken:
  assumes inv: "walk_inv P tid start v chain (Some c)" and "c \<noteq> tid" and no: "\<And>q. (c, q) \<notin> P"
  shows "(start, tid) \<notin> P\<^sup>*"
proof
  assume "(start, tid) \<in> P\<^sup>*"
  moreover have "start \<in> insert c v" using inv by (auto simp: walk_inv_def)
  ultimately have "tid \<in> insert c v"
    by (rule closed_rtrancl) (use inv no in \<open>auto simp: walk_inv_def\<close>)
  with assms(2) have "tid \<in> v" by simp
  with inv show False unfolding walk_inv_def by blast
qed

lemma walk_inv_step:
  assumes inv: "walk_inv P tid start v chain (Some c)" and "c \<noteq> tid"
    and next_edge: "\<And>q. (c, q) \<in> P \<longleftrightarrow> par = Some q"
  shows "walk_inv P tid start (insert c v) (chain @ [c]) par"
proof -
  have "is_path P ((chain @ [c]) @ [q]) \<and> hd ((chain @ [c]) @ [q]) = start" if "par = Some q" for q
    using inv that next_edge [of q] is_path_append [of "chain @ [c]" "[q]" P] by (auto simp: walk_inv_def hd_append)
  with assms show ?thesis by (auto simp: walk_inv_def)
qed

lemma parent_walk_correct:
  assumes "keys_distinct t_id ts" and "canon_parents e ts" and "\<forall>c. cur = Some c \<longrightarrow> as_object_id e c = c"
    and "walk_inv (parent_edges pid ts) tid start v chain cur"
  shows "case parent_walk e pid tid ts v chain cur of
           None \<Rightarrow> (start, tid) \<notin> (parent_edges pid ts)\<^sup>*
         | Some path \<Rightarrow> is_path (parent_edges pid ts) (rev path) \<and> hd path = tid \<and> last path = start"
  using assms
proof (induction e pid tid ts v chain cur rule: parent_walk.induct)
  case (1 e pid tid ts v chain cur)
  note unfold = parent_walk.simps [of e pid tid ts v chain cur]
  let ?P = "parent_edges pid ts"
  show ?case
  proof (cases cur)
    case None
    then show ?thesis using walk_inv_stuck [OF "1.prems"(4)] unfolding unfold by auto
  next
    case (Some c)
    note inv = "1.prems"(4) [unfolded Some]
    have c: "as_object_id e c = c" using "1.prems"(3) Some by simp
    consider "c \<in> v" | "c \<notin> v" "c = tid" | "c \<notin> v" "c \<noteq> tid" by blast
    then show ?thesis
    proof cases
      case 1
      with Some show ?thesis using walk_inv_stuck [OF "1.prems"(4)] unfolding unfold by auto
    next
      case 2
      then have "is_path ?P (chain @ [c])" "hd (chain @ [c]) = start"
        using inv by (auto simp: walk_inv_def)
      with 2 Some show ?thesis unfolding unfold by (auto simp: last_rev hd_append split: if_splits)
    next
      case 3
      note edge = parent_edges_find [OF "1.prems"(1) c, of _ pid]
      show ?thesis
      proof (cases "find_live e pid c ts")
        case None
        with edge walk_inv_broken [OF inv 3(2)] have "(start, tid) \<notin> ?P\<^sup>*" by auto
        with 3 Some None show ?thesis unfolding unfold by simp
      next
        case doc: (Some d)
        have "walk_inv ?P tid start (insert c v) (chain @ [c]) (t_parent_task_id d)"
          by (rule walk_inv_step [OF inv 3(2)]) (simp add: edge doc)
        moreover have "\<forall>q. t_parent_task_id d = Some q \<longrightarrow> as_object_id e q = q"
          using "1.prems"(2) find_live_in [OF doc] by (force simp: canon_parents_def all_parents_def)
        ultimately show ?thesis
          using "1.IH" [OF Some 3 doc] "1.prems"(1,2) 3 Some doc unfolding unfold by simp
      qed
    qed
  qed
qed

lemma walk_inv_start: "walk_inv P tid start {} [] (Some start)"
  by (simp add: walk_inv_def)

lemma has_parent_cycle_None:
  assumes "keys_distinct t_id ts" and "canon_parents e ts" and "as_object_id e q = q"
    and "has_parent_cycle e pid tid q ts = None"
  shows "tid \<noteq> q \<and> (q, tid) \<notin> (parent_edges pid ts)\<^sup>*"
  using assms parent_walk_correct [OF assms(1,2) _ walk_inv_start, of q tid pid]
  by (auto simp: has_parent_cycle_def split: if_splits)

lemma has_parent_cycle_Some:
  assumes "keys_distinct t_id ts" and "canon_parents e ts" and "as_object_id e q = q"
    and "has_parent_cycle e pid tid q ts = Some path"
  shows "is_path (parent_edges pid ts) (rev path) \<and> hd path = tid \<and> last path = q"
  using assms parent_walk_correct [OF assms(1,2) _ walk_inv_start, of q tid pid]
  by (auto simp: has_parent_cycle_def split: if_splits)

section \<open>Properties\<close>

text \<open>
  C14. The cycle check of \<open>link\<close> is exact when the target and the \<open>blocks\<close> lists of the stored tasks are
  spelled canonically (another spelling of the target is not found in the graph): it lets the edge from \<open>source_id\<close> to \<open>target_id\<close>
  pass if and only if the two differ and no path of \<open>blocks\<close> edges of live tasks of the
  project leads from \<open>target_id\<close> to \<open>source_id\<close>; and when it refuses, the path it reports is
  a path of the graph from \<open>target_id\<close> to \<open>source_id\<close>.
\<close>

theorem has_cycle_decides:
  assumes "canon_blocks e ts" and "as_object_id e target_id = target_id"
  shows "(has_cycle e pid source_id target_id ts = None \<longleftrightarrow>
            source_id \<noteq> target_id \<and> (target_id, source_id) \<notin> (blocks_edges pid ts)\<^sup>+) \<and>
         (\<forall>path. has_cycle e pid source_id target_id ts = Some path \<longrightarrow>
            is_path (blocks_edges pid ts) path \<and> hd path = target_id \<and> last path = source_id)"
proof (intro conjI allI impI)
  show path: "is_path (blocks_edges pid ts) path" "hd path = target_id" "last path = source_id"
    if "has_cycle e pid source_id target_id ts = Some path" for path
    using has_cycle_Some [OF assms that] by auto
  show "has_cycle e pid source_id target_id ts = None \<longleftrightarrow>
          source_id \<noteq> target_id \<and> (target_id, source_id) \<notin> (blocks_edges pid ts)\<^sup>+"
  proof (cases "has_cycle e pid source_id target_id ts")
    case None
    from has_cycle_None [OF assms None] None show ?thesis by (auto dest: trancl_into_rtrancl)
  next
    case (Some p)
    from path [OF Some] Some show ?thesis by (auto dest: is_path_trancl)
  qed
qed

theorem has_cycle_decides_witness:
  "canon_blocks plain_env demo_tasks \<and>
   (has_cycle plain_env ''p'' ''b'' ''a'' demo_tasks = None \<longleftrightarrow>
      ''b'' \<noteq> ''a'' \<and> (''a'', ''b'') \<notin> (blocks_edges ''p'' demo_tasks)\<^sup>+) \<and>
   has_cycle plain_env ''p'' ''b'' ''a'' demo_tasks \<noteq> None"
proof -
  have c: "canon_blocks plain_env demo_tasks" by (simp add: canon_blocks_def)
  have "(''a'', ''b'') \<in> blocks_edges ''p'' demo_tasks" by (simp add: blocks_edges_iff demo_defs)
  then have "(''a'', ''b'') \<in> (blocks_edges ''p'' demo_tasks)\<^sup>+" by blast
  with c has_cycle_decides [OF c plain_env_as_object_id, of "''p''" "''b''"] show ?thesis by blast
qed

text \<open>
  The parent check is exact: it accepts \<open>new_parent_id\<close> as the parent of \<open>task_id\<close> if and
  only if the two differ and \<open>task_id\<close> is not an ancestor of \<open>new_parent_id\<close> among the live
  tasks of the project, also when the stored chain already loops; the path it reports runs
  from the task down to the proposed parent along stored parent edges.
\<close>

theorem has_parent_cycle_decides:
  assumes "keys_distinct t_id ts" and "canon_parents e ts" and "as_object_id e new_parent_id = new_parent_id"
  shows "(has_parent_cycle e pid task_id new_parent_id ts = None \<longleftrightarrow>
            task_id \<noteq> new_parent_id \<and> (new_parent_id, task_id) \<notin> (parent_edges pid ts)\<^sup>+) \<and>
         (\<forall>path. has_parent_cycle e pid task_id new_parent_id ts = Some path \<longrightarrow>
            is_path (parent_edges pid ts) (rev path) \<and> hd path = task_id \<and> last path = new_parent_id)"
proof (intro conjI allI impI)
  show path: "is_path (parent_edges pid ts) (rev path)" "hd path = task_id" "last path = new_parent_id"
    if "has_parent_cycle e pid task_id new_parent_id ts = Some path" for path
    using has_parent_cycle_Some [OF assms that] by auto
  show "has_parent_cycle e pid task_id new_parent_id ts = None \<longleftrightarrow>
          task_id \<noteq> new_parent_id \<and> (new_parent_id, task_id) \<notin> (parent_edges pid ts)\<^sup>+"
  proof (cases "has_parent_cycle e pid task_id new_parent_id ts")
    case None
    from has_parent_cycle_None [OF assms None] None show ?thesis by (auto dest: trancl_into_rtrancl)
  next
    case (Some p)
    from path(1) [OF Some] have "p \<noteq> []" by auto
    then have "hd (rev p) = new_parent_id" "last (rev p) = task_id" using path [OF Some] by (simp_all add: hd_rev last_rev)
    then have "task_id \<noteq> new_parent_id \<Longrightarrow> (new_parent_id, task_id) \<in> (parent_edges pid ts)\<^sup>+"
      using is_path_trancl [OF path(1) [OF Some]] by simp
    with Some show ?thesis by auto
  qed
qed

theorem has_parent_cycle_decides_witness:
  "keys_distinct t_id demo_tasks \<and> canon_parents plain_env demo_tasks \<and>
   (has_parent_cycle plain_env ''p'' ''a'' ''c'' demo_tasks = None \<longleftrightarrow>
      ''a'' \<noteq> ''c'' \<and> (''c'', ''a'') \<notin> (parent_edges ''p'' demo_tasks)\<^sup>+)"
proof -
  have d: "keys_distinct t_id demo_tasks" by (simp add: keys_distinct_def demo_defs)
  have c: "canon_parents plain_env demo_tasks" by (simp add: canon_parents_def)
  from d c has_parent_cycle_decides [OF d c plain_env_as_object_id, of "''p''" "''a''"] show ?thesis by blast
qed

end
