(* ===== verification/Task_Links.thy ===== *)
theory Task_Links
  imports Link_Search
begin

text \<open>
  Cross-task dependencies (services/task_links.py): \<open>link\<close>, \<open>unlink\<close>, \<open>list_dependents\<close> and
  \<open>cleanup_dependents\<close>, and the invariant of the dependency graph they maintain: the two
  directions of an edge agree on live tasks, no live task is blocked by a missing or deleted
  task, and the \<open>blocks\<close> graph of every project is acyclic.
\<close>

section \<open>Operations\<close>

text \<open>What \<open>link\<close> writes on either side.\<close>

definition link_source :: "env \<Rightarrow> string \<Rightarrow> string \<Rightarrow> task \<Rightarrow> task" where
  "link_source e target_id changed_by source =
     (let old_blocks = t_blocks source; new_blocks = old_blocks @ [target_id]
      in record_change ''blocks'' (Some (py_str_list old_blocks)) (Some (py_str_list new_blocks))
           changed_by Human (now e) (source\<lparr>t_blocks := new_blocks\<rparr>))"

definition link_target :: "env \<Rightarrow> string \<Rightarrow> string \<Rightarrow> task \<Rightarrow> task" where
  "link_target e source_id changed_by target =
     (let old_blocked_by = t_blocked_by target;
          new_blocked_by = (if source_id \<notin> set old_blocked_by then old_blocked_by @ [source_id] else old_blocked_by)
      in record_change ''blocked_by'' (Some (py_str_list old_blocked_by)) (Some (py_str_list new_blocked_by))
           changed_by Human (now e) (target\<lparr>t_blocked_by := new_blocked_by\<rparr>))"

definition link :: "env \<Rightarrow> string \<Rightarrow> string \<Rightarrow> string \<Rightarrow> string \<Rightarrow> (world, task \<times> task) prog" where
  "link e source_id target_id relation changed_by =
     bindP (guard (relation = ''blocks'') (ValueError (''Unsupported relation: '' @ py_repr relation))) (\<lambda>_.
     bindP (guard (source_id \<noteq> target_id) (TaskLinkError ''A task cannot block itself'' (SelfReferenceError source_id))) (\<lambda>_.
     bindP (task_get e source_id) (\<lambda>source0.
     bindP (task_get e target_id) (\<lambda>target0.
     bindP (some_or (not_deleted source0) (TaskLinkError ''Source task not found'' (TargetNotFoundError source_id))) (\<lambda>source.
     bindP (some_or (not_deleted target0) (TaskLinkError ''Target task not found'' (TargetNotFoundError target_id))) (\<lambda>target.
     bindP (guard (t_project_id source = t_project_id target)
              (TaskLinkError ''Cross-project links are not supported'' (CrossProjectError (t_project_id source) (t_project_id target)))) (\<lambda>_.
     bindP (guard (target_id \<notin> set (t_blocks source))
              (TaskLinkError ''Link already exists'' (DuplicateLinkError source_id target_id))) (\<lambda>_.
     bindP (gets (\<lambda>w. has_cycle e (t_project_id source) source_id target_id (w_tasks w))) (\<lambda>cycle_path.
     bindP (case cycle_path of None \<Rightarrow> return () | Some path \<Rightarrow> raise (TaskLinkError ''Adding this link would create a cycle'' (CycleError path))) (\<lambda>_.
     bindP (save_updated e (link_source e target_id changed_by source)) (\<lambda>source'.
     bindP (save_updated e (link_target e source_id changed_by target)) (\<lambda>target'.
     return (source', target')))))))))))))"

text \<open>\<open>unlink\<close> records a change on a side only where its list really changes.\<close>

definition unlink_source :: "env \<Rightarrow> string \<Rightarrow> string \<Rightarrow> task \<Rightarrow> task" where
  "unlink_source e target_id changed_by source =
     (let old_blocks = t_blocks source;
          new_blocks = filter (\<lambda>t. t \<noteq> target_id) old_blocks;
          source' = source\<lparr>t_blocks := new_blocks\<rparr>
      in if old_blocks \<noteq> new_blocks
         then record_change ''blocks'' (Some (py_str_list old_blocks)) (Some (py_str_list new_blocks))
                changed_by Human (now e) source'
         else source')"

definition unlink_target :: "env \<Rightarrow> string \<Rightarrow> string \<Rightarrow> task \<Rightarrow> task" where
  "unlink_target e source_id changed_by target =
     (let old_blocked_by = t_blocked_by target;
          new_blocked_by = filter (\<lambda>s. s \<noteq> source_id) old_blocked_by;
          target' = target\<lparr>t_blocked_by := new_blocked_by\<rparr>
      in if old_blocked_by \<noteq> new_blocked_by
         then record_change ''blocked_by'' (Some (py_str_list old_blocked_by)) (Some (py_str_list new_blocked_by))
                changed_by Human (now e) target'
         else target')"

definition unlink :: "env \<Rightarrow> string \<Rightarrow> string \<Rightarrow> string \<Rightarrow> string \<Rightarrow> (world, task \<times> task) prog" where
  "unlink e source_id target_id relation changed_by =
     bindP (guard (relation = ''blocks'') (ValueError (''Unsupported relation: '' @ py_repr relation))) (\<lambda>_.
     bindP (task_get e source_id) (\<lambda>source0.
     bindP (task_get e target_id) (\<lambda>target0.
     bindP (some_or (not_deleted source0) (TaskLinkError ''Link not found (task missing or deleted)'' (LinkNotFoundError source_id target_id))) (\<lambda>source.
     bindP (some_or (not_deleted target0) (TaskLinkError ''Link not found (task missing or deleted)'' (LinkNotFoundError source_id target_id))) (\<lambda>target.
     bindP (guard (target_id \<in> set (t_blocks source) \<or> source_id \<in> set (t_blocked_by target))
              (TaskLinkError ''Link not found'' (LinkNotFoundError source_id target_id))) (\<lambda>_.
     bindP (save_updated e (unlink_source e target_id changed_by source)) (\<lambda>source'.
     bindP (save_updated e (unlink_target e source_id changed_by target)) (\<lambda>target'.
     return (source', target')))))))))"

definition list_dependents :: "string \<Rightarrow> string \<Rightarrow> (world, task list) prog" where
  "list_dependents project_id task_id =
     query_tasks (\<lambda>t. t_project_id t = project_id \<and> \<not> t_is_deleted t \<and> task_id \<in> set (t_blocked_by t))"

definition purge_blocked_by :: "env \<Rightarrow> string \<Rightarrow> string \<Rightarrow> task \<Rightarrow> task" where
  "purge_blocked_by e task_id changed_by dep =
     (let new = filter (\<lambda>b. b \<noteq> task_id) (t_blocked_by dep)
      in record_change ''blocked_by'' (Some (py_str_list (t_blocked_by dep))) (Some (py_str_list new))
           changed_by Human (now e) (dep\<lparr>t_blocked_by := new\<rparr>))"

definition cleanup_dependents :: "env \<Rightarrow> string \<Rightarrow> string \<Rightarrow> string \<Rightarrow> (world, task list) prog" where
  "cleanup_dependents e task_id project_id changed_by =
     bindP (list_dependents project_id task_id) (\<lambda>dependents.
     if dependents = [] then return []
     else save_all e (map (purge_blocked_by e task_id changed_by) dependents))"

section \<open>The invariant of the dependency graph\<close>

definition canonical :: "env \<Rightarrow> string \<Rightarrow> bool" where
  "canonical e x \<longleftrightarrow> oid_valid e x \<and> oid_canon e x = x"

definition ids_canonical :: "env \<Rightarrow> task list \<Rightarrow> bool" where
  "ids_canonical e ts \<longleftrightarrow>
     (\<forall>t \<in> set ts. canonical e (t_id t) \<and> (\<forall>x \<in> set (t_blocks t) \<union> set (t_blocked_by t). canonical e x))"

definition links_sym :: "task list \<Rightarrow> bool" where
  "links_sym ts \<longleftrightarrow>
     (\<forall>s \<in> set ts. \<forall>t \<in> set ts. \<not> t_is_deleted s \<longrightarrow> \<not> t_is_deleted t \<longrightarrow>
        (t_id t \<in> set (t_blocks s) \<longleftrightarrow> t_id s \<in> set (t_blocked_by t)))"

definition no_dangling :: "task list \<Rightarrow> bool" where
  "no_dangling ts \<longleftrightarrow>
     (\<forall>t \<in> set ts. \<not> t_is_deleted t \<longrightarrow> (\<forall>x \<in> set (t_blocked_by t).
        \<exists>s \<in> set ts. t_id s = x \<and> \<not> t_is_deleted s \<and> t_project_id s = t_project_id t))"

definition acyclic_links :: "task list \<Rightarrow> bool" where
  "acyclic_links ts \<longleftrightarrow> (\<forall>pid. acyclic (blocks_edges pid ts))"

definition links_inv :: "env \<Rightarrow> task list \<Rightarrow> bool" where
  "links_inv e ts \<longleftrightarrow>
     keys_distinct t_id ts \<and> ids_canonical e ts \<and> links_sym ts \<and> no_dangling ts \<and> acyclic_links ts"

lemma canonical_as_object_id: "canonical e x \<Longrightarrow> as_object_id e x = x"
  by (simp add: canonical_def as_object_id_def)

lemma ids_canonical_blocks: "ids_canonical e ts \<Longrightarrow> canon_blocks e ts"
  by (auto simp: ids_canonical_def canon_blocks_def all_blocks_def intro: canonical_as_object_id)

text \<open>
  Frame: a change that leaves every document's share of the graph alone keeps the invariant.
\<close>

definition same_graph :: "task list \<Rightarrow> task list \<Rightarrow> bool" where
  "same_graph ts ts' \<longleftrightarrow> list_all2 same_links ts ts'"

lemma same_graph_refl [simp]: "same_graph ts ts"
  by (simp add: same_graph_def list_all2_refl)

lemma same_graph_trans: "same_graph ts us \<Longrightarrow> same_graph us vs \<Longrightarrow> same_graph ts vs"
  unfolding same_graph_def by (rule list_all2_trans [OF same_links_trans])

lemma same_graph_keys: "same_graph ts ts' \<Longrightarrow> map t_id ts' = map t_id ts"
  unfolding same_graph_def by (induction rule: list_all2_induct) (auto simp: same_links_def)

lemma same_graph_from: "same_graph ts ts' \<Longrightarrow> t' \<in> set ts' \<Longrightarrow> \<exists>t \<in> set ts. same_links t t'"
  by (fastforce simp: same_graph_def list_all2_conv_all_nth in_set_conv_nth)

lemma same_graph_to: "same_graph ts ts' \<Longrightarrow> t \<in> set ts \<Longrightarrow> \<exists>t' \<in> set ts'. same_links t t'"
  by (fastforce simp: same_graph_def list_all2_conv_all_nth in_set_conv_nth)

lemma same_graph_edges:
  assumes g: "same_graph ts ts'"
  shows "blocks_edges pid ts' = blocks_edges pid ts"
proof -
  have "(a, b) \<in> blocks_edges pid ts' \<longleftrightarrow> (a, b) \<in> blocks_edges pid ts" for a b
    using same_graph_from [OF g] same_graph_to [OF g]
    by (fastforce simp: blocks_edges_iff same_links_def)
  then show ?thesis by auto
qed

lemma same_graph_links_inv:
  assumes g: "same_graph ts ts'" and inv: "links_inv e ts"
  shows "links_inv e ts'"
proof -
  have "keys_distinct t_id ts'" using inv by (simp add: links_inv_def keys_distinct_def same_graph_keys [OF g])
  moreover have "ids_canonical e ts'"
    using inv same_graph_from [OF g] by (fastforce simp: links_inv_def ids_canonical_def same_links_def)
  moreover have "links_sym ts'"
    unfolding links_sym_def
  proof (intro ballI impI)
    fix s' t' assume s': "s' \<in> set ts'" "\<not> t_is_deleted s'" and t': "t' \<in> set ts'" "\<not> t_is_deleted t'"
    from same_graph_from [OF g s'(1)] same_graph_from [OF g t'(1)] obtain s t
      where "s \<in> set ts" "same_links s s'" "t \<in> set ts" "same_links t t'" by blast
    with s' t' inv show "t_id t' \<in> set (t_blocks s') \<longleftrightarrow> t_id s' \<in> set (t_blocked_by t')"
      by (simp add: links_inv_def links_sym_def same_links_def)
  qed
  moreover have "no_dangling ts'"
    unfolding no_dangling_def
  proof (intro ballI impI)
    fix t' x assume t': "t' \<in> set ts'" "\<not> t_is_deleted t'" "x \<in> set (t_blocked_by t')"
    from same_graph_from [OF g t'(1)] obtain t where t: "t \<in> set ts" "same_links t t'" by blast
    with t' inv obtain s where "s \<in> set ts" "t_id s = x" "\<not> t_is_deleted s" "t_project_id s = t_project_id t"
      by (fastforce simp: links_inv_def no_dangling_def same_links_def)
    with same_graph_to [OF g] t(2)
    show "\<exists>s \<in> set ts'. t_id s = x \<and> \<not> t_is_deleted s \<and> t_project_id s = t_project_id t'"
      by (fastforce simp: same_links_def)
  qed
  moreover have "acyclic_links ts'"
    using inv by (simp add: links_inv_def acyclic_links_def same_graph_edges [OF g])
  ultimately show ?thesis by (simp add: links_inv_def)
qed

lemma same_graph_save:
  assumes "keys_distinct t_id ts" and "coll_get t_id ts k = Some t" and "same_links t t'"
  shows "same_graph ts (coll_save t_id t' ts)"
proof -
  from coll_get_in [OF assms(2)] assms(3) have t: "t \<in> set ts" "t_id t' = t_id t" "t_id t = k"
    by (auto simp: same_links_def)
  then have "coll_save t_id t' ts = map (\<lambda>x. if t_id x = t_id t' then t' else x) ts"
    by (auto simp: coll_save_def)
  moreover have "same_links x (if t_id x = t_id t' then t' else x)" if "x \<in> set ts" for x
    using that t keys_distinct_eq [OF assms(1), of x t] assms(3) by auto
  ultimately show ?thesis
    by (simp add: same_graph_def list_all2_map2 list_all2_same)
qed

section \<open>Adding and removing an edge\<close>

text \<open>
  \<open>rewires f ts\<close>: \<open>f\<close> changes the documents' edge lists only. The two lemmas below say when
  adding, or removing, the edge from \<open>sid\<close> to \<open>tid\<close> on both sides keeps the invariant.
\<close>

definition rewires :: "(task \<Rightarrow> task) \<Rightarrow> task list \<Rightarrow> bool" where
  "rewires f ts \<longleftrightarrow> (\<forall>t \<in> set ts. t_id (f t) = t_id t \<and> t_project_id (f t) = t_project_id t \<and>
     t_is_deleted (f t) = t_is_deleted t)"

lemma rewires_keys:
  assumes "rewires f ts"
  shows "keys_distinct t_id (map f ts) \<longleftrightarrow> keys_distinct t_id ts"
proof -
  have "map t_id (map f ts) = map t_id ts" using assms by (simp add: rewires_def)
  then show ?thesis unfolding keys_distinct_def by presburger
qed

lemma add_edge_edges:
  assumes "rewires f ts" and "keys_distinct t_id ts" and "s \<in> set ts" and "\<not> t_is_deleted s"
    and "\<forall>t \<in> set ts. set (t_blocks (f t)) = set (t_blocks t) \<union> (if t_id t = t_id s then {tid} else {})"
  shows "blocks_edges pid (map f ts) =
    (if pid = t_project_id s then insert (t_id s, tid) (blocks_edges pid ts) else blocks_edges pid ts)"
proof -
  note eq = keys_distinct_eq [OF assms(2) _ assms(3)]
  have "(a, b) \<in> blocks_edges pid (map f ts) \<longleftrightarrow>
        (\<exists>t \<in> set ts. t_id t = a \<and> t_project_id t = pid \<and> \<not> t_is_deleted t \<and>
           (b \<in> set (t_blocks t) \<or> t_id t = t_id s \<and> b = tid))" for a b
    using assms(1,5) unfolding blocks_edges_iff set_map bex_simps
    by (intro bex_cong) (auto simp: rewires_def split: if_splits)
  then have "(a, b) \<in> blocks_edges pid (map f ts) \<longleftrightarrow>
        (a, b) \<in> blocks_edges pid ts \<or> pid = t_project_id s \<and> a = t_id s \<and> b = tid" for a b
    unfolding blocks_edges_iff using assms(3,4) by (auto dest: eq intro: bexI [of _ s])
  then show ?thesis by auto
qed

lemma add_edge_inv:
  assumes inv: "links_inv e ts" and f: "rewires f ts"
    and s: "s \<in> set ts" "\<not> t_is_deleted s" and t: "t \<in> set ts" "\<not> t_is_deleted t"
    and same: "t_project_id s = t_project_id t"
    and fb: "\<forall>u \<in> set ts. set (t_blocks (f u)) = set (t_blocks u) \<union> (if t_id u = t_id s then {t_id t} else {})"
    and fbb: "\<forall>u \<in> set ts. set (t_blocked_by (f u)) = set (t_blocked_by u) \<union> (if t_id u = t_id t then {t_id s} else {})"
    and nopath: "(t_id t, t_id s) \<notin> (blocks_edges (t_project_id s) ts)\<^sup>*"
  shows "links_inv e (map f ts)"
proof -
  have d: "keys_distinct t_id ts" using inv by (simp add: links_inv_def)
  note eq = keys_distinct_eq [OF d]
  have "keys_distinct t_id (map f ts)" using d rewires_keys [OF f] by simp
  moreover have "ids_canonical e (map f ts)"
    using inv f fb fbb s(1) t(1) by (auto simp: links_inv_def ids_canonical_def rewires_def split: if_splits)
  moreover have "links_sym (map f ts)"
    using inv f fb fbb by (auto simp: links_inv_def links_sym_def rewires_def)
  moreover have "no_dangling (map f ts)"
    unfolding no_dangling_def
  proof (intro ballI impI)
    fix u' x assume "u' \<in> set (map f ts)" and del: "\<not> t_is_deleted u'" and x: "x \<in> set (t_blocked_by u')"
    then obtain u where u: "u \<in> set ts" "u' = f u" by auto
    with x fbb have "x \<in> set (t_blocked_by u) \<or> t_id u = t_id t \<and> x = t_id s" by (auto split: if_splits)
    then have "\<exists>v \<in> set ts. t_id v = x \<and> \<not> t_is_deleted v \<and> t_project_id v = t_project_id u"
      using inv u del f s same eq [OF u(1) t(1)] by (auto simp: links_inv_def no_dangling_def rewires_def)
    with u f show "\<exists>v \<in> set (map f ts). t_id v = x \<and> \<not> t_is_deleted v \<and> t_project_id v = t_project_id u'"
      by (auto simp: rewires_def)
  qed
  moreover have "acyclic_links (map f ts)"
    using inv nopath by (simp add: links_inv_def acyclic_links_def add_edge_edges [OF f d s fb])
  ultimately show ?thesis by (simp add: links_inv_def)
qed

lemma del_edge_inv:
  assumes inv: "links_inv e ts" and f: "rewires f ts"
    and fb: "\<forall>u \<in> set ts. set (t_blocks (f u)) = set (t_blocks u) - (if t_id u = sid then {tid} else {})"
    and fbb: "\<forall>u \<in> set ts. set (t_blocked_by (f u)) = set (t_blocked_by u) - (if t_id u = tid then {sid} else {})"
  shows "links_inv e (map f ts)"
proof -
  have "keys_distinct t_id (map f ts)"
    using inv rewires_keys [OF f] by (simp add: links_inv_def)
  moreover have "ids_canonical e (map f ts)"
    using inv f fb fbb by (auto simp: links_inv_def ids_canonical_def rewires_def)
  moreover have "links_sym (map f ts)"
    using inv f fb fbb by (auto simp: links_inv_def links_sym_def rewires_def)
  moreover have "no_dangling (map f ts)"
    unfolding no_dangling_def
  proof (intro ballI impI)
    fix u' x assume "u' \<in> set (map f ts)" and del: "\<not> t_is_deleted u'" and x: "x \<in> set (t_blocked_by u')"
    then obtain u where u: "u \<in> set ts" "u' = f u" by auto
    with x fbb have "x \<in> set (t_blocked_by u)" by auto
    then have "\<exists>v \<in> set ts. t_id v = x \<and> \<not> t_is_deleted v \<and> t_project_id v = t_project_id u"
      using inv u del f by (auto simp: links_inv_def no_dangling_def rewires_def)
    with u f show "\<exists>v \<in> set (map f ts). t_id v = x \<and> \<not> t_is_deleted v \<and> t_project_id v = t_project_id u'"
      by (auto simp: rewires_def)
  qed
  moreover have "blocks_edges pid (map f ts) \<subseteq> blocks_edges pid ts" for pid
    using f fb by (auto simp: blocks_edges_iff rewires_def)
  then have "acyclic_links (map f ts)"
    using inv by (auto simp: links_inv_def acyclic_links_def intro: acyclic_subset)
  ultimately show ?thesis by (simp add: links_inv_def)
qed

lemma save_two_ids:
  assumes s: "s \<in> set ts" "t_id s' = t_id s" and t: "t \<in> set ts" "t_id t' = t_id t"
  shows "coll_save t_id t' (coll_save t_id s' ts) =
    map (\<lambda>u. if t_id u = t_id t then t' else if t_id u = t_id s then s' else u) ts"
proof -
  have "coll_save t_id s' ts = map (\<lambda>x. if t_id x = t_id s then s' else x) ts" (is "_ = ?us")
    using s by (auto simp: coll_save_def)
  moreover have "\<exists>x \<in> set ?us. t_id x = t_id t'"
    using s t by (intro bexI [of _ "if t_id t = t_id s then s' else t"]) auto
  ultimately show ?thesis using s t by (simp add: coll_save_def)
qed

lemma save_two:
  assumes d: "keys_distinct t_id ts" and s: "s \<in> set ts" "t_id s' = t_id s" and t: "t \<in> set ts" "t_id t' = t_id t"
  shows "coll_save t_id t' (coll_save t_id s' ts) = map (\<lambda>u. if u = t then t' else if u = s then s' else u) ts"
  unfolding save_two_ids [OF s t]
  using keys_distinct_eq [OF d _ s(1)] keys_distinct_eq [OF d _ t(1)] by (intro map_cong) auto

section \<open>What the operations do\<close>

lemma link_source_fields [task_simps]:
  "t_id (link_source e x b s) = t_id s" "t_project_id (link_source e x b s) = t_project_id s"
  "t_is_deleted (link_source e x b s) = t_is_deleted s" "t_blocks (link_source e x b s) = t_blocks s @ [x]"
  "t_blocked_by (link_source e x b s) = t_blocked_by s"
  by (simp_all add: link_source_def Let_def task_simps)

lemma link_target_fields [task_simps]:
  "t_id (link_target e x b t) = t_id t" "t_project_id (link_target e x b t) = t_project_id t"
  "t_is_deleted (link_target e x b t) = t_is_deleted t" "t_blocks (link_target e x b t) = t_blocks t"
  "t_blocked_by (link_target e x b t) =
     (if x \<notin> set (t_blocked_by t) then t_blocked_by t @ [x] else t_blocked_by t)"
  by (simp_all add: link_target_def Let_def task_simps)

lemma unlink_source_fields [task_simps]:
  "t_id (unlink_source e x b s) = t_id s" "t_project_id (unlink_source e x b s) = t_project_id s"
  "t_is_deleted (unlink_source e x b s) = t_is_deleted s"
  "t_blocks (unlink_source e x b s) = filter (\<lambda>t. t \<noteq> x) (t_blocks s)"
  "t_blocked_by (unlink_source e x b s) = t_blocked_by s"
  by (simp_all add: unlink_source_def Let_def task_simps)

lemma unlink_target_fields [task_simps]:
  "t_id (unlink_target e x b t) = t_id t" "t_project_id (unlink_target e x b t) = t_project_id t"
  "t_is_deleted (unlink_target e x b t) = t_is_deleted t" "t_blocks (unlink_target e x b t) = t_blocks t"
  "t_blocked_by (unlink_target e x b t) = filter (\<lambda>s. s \<noteq> x) (t_blocked_by t)"
  by (simp_all add: unlink_target_def Let_def task_simps)

lemma purge_fields [task_simps]:
  "t_id (purge_blocked_by e x b t) = t_id t" "t_project_id (purge_blocked_by e x b t) = t_project_id t"
  "t_is_deleted (purge_blocked_by e x b t) = t_is_deleted t" "t_blocks (purge_blocked_by e x b t) = t_blocks t"
  "t_blocked_by (purge_blocked_by e x b t) = filter (\<lambda>s. s \<noteq> x) (t_blocked_by t)"
  by (simp_all add: purge_blocked_by_def Let_def task_simps)

text \<open>The precondition under which \<open>link\<close> goes through, and its effect.\<close>

definition link_pre :: "env \<Rightarrow> world \<Rightarrow> string \<Rightarrow> string \<Rightarrow> task \<Rightarrow> task \<Rightarrow> bool" where
  "link_pre e w sid tid s t \<longleftrightarrow> sid \<noteq> tid \<and> oid_valid e sid \<and> oid_valid e tid \<and>
     coll_get t_id (w_tasks w) (oid_canon e sid) = Some s \<and> \<not> t_is_deleted s \<and>
     coll_get t_id (w_tasks w) (oid_canon e tid) = Some t \<and> \<not> t_is_deleted t \<and>
     t_project_id s = t_project_id t \<and> tid \<notin> set (t_blocks s) \<and>
     has_cycle e (t_project_id s) sid tid (w_tasks w) = None"

lemma wp_link:
  assumes "\<And>s t. link_pre e w sid tid s t \<Longrightarrow>
      Q (touch (now e) (link_source e tid b s), touch (now e) (link_target e sid b t))
        (store_task (touch (now e) (link_target e sid b t)) (store_task (touch (now e) (link_source e tid b s)) w))"
    and "\<And>x. E x w"
  shows "wp (link e sid tid r b) Q E w"
  using assms by (auto simp: link_def wp_simps link_pre_def not_deleted_Some split: option.splits)

lemma wp_unlink:
  assumes "\<And>s t. oid_valid e sid \<Longrightarrow> oid_valid e tid \<Longrightarrow>
      coll_get t_id (w_tasks w) (oid_canon e sid) = Some s \<Longrightarrow> \<not> t_is_deleted s \<Longrightarrow>
      coll_get t_id (w_tasks w) (oid_canon e tid) = Some t \<Longrightarrow> \<not> t_is_deleted t \<Longrightarrow>
      tid \<in> set (t_blocks s) \<or> sid \<in> set (t_blocked_by t) \<Longrightarrow>
      Q (touch (now e) (unlink_source e tid b s), touch (now e) (unlink_target e sid b t))
        (store_task (touch (now e) (unlink_target e sid b t)) (store_task (touch (now e) (unlink_source e tid b s)) w))"
    and "\<And>x. E x w"
  shows "wp (unlink e sid tid r b) Q E w"
  using assms by (auto simp: unlink_def wp_simps not_deleted_Some split: option.splits)

lemma wp_list_dependents [wp_simps]:
  "wp (list_dependents pid tid) Q E w =
     Q (coll_find (\<lambda>t. t_project_id t = pid \<and> \<not> t_is_deleted t \<and> tid \<in> set (t_blocked_by t)) (w_tasks w)) w"
  by (simp add: list_dependents_def wp_simps)

section \<open>The operations keep the invariant\<close>

lemma canonical_get:
  "canonical e x \<Longrightarrow> coll_get t_id ts (oid_canon e x) = Some t \<Longrightarrow> t \<in> set ts \<and> t_id t = x"
  by (auto simp: canonical_def dest: coll_get_in)

lemma link_store_inv:
  assumes inv: "links_inv e (w_tasks w)" and c: "canonical e sid" "canonical e tid" and pre: "link_pre e w sid tid s t"
  shows "links_inv e (w_tasks (store_task (touch n (link_target e sid b t))
           (store_task (touch n (link_source e tid b s)) w)))"
proof -
  let ?ts = "w_tasks w"
  from pre canonical_get [OF c(1), of ?ts] canonical_get [OF c(2), of ?ts]
  have s: "s \<in> set ?ts" "t_id s = sid" "\<not> t_is_deleted s" and t: "t \<in> set ?ts" "t_id t = tid" "\<not> t_is_deleted t"
    and p: "t_project_id s = t_project_id t" and ne: "sid \<noteq> tid" by (auto simp: link_pre_def)
  have d: "keys_distinct t_id ?ts" using inv by (simp add: links_inv_def)
  have "has_cycle e (t_project_id s) sid tid ?ts = None" using pre by (auto simp: link_pre_def)
  moreover have "canon_blocks e ?ts" using inv by (simp add: links_inv_def ids_canonical_blocks)
  ultimately have nopath: "(tid, sid) \<notin> (blocks_edges (t_project_id s) ?ts)\<^sup>*"
    using has_cycle_None [OF _ canonical_as_object_id [OF c(2)]] by blast
  have eq: "t_id u = sid \<longleftrightarrow> u = s" "t_id u = tid \<longleftrightarrow> u = t" if "u \<in> set ?ts" for u
    using that s t keys_distinct_eq [OF d] by auto
  have "links_inv e (map (\<lambda>u. if u = t then touch n (link_target e sid b t)
          else if u = s then touch n (link_source e tid b s) else u) ?ts)"
    by (rule add_edge_inv [OF inv _ s(1,3) t(1,3) p])
      (use s(2) t(2) ne nopath eq in \<open>auto simp: rewires_def task_simps\<close>)
  then show ?thesis by (simp add: save_two [OF d s(1) _ t(1)] task_simps)
qed

lemma unlink_store_inv:
  assumes inv: "links_inv e (w_tasks w)" and c: "canonical e sid" "canonical e tid"
    and s0: "coll_get t_id (w_tasks w) (oid_canon e sid) = Some s"
    and t0: "coll_get t_id (w_tasks w) (oid_canon e tid) = Some t"
    and ne: "sid \<noteq> tid"
  shows "links_inv e (w_tasks (store_task (touch n (unlink_target e sid b t))
           (store_task (touch n (unlink_source e tid b s)) w)))"
proof -
  let ?ts = "w_tasks w"
  from canonical_get [OF c(1) s0] canonical_get [OF c(2) t0]
  have s: "s \<in> set ?ts" "t_id s = sid" and t: "t \<in> set ?ts" "t_id t = tid" by auto
  have d: "keys_distinct t_id ?ts" using inv by (simp add: links_inv_def)
  have eq: "t_id u = sid \<longleftrightarrow> u = s" "t_id u = tid \<longleftrightarrow> u = t" if "u \<in> set ?ts" for u
    using that s t keys_distinct_eq [OF d] by auto
  have "links_inv e (map (\<lambda>u. if u = t then touch n (unlink_target e sid b t)
          else if u = s then touch n (unlink_source e tid b s) else u) ?ts)"
    by (rule del_edge_inv [OF inv, of _ sid tid])
      (use s(2) t(2) ne eq in \<open>auto simp: rewires_def task_simps\<close>)
  then show ?thesis by (simp add: save_two [OF d s(1) _ t(1)] task_simps)
qed

text \<open>An edge of the invariant never joins a task to itself.\<close>

lemma links_inv_irrefl:
  assumes "links_inv e ts" and "t \<in> set ts" and "\<not> t_is_deleted t"
  shows "t_id t \<notin> set (t_blocks t) \<and> t_id t \<notin> set (t_blocked_by t)"
proof -
  have "(t_id t, t_id t) \<notin> blocks_edges (t_project_id t) ts"
    using assms(1) by (auto simp: links_inv_def acyclic_links_def acyclic_def)
  then have "t_id t \<notin> set (t_blocks t)" using assms(2,3) by (auto simp: blocks_edges_iff)
  moreover have "t_id t \<in> set (t_blocks t) \<longleftrightarrow> t_id t \<in> set (t_blocked_by t)"
    using assms by (auto simp: links_inv_def links_sym_def)
  ultimately show ?thesis by blast
qed

text \<open>
  Deleting a task: the invariant survives if the task disappears from the \<open>blocked_by\<close> lists
  of the live tasks, and nothing else of the graph changes.
\<close>

lemma delete_node_inv:
  assumes inv: "links_inv e ts" and t: "t \<in> set ts" "\<not> t_is_deleted t"
    and f: "\<forall>u \<in> set ts. t_id (f u) = t_id u \<and> t_project_id (f u) = t_project_id u \<and> t_blocks (f u) = t_blocks u \<and>
              t_is_deleted (f u) = (t_is_deleted u \<or> u = t) \<and> set (t_blocked_by (f u)) \<subseteq> set (t_blocked_by u)"
    and fbb: "\<forall>u \<in> set ts. \<not> t_is_deleted u \<longrightarrow> u \<noteq> t \<longrightarrow> set (t_blocked_by (f u)) = set (t_blocked_by u) - {t_id t}"
  shows "links_inv e (map f ts)"
proof -
  have d: "keys_distinct t_id ts" using inv by (simp add: links_inv_def)
  have "map t_id (map f ts) = map t_id ts" using f by simp
  then have "keys_distinct t_id (map f ts)" using d unfolding keys_distinct_def by presburger
  moreover have "ids_canonical e (map f ts)" using inv f by (fastforce simp: links_inv_def ids_canonical_def)
  moreover have "links_sym (map f ts)"
    unfolding links_sym_def
  proof (intro ballI impI)
    fix s' u' assume "s' \<in> set (map f ts)" "u' \<in> set (map f ts)" and del: "\<not> t_is_deleted s'" "\<not> t_is_deleted u'"
    then obtain s u where su: "s \<in> set ts" "s' = f s" "u \<in> set ts" "u' = f u" by auto
    then have "t_id s \<noteq> t_id t" using del(1) f keys_distinct_eq [OF d _ t(1)] by auto
    with su del inv f fbb show "t_id u' \<in> set (t_blocks s') \<longleftrightarrow> t_id s' \<in> set (t_blocked_by u')"
      by (auto simp: links_inv_def links_sym_def)
  qed
  moreover have "no_dangling (map f ts)"
    unfolding no_dangling_def
  proof (intro ballI impI)
    fix u' x assume "u' \<in> set (map f ts)" and del: "\<not> t_is_deleted u'" and x: "x \<in> set (t_blocked_by u')"
    then obtain u where u: "u \<in> set ts" "u' = f u" by auto
    with del f fbb x have ux: "x \<in> set (t_blocked_by u)" "x \<noteq> t_id t" "\<not> t_is_deleted u" by auto
    with inv u obtain v where v: "v \<in> set ts" "t_id v = x" "\<not> t_is_deleted v" "t_project_id v = t_project_id u"
      by (auto simp: links_inv_def no_dangling_def)
    have "f v \<in> set (map f ts)" "t_id (f v) = x" "\<not> t_is_deleted (f v)" "t_project_id (f v) = t_project_id u'"
      using v f u ux(2) by auto
    then show "\<exists>v \<in> set (map f ts). t_id v = x \<and> \<not> t_is_deleted v \<and> t_project_id v = t_project_id u'" by blast
  qed
  moreover have "blocks_edges pid (map f ts) \<subseteq> blocks_edges pid ts" for pid
    using f by (auto simp: blocks_edges_iff)
  then have "acyclic_links (map f ts)"
    using inv by (auto simp: links_inv_def acyclic_links_def intro: acyclic_subset)
  ultimately show ?thesis by (simp add: links_inv_def)
qed

text \<open>
  The deletion the handlers perform: dependents are purged (there are none, or the caller
  forced it), then the task is marked deleted.
\<close>

definition depends_on :: "string \<Rightarrow> string \<Rightarrow> task \<Rightarrow> bool" where
  "depends_on pid tid t \<longleftrightarrow> t_project_id t = pid \<and> \<not> t_is_deleted t \<and> tid \<in> set (t_blocked_by t)"

lemma delete_store_inv:
  assumes inv: "links_inv e ts" and t: "t \<in> set ts" "\<not> t_is_deleted t"
    and g: "g = (\<lambda>u. if depends_on (t_project_id t) (t_id t) u then touch n (purge_blocked_by e (t_id t) b u) else u)"
  shows "links_inv e (coll_save t_id (touch n (t\<lparr>t_is_deleted := True\<rparr>)) (map g ts))"
proof -
  let ?t' = "touch n (t\<lparr>t_is_deleted := True\<rparr>)"
  have d: "keys_distinct t_id ts" using inv by (simp add: links_inv_def)
  have ids: "t_id (g u) = t_id u" for u by (simp add: g task_simps)
  have "coll_save t_id ?t' (map g ts) = map (\<lambda>u. if t_id u = t_id t then ?t' else g u) ts"
    using t(1) by (auto simp: coll_save_def ids task_simps)
  also have "\<dots> = map (\<lambda>u. if u = t then ?t' else g u) ts"
    using keys_distinct_eq [OF d _ t(1)] by (intro map_cong) auto
  also have "links_inv e \<dots>"
  proof (rule delete_node_inv [OF inv t])
    show "\<forall>u \<in> set ts. \<not> t_is_deleted u \<longrightarrow> u \<noteq> t \<longrightarrow>
        set (t_blocked_by (if u = t then ?t' else g u)) = set (t_blocked_by u) - {t_id t}"
    proof (intro ballI impI)
      fix u assume u: "u \<in> set ts" "\<not> t_is_deleted u" "u \<noteq> t"
      have "t_project_id u = t_project_id t" if "t_id t \<in> set (t_blocked_by u)"
        using inv u(1,2) that keys_distinct_eq [OF d _ t(1)] by (fastforce simp: links_inv_def no_dangling_def)
      then show "set (t_blocked_by (if u = t then ?t' else g u)) = set (t_blocked_by u) - {t_id t}"
        using u by (auto simp: g depends_on_def task_simps)
    qed
  qed (auto simp: g task_simps)
  finally show ?thesis .
qed

section \<open>Properties\<close>

lemma demo_links_inv: "links_inv plain_env demo_tasks"
proof -
  have "blocks_edges pid demo_tasks \<subseteq> {(''a'', ''b'')}" for pid
    by (auto simp: blocks_edges_iff demo_defs)
  moreover have "acyclic ({} :: (string \<times> string) set)" by (simp add: acyclic_def)
  then have "acyclic {(''a'', ''b'')}" by (simp add: acyclic_insert)
  ultimately have "acyclic_links demo_tasks"
    unfolding acyclic_links_def by (blast intro: acyclic_subset)
  then show ?thesis
    by (auto simp: links_inv_def keys_distinct_def ids_canonical_def canonical_def links_sym_def no_dangling_def demo_defs)
qed

lemma plain_env_canonical [simp]: "canonical plain_env x"
  by (simp add: canonical_def plain_env_def)

text \<open>
  Creating a dependency, whether it succeeds or raises, keeps the invariant of the
  dependency graph: edges agree in both directions on live tasks, no live task is blocked by
  a missing or deleted one, and the \<open>blocks\<close> graph of every project stays acyclic.
\<close>

theorem link_keeps_links_inv:
  assumes "links_inv e (w_tasks w)" and "canonical e source_id" and "canonical e target_id"
  shows "links_inv e (w_tasks (snd (link e source_id target_id relation changed_by w)))"
proof -
  have "wp (link e source_id target_id relation changed_by)
          (\<lambda>_ w. links_inv e (w_tasks w)) (\<lambda>_ w. links_inv e (w_tasks w)) w"
    by (rule wp_link) (use assms link_store_inv in auto)
  then show ?thesis by (rule iffD1 [OF wp_snd])
qed

theorem link_keeps_links_inv_witness:
  "links_inv plain_env (w_tasks demo_world) \<and> canonical plain_env ''b'' \<and> canonical plain_env ''c'' \<and>
   links_inv plain_env (w_tasks (snd (link plain_env ''b'' ''c'' ''blocks'' ''u'' demo_world)))"
  using link_keeps_links_inv [of plain_env demo_world "''b''" "''c''" "''blocks''" "''u''"] demo_links_inv by simp

text \<open>
  C15. For canonically spelled identifiers and a dependency graph that is in order, \<open>link\<close> succeeds
  exactly when it should: for the relation \<open>blocks\<close>, two different live tasks of one project, an
  edge that is not there yet, and no path from the target back to the source. (One task spelled in
  two ways passes as two: \<open>self_link_by_case\<close>.)
\<close>

theorem link_succeeds_iff:
  assumes inv: "links_inv e (w_tasks w)" and c: "canonical e source_id" "canonical e target_id"
  shows "(\<exists>r w'. link e source_id target_id relation changed_by w = (Inr r, w')) \<longleftrightarrow>
    relation = ''blocks'' \<and> source_id \<noteq> target_id \<and>
    (\<exists>s \<in> set (w_tasks w). \<exists>t \<in> set (w_tasks w). t_id s = source_id \<and> t_id t = target_id \<and>
       \<not> t_is_deleted s \<and> \<not> t_is_deleted t \<and> t_project_id s = t_project_id t \<and> target_id \<notin> set (t_blocks s) \<and>
       (target_id, source_id) \<notin> (blocks_edges (t_project_id s) (w_tasks w))\<^sup>+)"
proof -
  let ?ts = "w_tasks w"
  have d: "keys_distinct t_id ?ts" and cb: "canon_blocks e ?ts"
    using inv by (auto simp: links_inv_def ids_canonical_blocks)
  have g: "coll_get t_id ?ts (oid_canon e x) = Some u \<longleftrightarrow> u \<in> set ?ts \<and> t_id u = x" if "canonical e x" for x u
    using that coll_get_Some [OF d] by (simp add: canonical_def)
  have hc: "has_cycle e p source_id target_id ?ts = None \<longleftrightarrow>
      source_id \<noteq> target_id \<and> (target_id, source_id) \<notin> (blocks_edges p ?ts)\<^sup>+" for p
    using has_cycle_None [OF cb canonical_as_object_id [OF c(2)], of p source_id]
      has_cycle_Some [OF cb canonical_as_object_id [OF c(2)], of p source_id]
    by (cases "has_cycle e p source_id target_id ?ts") (auto dest: is_path_trancl trancl_into_rtrancl)
  have "(\<exists>r w'. link e source_id target_id relation changed_by w = (Inr r, w')) \<longleftrightarrow>
        relation = ''blocks'' \<and> (\<exists>s t. link_pre e w source_id target_id s t)"
    unfolding wp_succeeds
    by (auto simp: link_def wp_simps link_pre_def not_deleted_def split: option.splits if_splits)
  then show ?thesis
    using g [OF c(1)] g [OF c(2)] c hc by (auto simp: link_pre_def canonical_def)
qed

theorem link_succeeds_iff_witness:
  "links_inv plain_env (w_tasks demo_world) \<and>
   (\<exists>r w'. link plain_env ''b'' ''c'' ''blocks'' ''u'' demo_world = (Inr r, w'))"
proof -
  have "(''c'', y) \<notin> blocks_edges ''p'' demo_tasks" for y by (simp add: blocks_edges_iff demo_defs)
  then have "(''c'', ''b'') \<notin> (blocks_edges ''p'' demo_tasks)\<^sup>+" by (blast dest: tranclD)
  then show ?thesis
    using link_succeeds_iff [of plain_env demo_world "''b''" "''c''" "''blocks''" "''u''"] demo_links_inv
    by (simp add: demo_tasks_def)
qed

text \<open>What a successful \<open>link\<close> has checked, and the tasks it leaves behind.\<close>

lemma link_effect:
  assumes inv: "links_inv e (w_tasks w)" and c: "canonical e sid" "canonical e tid"
    and link: "link e sid tid r b w = (Inr x, w1)"
  obtains s t where "s \<in> set (w_tasks w)" "t_id s = sid" "\<not> t_is_deleted s" "t \<in> set (w_tasks w)" "t_id t = tid"
    "\<not> t_is_deleted t" "sid \<noteq> tid" "tid \<notin> set (t_blocks s)" "sid \<notin> set (t_blocked_by t)"
    "w_tasks w1 = map (\<lambda>u. if t_id u = tid then touch (now e) (link_target e sid b t)
        else if t_id u = sid then touch (now e) (link_source e tid b s) else u) (w_tasks w)"
    "links_inv e (w_tasks w1)"
proof -
  let ?n = "now e"
  have "wp (link e sid tid r b) (\<lambda>_ w1. \<exists>s t. link_pre e w sid tid s t \<and>
        w1 = store_task (touch ?n (link_target e sid b t)) (store_task (touch ?n (link_source e tid b s)) w))
     (\<lambda>_ _. True) w"
    by (rule wp_link) auto
  from wp_value [OF this link] obtain s t where pre: "link_pre e w sid tid s t"
    and w1: "w1 = store_task (touch ?n (link_target e sid b t)) (store_task (touch ?n (link_source e tid b s)) w)"
    by blast
  from pre canonical_get [OF c(1), of "w_tasks w"] canonical_get [OF c(2), of "w_tasks w"]
  have st: "s \<in> set (w_tasks w)" "t_id s = sid" "\<not> t_is_deleted s" "t \<in> set (w_tasks w)" "t_id t = tid" "\<not> t_is_deleted t"
    and new: "sid \<noteq> tid" "tid \<notin> set (t_blocks s)" by (auto simp: link_pre_def)
  moreover have "sid \<notin> set (t_blocked_by t)" using inv st new by (auto simp: links_inv_def links_sym_def)
  moreover have "w_tasks w1 = map (\<lambda>u. if t_id u = tid then touch ?n (link_target e sid b t)
        else if t_id u = sid then touch ?n (link_source e tid b s) else u) (w_tasks w)"
    unfolding w1 using st by (simp add: save_two_ids [OF st(1) _ st(4)] task_simps)
  moreover have "links_inv e (w_tasks w1)" unfolding w1 by (rule link_store_inv [OF inv c pre])
  ultimately show ?thesis by (rule that)
qed

lemma unlink_effect:
  assumes inv: "links_inv e (w_tasks w)" and c: "canonical e sid" "canonical e tid"
    and s: "s \<in> set (w_tasks w)" "t_id s = sid" "\<not> t_is_deleted s"
    and t: "t \<in> set (w_tasks w)" "t_id t = tid" "\<not> t_is_deleted t" and edge: "tid \<in> set (t_blocks s)"
  shows "\<exists>x w2. unlink e sid tid ''blocks'' b w = (Inr x, w2) \<and>
    w_tasks w2 = map (\<lambda>u. if t_id u = tid then touch (now e) (unlink_target e sid b t)
        else if t_id u = sid then touch (now e) (unlink_source e tid b s) else u) (w_tasks w)"
proof -
  let ?s2 = "touch (now e) (unlink_source e tid b s)" and ?t2 = "touch (now e) (unlink_target e sid b t)"
  have "coll_get t_id (w_tasks w) sid = Some s" "coll_get t_id (w_tasks w) tid = Some t"
    using inv s t by (auto simp: links_inv_def coll_get_Some)
  then have "wp (unlink e sid tid ''blocks'' b) (\<lambda>_ w2. w2 = store_task ?t2 (store_task ?s2 w)) (\<lambda>_ _. False) w"
    using c s t edge by (simp add: unlink_def wp_simps canonical_def not_deleted_def)
  then obtain x where "unlink e sid tid ''blocks'' b w = (Inr x, store_task ?t2 (store_task ?s2 w))"
    by (auto simp: wp_def split: prod.splits sum.splits)
  then show ?thesis using s t by (simp add: save_two_ids [OF s(1) _ t(1)] task_simps)
qed

text \<open>
  C16. For canonically spelled identifiers and a dependency graph that is in order, \<open>unlink\<close> undoes
  \<open>link\<close>: after a successful \<open>link\<close> the same \<open>unlink\<close> succeeds, and every task has its old \<open>blocks\<close>
  and \<open>blocked_by\<close> lists back, in their old order.
\<close>
theorem link_unlink_roundtrip:
  assumes inv: "links_inv e (w_tasks w)" and c: "canonical e source_id" "canonical e target_id"
    and link: "link e source_id target_id ''blocks'' by1 w = (Inr r, w1)"
  shows "\<exists>r2 w2. unlink e source_id target_id ''blocks'' by2 w1 = (Inr r2, w2) \<and>
    map (\<lambda>t. (t_id t, t_blocks t, t_blocked_by t)) (w_tasks w2) =
    map (\<lambda>t. (t_id t, t_blocks t, t_blocked_by t)) (w_tasks w)"
proof (rule link_effect [OF inv c link])
  let ?n = "now e"
  fix s t
  let ?s1 = "touch ?n (link_source e target_id by1 s)" and ?t1 = "touch ?n (link_target e source_id by1 t)"
  assume s: "s \<in> set (w_tasks w)" "t_id s = source_id" "\<not> t_is_deleted s"
    and t: "t \<in> set (w_tasks w)" "t_id t = target_id" "\<not> t_is_deleted t"
    and ne: "source_id \<noteq> target_id" and new: "target_id \<notin> set (t_blocks s)" "source_id \<notin> set (t_blocked_by t)"
    and w1: "w_tasks w1 = map (\<lambda>u. if t_id u = target_id then ?t1 else if t_id u = source_id then ?s1 else u) (w_tasks w)"
    and inv1: "links_inv e (w_tasks w1)"
  have "?s1 \<in> set (w_tasks w1)" "?t1 \<in> set (w_tasks w1)" using s t ne by (auto simp: w1)
  with s t unlink_effect [OF inv1 c, of ?s1 ?t1 by2] obtain x w2
    where x: "unlink e source_id target_id ''blocks'' by2 w1 = (Inr x, w2)"
      and w2: "w_tasks w2 = map (\<lambda>u. if t_id u = target_id then touch ?n (unlink_target e source_id by2 ?t1)
          else if t_id u = source_id then touch ?n (unlink_source e target_id by2 ?s1) else u) (w_tasks w1)"
    by (auto simp: task_simps)
  have "u = s" if "u \<in> set (w_tasks w)" "t_id u = source_id" for u
    using inv s that keys_distinct_eq by (auto simp: links_inv_def)
  moreover have "u = t" if "u \<in> set (w_tasks w)" "t_id u = target_id" for u
    using inv t that keys_distinct_eq by (auto simp: links_inv_def)
  ultimately have "map (\<lambda>t. (t_id t, t_blocks t, t_blocked_by t)) (w_tasks w2) =
      map (\<lambda>t. (t_id t, t_blocks t, t_blocked_by t)) (w_tasks w)"
    using new s(2) t(2) ne unfolding w2 w1 by (auto simp: task_simps filter_id_conv)
  with x show ?thesis by blast
qed

lemma demo_no_cycle: "has_cycle plain_env ''p'' ''b'' ''c'' demo_tasks = None"
  by (simp add: has_cycle_def bfs_layers.simps layer_docs_def coll_find_def demo_tasks_def demo_task_def new_task_def)

lemma demo_link_succeeds: "\<exists>r w'. link plain_env ''b'' ''c'' ''blocks'' ''u'' demo_world = (Inr r, w')"
  unfolding wp_succeeds by (simp add: link_def wp_simps not_deleted_def demo_no_cycle)

theorem link_unlink_roundtrip_witness:
  "links_inv plain_env (w_tasks demo_world) \<and>
   (\<exists>r w1 r2 w2. link plain_env ''b'' ''c'' ''blocks'' ''u'' demo_world = (Inr r, w1) \<and>
      unlink plain_env ''b'' ''c'' ''blocks'' ''u'' w1 = (Inr r2, w2) \<and>
      map (\<lambda>t. (t_id t, t_blocks t, t_blocked_by t)) (w_tasks w2) =
      map (\<lambda>t. (t_id t, t_blocks t, t_blocked_by t)) (w_tasks demo_world))"
proof -
  obtain r w1 where l: "link plain_env ''b'' ''c'' ''blocks'' ''u'' demo_world = (Inr r, w1)"
    using demo_link_succeeds by blast
  have i: "links_inv plain_env (w_tasks demo_world)" by (simp add: demo_links_inv)
  from link_unlink_roundtrip [OF i plain_env_canonical plain_env_canonical l, of "''u''"] l i show ?thesis by blast
qed

end
