(* ===== verification/Task_Approval.thy ===== *)
theory Task_Approval
  imports Task_Links
begin

text \<open>
  Cascading approval (services/task_approval.py): approving a task approves every live
  descendant along \<open>parent_task_id\<close>. The model keeps the loop of the code: one query per
  layer, a set of visited identifiers, the documents to write collected on the way, and the
  parallel writes at the end, each of which may fail.
\<close>

section \<open>The walk\<close>

definition approve_child :: "env \<Rightarrow> string \<Rightarrow> task \<Rightarrow> task" where
  "approve_child e actor child =
     (record_change ''approved'' (Some (str_bool (t_approved child))) (Some ''True'') actor Human (now e) child)
       \<lparr>t_approved := True, t_needs_detail := False\<rparr>"

definition children_of :: "string list \<Rightarrow> task list \<Rightarrow> task list" where
  "children_of pending ts =
     coll_find (\<lambda>t. (\<exists>p \<in> set pending. t_parent_task_id t = Some p) \<and> \<not> t_is_deleted t) ts"

fun cascade_scan ::
  "env \<Rightarrow> string \<Rightarrow> task list \<Rightarrow> string list \<times> string list \<times> task list \<Rightarrow> string list \<times> string list \<times> task list" where
  "cascade_scan e actor [] st = st"
| "cascade_scan e actor (child # children) (visited, next_layer, mutated) =
     (let cid = t_id child in
      if cid \<in> set visited then cascade_scan e actor children (visited, next_layer, mutated)
      else cascade_scan e actor children
             (cid # visited, next_layer @ [cid],
              if \<not> t_approved child then mutated @ [approve_child e actor child] else mutated))"

text \<open>
  What a scan does to the visited set, and that it makes progress: a layer that is not empty
  visits a new document.
\<close>

lemma cascade_scan_visited:
  "cascade_scan e actor cs (vs, nx, mu) = (vs', nx', mu') \<Longrightarrow>
   set vs' = set vs \<union> t_id ` set cs \<and>
   set nx' = set nx \<union> (t_id ` set cs - set vs)"
  by (induction cs arbitrary: vs nx mu) (auto simp: Let_def split: if_splits)

function cascade_walk ::
  "env \<Rightarrow> string \<Rightarrow> task list \<Rightarrow> string list \<Rightarrow> string list \<Rightarrow> task list \<Rightarrow> task list" where
  "cascade_walk e actor ts pending visited mutated =
     (if pending = [] then mutated
      else case cascade_scan e actor (children_of pending ts) (visited, [], mutated) of
        (visited', next_layer, mutated') \<Rightarrow> cascade_walk e actor ts next_layer visited' mutated')"
  by pat_completeness auto
termination
proof (relation "measure (\<lambda>(e, actor, ts, pending, visited, mutated).
    card (t_id ` set ts - set visited) + (if pending = [] then 0 else 1))")
  fix e actor ts pending visited mutated y and visited' next_layer mutated'
  assume p: "pending \<noteq> ([] :: string list)"
    and xy: "(visited', y) = cascade_scan e actor (children_of pending ts) (visited, [], mutated)"
    and y: "(next_layer, mutated') = y"
  have sc: "set visited' = set visited \<union> t_id ` set (children_of pending ts)"
    "set next_layer = t_id ` set (children_of pending ts) - set visited"
    using cascade_scan_visited [of e actor "children_of pending ts" visited "[]" mutated visited' next_layer mutated'] xy y
    by (simp_all add: eq_commute)
  have sub: "t_id ` set (children_of pending ts) \<subseteq> t_id ` set ts"
    by (auto simp: children_of_def coll_find_def)
  show "((e, actor, ts, next_layer, visited', mutated'), e, actor, ts, pending, visited, mutated)
      \<in> measure (\<lambda>(e, actor, ts, pending, visited, mutated).
          card (t_id ` set ts - set visited) + (if pending = [] then 0 else 1))"
  proof (cases "next_layer = []")
    case True
    have "card (t_id ` set ts - set visited') \<le> card (t_id ` set ts - set visited)"
      using sc by (intro card_mono) auto
    with True p show ?thesis by simp
  next
    case False
    then obtain z where "z \<in> set next_layer" by (cases next_layer) auto
    then have z: "z \<in> t_id ` set ts" "z \<in> set visited'" "z \<notin> set visited" using sc sub by auto
    have "t_id ` set ts - set visited' \<subset> t_id ` set ts - set visited"
      using z sc(1) by (intro psubsetI) auto
    then have "card (t_id ` set ts - set visited') < card (t_id ` set ts - set visited)"
      by (intro psubset_card_mono) auto
    with p show ?thesis by simp
  qed
qed auto

declare cascade_walk.simps [simp del]

text \<open>
  The events after the writes: one per project, in the order the projects first appear (the
  code iterates over a set, whose order Python does not specify).
\<close>

definition batch_event :: "env \<Rightarrow> string \<Rightarrow> string list \<Rightarrow> (world, unit) prog" where
  "batch_event e pid ids =
     publish_event e pid ''tasks.batch_updated''
       (JObj [(''count'', JInt (int (length ids))), (''task_ids'', JList (map JStr ids))])"

fun distinct_in_order :: "string list \<Rightarrow> string list" where
  "distinct_in_order [] = []"
| "distinct_in_order (x # xs) = x # filter (\<lambda>y. y \<noteq> x) (distinct_in_order xs)"

definition cascade_approve_subtasks :: "env \<Rightarrow> string \<Rightarrow> string \<Rightarrow> (world, task list) prog" where
  "cascade_approve_subtasks e parent_task_id actor =
     bindP (gets (\<lambda>w. cascade_walk e actor (w_tasks w) [parent_task_id] [] [])) (\<lambda>mutated.
     if mutated = [] then return []
     else
       bindP (gather_saves e mutated) (\<lambda>results.
       let saved = map fst (filter snd results) in
       bindP (forP saved (index_task e)) (\<lambda>_.
       bindP (forP (distinct_in_order (map t_project_id saved)) (\<lambda>pid.
         batch_event e pid (map t_id (filter (\<lambda>t. t_project_id t = pid) saved)))) (\<lambda>_.
       return saved))))"

section \<open>Which tasks the walk collects\<close>

definition child_edges :: "task list \<Rightarrow> (string \<times> string) set" where
  "child_edges ts = {(p, t_id t) | p t. t \<in> set ts \<and> \<not> t_is_deleted t \<and> t_parent_task_id t = Some p}"

definition descendants :: "task list \<Rightarrow> string \<Rightarrow> string set" where
  "descendants ts root = {x. (root, x) \<in> (child_edges ts)\<^sup>+}"

lemma children_of_edges: "t_id ` set (children_of pending ts) = child_edges ts `` set pending"
  by (auto simp: children_of_def coll_find_def child_edges_def)

lemma approve_child_fields [task_simps]:
  "t_id (approve_child e a t) = t_id t" "t_project_id (approve_child e a t) = t_project_id t"
  "t_status (approve_child e a t) = t_status t" "t_blocks (approve_child e a t) = t_blocks t"
  "t_blocked_by (approve_child e a t) = t_blocked_by t" "t_is_deleted (approve_child e a t) = t_is_deleted t"
  "t_completed_at (approve_child e a t) = t_completed_at t" "t_approved (approve_child e a t)"
  "\<not> t_needs_detail (approve_child e a t)" "t_parent_task_id (approve_child e a t) = t_parent_task_id t"
  by (simp_all add: approve_child_def task_simps)

text \<open>The collected documents are the approved copies of the visited ones not approved yet.\<close>

definition collected :: "env \<Rightarrow> string \<Rightarrow> task list \<Rightarrow> string list \<Rightarrow> task list \<Rightarrow> bool" where
  "collected e actor ts visited mutated \<longleftrightarrow> distinct (map t_id mutated) \<and>
     set mutated = approve_child e actor ` {t \<in> set ts. t_id t \<in> set visited \<and> \<not> t_approved t}"

lemma collected_step:
  assumes "collected e actor ts vs mu" and d: "keys_distinct t_id ts" and "t \<in> set ts" and "t_id t \<notin> set vs"
  shows "collected e actor ts (t_id t # vs) (if \<not> t_approved t then mu @ [approve_child e actor t] else mu)"
proof -
  have "{u \<in> set ts. t_id u \<in> set (t_id t # vs) \<and> \<not> t_approved u} =
      {u \<in> set ts. t_id u \<in> set vs \<and> \<not> t_approved u} \<union> (if t_approved t then {} else {t})"
    using assms keys_distinct_eq [OF d _ assms(3)] by auto
  with assms show ?thesis by (auto simp: collected_def task_simps)
qed

lemma cascade_scan_collected:
  assumes "keys_distinct t_id ts" and "set cs \<subseteq> set ts" and "collected e actor ts vs mu"
    and "cascade_scan e actor cs (vs, nx, mu) = (vs', nx', mu')"
  shows "collected e actor ts vs' mu'"
  using assms(2-)
proof (induction cs arbitrary: vs nx mu)
  case (Cons c cs)
  show ?case
  proof (cases "t_id c \<in> set vs")
    case True
    with Cons show ?thesis by simp
  next
    case False
    with Cons.prems collected_step [OF Cons.prems(2) assms(1)] show ?thesis
      by (auto simp: Let_def intro: Cons.IH)
  qed
qed simp

text \<open>
  The loop invariant of the walk: what was visited is reachable, and a visited document
  whose children were not yet looked at is still pending.
\<close>

definition frontier :: "task list \<Rightarrow> string \<Rightarrow> string list \<Rightarrow> string list \<Rightarrow> bool" where
  "frontier ts root pending visited \<longleftrightarrow> set visited \<subseteq> descendants ts root \<and>
     set pending \<subseteq> insert root (set visited) \<and>
     (\<forall>x \<in> insert root (set visited) - set pending. child_edges ts `` {x} \<subseteq> set visited)"

lemma frontier_step:
  assumes f: "frontier ts root pending visited"
    and sc: "cascade_scan e actor (children_of pending ts) (visited, [], mu) = (visited', next_layer, mu')"
  shows "frontier ts root next_layer visited'"
proof -
  have v: "set visited' = set visited \<union> child_edges ts `` set pending"
    and n: "set next_layer = child_edges ts `` set pending - set visited"
    using cascade_scan_visited [OF sc] by (simp_all add: children_of_edges)
  have "child_edges ts `` set pending \<subseteq> descendants ts root"
  proof
    fix y assume "y \<in> child_edges ts `` set pending"
    then obtain x where x: "x \<in> set pending" "(x, y) \<in> child_edges ts" by blast
    with f have "x = root \<or> (root, x) \<in> (child_edges ts)\<^sup>+" by (auto simp: frontier_def descendants_def)
    with x(2) show "y \<in> descendants ts root" by (auto simp: descendants_def)
  qed
  with f have "set visited' \<subseteq> descendants ts root" by (auto simp: v frontier_def)
  moreover have "child_edges ts `` {x} \<subseteq> set visited'" if "x \<in> insert root (set visited') - set next_layer" for x
  proof (cases "x \<in> set pending")
    case False
    with that have "x \<in> insert root (set visited) - set pending" by (auto simp: v n)
    with f show ?thesis unfolding frontier_def v by blast
  qed (auto simp: v)
  ultimately show ?thesis by (auto simp: frontier_def n v)
qed

lemma frontier_end:
  assumes "frontier ts root [] visited"
  shows "set visited = descendants ts root"
proof
  show "set visited \<subseteq> descendants ts root" using assms by (simp add: frontier_def)
  have "x \<in> set visited" if "(root, x) \<in> (child_edges ts)\<^sup>+" for x
    using that assms by (induction rule: trancl_induct) (auto simp: frontier_def)
  then show "descendants ts root \<subseteq> set visited" by (auto simp: descendants_def)
qed

lemma cascade_walk_collects:
  assumes "keys_distinct t_id ts" and "frontier ts root pending visited" and "collected e actor ts visited mutated"
  shows "\<exists>vs. set vs = descendants ts root \<and> collected e actor ts vs (cascade_walk e actor ts pending visited mutated)"
  using assms
proof (induction e actor ts pending visited mutated rule: cascade_walk.induct)
  case (1 e actor ts pending visited mutated)
  show ?case
  proof (cases "pending = []")
    case True
    with "1.prems" frontier_end have "set visited = descendants ts root" by blast
    with "1.prems"(3) True show ?thesis by (auto simp: cascade_walk.simps)
  next
    case False
    obtain visited' next_layer mutated'
      where sc: "cascade_scan e actor (children_of pending ts) (visited, [], mutated) = (visited', next_layer, mutated')"
      by (metis prod_cases3)
    have "set (children_of pending ts) \<subseteq> set ts" by (auto simp: children_of_def coll_find_def)
    with 1 sc have "collected e actor ts visited' mutated'" by (blast intro: cascade_scan_collected)
    moreover have "frontier ts root next_layer visited'" by (rule frontier_step [OF "1.prems"(2) sc])
    ultimately show ?thesis
      using 1 False sc cascade_walk.simps [of e actor ts pending visited mutated] by simp
  qed
qed

lemma cascade_walk_correct:
  assumes "keys_distinct t_id ts"
  shows "distinct (map t_id (cascade_walk e actor ts [root] [] []))"
    and "set (cascade_walk e actor ts [root] [] []) =
      approve_child e actor ` {t \<in> set ts. t_id t \<in> descendants ts root \<and> \<not> t_approved t}"
  using cascade_walk_collects [OF assms, of root "[root]" "[]" e actor "[]"]
  by (auto simp: frontier_def collected_def)

section \<open>What the cascade writes\<close>

definition cascades_to :: "env \<Rightarrow> task list \<Rightarrow> string \<Rightarrow> task \<Rightarrow> bool" where
  "cascades_to e ts root t \<longleftrightarrow> t_id t \<in> descendants ts root \<and> \<not> t_approved t \<and> \<not> save_raises e (t_id t)"

lemma cascade_stores:
  assumes d: "keys_distinct t_id (w_tasks w)"
  shows "w_tasks (store_tasks e (filter (\<lambda>t. \<not> save_raises e (t_id t)) (cascade_walk e actor (w_tasks w) [root] [] [])) w) =
    map (\<lambda>t. if cascades_to e (w_tasks w) root t then touch (now e) (approve_child e actor t) else t) (w_tasks w)"
    (is "w_tasks (store_tasks e ?us w) = _")
proof -
  let ?us' = "map (touch (now e)) ?us"
  note walk = cascade_walk_correct [OF d, of e actor root]
  have set_us: "set ?us = approve_child e actor ` {t \<in> set (w_tasks w). cascades_to e (w_tasks w) root t}"
    using walk(2) by (auto simp: cascades_to_def task_simps)
  have "distinct (map t_id ?us)" using walk(1) by (simp add: distinct_map_filter)
  then have du: "distinct (map t_id ?us')" by (simp add: comp_def task_simps)
  have "w_tasks (store_tasks e ?us w) = fold (coll_save t_id) ?us' (w_tasks w)"
    by (simp add: w_tasks_store_tasks fold_map comp_def)
  also have "\<dots> = map (\<lambda>t. case coll_get t_id ?us' (t_id t) of None \<Rightarrow> t | Some u \<Rightarrow> u) (w_tasks w)"
  proof (rule fold_save_map [OF du])
    fix u assume "u \<in> set ?us'"
    then obtain t where "t \<in> set (w_tasks w)" "u = touch (now e) (approve_child e actor t)"
      unfolding set_map set_us by blast
    then show "\<exists>t \<in> set (w_tasks w). t_id t = t_id u" by (auto simp: task_simps)
  qed
  also have "\<dots> = map (\<lambda>t. if cascades_to e (w_tasks w) root t then touch (now e) (approve_child e actor t) else t) (w_tasks w)"
  proof (intro map_cong refl)
    fix t assume t: "t \<in> set (w_tasks w)"
    have k: "keys_distinct t_id ?us'" using du by (simp add: keys_distinct_def)
    show "(case coll_get t_id ?us' (t_id t) of None \<Rightarrow> t | Some u \<Rightarrow> u) =
        (if cascades_to e (w_tasks w) root t then touch (now e) (approve_child e actor t) else t)"
    proof (cases "cascades_to e (w_tasks w) root t")
      case True
      with t have "coll_get t_id ?us' (t_id t) = Some (touch (now e) (approve_child e actor t))"
        unfolding coll_get_Some [OF k] set_map set_us by (simp add: task_simps)
      with True show ?thesis by simp
    next
      case False
      then have "coll_get t_id ?us' (t_id t) = None"
        using keys_distinct_eq [OF d _ t] unfolding coll_get_None set_map set_us by (auto simp: task_simps)
      with False show ?thesis by simp
    qed
  qed
  finally show ?thesis .
qed

lemma wp_forP_docs:
  assumes "\<And>x w'. same_docs w w' \<Longrightarrow> wp (f x) (\<lambda>_. same_docs w) (\<lambda>_. same_docs w) w'"
    and "\<And>w'. same_docs w w' \<Longrightarrow> Q () w'" and "\<And>x w'. same_docs w w' \<Longrightarrow> E x w'" and "same_docs w w1"
  shows "wp (forP xs f) Q E w1"
  using assms(4)
proof (induction xs arbitrary: w1)
  case (Cons x xs)
  then show ?case using assms(1,3) unfolding forP.simps wp_bindP by (blast intro: wp_mono)
qed (simp add: wp_simps assms(2))

lemma same_docs_trans: "same_docs w w' \<Longrightarrow> same_docs w' w'' \<Longrightarrow> same_docs w w''"
  by (simp add: same_docs_def)

lemma wp_cascade:
  assumes d: "keys_distinct t_id (w_tasks w)"
    and post: "\<And>w'. w_tasks w' = map (\<lambda>t. if cascades_to e (w_tasks w) root t
          then touch (now e) (approve_child e actor t) else t) (w_tasks w) \<Longrightarrow>
        w_projects w' = w_projects w \<Longrightarrow> w_users w' = w_users w \<Longrightarrow> w_issues w' = w_issues w \<Longrightarrow> P w'"
  shows "wp (cascade_approve_subtasks e root actor) (\<lambda>_. P) (\<lambda>_. P) w"
proof -
  let ?mu = "cascade_walk e actor (w_tasks w) [root] [] []"
  let ?w = "store_tasks e (filter (\<lambda>t. \<not> save_raises e (t_id t)) ?mu) w"
  have P: "P w'" if "same_docs ?w w'" for w'
    using that by (intro post) (simp_all add: same_docs_def cascade_stores [OF d])
  have idx: "wp (index_task e t) (\<lambda>_. same_docs ?w) (\<lambda>_. same_docs ?w) w'" if "same_docs ?w w'" for t w'
    by (rule wp_index_task) (use that same_docs_trans in blast)+
  have ev: "wp (batch_event e p ids) (\<lambda>_. same_docs ?w) (\<lambda>_. same_docs ?w) w'" if "same_docs ?w w'" for p ids w'
    unfolding batch_event_def by (rule wp_publish_event) (use that same_docs_trans in blast)
  show ?thesis
  proof (cases "?mu = []")
    case True
    with P [of w] show ?thesis
      by (simp add: cascade_approve_subtasks_def wp_simps store_tasks_def)
  next
    case False
    have loop: "wp (bindP (forP (distinct_in_order pids) (\<lambda>pid. batch_event e pid (f pid))) (\<lambda>_. return r)) (\<lambda>_. P) (\<lambda>_. P) w'"
      if "same_docs ?w w'" for pids f w' and r :: "task list"
      unfolding wp_bindP by (rule wp_forP_docs [OF ev _ _ that]) (simp_all add: wp_simps P)
    from False show ?thesis
      unfolding cascade_approve_subtasks_def
      by (simp only: wp_simps Let_def if_False) (rule wp_forP_docs [OF idx]; simp add: loop P)
  qed
qed

text \<open>
  C10. The cascade reaches exactly the live descendants. Whatever the shape of the stored
  \<open>parent_task_id\<close> links (loops included) the walk ends, and it writes, for each live
  descendant of the root that is not approved yet and whose write the database accepts, the
  copy with \<open>approved\<close> set, \<open>needs_detail\<close> cleared and the change logged; every other task is
  left as it is, also when indexing fails afterwards.
\<close>

theorem cascade_approves_descendants:
  assumes "keys_distinct t_id (w_tasks w)"
  shows "w_tasks (snd (cascade_approve_subtasks e root actor w)) =
    map (\<lambda>t. if (root, t_id t) \<in> (child_edges (w_tasks w))\<^sup>+ \<and> \<not> t_approved t \<and> \<not> save_raises e (t_id t)
             then touch (now e) (approve_child e actor t) else t) (w_tasks w)"
proof -
  have "wp (cascade_approve_subtasks e root actor)
      (\<lambda>_ w'. w_tasks w' = map (\<lambda>t. if cascades_to e (w_tasks w) root t
          then touch (now e) (approve_child e actor t) else t) (w_tasks w))
      (\<lambda>_ w'. w_tasks w' = map (\<lambda>t. if cascades_to e (w_tasks w) root t
          then touch (now e) (approve_child e actor t) else t) (w_tasks w)) w"
    by (rule wp_cascade [OF assms])
  then show ?thesis unfolding wp_snd by (simp add: cascades_to_def descendants_def)
qed

text \<open>A tree to run it on: \<open>y\<close> below \<open>x\<close> below \<open>r\<close>, where \<open>x\<close> is approved and \<open>y\<close> is not.\<close>

definition tree_world :: world where
  "tree_world = demo_world\<lparr>w_tasks := [demo_task ''r'' [] [],
     (demo_task ''x'' [] [])\<lparr>t_parent_task_id := Some ''r'', t_approved := True\<rparr>,
     (demo_task ''y'' [] [])\<lparr>t_parent_task_id := Some ''x'', t_needs_detail := True\<rparr>]\<rparr>"

lemma tree_world_keys: "keys_distinct t_id (w_tasks tree_world)"
  by (simp add: keys_distinct_def tree_world_def demo_task_def new_task_def)

lemma tree_world_descends: "(''r'', ''y'') \<in> (child_edges (w_tasks tree_world))\<^sup>+"
proof -
  have "(''r'', ''x'') \<in> child_edges (w_tasks tree_world)" "(''x'', ''y'') \<in> child_edges (w_tasks tree_world)"
    by (force simp: child_edges_def tree_world_def demo_task_def new_task_def)+
  then show ?thesis by (meson trancl.intros)
qed

theorem cascade_approves_descendants_witness:
  "keys_distinct t_id (w_tasks tree_world) \<and>
   touch 0 (approve_child plain_env ''u'' ((demo_task ''y'' [] [])\<lparr>t_parent_task_id := Some ''x'', t_needs_detail := True\<rparr>))
     \<in> set (w_tasks (snd (cascade_approve_subtasks plain_env ''r'' ''u'' tree_world)))"
  unfolding cascade_approves_descendants [OF tree_world_keys] set_map
proof (intro conjI tree_world_keys)
  let ?y = "(demo_task ''y'' [] [])\<lparr>t_parent_task_id := Some ''x'', t_needs_detail := True\<rparr>"
  have y: "?y \<in> set (w_tasks tree_world)" "t_id ?y = ''y''" "\<not> t_approved ?y"
    by (simp_all add: tree_world_def demo_task_def new_task_def)
  have "now plain_env = 0" "\<not> save_raises plain_env x" for x by (simp_all add: plain_env_def)
  with y tree_world_descends
  show "touch 0 (approve_child plain_env ''u'' ?y) \<in> (\<lambda>t. if (''r'', t_id t) \<in> (child_edges (w_tasks tree_world))\<^sup>+ \<and>
      \<not> t_approved t \<and> \<not> save_raises plain_env (t_id t)
      then touch (now plain_env) (approve_child plain_env ''u'' t) else t) ` set (w_tasks tree_world)"
    by (intro image_eqI [OF _ y(1)]) simp
qed

end
