(* ===== verification/Task_Rest.thy ===== *)
theory Task_Rest
  imports Task_Approval "HOL-Library.Product_Lexorder" "HOL-Library.Multiset"
begin

text \<open>
  The REST endpoints of tasks (api/v1/endpoints/tasks): list, create, read, update, delete,
  the lifecycle transitions, reorder and batch update, comments, links and attachments.
  Every handler is a program over \<open>world\<close>; its last argument before the state is the user the
  authentication dependency resolved. Requests are those the schemas accept; in a PATCH body
  a field is \<open>None\<close> when it was not sent, and a field that may be cleared is \<open>Some None\<close> when
  it was sent as \<open>null\<close>. Bodies that send \<open>null\<close> for a field the document does not allow to be
  null are outside the model.
\<close>

section \<open>Requests\<close>

record decision_option_request =
  dor_label :: string
  dor_description :: "string option"

record decision_context_request =
  dr_background :: "string option"
  dr_decision_point :: "string option"
  dr_options :: "decision_option_request list option"

record create_task_request =
  cr_title :: string
  cr_description :: string
  cr_priority :: task_priority
  cr_status :: task_status
  cr_task_type :: task_type
  cr_decision_context :: "decision_context_request option"
  cr_due_date :: "time option"
  cr_assignee_id :: "string option"
  cr_parent_task_id :: "string option"
  cr_tags :: "string list"

record update_task_request =
  ur_title :: "string option"
  ur_description :: "string option"
  ur_priority :: "task_priority option"
  ur_status :: "task_status option"
  ur_task_type :: "task_type option"
  ur_decision_context :: "decision_context_request option option"
  ur_due_date :: "time option option"
  ur_assignee_id :: "string option option"
  ur_parent_task_id :: "string option option"
  ur_tags :: "string list option"
  ur_needs_detail :: "bool option"
  ur_approved :: "bool option"
  ur_completion_report :: "string option option"
  ur_active_form :: "string option option"

record batch_update_item =
  bi_task_id :: string
  bi_needs_detail :: "bool option"
  bi_approved :: "bool option"
  bi_archived :: "bool option"

record list_tasks_query =
  lq_status :: "string option"
  lq_priority :: "task_priority option"
  lq_assignee_id :: "string option"
  lq_tag :: "string option"
  lq_task_type :: "task_type option"
  lq_needs_detail :: "bool option"
  lq_approved :: "bool option"
  lq_archived :: "bool option"
  lq_parent_task_id :: "string option"
  lq_updated_since :: "time option"
  lq_limit :: "nat option"
  lq_skip :: nat

record upload_file =
  uf_content_type :: string
  uf_contents :: string
  uf_filename :: "string option"

section \<open>Shared steps\<close>

definition task_not_found :: exn where
  "task_not_found = HTTPException 404 (JStr ''Task not found'')"

text \<open>\<open>if not task or task.project_id != project_id or task.is_deleted: raise\<close> 404.\<close>

definition in_project :: "string \<Rightarrow> task option \<Rightarrow> (world, task) prog" where
  "in_project project_id task0 =
     (case task0 of
        None \<Rightarrow> raise task_not_found
      | Some t \<Rightarrow> if t_project_id t \<noteq> project_id \<or> t_is_deleted t then raise task_not_found else return t)"

definition get_editable_task :: "env \<Rightarrow> string \<Rightarrow> string \<Rightarrow> user \<Rightarrow> (world, project \<times> task) prog" where
  "get_editable_task e project_id task_id u =
     bindP (valid_object_id e task_id) (\<lambda>_.
     bindP (check_project_access e project_id u) (\<lambda>project.
     bindP (check_not_locked project) (\<lambda>_.
     bindP (task_get e task_id) (\<lambda>task0.
     bindP (in_project project_id task0) (\<lambda>t.
     return (project, t))))))"

section \<open>List\<close>

text \<open>
  The extras of a page (services/serializers.py): the names of assignees and deciders that
  resolve to stored users, and the number of live subtasks.
\<close>

definition referenced_users :: "task list \<Rightarrow> string list" where
  "referenced_users ts = concat (map (\<lambda>t.
     (case truthy (t_assignee_id t) of None \<Rightarrow> [] | Some a \<Rightarrow> [a]) @
     (case truthy (t_decider_id t) of None \<Rightarrow> [] | Some d \<Rightarrow> [d])) ts)"

definition user_names :: "env \<Rightarrow> task list \<Rightarrow> user list \<Rightarrow> string \<Rightarrow> string option" where
  "user_names e ts us uid =
     (let oids = map (oid_canon e) (filter (oid_valid e) (referenced_users ts));
          users = coll_find (\<lambda>u. u_id u \<in> set oids) us
      in map_option u_name (coll_get u_id users uid))"

definition enrich_tasks_meta :: "env \<Rightarrow> task list \<Rightarrow> (world, string \<Rightarrow> task_extras option) prog" where
  "enrich_tasks_meta e ts =
     gets (\<lambda>w. let name = user_names e ts (w_users w);
                  subtask_counts = (\<lambda>tid. int (length (coll_find
                    (\<lambda>c. t_parent_task_id c = Some tid \<and> \<not> t_is_deleted c) (w_tasks w))))
              in (\<lambda>tid. map_option (\<lambda>t.
                   \<lparr>ex_subtask_count = Some (subtask_counts (t_id t)),
                    ex_assignee_name = (case truthy (t_assignee_id t) of None \<Rightarrow> None | Some a \<Rightarrow> name a),
                    ex_decider_name = (case truthy (t_decider_id t) of None \<Rightarrow> None | Some d \<Rightarrow> name d)\<rparr>)
                   (coll_get t_id ts tid)))"

definition statuses_of :: "string \<Rightarrow> string list" where
  "statuses_of task_status = map py_strip (split_on (CHR '','') task_status)"

definition list_matches :: "string \<Rightarrow> list_tasks_query \<Rightarrow> task \<Rightarrow> bool" where
  "list_matches project_id q t \<longleftrightarrow>
     t_project_id t = project_id \<and> \<not> t_is_deleted t \<and>
     (case lq_updated_since q of None \<Rightarrow> True | Some since \<Rightarrow> since < t_updated_at t) \<and>
     (case truthy (lq_status q) of None \<Rightarrow> True | Some s \<Rightarrow> status_str (t_status t) \<in> set (statuses_of s)) \<and>
     (case lq_priority q of None \<Rightarrow> True | Some p \<Rightarrow> t_priority t = p) \<and>
     (case truthy (lq_assignee_id q) of None \<Rightarrow> True | Some a \<Rightarrow> t_assignee_id t = Some a) \<and>
     (case truthy (lq_tag q) of None \<Rightarrow> True | Some g \<Rightarrow> g \<in> set (t_tags t)) \<and>
     (case lq_task_type q of None \<Rightarrow> True | Some k \<Rightarrow> t_task_type t = k) \<and>
     (case lq_needs_detail q of None \<Rightarrow> True | Some b \<Rightarrow> t_needs_detail t = b) \<and>
     (case lq_approved q of None \<Rightarrow> True | Some b \<Rightarrow> t_approved t = b) \<and>
     (case lq_archived q of None \<Rightarrow> True | Some b \<Rightarrow> t_archived t = b) \<and>
     (case lq_parent_task_id q of None \<Rightarrow> True | Some p \<Rightarrow> t_parent_task_id t = Some p)"

definition page :: "nat \<Rightarrow> nat option \<Rightarrow> 'a list \<Rightarrow> 'a list" where
  "page skip limit xs = (case limit of None \<Rightarrow> drop skip xs | Some n \<Rightarrow> take n (drop skip xs))"

definition list_order :: "task \<Rightarrow> int \<times> time" where
  "list_order t = (t_sort_order t, t_created_at t)"

text \<open>
  The sort of a query: the keys decide, and ties come in whatever order the database gives them
  in this request.
\<close>

definition mongo_sort :: "env \<Rightarrow> ('d \<Rightarrow> string) \<Rightarrow> ('d \<Rightarrow> 'k :: linorder) \<Rightarrow> 'd list \<Rightarrow> 'd list" where
  "mongo_sort e oid key ds = sort_key (\<lambda>d. (key d, tie_rank e (oid d))) ds"

definition list_tasks :: "env \<Rightarrow> string \<Rightarrow> list_tasks_query \<Rightarrow> user \<Rightarrow> (world, json) prog" where
  "list_tasks e project_id q u =
     bindP (check_project_access e project_id u) (\<lambda>_.
     bindP (query_tasks (list_matches project_id q)) (\<lambda>found.
     let tasks = page (lq_skip q) (lq_limit q) (mongo_sort e t_id list_order found) in
     bindP (enrich_tasks_meta e tasks) (\<lambda>extras_map.
     return (JObj
       [(''items'', JList (map (\<lambda>t. task_to_dict t (case extras_map (t_id t) of None \<Rightarrow> no_extras | Some x \<Rightarrow> x)) tasks)),
        (''total'', JInt (int (length found))),
        (''limit'', jopt (\<lambda>n. JInt (int n)) (lq_limit q)),
        (''skip'', JInt (int (lq_skip q)))]))))"

section \<open>Create and read\<close>

definition option_of_request :: "decision_option_request \<Rightarrow> decision_option" where
  "option_of_request o' = \<lparr>do_label = dor_label o',
     do_description = (case dor_description o' of None \<Rightarrow> '''' | Some d \<Rightarrow> d)\<rparr>"

definition context_of_request :: "decision_context_request \<Rightarrow> decision_context" where
  "context_of_request dc =
     \<lparr>dc_background = (case dr_background dc of None \<Rightarrow> '''' | Some b \<Rightarrow> b),
      dc_decision_point = (case dr_decision_point dc of None \<Rightarrow> '''' | Some p \<Rightarrow> p),
      dc_options = map option_of_request (case dr_options dc of None \<Rightarrow> [] | Some os \<Rightarrow> os),
      dc_recommendation = None\<rparr>"

definition create_task :: "env \<Rightarrow> string \<Rightarrow> create_task_request \<Rightarrow> user \<Rightarrow> (world, json) prog" where
  "create_task e project_id body u =
     bindP (check_project_access e project_id u) (\<lambda>project.
     bindP (check_not_locked project) (\<lambda>_.
     let t = (new_task (new_oid e 0) (now e) project_id (cr_title body) (u_id u))
           \<lparr>t_description := cr_description body, t_priority := cr_priority body, t_status := cr_status body,
            t_task_type := cr_task_type body,
            t_decision_context := map_option context_of_request (cr_decision_context body),
            t_due_date := cr_due_date body, t_assignee_id := cr_assignee_id body,
            t_parent_task_id := cr_parent_task_id body, t_tags := cr_tags body\<rparr> in
     bindP (task_insert t) (\<lambda>_.
     bindP (publish_event e project_id ''task.created'' (task_dict t)) (\<lambda>_.
     bindP (index_task e t) (\<lambda>_.
     return (task_dict t))))))"

definition get_task :: "env \<Rightarrow> string \<Rightarrow> string \<Rightarrow> user \<Rightarrow> (world, json) prog" where
  "get_task e project_id task_id u =
     bindP (valid_object_id e task_id) (\<lambda>_.
     bindP (check_project_access e project_id u) (\<lambda>_.
     bindP (task_get e task_id) (\<lambda>task0.
     bindP (in_project project_id task0) (\<lambda>t.
     return (task_dict t)))))"

section \<open>Update\<close>

text \<open>\<open>if "field" in updates: ...\<close>\<close>

definition upd :: "'a option \<Rightarrow> ('a \<Rightarrow> task \<Rightarrow> task) \<Rightarrow> task \<Rightarrow> task" where
  "upd x f t = (case x of None \<Rightarrow> t | Some v \<Rightarrow> f v t)"

text \<open>The fields before and after the parent check, in the order of the code.\<close>

definition update_before_parent :: "env \<Rightarrow> string \<Rightarrow> update_task_request \<Rightarrow> task \<Rightarrow> task" where
  "update_before_parent e actor b =
     upd (ur_assignee_id b) (\<lambda>v t.
       (record_change ''assignee_id'' (t_assignee_id t) v actor Human (now e) t)\<lparr>t_assignee_id := v\<rparr>) \<circ>
     upd (ur_due_date b) (\<lambda>v t. t\<lparr>t_due_date := v\<rparr>) \<circ>
     upd (ur_status b) (\<lambda>v t. transition_status v (now e)
       (record_change ''status'' (Some (status_str (t_status t))) (Some (status_str v)) actor Human (now e) t)) \<circ>
     upd (ur_priority b) (\<lambda>v t.
       (record_change ''priority'' (Some (priority_str (t_priority t))) (Some (priority_str v)) actor Human (now e) t)
         \<lparr>t_priority := v\<rparr>) \<circ>
     upd (ur_description b) (\<lambda>v t. t\<lparr>t_description := v\<rparr>) \<circ>
     upd (ur_title b) (\<lambda>v t. t\<lparr>t_title := v\<rparr>)"

definition http_error :: "nat \<Rightarrow> string \<Rightarrow> string \<Rightarrow> (string \<times> json) list \<Rightarrow> exn" where
  "http_error code err msg details =
     HTTPException code (JObj ([(''error'', JStr err), (''message'', JStr msg)] @ details))"

definition check_new_parent :: "env \<Rightarrow> string \<Rightarrow> task \<Rightarrow> string \<Rightarrow> (world, unit) prog" where
  "check_new_parent e task_id t new_parent =
     bindP (guard (new_parent \<noteq> task_id)
       (http_error 400 ''self_reference'' ''A task cannot be its own parent'' [])) (\<lambda>_.
     bindP (valid_object_id e new_parent) (\<lambda>_.
     bindP (task_get e new_parent) (\<lambda>target0.
     bindP (some_or (not_deleted target0)
       (http_error 400 ''target_not_found'' (''Parent task '' @ quoted new_parent @ '' not found'') [])) (\<lambda>target.
     bindP (guard (t_project_id target = t_project_id t)
       (http_error 400 ''cross_project'' ''Parent task is in a different project'' [])) (\<lambda>_.
     bindP (gets (\<lambda>w. has_parent_cycle e (t_project_id t) task_id new_parent (w_tasks w))) (\<lambda>cycle_path.
     case cycle_path of
       None \<Rightarrow> return ()
     | Some path \<Rightarrow> raise (http_error 400 ''parent_cycle_detected'' ''Setting this parent would create a cycle''
         [(''path'', JList (map JStr path))])))))))"

definition update_parent :: "env \<Rightarrow> string \<Rightarrow> string \<Rightarrow> update_task_request \<Rightarrow> task \<Rightarrow> (world, task) prog" where
  "update_parent e actor task_id b t =
     (case ur_parent_task_id b of
        None \<Rightarrow> return t
      | Some new_parent \<Rightarrow>
          bindP (case new_parent of None \<Rightarrow> return () | Some p \<Rightarrow> check_new_parent e task_id t p) (\<lambda>_.
          return ((record_change ''parent_task_id'' (t_parent_task_id t) new_parent actor Human (now e) t)
            \<lparr>t_parent_task_id := new_parent\<rparr>)))"

text \<open>
  \<open>model_dump(exclude_unset=True)\<close> drops the nested fields that were not sent too, so that
  \<open>dc["background"]\<close> raises where the client left the default.
\<close>

definition dumped_context :: "decision_context_request \<Rightarrow> (world, decision_context) prog" where
  "dumped_context dc =
     bindP (some_or (dr_background dc) (KeyError ''background'')) (\<lambda>background.
     bindP (some_or (dr_decision_point dc) (KeyError ''decision_point'')) (\<lambda>decision_point.
     return \<lparr>dc_background = background, dc_decision_point = decision_point,
       dc_options = map option_of_request (case dr_options dc of None \<Rightarrow> [] | Some os \<Rightarrow> os),
       dc_recommendation = None\<rparr>))"

definition update_decision_context :: "update_task_request \<Rightarrow> task \<Rightarrow> (world, task) prog" where
  "update_decision_context b t =
     (case ur_decision_context b of
        None \<Rightarrow> return t
      | Some None \<Rightarrow> return (t\<lparr>t_decision_context := None\<rparr>)
      | Some (Some dc) \<Rightarrow> bindP (dumped_context dc) (\<lambda>c. return (t\<lparr>t_decision_context := Some c\<rparr>)))"

definition update_tags_type :: "env \<Rightarrow> string \<Rightarrow> update_task_request \<Rightarrow> task \<Rightarrow> task" where
  "update_tags_type e actor b =
     upd (ur_task_type b) (\<lambda>v t.
       (record_change ''task_type'' (Some (task_type_str (t_task_type t))) (Some (task_type_str v)) actor Human (now e) t)
         \<lparr>t_task_type := v\<rparr>) \<circ>
     upd (ur_tags b) (\<lambda>v t. t\<lparr>t_tags := v\<rparr>)"

text \<open>The review flags; \<open>batch_update_tasks\<close> changes them by the same statements.\<close>

definition set_needs_detail :: "env \<Rightarrow> string \<Rightarrow> bool \<Rightarrow> task \<Rightarrow> task" where
  "set_needs_detail e actor v t =
     (let t1 = (record_change ''needs_detail'' (Some (str_bool (t_needs_detail t))) (Some (str_bool v)) actor Human (now e) t)
            \<lparr>t_needs_detail := v\<rparr>
      in if v then t1\<lparr>t_approved := False\<rparr> else t1)"

definition set_approved :: "env \<Rightarrow> string \<Rightarrow> bool \<Rightarrow> task \<Rightarrow> task" where
  "set_approved e actor v t =
     (let t1 = (record_change ''approved'' (Some (str_bool (t_approved t))) (Some (str_bool v)) actor Human (now e) t)
            \<lparr>t_approved := v\<rparr>
      in if v then t1\<lparr>t_needs_detail := False\<rparr> else t1)"

definition update_after_context :: "env \<Rightarrow> string \<Rightarrow> update_task_request \<Rightarrow> task \<Rightarrow> task" where
  "update_after_context e actor b =
     upd (ur_active_form b) (\<lambda>v t. t\<lparr>t_active_form := v\<rparr>) \<circ>
     upd (ur_completion_report b) (\<lambda>v t. t\<lparr>t_completion_report := v\<rparr>) \<circ>
     upd (ur_approved b) (set_approved e actor) \<circ>
     upd (ur_needs_detail b) (set_needs_detail e actor)"

definition update_task :: "env \<Rightarrow> string \<Rightarrow> string \<Rightarrow> update_task_request \<Rightarrow> user \<Rightarrow> (world, json) prog" where
  "update_task e project_id task_id b u =
     bindP (valid_object_id e task_id) (\<lambda>_.
     bindP (check_project_access e project_id u) (\<lambda>project.
     bindP (check_not_locked project) (\<lambda>_.
     bindP (task_get e task_id) (\<lambda>task0.
     bindP (in_project project_id task0) (\<lambda>t.
     let actor = u_id u;
         status_transitioned_to_done = (t_status t \<noteq> Done \<and> ur_status b = Some Done);
         cascade_approved = (ur_approved b = Some True) in
     bindP (update_parent e actor task_id b (update_before_parent e actor b t)) (\<lambda>t1.
     bindP (update_decision_context b (update_tags_type e actor b t1)) (\<lambda>t2.
     bindP (save_updated e (update_after_context e actor b t2)) (\<lambda>t3.
     bindP (whenP cascade_approved
       (bindP (cascade_approve_subtasks e (t_id t3) actor) (\<lambda>_. return ()))) (\<lambda>_.
     bindP (publish_event e project_id ''task.updated'' (task_dict t3)) (\<lambda>_.
     bindP (whenP status_transitioned_to_done (publish_event e project_id ''task.completed'' (task_dict t3))) (\<lambda>_.
     bindP (index_task e t3) (\<lambda>_.
     return (task_dict t3)))))))))))))"

section \<open>Delete\<close>

definition delete_task :: "env \<Rightarrow> string \<Rightarrow> string \<Rightarrow> bool \<Rightarrow> user \<Rightarrow> (world, unit) prog" where
  "delete_task e project_id task_id force u =
     bindP (valid_object_id e task_id) (\<lambda>_.
     bindP (check_project_access e project_id u) (\<lambda>project.
     bindP (check_not_locked project) (\<lambda>_.
     bindP (task_get e task_id) (\<lambda>task0.
     bindP (in_project project_id task0) (\<lambda>t.
     bindP (list_dependents project_id task_id) (\<lambda>dependents.
     bindP (guard (dependents = [] \<or> force)
       (http_error 400 ''blocks_dependents''
          ''Task is blocking other tasks; pass ?force=true to purge references and delete anyway.''
          [(''dependents'', JList (map (\<lambda>d. JStr (t_id d)) dependents))])) (\<lambda>_.
     bindP (if dependents \<noteq> [] \<and> force then cleanup_dependents e task_id project_id (u_id u) else return []) (\<lambda>cleaned.
     bindP (save_updated e (t\<lparr>t_is_deleted := True\<rparr>)) (\<lambda>_.
     bindP (modify (\<lambda>w. w\<lparr>w_files := filter (\<lambda>f. fst f \<noteq> task_id \<or> rmtree_leaves e f) (w_files w)\<rparr>)) (\<lambda>_.
     bindP (publish_event e project_id ''task.deleted'' (JObj [(''id'', JStr task_id)])) (\<lambda>_.
     bindP (forP cleaned (\<lambda>dep. publish_event e project_id ''task.updated'' (task_dict dep))) (\<lambda>_.
     deindex_task e task_id))))))))))))"

section \<open>Lifecycle\<close>

definition complete_task :: "env \<Rightarrow> string \<Rightarrow> string \<Rightarrow> string option \<Rightarrow> user \<Rightarrow> (world, json) prog" where
  "complete_task e project_id task_id completion_report u =
     bindP (get_editable_task e project_id task_id u) (\<lambda>(_, t).
     let was_done = (t_status t = Done);
         t1 = (record_change ''status'' (Some (status_str (t_status t))) (Some ''done'') (u_id u) Human (now e) t)
           \<lparr>t_status := Done, t_completed_at := Some (now e)\<rparr>;
         t2 = (case completion_report of None \<Rightarrow> t1 | Some r \<Rightarrow> t1\<lparr>t_completion_report := Some r\<rparr>) in
     bindP (save_updated e t2) (\<lambda>t3.
     bindP (publish_event e project_id ''task.updated'' (task_dict t3)) (\<lambda>_.
     bindP (whenP (\<not> was_done) (publish_event e project_id ''task.completed'' (task_dict t3))) (\<lambda>_.
     bindP (index_task e t3) (\<lambda>_.
     bindP (resolve_linked_issues e (t_id t3)) (\<lambda>_.
     return (task_dict t3)))))))"

definition reopen_task :: "env \<Rightarrow> string \<Rightarrow> string \<Rightarrow> user \<Rightarrow> (world, json) prog" where
  "reopen_task e project_id task_id u =
     bindP (get_editable_task e project_id task_id u) (\<lambda>(_, t).
     let t1 = (record_change ''status'' (Some (status_str (t_status t))) (Some ''todo'') (u_id u) Human (now e) t)
           \<lparr>t_status := Todo, t_completed_at := None\<rparr> in
     bindP (save_updated e t1) (\<lambda>t2.
     bindP (publish_event e project_id ''task.updated'' (task_dict t2)) (\<lambda>_.
     bindP (index_task e t2) (\<lambda>_.
     return (task_dict t2)))))"

definition archive_task :: "env \<Rightarrow> string \<Rightarrow> string \<Rightarrow> user \<Rightarrow> (world, json) prog" where
  "archive_task e project_id task_id u =
     bindP (get_editable_task e project_id task_id u) (\<lambda>(_, t).
     bindP (save_updated e (t\<lparr>t_archived := True\<rparr>)) (\<lambda>t2.
     bindP (publish_event e project_id ''task.updated'' (task_dict t2)) (\<lambda>_.
     bindP (index_task e t2) (\<lambda>_.
     bindP (ignore_linked_issues e (t_id t2)) (\<lambda>_.
     return (task_dict t2))))))"

definition unarchive_task :: "env \<Rightarrow> string \<Rightarrow> string \<Rightarrow> user \<Rightarrow> (world, json) prog" where
  "unarchive_task e project_id task_id u =
     bindP (get_editable_task e project_id task_id u) (\<lambda>(_, t).
     bindP (save_updated e (t\<lparr>t_archived := False\<rparr>)) (\<lambda>t2.
     bindP (publish_event e project_id ''task.updated'' (task_dict t2)) (\<lambda>_.
     bindP (index_task e t2) (\<lambda>_.
     return (task_dict t2)))))"

section \<open>Bulk operations\<close>

text \<open>
  The documents a bulk request fetched, by identifier; the same in-memory document serves
  every entry that names it, and the writes happen after the loop, with its final contents.
\<close>

type_synonym task_map = "string \<Rightarrow> task option"

definition fetch_map :: "env \<Rightarrow> string \<Rightarrow> string list \<Rightarrow> (world, task_map) prog" where
  "fetch_map e project_id task_ids =
     bindP (query_tasks (\<lambda>t. t_id t \<in> oid_canon e ` set task_ids \<and> t_project_id t = project_id \<and> \<not> t_is_deleted t))
       (\<lambda>ts. return (coll_get t_id ts))"

fun reorder_loop :: "(nat \<times> string) list \<Rightarrow> task_map \<times> string list \<Rightarrow> task_map \<times> string list" where
  "reorder_loop [] st = st"
| "reorder_loop ((i, tid) # rest) (m, updates) =
     (case m tid of
        None \<Rightarrow> reorder_loop rest (m, updates)
      | Some t \<Rightarrow>
          if t_sort_order t \<noteq> int i
          then reorder_loop rest (m(tid \<mapsto> t\<lparr>t_sort_order := int i\<rparr>), updates @ [tid])
          else reorder_loop rest (m, updates))"

definition reorder_tasks :: "env \<Rightarrow> string \<Rightarrow> string list \<Rightarrow> user \<Rightarrow> (world, json) prog" where
  "reorder_tasks e project_id task_ids u =
     bindP (check_project_access e project_id u) (\<lambda>_.
     bindP (guard (\<forall>tid \<in> set task_ids. oid_valid e tid) (HTTPException 400 (JStr ''Invalid task ID''))) (\<lambda>_.
     bindP (fetch_map e project_id task_ids) (\<lambda>task_map.
     case reorder_loop (enumerate 0 task_ids) (task_map, []) of
       (m, updates) \<Rightarrow>
         bindP (forP updates (\<lambda>tid. case m tid of None \<Rightarrow> return () | Some t \<Rightarrow> modify (store_task t))) (\<lambda>_.
         return (JObj [(''reordered'', JInt (int (length updates)))])))))"

definition batch_flags :: "env \<Rightarrow> string \<Rightarrow> batch_update_item \<Rightarrow> task \<Rightarrow> task" where
  "batch_flags e actor item =
     upd (bi_archived item) (\<lambda>v t. t\<lparr>t_archived := v\<rparr>) \<circ>
     upd (bi_approved item) (set_approved e actor) \<circ>
     upd (bi_needs_detail item) (set_needs_detail e actor)"

record batch_state =
  bs_map :: task_map
  bs_updated :: "string list"
  bs_failed :: "json list"
  bs_cascade :: "string list"

definition failure :: "string \<Rightarrow> string \<Rightarrow> json" where
  "failure tid err = JObj [(''task_id'', JStr tid), (''error'', JStr err)]"

definition batch_item :: "env \<Rightarrow> string \<Rightarrow> batch_update_item \<Rightarrow> batch_state \<Rightarrow> batch_state" where
  "batch_item e actor item st =
     (case bs_map st (bi_task_id item) of
        None \<Rightarrow> st\<lparr>bs_failed := bs_failed st @ [failure (bi_task_id item) ''Task not found'']\<rparr>
      | Some t \<Rightarrow>
          st\<lparr>bs_map := (bs_map st)(bi_task_id item \<mapsto> batch_flags e actor item t),
             bs_updated := bs_updated st @ [bi_task_id item],
             bs_cascade := bs_cascade st @ (if bi_approved item = Some True then [t_id t] else [])\<rparr>)"

definition batch_update_tasks :: "env \<Rightarrow> string \<Rightarrow> batch_update_item list \<Rightarrow> user \<Rightarrow> (world, json) prog" where
  "batch_update_tasks e project_id updates u =
     bindP (check_project_access e project_id u) (\<lambda>project.
     bindP (check_not_locked project) (\<lambda>_.
     let actor = u_id u; task_ids = map bi_task_id updates in
     bindP (forP task_ids (valid_object_id e)) (\<lambda>_.
     bindP (fetch_map e project_id task_ids) (\<lambda>task_map.
     let st = fold (batch_item e actor) updates
           \<lparr>bs_map = task_map, bs_updated = [], bs_failed = [], bs_cascade = []\<rparr>;
         updated = List.map_filter (bs_map st) (bs_updated st) in
     bindP (gather_saves e updated) (\<lambda>results.
     let saved = map fst (filter snd results);
         failed = bs_failed st @ map (\<lambda>(t, _). failure (t_id t) (save_error e (t_id t))) (filter (\<lambda>(_, ok). \<not> ok) results) in
     bindP (forP saved (index_task e)) (\<lambda>_.
     bindP (whenP (saved \<noteq> []) (batch_event e project_id (map t_id saved))) (\<lambda>_.
     bindP (forP (filter (\<lambda>cid. cid \<in> t_id ` set saved) (bs_cascade st))
       (\<lambda>cid. bindP (cascade_approve_subtasks e cid actor) (\<lambda>_. return ()))) (\<lambda>_.
     return (JObj [(''updated'', JList (map task_dict saved)), (''failed'', JList failed)])))))))))"

section \<open>Comments\<close>

definition new_comment :: "env \<Rightarrow> string \<Rightarrow> string \<Rightarrow> string \<Rightarrow> comment" where
  "new_comment e content author_id author_name =
     \<lparr>cm_id = new_oid e 0, cm_content = content, cm_author_id = author_id, cm_author_name = author_name,
      cm_created_at = now e\<rparr>"

definition add_comment :: "env \<Rightarrow> string \<Rightarrow> string \<Rightarrow> string \<Rightarrow> user \<Rightarrow> (world, json) prog" where
  "add_comment e project_id task_id content u =
     bindP (valid_object_id e task_id) (\<lambda>_.
     bindP (check_project_access e project_id u) (\<lambda>project.
     bindP (check_not_locked project) (\<lambda>_.
     bindP (task_get e task_id) (\<lambda>task0.
     bindP (in_project project_id task0) (\<lambda>t.
     let comment = new_comment e content (u_id u) (u_name u) in
     bindP (save_updated e (t\<lparr>t_comments := t_comments t @ [comment]\<rparr>)) (\<lambda>t1.
     bindP (publish_event e project_id ''comment.added''
       (JObj [(''task_id'', JStr task_id), (''comment'', comment_to_dict comment)])) (\<lambda>_.
     bindP (index_task e t1) (\<lambda>_.
     return (task_dict t1)))))))))"

definition delete_comment :: "env \<Rightarrow> string \<Rightarrow> string \<Rightarrow> string \<Rightarrow> user \<Rightarrow> (world, unit) prog" where
  "delete_comment e project_id task_id comment_id u =
     bindP (valid_object_id e task_id) (\<lambda>_.
     bindP (check_project_access e project_id u) (\<lambda>project.
     bindP (check_not_locked project) (\<lambda>_.
     bindP (task_get e task_id) (\<lambda>task0.
     bindP (in_project project_id task0) (\<lambda>t.
     bindP (some_or (List.find (\<lambda>c. cm_id c = comment_id) (t_comments t))
       (HTTPException 404 (JStr ''Comment not found''))) (\<lambda>comment.
     bindP (guard (cm_author_id comment = u_id u \<or> u_is_admin u)
       (HTTPException 403 (JStr ''Not comment author''))) (\<lambda>_.
     bindP (save_updated e (record_change ''comment'' (Some (cm_content comment)) None (u_id u) Human (now e)
       (t\<lparr>t_comments := filter (\<lambda>c. cm_id c \<noteq> comment_id) (t_comments t)\<rparr>))) (\<lambda>_.
     publish_event e project_id ''comment.deleted''
       (JObj [(''task_id'', JStr task_id), (''comment_id'', JStr comment_id)])))))))))"

section \<open>Links\<close>

fun link_error_code :: "link_error \<Rightarrow> string" where
  "link_error_code (SelfReferenceError _) = ''self_reference''"
| "link_error_code (TargetNotFoundError _) = ''target_not_found''"
| "link_error_code (CrossProjectError _ _) = ''cross_project''"
| "link_error_code (DuplicateLinkError _ _) = ''duplicate_link''"
| "link_error_code (LinkNotFoundError _ _) = ''link_not_found''"
| "link_error_code (CycleError _) = ''cycle_detected''"

fun link_error_details :: "link_error \<Rightarrow> (string \<times> json) list" where
  "link_error_details (SelfReferenceError t) = [(''task_id'', JStr t)]"
| "link_error_details (TargetNotFoundError t) = [(''task_id'', JStr t)]"
| "link_error_details (CrossProjectError a b) = [(''source_project'', JStr a), (''target_project'', JStr b)]"
| "link_error_details (DuplicateLinkError s t) = [(''source_id'', JStr s), (''target_id'', JStr t)]"
| "link_error_details (LinkNotFoundError s t) = [(''source_id'', JStr s), (''target_id'', JStr t)]"
| "link_error_details (CycleError p) = [(''path'', JList (map JStr p))]"

definition link_http :: "nat \<Rightarrow> string \<Rightarrow> link_error \<Rightarrow> exn" where
  "link_http code msg err = http_error code (link_error_code err) msg (link_error_details err)"

text \<open>The \<open>except\<close> clauses of \<open>create_link\<close> and of \<open>delete_link\<close>.\<close>

fun create_link_handler :: "exn \<Rightarrow> exn" where
  "create_link_handler (TaskLinkError msg (SelfReferenceError t)) = link_http 400 msg (SelfReferenceError t)"
| "create_link_handler (TaskLinkError msg (TargetNotFoundError t)) = link_http 404 msg (TargetNotFoundError t)"
| "create_link_handler (TaskLinkError msg (CrossProjectError a b)) = link_http 400 msg (CrossProjectError a b)"
| "create_link_handler (TaskLinkError msg (DuplicateLinkError s t)) = link_http 400 msg (DuplicateLinkError s t)"
| "create_link_handler (TaskLinkError msg (CycleError p)) = link_http 409 msg (CycleError p)"
| "create_link_handler x = x"

fun delete_link_handler :: "exn \<Rightarrow> exn" where
  "delete_link_handler (TaskLinkError msg (LinkNotFoundError s t)) = link_http 404 msg (LinkNotFoundError s t)"
| "delete_link_handler x = x"

definition load_task :: "env \<Rightarrow> string \<Rightarrow> string \<Rightarrow> (world, task) prog" where
  "load_task e project_id task_id =
     bindP (valid_object_id e task_id) (\<lambda>_. bindP (task_get e task_id) (in_project project_id))"

definition link_events :: "env \<Rightarrow> string \<Rightarrow> string \<Rightarrow> string \<Rightarrow> task \<Rightarrow> task \<Rightarrow> (world, json) prog" where
  "link_events e project_id event_type relation source target =
     bindP (publish_event e project_id event_type
       (JObj [(''source_id'', JStr (t_id source)), (''target_id'', JStr (t_id target)), (''relation'', JStr relation)])) (\<lambda>_.
     bindP (publish_event e project_id ''task.updated'' (task_dict source)) (\<lambda>_.
     bindP (publish_event e project_id ''task.updated'' (task_dict target)) (\<lambda>_.
     return (JObj [(''source'', task_dict source), (''target'', task_dict target)]))))"

definition create_link :: "env \<Rightarrow> string \<Rightarrow> string \<Rightarrow> string \<Rightarrow> string \<Rightarrow> user \<Rightarrow> (world, json) prog" where
  "create_link e project_id task_id target_id relation u =
     bindP (check_project_access e project_id u) (\<lambda>project.
     bindP (check_not_locked project) (\<lambda>_.
     bindP (load_task e project_id task_id) (\<lambda>_.
     bindP (valid_object_id e target_id) (\<lambda>_.
     bindP (catchP (link e task_id target_id relation (u_id u)) (\<lambda>x. raise (create_link_handler x))) (\<lambda>(source, target).
     link_events e project_id ''task.linked'' relation source target)))))"

definition delete_link :: "env \<Rightarrow> string \<Rightarrow> string \<Rightarrow> string \<Rightarrow> string \<Rightarrow> user \<Rightarrow> (world, json) prog" where
  "delete_link e project_id task_id target_id relation u =
     bindP (check_project_access e project_id u) (\<lambda>project.
     bindP (check_not_locked project) (\<lambda>_.
     bindP (load_task e project_id task_id) (\<lambda>_.
     bindP (valid_object_id e target_id) (\<lambda>_.
     bindP (catchP (unlink e task_id target_id relation (u_id u)) (\<lambda>x. raise (delete_link_handler x))) (\<lambda>(source, target).
     link_events e project_id ''task.unlinked'' relation source target)))))"

section \<open>Attachments\<close>

definition max_file_size :: nat where
  "max_file_size = 5 * 1024 * 1024"

definition allowed_content_types :: "string list" where
  "allowed_content_types =
     [''application/json'', ''application/pdf'', ''image/gif'', ''image/jpeg'', ''image/png'', ''image/webp'',
      ''text/markdown'', ''text/plain'']"

text \<open>\<open>Path(filename).name\<close>: the last component of the path; empty for a path that has none.\<close>

definition path_name :: "string \<Rightarrow> string" where
  "path_name s =
     (let parts = filter (\<lambda>p. p \<noteq> '''' \<and> p \<noteq> ''.'') (split_on (CHR ''/'') s)
      in if parts = [] then '''' else last parts)"

definition upload_attachment :: "env \<Rightarrow> string \<Rightarrow> string \<Rightarrow> upload_file \<Rightarrow> user \<Rightarrow> (world, json) prog" where
  "upload_attachment e project_id task_id file u =
     bindP (valid_object_id e task_id) (\<lambda>_.
     bindP (check_project_access e project_id u) (\<lambda>project.
     bindP (check_not_locked project) (\<lambda>_.
     bindP (task_get e task_id) (\<lambda>task0.
     bindP (in_project project_id task0) (\<lambda>t.
     bindP (guard (uf_content_type file \<in> set allowed_content_types)
       (HTTPException 400 (JStr (''File type not allowed. Allowed: '' @ join_with '', '' allowed_content_types)))) (\<lambda>_.
     bindP (guard (length (uf_contents file) \<le> max_file_size)
       (HTTPException 400 (JStr ''File too large. Max size: 5MB''))) (\<lambda>_.
     let safe_filename = (case truthy (uf_filename file) of None \<Rightarrow> ''upload'' | Some f \<Rightarrow> path_name f);
         unique_name = new_uuid e 0 @ ''_'' @ safe_filename;
         attachment = \<lparr>at_id = new_oid e 0, at_filename = unique_name, at_content_type = uf_content_type file,
           at_size = int (length (uf_contents file)), at_created_at = now e\<rparr> in
     bindP (guard (mkdir_ok e) (OSError task_id)) (\<lambda>_.
     bindP (guard (disk_ok e) (HTTPException 507 (JStr (''Failed to write file to disk: '' @ save_error e task_id)))) (\<lambda>_.
     bindP (modify (\<lambda>w. w\<lparr>w_files := w_files w @ [(task_id, unique_name)]\<rparr>)) (\<lambda>_.
     bindP (save_updated e (t\<lparr>t_attachments := t_attachments t @ [attachment]\<rparr>)) (\<lambda>t1.
     bindP (publish_event e project_id ''task.updated'' (task_dict t1)) (\<lambda>_.
     return (attachment_to_dict attachment)))))))))))))"

definition delete_attachment :: "env \<Rightarrow> string \<Rightarrow> string \<Rightarrow> string \<Rightarrow> user \<Rightarrow> (world, unit) prog" where
  "delete_attachment e project_id task_id attachment_id u =
     bindP (valid_object_id e task_id) (\<lambda>_.
     bindP (check_project_access e project_id u) (\<lambda>project.
     bindP (check_not_locked project) (\<lambda>_.
     bindP (task_get e task_id) (\<lambda>task0.
     bindP (in_project project_id task0) (\<lambda>t.
     bindP (some_or (List.find (\<lambda>a. at_id a = attachment_id) (t_attachments t))
       (HTTPException 404 (JStr ''Attachment not found''))) (\<lambda>attachment.
     bindP (gets (\<lambda>w. (task_id, at_filename attachment) \<in> set (w_files w))) (\<lambda>exists.
     bindP (guard (\<not> exists \<or> unlink_ok e) (OSError (at_filename attachment))) (\<lambda>_.
     bindP (modify (\<lambda>w. w\<lparr>w_files := filter (\<lambda>f. f \<noteq> (task_id, at_filename attachment)) (w_files w)\<rparr>)) (\<lambda>_.
     bindP (save_updated e (t\<lparr>t_attachments := filter (\<lambda>a. at_id a \<noteq> attachment_id) (t_attachments t)\<rparr>)) (\<lambda>t1.
     publish_event e project_id ''task.updated'' (task_dict t1)))))))))))"

end
