(* ===== verification/Task_Safety.thy ===== *)
theory Task_Safety
  imports Task_Rest
begin

text \<open>
  What the REST handlers keep. \<open>safe_step e W\<close> relates the states before and after a request that
  may write the projects of the set \<open>W\<close>, which for a request to project \<open>pid\<close> is \<open>{pid}\<close>: if the stored tasks were in order (the dependency graph satisfies its
  invariant and every document its own), they still are, and no task of a project outside \<open>W\<close>, no
  project and no user has changed. It is a frame, and every handler keeps it. The theory
  also holds what is particular to a handler: who may call it, which events it publishes,
  what it writes.
\<close>

section \<open>Frames of the handlers\<close>

definition tasks_ok :: "env \<Rightarrow> world \<Rightarrow> bool" where
  "tasks_ok e w \<longleftrightarrow> links_inv e (w_tasks w) \<and> (\<forall>t \<in> set (w_tasks w). task_ok t)"

definition others :: "string set \<Rightarrow> world \<Rightarrow> task list" where
  "others W w = filter (\<lambda>t. t_project_id t \<notin> W) (w_tasks w)"

definition safe_step :: "env \<Rightarrow> string set \<Rightarrow> world \<Rightarrow> world \<Rightarrow> bool" where
  "safe_step e W w w' \<longleftrightarrow> (tasks_ok e w \<longrightarrow> tasks_ok e w' \<and> others W w' = others W w \<and>
     w_projects w' = w_projects w \<and> w_users w' = w_users w)"

definition same_store :: "world \<Rightarrow> world \<Rightarrow> bool" where
  "same_store w w' \<longleftrightarrow> w_tasks w' = w_tasks w \<and> w_projects w' = w_projects w \<and> w_users w' = w_users w"

interpretation quiet: frame same_store
  by unfold_locales (simp_all add: same_store_def)

interpretation safe: frame "safe_step e W" for e W
  by unfold_locales (auto simp: safe_step_def)

interpretation docs: frame same_docs
  by unfold_locales (simp_all add: same_docs_def)

lemma same_store_safe: "same_store w w' \<Longrightarrow> safe_step e W w w'"
  by (simp add: same_store_def safe_step_def tasks_ok_def others_def)

lemma others_mono: "V \<subseteq> W \<Longrightarrow> others V w' = others V w \<Longrightarrow> others W w' = others W w"
proof -
  assume "V \<subseteq> W"
  then have "others W x = filter (\<lambda>t. t_project_id t \<notin> W) (others V x)" for x
    unfolding others_def filter_filter by (intro filter_cong) auto
  then show "others V w' = others V w \<Longrightarrow> others W w' = others W w" by simp
qed

lemma safe_mono: "safe_step e V w w' \<Longrightarrow> V \<subseteq> W \<Longrightarrow> safe_step e W w w'"
  unfolding safe_step_def using others_mono by blast

lemma quiet_safe: "keeps same_store m \<Longrightarrow> keeps (safe_step e W) m"
  using same_store_safe by (auto simp: keeps_def)

lemma keeps_publish_event: "keeps same_store (publish_event e p k d)"
  unfolding publish_event_def by (rule quiet.keeps_modify) (simp add: same_store_def)

lemma keeps_note: "keeps same_store (publish_note e k i op)"
  unfolding publish_note_def
  by (intro quiet.keeps_intros quiet.keeps_modify) (simp add: same_store_def)

lemma keeps_index_task: "keeps same_store (index_task e t)"
  unfolding index_task_def
  by (intro quiet.keeps_intros quiet.keeps_modify keeps_note) (simp add: same_store_def)

lemma keeps_deindex_task: "keeps same_store (deindex_task e t)"
  unfolding deindex_task_def
  by (intro quiet.keeps_intros quiet.keeps_modify keeps_note) (simp add: same_store_def)

lemma keeps_set_linked: "keeps same_store (set_linked_issues e st tid)"
  unfolding set_linked_issues_def
  by (intro quiet.keeps_intros quiet.keeps_modify) (simp add: same_store_def)

lemma keeps_batch_event: "keeps same_store (batch_event e p ids)"
  unfolding batch_event_def by (rule keeps_publish_event)

lemma keeps_files: "keeps same_store (modify (\<lambda>w. w\<lparr>w_files := f w\<rparr>))"
  by (rule quiet.keeps_modify) (simp add: same_store_def)

lemma keeps_checks:
  "keeps same_store (valid_object_id e x)" "keeps same_store (check_not_locked p)"
  "keeps same_store (task_get e x)" "keeps same_store (project_get e x)" "keeps same_store (query_tasks P)"
  unfolding valid_object_id_def check_not_locked_def task_get_def project_get_def query_tasks_def
  by (intro quiet.keeps_intros)+

lemma keeps_access: "keeps same_store (check_project_access e pid u)"
  unfolding check_project_access_def by (intro quiet.keeps_intros keeps_checks)

lemma keeps_in_project: "keeps same_store (in_project pid t)"
  unfolding in_project_def by (intro quiet.keeps_intros)

lemmas quiet_intros = quiet.keeps_intros keeps_publish_event keeps_index_task keeps_deindex_task keeps_set_linked
  keeps_batch_event keeps_files keeps_checks keeps_access keeps_in_project

section \<open>Editing one task\<close>

text \<open>The documents the shared preamble lets a handler edit.\<close>

definition editable :: "env \<Rightarrow> world \<Rightarrow> string \<Rightarrow> string \<Rightarrow> task \<Rightarrow> bool" where
  "editable e w pid tid t \<longleftrightarrow> oid_valid e tid \<and> coll_get t_id (w_tasks w) (oid_canon e tid) = Some t \<and>
     t_project_id t = pid \<and> \<not> t_is_deleted t"

lemma wp_in_project:
  assumes "\<And>t. x = Some t \<Longrightarrow> t_project_id t = pid \<Longrightarrow> \<not> t_is_deleted t \<Longrightarrow> Q t w" and "\<And>x. E x w"
  shows "wp (in_project pid x) Q E w"
  using assms by (cases x) (auto simp: in_project_def wp_simps)

lemma wp_get_editable:
  assumes "\<And>p t. may_access e w pid u p \<Longrightarrow> \<not> p_is_locked p \<Longrightarrow> editable e w pid tid t \<Longrightarrow> Q (p, t) w"
    and "\<And>x. E x w"
  shows "wp (get_editable_task e pid tid u) Q E w"
  using assms
  by (auto simp: get_editable_task_def check_project_access_def may_access_def wp_simps editable_def in_project_def
      split: option.splits)

text \<open>The handlers that spell the preamble out run the same program.\<close>

lemma editable_preamble:
  "bindP (valid_object_id e tid) (\<lambda>_. bindP (check_project_access e pid u) (\<lambda>project.
     bindP (check_not_locked project) (\<lambda>_. bindP (task_get e tid) (\<lambda>task0. bindP (in_project pid task0) f)))) =
   bindP (get_editable_task e pid tid u) (\<lambda>(_, t). f t)"
  by (simp add: get_editable_task_def bindP_assoc bindP_return)

lemma editable_keeps_frame:
  assumes R: "\<And>w. R w w" "\<And>w w'. \<not> tasks_ok e w \<Longrightarrow> R w w'"
    and f: "\<And>p t w. tasks_ok e w \<Longrightarrow> may_access e w pid u p \<Longrightarrow> \<not> p_is_locked p \<Longrightarrow> editable e w pid tid t \<Longrightarrow>
      wp (f p t) (\<lambda>_. R w) (\<lambda>_. R w) w"
  shows "keeps R (bindP (get_editable_task e pid tid u) (\<lambda>(p, t). f p t))"
  unfolding keeps_wp wp_bindP
proof (intro allI wp_get_editable R(1))
  fix w p t assume a: "may_access e w pid u p" "\<not> p_is_locked p" "editable e w pid tid t"
  show "wp (case (p, t) of (p, t) \<Rightarrow> f p t) (\<lambda>_. R w) (\<lambda>_. R w) w"
  proof (cases "tasks_ok e w")
    case True
    with f a show ?thesis by simp
  next
    case False
    then show ?thesis by (intro wpI R(2))
  qed
qed

lemma not_ok_safe: "\<not> tasks_ok e w \<Longrightarrow> safe_step e W w w'"
  by (simp add: safe_step_def)

lemmas editable_keeps = editable_keeps_frame [where R = "safe_step e W" for e W, OF safe.refl not_ok_safe]

text \<open>
  A document may be replaced by one that is in order where the old one was and stands for
  the same node of the dependency graph. \<open>edited\<close> relates the collections before and after
  any number of such replacements within a project.
\<close>

definition harmless :: "task \<Rightarrow> task \<Rightarrow> bool" where
  "harmless t t' \<longleftrightarrow> same_links t t' \<and> (task_ok t \<longrightarrow> task_ok t')"

definition edited :: "string set \<Rightarrow> task list \<Rightarrow> task list \<Rightarrow> bool" where
  "edited W ts ts' \<longleftrightarrow> list_all2 (\<lambda>t t'. t' = t \<or> harmless t t' \<and> t_project_id t \<in> W) ts ts'"

lemma harmless_refl [simp]: "harmless t t"
  by (simp add: harmless_def)

lemma harmless_trans: "harmless t u \<Longrightarrow> harmless u v \<Longrightarrow> harmless t v"
  using same_links_trans by (auto simp: harmless_def)

lemma harmless_touch: "harmless t u \<Longrightarrow> harmless t (touch n u)"
  by (simp add: harmless_def same_links_def task_ok_def task_simps)

lemma edited_refl [simp]: "edited W ts ts"
  by (simp add: edited_def list_all2_refl)

lemma edited_save:
  assumes ed: "edited W ts ts'" and d: "keys_distinct t_id ts" and t: "t \<in> set ts" "t_project_id t \<in> W"
    and u: "harmless t u"
  shows "edited W ts (coll_save t_id u ts')"
proof -
  let ?R = "\<lambda>t t'. t' = t \<or> harmless t t' \<and> t_project_id t \<in> W"
  have id: "t_id u = t_id t" using u by (simp add: harmless_def same_links_def)
  have ids: "map t_id ts' = map t_id ts"
    using ed unfolding edited_def by (induction rule: list_all2_induct) (auto simp: harmless_def same_links_def)
  then have "\<exists>x \<in> set ts'. t_id x = t_id u" using t(1) id by (metis image_eqI list.set_map image_iff)
  then have save: "coll_save t_id u ts' = map (\<lambda>x. if t_id x = t_id u then u else x) ts'"
    by (simp add: coll_save_def)
  have "?R (ts ! i) (map (\<lambda>x. if t_id x = t_id u then u else x) ts' ! i)" if i: "i < length ts" for i
  proof -
    have len: "length ts' = length ts" using ids by (metis length_map)
    have same: "t_id (ts' ! i) = t_id (ts ! i)" using ids i len by (metis nth_map)
    have "?R (ts ! i) (ts' ! i)" using ed i by (simp add: edited_def list_all2_conv_all_nth)
    moreover have "ts ! i = t" if "t_id (ts' ! i) = t_id u"
      using keys_distinct_eq [OF d _ t(1), of "ts ! i"] i same id that by simp
    ultimately show ?thesis using u t(2) i len by auto
  qed
  moreover have "length ts' = length ts" using ids by (metis length_map)
  ultimately show ?thesis by (simp add: edited_def save list_all2_conv_all_nth)
qed

lemma others_eq:
  assumes "list_all2 (\<lambda>t t'. t' = t \<or> t_project_id t \<in> W \<and> t_project_id t' \<in> W) (w_tasks w) (w_tasks w')"
  shows "others W w' = others W w"
  using assms unfolding others_def by (induction rule: list_all2_induct) auto

lemma edited_safe:
  assumes ed: "edited W (w_tasks w) (w_tasks w')"
    and "w_projects w' = w_projects w" and "w_users w' = w_users w"
  shows "safe_step e W w w'"
proof -
  have "list_all2 (\<lambda>t t'. t' = t \<or> t_project_id t \<in> W \<and> t_project_id t' \<in> W) (w_tasks w) (w_tasks w')"
    using ed unfolding edited_def by (rule list_all2_mono) (auto simp: harmless_def same_links_def)
  then have "others W w' = others W w" by (rule others_eq)
  moreover have "same_graph (w_tasks w) (w_tasks w')"
    using ed unfolding edited_def same_graph_def by (rule list_all2_mono) (auto simp: harmless_def)
  moreover have "\<forall>t \<in> set (w_tasks w'). task_ok t" if "\<forall>t \<in> set (w_tasks w). task_ok t"
    using ed that unfolding edited_def by (induction rule: list_all2_induct) (auto simp: harmless_def)
  ultimately show ?thesis
    using assms(2,3) by (auto simp: safe_step_def tasks_ok_def intro: same_graph_links_inv)
qed

lemma safe_save:
  assumes "tasks_ok e w" and "coll_get t_id (w_tasks w) k = Some t" and "t_project_id t \<in> W" and "harmless t t'"
  shows "safe_step e W w (store_task t' w)"
  using assms coll_get_in [OF assms(2)]
  by (intro edited_safe) (auto simp: tasks_ok_def links_inv_def intro: edited_save)

lemma edited_store_tasks:
  assumes "keys_distinct t_id ts" and "edited W ts (w_tasks w)"
    and "\<And>u. u \<in> set us \<Longrightarrow> \<exists>t \<in> set ts. t_project_id t \<in> W \<and> harmless t u"
  shows "edited W ts (w_tasks (store_tasks e us w))"
  using assms(2,3)
proof (induction us arbitrary: w)
  case Nil
  then show ?case by (simp add: store_tasks_def)
next
  case (Cons u us)
  then obtain t where "t \<in> set ts" "t_project_id t \<in> W" "harmless t u" by auto
  with Cons.prems(1) have "edited W ts (w_tasks (store_task (touch (now e) u) w))"
    by (auto intro: edited_save [OF _ assms(1)] harmless_touch)
  with Cons show ?case by (simp add: store_tasks_def)
qed

lemma wp_save_then:
  assumes "tasks_ok e w" and "editable e w pid tid t" and "harmless t g"
    and "\<And>t'. keeps same_store (tail t')" and "pid \<in> W"
  shows "wp (bindP (save_updated e g) tail) (\<lambda>_. safe_step e W w) (\<lambda>_. safe_step e W w) w"
proof -
  have "safe_step e W w (store_task (touch (now e) g) w)"
    using assms by (intro safe_save [of e w _ t] harmless_touch) (auto simp: editable_def)
  with assms(4) show ?thesis
    unfolding wp_bindP wp_save_updated by (intro safe.wp_after quiet_safe)
qed

section \<open>The handlers that edit one task\<close>

lemma complete_task_safe: "keeps (safe_step e {pid}) (complete_task e pid tid r u)"
  unfolding complete_task_def resolve_linked_issues_def Let_def
  by (intro editable_keeps wp_save_then quiet_intros)
    (auto simp: harmless_def same_links_def task_ok_def task_simps split: option.splits)

lemma reopen_task_safe: "keeps (safe_step e {pid}) (reopen_task e pid tid u)"
  unfolding reopen_task_def Let_def
  by (intro editable_keeps wp_save_then quiet_intros) (auto simp: harmless_def same_links_def task_ok_def task_simps)

lemma archive_task_safe: "keeps (safe_step e {pid}) (archive_task e pid tid u)"
  unfolding archive_task_def ignore_linked_issues_def
  by (intro editable_keeps wp_save_then quiet_intros) (auto simp: harmless_def same_links_def task_ok_def)

lemma unarchive_task_safe: "keeps (safe_step e {pid}) (unarchive_task e pid tid u)"
  unfolding unarchive_task_def
  by (intro editable_keeps wp_save_then quiet_intros) (auto simp: harmless_def same_links_def task_ok_def)

lemma add_comment_safe: "keeps (safe_step e {pid}) (add_comment e pid tid c u)"
  unfolding add_comment_def editable_preamble Let_def
  by (intro editable_keeps wp_save_then quiet_intros) (auto simp: harmless_def same_links_def task_ok_def)

lemma delete_comment_safe: "keeps (safe_step e {pid}) (delete_comment e pid tid c u)"
  unfolding delete_comment_def editable_preamble
  by (intro editable_keeps wp_some_or_then wp_guard_then wp_save_then quiet_intros safe.refl)
    (auto simp: harmless_def same_links_def task_ok_def task_simps)

lemma same_store_editable:
  "same_store w w' \<Longrightarrow> tasks_ok e w' \<longleftrightarrow> tasks_ok e w"
  "same_store w w' \<Longrightarrow> editable e w' pid tid t \<longleftrightarrow> editable e w pid tid t"
  by (simp_all add: same_store_def tasks_ok_def editable_def)

lemma wp_files_then:
  assumes "\<And>w'. same_store w w' \<Longrightarrow> wp (f ()) (\<lambda>_. safe_step e {pid} w') (\<lambda>_. safe_step e {pid} w') w'"
  shows "wp (bindP (modify (\<lambda>w. w\<lparr>w_files := h w\<rparr>)) f) (\<lambda>_. safe_step e {pid} w) (\<lambda>_. safe_step e {pid} w) w"
proof -
  have "same_store w (w\<lparr>w_files := h w\<rparr>)" by (simp add: same_store_def)
  from assms [OF this] same_store_safe [OF this] show ?thesis
    unfolding wp_bindP wp_modify by (blast intro: wp_mono safe.trans)
qed

lemma upload_attachment_safe: "keeps (safe_step e {pid}) (upload_attachment e pid tid f u)"
  unfolding upload_attachment_def editable_preamble Let_def
  by (intro editable_keeps wp_guard_then wp_files_then wp_save_then quiet_intros safe.refl)
    (auto simp: same_store_editable harmless_def same_links_def task_ok_def task_simps)

lemma delete_attachment_safe: "keeps (safe_step e {pid}) (delete_attachment e pid tid a u)"
  unfolding delete_attachment_def editable_preamble Let_def
  by (intro editable_keeps wp_some_or_then wp_gets_then wp_guard_then wp_files_then wp_save_then quiet_intros safe.refl)
    (auto simp: same_store_editable harmless_def same_links_def task_ok_def task_simps)

section \<open>Update and the cascade\<close>

text \<open>
  Approving a task cascades along \<open>parent_task_id\<close>, whatever project a child belongs to: what
  a request to one project can do to the tasks of another is to approve them.
\<close>

definition cascaded :: "env \<Rightarrow> task \<Rightarrow> task \<Rightarrow> bool" where
  "cascaded e t t' \<longleftrightarrow> t' = t \<or> \<not> t_approved t \<and> (\<exists>actor. t' = touch (now e) (approve_child e actor t))"

definition project_step :: "env \<Rightarrow> string set \<Rightarrow> world \<Rightarrow> world \<Rightarrow> bool" where
  "project_step e W w w' \<longleftrightarrow> (tasks_ok e w \<longrightarrow> tasks_ok e w' \<and>
     list_all2 (cascaded e) (others W w) (others W w') \<and>
     w_projects w' = w_projects w \<and> w_users w' = w_users w)"

lemma cascaded_trans: "cascaded e t u \<Longrightarrow> cascaded e u v \<Longrightarrow> cascaded e t v"
  by (auto simp: cascaded_def task_simps)

interpretation proj: frame "project_step e W" for e W
proof
  show "project_step e W w w" for w
    by (simp add: project_step_def list_all2_refl cascaded_def)
  show "project_step e W w w''" if "project_step e W w w'" "project_step e W w' w''" for w w' w''
    using that list_all2_trans [of "cascaded e" "cascaded e" "cascaded e", OF cascaded_trans] by (auto simp: project_step_def)
qed

lemma safe_project: "safe_step e W w w' \<Longrightarrow> project_step e W w w'"
  by (simp add: safe_step_def project_step_def list_all2_refl cascaded_def)

lemma safe_keeps_project: "keeps (safe_step e W) m \<Longrightarrow> keeps (project_step e W) m"
  using safe_project by (auto simp: keeps_def)

lemma quiet_project: "keeps same_store m \<Longrightarrow> keeps (project_step e W) m"
  by (intro safe_keeps_project quiet_safe)

lemma cascade_project: "keeps (project_step e W) (cascade_approve_subtasks e root actor)"
  unfolding keeps_wp
proof
  fix w :: world
  let ?f = "\<lambda>t. if cascades_to e (w_tasks w) root t then touch (now e) (approve_child e actor t) else t"
  show "wp (cascade_approve_subtasks e root actor) (\<lambda>_. project_step e W w) (\<lambda>_. project_step e W w) w"
  proof (cases "tasks_ok e w")
    case True
    then have d: "keys_distinct t_id (w_tasks w)" by (simp add: tasks_ok_def links_inv_def)
    show ?thesis
    proof (rule wp_cascade [OF d])
      fix w' :: world assume w': "w_tasks w' = map ?f (w_tasks w)" "w_projects w' = w_projects w" "w_users w' = w_users w"
      have "same_graph (w_tasks w) (w_tasks w')"
        unfolding same_graph_def w'(1) list_all2_map2 by (rule list_all2_refl) (simp add: same_links_def task_simps)
      with True have "tasks_ok e w'"
        by (auto simp: tasks_ok_def w'(1) task_ok_def task_simps intro: same_graph_links_inv)
      moreover have "others W w' = map ?f (others W w)"
        unfolding others_def w'(1) filter_map
        by (intro arg_cong [where f = "map ?f"] filter_cong) (auto simp: task_simps)
      then have "list_all2 (cascaded e) (others W w) (others W w')"
        by (auto simp: list_all2_map2 cascaded_def cascades_to_def intro!: list_all2_refl)
      ultimately show "project_step e W w w'" using w'(2,3) by (simp add: project_step_def)
    qed
  qed (auto intro: wpI simp: project_step_def)
qed

lemma not_ok_project: "\<not> tasks_ok e w \<Longrightarrow> project_step e W w w'"
  by (simp add: project_step_def)

lemma harmless_upd: "(\<And>v u. harmless u (f v u)) \<Longrightarrow> harmless t u \<Longrightarrow> harmless t (upd x f u)"
  by (auto simp: upd_def intro: harmless_trans split: option.split)

lemma harmless_before_parent: "harmless t (update_before_parent e a b t)"
  unfolding update_before_parent_def comp_def
  by (intro harmless_upd harmless_refl) (auto simp: harmless_def same_links_def task_ok_def task_simps)

lemma harmless_tags_type: "harmless t (update_tags_type e a b t)"
  unfolding update_tags_type_def comp_def
  by (intro harmless_upd harmless_refl) (auto simp: harmless_def same_links_def task_ok_def task_simps)

lemma harmless_flags: "harmless t (set_needs_detail e a v t)" "harmless t (set_approved e a v t)"
  by (auto simp: set_needs_detail_def set_approved_def harmless_def same_links_def task_ok_def task_simps Let_def)

lemma harmless_after_context: "harmless t (update_after_context e a b t)"
  unfolding update_after_context_def comp_def
  by (intro harmless_upd harmless_refl harmless_flags) (auto simp: harmless_def same_links_def task_ok_def)

lemma wp_check_new_parent:
  assumes "\<And>p. oid_valid e np \<Longrightarrow> coll_get t_id (w_tasks w) (oid_canon e np) = Some p \<Longrightarrow> \<not> t_is_deleted p \<Longrightarrow>
      t_project_id p = t_project_id t \<Longrightarrow> np \<noteq> tid \<Longrightarrow>
      has_parent_cycle e (t_project_id t) tid np (w_tasks w) = None \<Longrightarrow> Q () w"
    and "\<And>x. E x w"
  shows "wp (check_new_parent e tid t np) Q E w"
  using assms by (auto simp: check_new_parent_def wp_simps not_deleted_Some split: option.splits)

lemma wp_update_parent:
  assumes "\<And>t'. harmless t t' \<Longrightarrow> Q t' w" and "\<And>x. E x w"
  shows "wp (update_parent e a tid b t) Q E w"
proof -
  have "harmless t ((record_change ''parent_task_id'' (t_parent_task_id t) np a Human (now e) t)\<lparr>t_parent_task_id := np\<rparr>)" for np
    by (simp add: harmless_def same_links_def task_ok_def task_simps)
  with assms show ?thesis
    unfolding update_parent_def wp_case_option wp_bindP wp_return
    by (auto intro!: wp_check_new_parent simp: wp_simps split: option.split)
qed

lemma wp_update_decision_context:
  assumes "\<And>t'. harmless t t' \<Longrightarrow> Q t' w" and "\<And>x. E x w"
  shows "wp (update_decision_context b t) Q E w"
proof -
  have "harmless t (t\<lparr>t_decision_context := c\<rparr>)" for c by (simp add: harmless_def same_links_def task_ok_def)
  with assms show ?thesis
    by (auto simp: update_decision_context_def dumped_context_def wp_simps split: option.split)
qed

lemma wp_save_project:
  assumes "tasks_ok e w" and "editable e w pid tid t" and "harmless t g" and "\<And>t'. keeps (project_step e {pid}) (tail t')"
  shows "wp (bindP (save_updated e g) tail) (\<lambda>_. project_step e {pid} w) (\<lambda>_. project_step e {pid} w) w"
proof -
  have "safe_step e {pid} w (store_task (touch (now e) g) w)"
    using assms by (intro safe_save [of e w _ t] harmless_touch) (auto simp: editable_def)
  with assms(4) show ?thesis
    unfolding wp_bindP wp_save_updated by (intro proj.wp_after safe_project)
qed

lemmas project_intros = proj.keeps_intros cascade_project quiet_project [OF keeps_publish_event]
  quiet_project [OF keeps_index_task] quiet_project [OF keeps_batch_event]

lemma wp_update_edit:
  assumes "\<And>g. harmless t g \<Longrightarrow> wp (bindP (save_updated e g) tail) Q E w" and "\<And>x. E x w"
  shows "wp (bindP (update_parent e a tid b (update_before_parent e a b t)) (\<lambda>t1.
      bindP (update_decision_context b (update_tags_type e a b t1)) (\<lambda>t2.
      bindP (save_updated e (update_after_context e a b t2)) tail))) Q E w"
  unfolding wp_bindP [of "update_parent e a tid b x" for x] wp_bindP [of "update_decision_context b x" for x]
proof (intro wp_update_parent wp_update_decision_context assms)
  fix t1 t2 assume "harmless (update_before_parent e a b t) t1" "harmless (update_tags_type e a b t1) t2"
  then show "harmless t (update_after_context e a b t2)"
    using harmless_before_parent harmless_tags_type harmless_after_context harmless_trans by meson
qed

lemma update_task_project: "keeps (project_step e {pid}) (update_task e pid tid b u)"
  unfolding update_task_def editable_preamble Let_def
  by (intro editable_keeps_frame [where R = "project_step e {pid}", OF proj.refl not_ok_project] wp_update_edit
      wp_save_project project_intros proj.refl)

section \<open>Bulk operations\<close>

text \<open>Every document in memory is a harmless copy of a stored document of the project.\<close>

definition fetched :: "string \<Rightarrow> task list \<Rightarrow> task_map \<Rightarrow> bool" where
  "fetched pid ts m \<longleftrightarrow> (\<forall>tid t'. m tid = Some t' \<longrightarrow> (\<exists>t \<in> set ts. t_project_id t = pid \<and> harmless t t'))"

lemma fetched_upd: "fetched pid ts m \<Longrightarrow> m tid = Some t \<Longrightarrow> harmless t t' \<Longrightarrow> fetched pid ts (m(tid \<mapsto> t'))"
  unfolding fetched_def by (metis fun_upd_apply harmless_trans option.inject)

lemma wp_fetch_then:
  assumes "\<And>m. fetched pid (w_tasks w) m \<Longrightarrow> wp (f m) Q E w"
  shows "wp (bindP (fetch_map e pid ids) f) Q E w"
  unfolding fetch_map_def wp_bindP wp_query_tasks wp_return
  by (rule assms) (auto simp: fetched_def coll_find_def dest!: coll_get_in intro: harmless_refl)

lemma reorder_loop_fetched:
  "fetched pid ts m \<Longrightarrow> reorder_loop xs (m, ups) = (m', ups') \<Longrightarrow> fetched pid ts m'"
proof (induction xs "(m, ups)" arbitrary: m ups rule: reorder_loop.induct)
  case (2 i tid rest m ups)
  have "harmless t (t\<lparr>t_sort_order := n\<rparr>)" for t n by (simp add: harmless_def same_links_def task_ok_def)
  with 2 show ?case by (auto split: option.splits if_splits intro: fetched_upd)
qed simp

text \<open>The handlers that check the access to the project first.\<close>

lemma wp_access_then:
  "(\<And>p. may_access e w pid u p \<Longrightarrow> wp (f p) Q E w) \<Longrightarrow> (\<And>x. E x w) \<Longrightarrow> wp (bindP (check_project_access e pid u) f) Q E w"
  unfolding wp_bindP by (rule wp_check_project_access)

lemma wp_not_locked_then:
  "(\<not> p_is_locked p \<Longrightarrow> wp (f ()) Q E w) \<Longrightarrow> (\<And>x. E x w) \<Longrightarrow> wp (bindP (check_not_locked p) f) Q E w"
  by (simp add: wp_simps)

lemma keepsI_ok:
  assumes "\<And>w w'. \<not> tasks_ok e w \<Longrightarrow> R w w'" and "\<And>w. tasks_ok e w \<Longrightarrow> wp m (\<lambda>_. R w) (\<lambda>_. R w) w"
  shows "keeps R m"
  unfolding keeps_wp using assms by (meson wpI)

lemma tasks_ok_keys: "tasks_ok e w \<Longrightarrow> keys_distinct t_id (w_tasks w)"
  by (simp add: tasks_ok_def links_inv_def)

lemma reorder_tasks_safe: "keeps (safe_step e {pid}) (reorder_tasks e pid ids u)"
proof (rule keepsI_ok [OF not_ok_safe])
  fix w assume ok: "tasks_ok e w"
  let ?I = "\<lambda>w'. edited {pid} (w_tasks w) (w_tasks w') \<and> w_projects w' = w_projects w \<and> w_users w' = w_users w"
  have store: "wp (forP ups (\<lambda>tid. case m tid of None \<Rightarrow> return () | Some t \<Rightarrow> modify (store_task t)))
      (\<lambda>_. safe_step e {pid} w) (\<lambda>_. safe_step e {pid} w) w" if "fetched pid (w_tasks w) m" for m ups
  proof (rule wp_forP [where I = ?I])
    fix tid w' assume "?I (w' :: world)"
    with that show "wp (case m tid of None \<Rightarrow> return () | Some t \<Rightarrow> modify (store_task t)) (\<lambda>_. ?I) (\<lambda>_. safe_step e {pid} w) w'"
      by (fastforce simp: wp_simps fetched_def intro: edited_save [OF _ tasks_ok_keys [OF ok]] split: option.split)
  qed (auto intro: edited_safe)
  show "wp (reorder_tasks e pid ids u) (\<lambda>_. safe_step e {pid} w) (\<lambda>_. safe_step e {pid} w) w"
    unfolding reorder_tasks_def
  proof (intro wp_access_then wp_guard_then wp_fetch_then safe.refl)
    fix m assume m: "fetched pid (w_tasks w) m"
    obtain m' ups where l: "reorder_loop (enumerate 0 ids) (m, []) = (m', ups)" by fastforce
    with reorder_loop_fetched [OF m l] store show "wp (case reorder_loop (enumerate 0 ids) (m, []) of
        (m, updates) \<Rightarrow> bindP (forP updates (\<lambda>tid. case m tid of None \<Rightarrow> return () | Some t \<Rightarrow> modify (store_task t))) (\<lambda>_.
          return (JObj [(''reordered'', JInt (int (length updates)))])))
      (\<lambda>_. safe_step e {pid} w) (\<lambda>_. safe_step e {pid} w) w"
      by (simp add: wp_bindP wp_return_fn)
  qed
qed

lemma batch_flags_harmless: "harmless t (batch_flags e a item t)"
  unfolding batch_flags_def comp_def
  by (intro harmless_upd harmless_refl harmless_flags) (auto simp: harmless_def same_links_def task_ok_def)

lemma batch_item_fetched: "fetched pid ts (bs_map st) \<Longrightarrow> fetched pid ts (bs_map (batch_item e a item st))"
  by (auto simp: batch_item_def intro!: fetched_upd batch_flags_harmless split: option.split)

lemma batch_items_fetched: "fetched pid ts (bs_map st) \<Longrightarrow> fetched pid ts (bs_map (fold (batch_item e a) items st))"
  by (induction items arbitrary: st) (simp_all add: batch_item_fetched)

lemma map_filter_in: "x \<in> set (List.map_filter f ys) \<longleftrightarrow> (\<exists>y \<in> set ys. f y = Some x)"
  by (induction ys) (auto simp: map_filter_simps split: option.splits)

lemma wp_gather_project:
  assumes ok: "tasks_ok e w" and us: "\<And>u. u \<in> set us \<Longrightarrow> \<exists>t \<in> set (w_tasks w). t_project_id t \<in> W \<and> harmless t u"
    and tail: "\<And>rs. keeps (project_step e W) (tail rs)"
  shows "wp (bindP (gather_saves e us) tail) (\<lambda>_. project_step e W w) (\<lambda>_. project_step e W w) w"
proof -
  have "edited W (w_tasks w) (w_tasks (store_tasks e (filter (\<lambda>t. \<not> save_raises e (t_id t)) us) w))"
    using us by (intro edited_store_tasks tasks_ok_keys [OF ok]) auto
  then show ?thesis
    unfolding wp_bindP wp_gather_saves by (intro proj.wp_after tail safe_project edited_safe) simp_all
qed

lemma wp_forP_check:
  "(\<And>x. x \<in> set xs \<Longrightarrow> wp (f x) (\<lambda>_ s'. s' = s) E s) \<Longrightarrow> wp (m ()) Q E s \<Longrightarrow> wp (bindP (forP xs f) m) Q E s"
  unfolding wp_bindP by (rule wp_forP [where I = "\<lambda>s'. s' = s"]) auto

lemma batch_fetched:
  assumes "x \<in> set (List.map_filter (bs_map (fold (batch_item e a) items st)) ids)" and "fetched pid ts (bs_map st)"
  shows "\<exists>t \<in> set ts. t_project_id t = pid \<and> harmless t x"
  using batch_items_fetched [OF assms(2)] assms(1) by (auto simp: map_filter_in fetched_def)

lemma batch_update_project: "keeps (project_step e {pid}) (batch_update_tasks e pid items u)"
proof (rule keepsI_ok [OF not_ok_project])
  fix w assume ok: "tasks_ok e w"
  show "wp (batch_update_tasks e pid items u) (\<lambda>_. project_step e {pid} w) (\<lambda>_. project_step e {pid} w) w"
    unfolding batch_update_tasks_def Let_def
    by (intro wp_access_then wp_not_locked_then wp_forP_check wp_fetch_then wp_gather_project [OF ok] project_intros proj.refl)
      (auto simp: wp_simps proj.refl dest: batch_fetched)
qed

section \<open>Create, delete and link\<close>

text \<open>The identifier the driver draws for a new document is canonical and not in use.\<close>

definition fresh_oid :: "env \<Rightarrow> world \<Rightarrow> string \<Rightarrow> bool" where
  "fresh_oid e w x \<longleftrightarrow> canonical e x \<and>
     (\<forall>t \<in> set (w_tasks w). x \<noteq> t_id t \<and> x \<notin> set (t_blocks t) \<and> x \<notin> set (t_blocked_by t))"

lemma insert_links_inv:
  assumes inv: "links_inv e ts" and c: "canonical e (t_id t)" and e: "t_blocks t = []" "t_blocked_by t = []"
    and new: "\<forall>s \<in> set ts. t_id t \<noteq> t_id s \<and> t_id t \<notin> set (t_blocks s) \<and> t_id t \<notin> set (t_blocked_by s)"
  shows "links_inv e (ts @ [t])"
proof -
  have "keys_distinct t_id (ts @ [t])" using inv new by (auto simp: links_inv_def keys_distinct_def)
  moreover have "ids_canonical e (ts @ [t])" using inv c e by (auto simp: links_inv_def ids_canonical_def)
  moreover have "links_sym (ts @ [t])" using inv e new by (auto simp: links_inv_def links_sym_def)
  moreover have "no_dangling (ts @ [t])" using inv e by (fastforce simp: links_inv_def no_dangling_def)
  moreover have "blocks_edges pid (ts @ [t]) = blocks_edges pid ts" for pid
    using e by (auto simp: blocks_edges_iff)
  then have "acyclic_links (ts @ [t])" using inv by (simp add: links_inv_def acyclic_links_def)
  ultimately show ?thesis by (simp add: links_inv_def)
qed

lemma safe_insert:
  assumes "fresh_oid e w (t_id t)" and "t_blocks t = []" "t_blocked_by t = []" and "task_ok t" and "t_project_id t = pid"
  shows "safe_step e {pid} w (w\<lparr>w_tasks := coll_insert t (w_tasks w)\<rparr>)"
  using assms insert_links_inv [of e "w_tasks w" t]
  by (auto simp: safe_step_def tasks_ok_def coll_insert_def others_def fresh_oid_def)

lemma wp_insert_then:
  assumes "safe_step e {pid} w (w\<lparr>w_tasks := coll_insert t (w_tasks w)\<rparr>)" and "\<And>x. keeps same_store (tail x)"
  shows "wp (bindP (task_insert t) tail) (\<lambda>_. safe_step e {pid} w) (\<lambda>_. safe_step e {pid} w) w"
  using assms unfolding wp_bindP task_insert_def wp_modify by (intro safe.wp_after quiet_safe)

lemma create_task_safe:
  "fresh_oid e w (new_oid e 0) \<Longrightarrow> safe_step e {pid} w (snd (create_task e pid b u w))"
  unfolding wp_snd [symmetric] create_task_def Let_def
  by (intro wp_access_then wp_not_locked_then wp_insert_then safe_insert quiet_intros safe.refl)
    (auto simp: new_task_def task_ok_def)

text \<open>Deletion: the dependents are purged where the caller forces it, then the task is marked.\<close>

lemma delete_edit_safe:
  assumes ok: "tasks_ok e w" and ed: "editable e w pid tid t" and c: "canonical e tid"
    and w': "w_tasks w' = map (\<lambda>u. if depends_on pid tid u then touch (now e) (purge_blocked_by e tid b u) else u) (w_tasks w)"
      "w_projects w' = w_projects w" "w_users w' = w_users w"
  shows "safe_step e {pid} w (store_task (touch (now e) (t\<lparr>t_is_deleted := True\<rparr>)) w')"
proof -
  let ?g = "\<lambda>u. if depends_on pid tid u then touch (now e) (purge_blocked_by e tid b u) else u"
  let ?t = "touch (now e) (t\<lparr>t_is_deleted := True\<rparr>)"
  have t: "t \<in> set (w_tasks w)" "t_id t = tid" "t_project_id t = pid" "\<not> t_is_deleted t"
    using ed canonical_get [OF c] by (auto simp: editable_def)
  have inv: "links_inv e (coll_save t_id ?t (map ?g (w_tasks w)))"
    using ok t by (intro delete_store_inv) (auto simp: tasks_ok_def)
  have save: "coll_save t_id ?t (map ?g (w_tasks w)) = map (\<lambda>u. if t_id u = tid then ?t else ?g u) (w_tasks w)"
    using coll_save_map [OF t(1), of t_id ?g ?t] t(2) by (simp add: task_simps)
  have eq: "u = t" if "u \<in> set (w_tasks w)" "t_id u = tid" for u
    using keys_distinct_eq [OF tasks_ok_keys [OF ok] that(1) t(1)] t(2) that(2) by simp
  have oth: "others {pid} (store_task ?t w') = others {pid} w"
  proof (rule others_eq)
    show "list_all2 (\<lambda>t t'. t' = t \<or> t_project_id t \<in> {pid} \<and> t_project_id t' \<in> {pid}) (w_tasks w) (w_tasks (store_task ?t w'))"
      unfolding w_tasks_store_task w' save list_all2_map2 list_all2_same
    proof
      fix v assume "v \<in> set (w_tasks w)"
      then have "t_project_id v = pid" if "t_id v = tid" using eq [of v] that t(3) by simp
      then show "(if t_id v = tid then ?t else ?g v) = v \<or>
          t_project_id v \<in> {pid} \<and> t_project_id (if t_id v = tid then ?t else ?g v) \<in> {pid}"
        using t(3) by (simp add: depends_on_def task_simps)
    qed
  qed
  have "\<forall>u \<in> set (map (\<lambda>u. if t_id u = tid then ?t else ?g u) (w_tasks w)). task_ok u"
    using ok t by (auto simp: tasks_ok_def task_ok_def task_simps purge_blocked_by_def Let_def)
  with inv oth show ?thesis
    by (simp add: safe_step_def tasks_ok_def w' save)
qed

lemma wp_cleanup_dependents:
  assumes d: "keys_distinct t_id (w_tasks w)"
    and post: "\<And>ds w'. w_tasks w' = map (\<lambda>u. if depends_on pid tid u then touch (now e) (purge_blocked_by e tid b u) else u) (w_tasks w) \<Longrightarrow>
      w_projects w' = w_projects w \<Longrightarrow> w_users w' = w_users w \<Longrightarrow> w_issues w' = w_issues w \<Longrightarrow> w_files w' = w_files w \<Longrightarrow> Q ds w'"
  shows "wp (cleanup_dependents e tid pid b) Q E w"
proof -
  have stored: "w_tasks (store_tasks e (map (purge_blocked_by e tid b) (coll_find (depends_on pid tid) (w_tasks w))) w) =
      map (\<lambda>u. if depends_on pid tid u then touch (now e) (purge_blocked_by e tid b u) else u) (w_tasks w)"
    by (rule w_tasks_store_query [OF d]) (simp add: task_simps)
  have dep: "(\<lambda>t. t_project_id t = pid \<and> \<not> t_is_deleted t \<and> tid \<in> set (t_blocked_by t)) = depends_on pid tid"
    by (simp add: fun_eq_iff depends_on_def)
  show ?thesis
    unfolding cleanup_dependents_def wp_bindP wp_list_dependents dep
  proof (cases "coll_find (depends_on pid tid) (w_tasks w) = []")
    case True
    then have "Q [] w" using stored by (intro post) (simp_all add: store_tasks_def)
    with True show "wp (if coll_find (depends_on pid tid) (w_tasks w) = [] then return []
        else save_all e (map (purge_blocked_by e tid b) (coll_find (depends_on pid tid) (w_tasks w)))) Q E w"
      by (simp add: wp_simps)
  next
    case False
    then show "wp (if coll_find (depends_on pid tid) (w_tasks w) = [] then return []
        else save_all e (map (purge_blocked_by e tid b) (coll_find (depends_on pid tid) (w_tasks w)))) Q E w"
      by (simp add: wp_simps) (rule post; simp add: stored)
  qed
qed

lemma no_dependents_map:
  "coll_find (depends_on pid tid) ts = [] \<Longrightarrow> map (\<lambda>u. if depends_on pid tid u then f u else u) ts = ts"
  by (induction ts) (auto simp: coll_find_def split: if_splits)

lemma wp_delete_cleanup:
  assumes d: "keys_distinct t_id (w_tasks w)" and force: "force \<or> coll_find (depends_on pid tid) (w_tasks w) = []"
    and post: "\<And>ds w'. w_tasks w' = map (\<lambda>u. if depends_on pid tid u then touch (now e) (purge_blocked_by e tid b u) else u) (w_tasks w) \<Longrightarrow>
      w_projects w' = w_projects w \<Longrightarrow> w_users w' = w_users w \<Longrightarrow> w_issues w' = w_issues w \<Longrightarrow> w_files w' = w_files w \<Longrightarrow> wp (f ds) Q E w'"
  shows "wp (bindP (if coll_find (depends_on pid tid) (w_tasks w) \<noteq> [] \<and> force then cleanup_dependents e tid pid b else return []) f) Q E w"
proof (cases "coll_find (depends_on pid tid) (w_tasks w) = []")
  case True
  then have "wp (f []) Q E w" by (intro post) (simp_all add: no_dependents_map)
  with True show ?thesis by (simp add: wp_simps)
next
  case False
  with force show ?thesis
    unfolding wp_bindP by (auto intro: wp_cleanup_dependents [OF d] post)
qed

lemma wp_dependents_then:
  "wp (f (coll_find (depends_on pid tid) (w_tasks w))) Q E w \<Longrightarrow> wp (bindP (list_dependents pid tid) f) Q E w"
proof -
  have "(\<lambda>t. t_project_id t = pid \<and> \<not> t_is_deleted t \<and> tid \<in> set (t_blocked_by t)) = depends_on pid tid"
    by (simp add: fun_eq_iff depends_on_def)
  then show "wp (f (coll_find (depends_on pid tid) (w_tasks w))) Q E w \<Longrightarrow> wp (bindP (list_dependents pid tid) f) Q E w"
    by (simp add: wp_simps)
qed

lemma wp_then_quiet:
  "safe_step e {pid} w (store_task (touch (now e) g) w') \<Longrightarrow> (\<And>t. keeps same_store (tail t)) \<Longrightarrow>
   wp (bindP (save_updated e g) tail) (\<lambda>_. safe_step e {pid} w) (\<lambda>_. safe_step e {pid} w) w'"
  unfolding wp_bindP wp_save_updated by (intro safe.wp_after quiet_safe)

lemma delete_task_safe:
  assumes "canonical e tid"
  shows "keeps (safe_step e {pid}) (delete_task e pid tid force u)"
  unfolding delete_task_def editable_preamble
  by (intro editable_keeps wp_dependents_then wp_guard_then wp_delete_cleanup tasks_ok_keys wp_then_quiet
      delete_edit_safe quiet_intros safe.refl) (use assms in auto)

lemma safe_two:
  assumes ok: "tasks_ok e w" and inv: "links_inv e (w_tasks (store_task t' (store_task s' w)))"
    and s: "s \<in> set (w_tasks w)" "t_id s' = t_id s" "t_project_id s = pid" "t_project_id s' = pid" "task_ok s'"
    and t: "t \<in> set (w_tasks w)" "t_id t' = t_id t" "t_project_id t = pid" "t_project_id t' = pid" "task_ok t'"
  shows "safe_step e {pid} w (store_task t' (store_task s' w))"
proof -
  let ?f = "\<lambda>u. if u = t then t' else if u = s then s' else u"
  have two: "coll_save t_id t' (coll_save t_id s' (w_tasks w)) = map ?f (w_tasks w)"
    by (rule save_two [OF tasks_ok_keys [OF ok] s(1,2) t(1,2)])
  have "others {pid} (store_task t' (store_task s' w)) = others {pid} w"
    by (rule others_eq) (use s t in \<open>simp add: two list_all2_map2 list_all2_same\<close>)
  with inv ok s(5) t(5) show ?thesis by (auto simp: safe_step_def tasks_ok_def two)
qed

lemma link_task_ok: "task_ok s \<Longrightarrow> task_ok (touch n (link_source e x b s))" "task_ok s \<Longrightarrow> task_ok (touch n (link_target e x b s))"
  "task_ok s \<Longrightarrow> task_ok (touch n (unlink_source e x b s))" "task_ok s \<Longrightarrow> task_ok (touch n (unlink_target e x b s))"
  by (simp_all add: task_ok_def task_simps link_source_def link_target_def unlink_source_def unlink_target_def Let_def)

lemma link_safe:
  assumes ok: "tasks_ok e w" and c: "canonical e sid" "canonical e tid" and pre: "link_pre e w sid tid s t"
    and p: "t_project_id s = pid"
  shows "safe_step e {pid} w (store_task (touch (now e) (link_target e sid b t)) (store_task (touch (now e) (link_source e tid b s)) w))"
proof -
  have inv: "links_inv e (w_tasks w)" using ok by (simp add: tasks_ok_def)
  from pre p coll_get_in [of t_id "w_tasks w"]
  have "s \<in> set (w_tasks w)" "t \<in> set (w_tasks w)" "t_project_id t = pid" by (auto simp: link_pre_def)
  with ok p show ?thesis
    by (intro safe_two [where s = s and t = t, OF ok link_store_inv [OF inv c pre]]) (auto simp: tasks_ok_def task_simps link_task_ok)
qed

text \<open>The end of a stored edge lies in the same project.\<close>

lemma edge_same_project:
  assumes inv: "links_inv e ts" and s: "s \<in> set ts" "\<not> t_is_deleted s" and t: "t \<in> set ts" "\<not> t_is_deleted t"
    and e: "t_id t \<in> set (t_blocks s) \<or> t_id s \<in> set (t_blocked_by t)"
  shows "t_project_id t = t_project_id s" and "t_id s \<noteq> t_id t"
proof -
  have sb: "t_id s \<in> set (t_blocked_by t)" using assms by (auto simp: links_inv_def links_sym_def)
  with inv t obtain s' where "s' \<in> set ts" "t_id s' = t_id s" "t_project_id s' = t_project_id t"
    by (auto simp: links_inv_def no_dangling_def)
  with inv s(1) keys_distinct_eq [of ts s' s] show "t_project_id t = t_project_id s"
    by (simp add: links_inv_def)
  show "t_id s \<noteq> t_id t" using links_inv_irrefl [OF inv t] sb by auto
qed

lemma unlink_safe:
  assumes ok: "tasks_ok e w" and c: "canonical e sid" "canonical e tid"
    and s: "coll_get t_id (w_tasks w) (oid_canon e sid) = Some s" "\<not> t_is_deleted s"
    and t: "coll_get t_id (w_tasks w) (oid_canon e tid) = Some t" "\<not> t_is_deleted t"
    and edge: "tid \<in> set (t_blocks s) \<or> sid \<in> set (t_blocked_by t)" and p: "t_project_id s = pid"
  shows "safe_step e {pid} w (store_task (touch (now e) (unlink_target e sid b t)) (store_task (touch (now e) (unlink_source e tid b s)) w))"
proof -
  have inv: "links_inv e (w_tasks w)" using ok by (simp add: tasks_ok_def)
  note in_s = canonical_get [OF c(1) s(1)] and in_t = canonical_get [OF c(2) t(1)]
  have "t_project_id t = pid" "sid \<noteq> tid"
    using edge_same_project [OF inv _ s(2) _ t(2)] in_s in_t edge p by auto
  then show ?thesis
    using ok p in_s in_t
    by (intro safe_two [where s = s and t = t, OF ok unlink_store_inv [OF inv c s(1) t(1)]]) (auto simp: tasks_ok_def task_simps link_task_ok)
qed

lemma wp_load_then:
  "(\<And>t. editable e w pid tid t \<Longrightarrow> wp (f t) Q E w) \<Longrightarrow> (\<And>x. E x w) \<Longrightarrow> wp (bindP (load_task e pid tid) f) Q E w"
  by (auto simp: load_task_def wp_simps in_project_def editable_def split: option.splits)

lemma wp_valid_then:
  "(oid_valid e x \<Longrightarrow> wp (f ()) Q E w) \<Longrightarrow> (\<And>x. E x w) \<Longrightarrow> wp (bindP (valid_object_id e x) f) Q E w"
  by (simp add: wp_simps)

lemma keeps_link_events: "keeps same_store (link_events e pid k r s t)"
  unfolding link_events_def by (intro quiet_intros)

lemma wp_link_events:
  "safe_step e {pid} w w' \<Longrightarrow>
   wp (case st of (s, t) \<Rightarrow> link_events e pid k r s t) (\<lambda>_. safe_step e {pid} w) (\<lambda>_. safe_step e {pid} w) w'"
  by (cases st) (simp add: safe.wp_after quiet_safe keeps_link_events)

lemma create_link_safe:
  assumes c: "canonical e tid" "canonical e target"
  shows "keeps (safe_step e {pid}) (create_link e pid tid target r u)"
proof (rule keepsI_ok [OF not_ok_safe])
  fix w assume ok: "tasks_ok e w"
  show "wp (create_link e pid tid target r u) (\<lambda>_. safe_step e {pid} w) (\<lambda>_. safe_step e {pid} w) w"
    unfolding create_link_def
    by (intro wp_access_then wp_not_locked_then wp_load_then wp_valid_then wp_translate_then wp_link wp_link_events link_safe [OF ok c] safe.refl)
      (auto simp: wp_simps safe.refl editable_def link_pre_def)
qed

lemma delete_link_safe:
  assumes c: "canonical e tid" "canonical e target"
  shows "keeps (safe_step e {pid}) (delete_link e pid tid target r u)"
proof (rule keepsI_ok [OF not_ok_safe])
  fix w assume ok: "tasks_ok e w"
  show "wp (delete_link e pid tid target r u) (\<lambda>_. safe_step e {pid} w) (\<lambda>_. safe_step e {pid} w) w"
    unfolding delete_link_def
    by (intro wp_access_then wp_not_locked_then wp_load_then wp_valid_then wp_translate_then wp_unlink wp_link_events unlink_safe [OF ok c] safe.refl)
      (auto simp: wp_simps safe.refl editable_def)
qed

section \<open>The task router\<close>

text \<open>The requests of \<open>/projects/{project_id}/tasks\<close> and their dispatch (tasks/__init__.py).\<close>

datatype task_request =
    ListTasks list_tasks_query
  | CreateTask create_task_request
  | GetTask string
  | UpdateTask string update_task_request
  | DeleteTask string bool
  | CompleteTask string "string option"
  | ReopenTask string
  | ArchiveTask string
  | UnarchiveTask string
  | ReorderTasks "string list"
  | BatchUpdate "batch_update_item list"
  | AddComment string string
  | DeleteComment string string
  | CreateLink string string string
  | DeleteLink string string string
  | UploadAttachment string upload_file
  | DeleteAttachment string string

definition no_content :: "(world, unit) prog \<Rightarrow> (world, json) prog" where
  "no_content m = bindP m (\<lambda>_. return JNull)"

fun route :: "env \<Rightarrow> string \<Rightarrow> user \<Rightarrow> task_request \<Rightarrow> (world, json) prog" where
  "route e pid u (ListTasks q) = list_tasks e pid q u"
| "route e pid u (CreateTask b) = create_task e pid b u"
| "route e pid u (GetTask tid) = get_task e pid tid u"
| "route e pid u (UpdateTask tid b) = update_task e pid tid b u"
| "route e pid u (DeleteTask tid force) = no_content (delete_task e pid tid force u)"
| "route e pid u (CompleteTask tid r) = complete_task e pid tid r u"
| "route e pid u (ReopenTask tid) = reopen_task e pid tid u"
| "route e pid u (ArchiveTask tid) = archive_task e pid tid u"
| "route e pid u (UnarchiveTask tid) = unarchive_task e pid tid u"
| "route e pid u (ReorderTasks ids) = reorder_tasks e pid ids u"
| "route e pid u (BatchUpdate items) = batch_update_tasks e pid items u"
| "route e pid u (AddComment tid c) = add_comment e pid tid c u"
| "route e pid u (DeleteComment tid c) = no_content (delete_comment e pid tid c u)"
| "route e pid u (CreateLink tid x r) = create_link e pid tid x r u"
| "route e pid u (DeleteLink tid x r) = delete_link e pid tid x r u"
| "route e pid u (UploadAttachment tid f) = upload_attachment e pid tid f u"
| "route e pid u (DeleteAttachment tid a) = no_content (delete_attachment e pid tid a u)"

text \<open>
  What the handlers rely on and do not check: that the identifiers of a link or of a task to
  delete are written in canonical form, and that a new identifier is new.
\<close>

fun request_canonical :: "env \<Rightarrow> task_request \<Rightarrow> bool" where
  "request_canonical e (DeleteTask tid _) = canonical e tid"
| "request_canonical e (CreateLink tid x _) = (canonical e tid \<and> canonical e x)"
| "request_canonical e (DeleteLink tid x _) = (canonical e tid \<and> canonical e x)"
| "request_canonical e _ = True"

fun cascades :: "task_request \<Rightarrow> bool" where
  "cascades (UpdateTask _ b) = (ur_approved b = Some True)"
| "cascades (BatchUpdate items) = list_ex (\<lambda>i. bi_approved i = Some True) items"
| "cascades _ = False"

lemma safe_no_content: "keeps (safe_step e {pid}) m \<Longrightarrow> keeps (safe_step e {pid}) (no_content m)"
  unfolding no_content_def by (intro safe.keeps_intros)

lemma list_tasks_quiet: "keeps same_store (list_tasks e pid q u)"
  unfolding list_tasks_def enrich_tasks_meta_def by (intro quiet_intros)

lemma get_task_quiet: "keeps same_store (get_task e pid tid u)"
  unfolding get_task_def by (intro quiet_intros)

text \<open>Without an approval, an update stays within its project.\<close>

lemma update_task_safe:
  assumes "ur_approved b \<noteq> Some True"
  shows "keeps (safe_step e {pid}) (update_task e pid tid b u)"
  unfolding update_task_def editable_preamble Let_def
  by (intro editable_keeps wp_update_edit wp_save_then quiet_intros safe.refl) (use assms in auto)

lemma batch_no_cascade:
  "\<not> list_ex (\<lambda>i. bi_approved i = Some True) items \<Longrightarrow> bs_cascade st = [] \<Longrightarrow>
   bs_cascade (fold (batch_item e a) items st) = []"
  by (induction items arbitrary: st) (auto simp: batch_item_def split: option.split)

lemma wp_gather_then:
  assumes ok: "tasks_ok e w" and us: "\<And>u. u \<in> set us \<Longrightarrow> \<exists>t \<in> set (w_tasks w). t_project_id t \<in> W \<and> harmless t u"
    and tail: "\<And>rs. keeps same_store (tail rs)"
  shows "wp (bindP (gather_saves e us) tail) (\<lambda>_. safe_step e W w) (\<lambda>_. safe_step e W w) w"
proof -
  have "edited W (w_tasks w) (w_tasks (store_tasks e (filter (\<lambda>t. \<not> save_raises e (t_id t)) us) w))"
    using us by (intro edited_store_tasks tasks_ok_keys [OF ok]) auto
  then show ?thesis
    unfolding wp_bindP wp_gather_saves by (intro safe.wp_after quiet_safe tail edited_safe) simp_all
qed

lemma batch_update_safe:
  assumes no: "\<not> list_ex (\<lambda>i. bi_approved i = Some True) items"
  shows "keeps (safe_step e {pid}) (batch_update_tasks e pid items u)"
proof (rule keepsI_ok [OF not_ok_safe])
  fix w assume ok: "tasks_ok e w"
  show "wp (batch_update_tasks e pid items u) (\<lambda>_. safe_step e {pid} w) (\<lambda>_. safe_step e {pid} w) w"
    unfolding batch_update_tasks_def Let_def
    by (intro wp_access_then wp_not_locked_then wp_forP_check wp_fetch_then wp_gather_then [OF ok] quiet_intros safe.refl)
      (auto simp: wp_simps safe.refl batch_no_cascade [OF no] dest: batch_fetched)
qed

text \<open>A request that cannot cascade stays within its project, whatever it is.\<close>

lemma route_safe:
  assumes "request_canonical e r" and "\<not> cascades r" and "\<forall>b. r \<noteq> CreateTask b"
  shows "keeps (safe_step e {pid}) (route e pid u r)"
  using assms
  by (cases r) (simp_all add: safe_no_content quiet_safe list_tasks_quiet get_task_quiet complete_task_safe reopen_task_safe
      archive_task_safe unarchive_task_safe reorder_tasks_safe add_comment_safe delete_comment_safe upload_attachment_safe
      delete_attachment_safe delete_task_safe create_link_safe delete_link_safe update_task_safe batch_update_safe)

lemma route_safe_step:
  assumes "request_canonical e r" and "\<not> cascades r" and "fresh_oid e w (new_oid e 0)"
  shows "safe_step e {pid} w (snd (route e pid u r w))"
proof (cases "\<exists>b. r = CreateTask b")
  case True
  then show ?thesis using create_task_safe [OF assms(3)] by auto
next
  case False
  with route_safe [OF assms(1,2)] show ?thesis by (simp add: keeps_def)
qed

lemma route_project_step:
  assumes "request_canonical e r" and "fresh_oid e w (new_oid e 0)"
  shows "project_step e {pid} w (snd (route e pid u r w))"
proof (cases "cascades r")
  case True
  then obtain tid b items where "r = UpdateTask tid b \<or> r = BatchUpdate items" by (cases r) auto
  then show ?thesis using update_task_project batch_update_project by (auto simp: keeps_def)
next
  case False
  with assms show ?thesis by (intro safe_project route_safe_step)
qed

section \<open>Who may call a handler\<close>

definition denied :: "world \<Rightarrow> (world, 'a) prog \<Rightarrow> bool" where
  "denied w m \<longleftrightarrow> (\<exists>x. m w = (Inl x, w))"

lemma denied_wp: "denied w m \<longleftrightarrow> wp m (\<lambda>_ _. False) (\<lambda>_ w'. w' = w) w"
  by (auto simp: denied_def wp_def split: prod.splits sum.splits)

lemma denied_bind: "denied w m \<Longrightarrow> denied w (bindP m f)"
  by (auto simp: denied_def bindP_def)

lemma denied_editable:
  "\<forall>p. may_access e w pid u p \<longrightarrow> p_is_locked p \<Longrightarrow> denied w (bindP (get_editable_task e pid tid u) f)"
  by (rule denied_bind) (auto simp: denied_wp intro: wp_get_editable)

lemma denied_unlocked:
  "\<forall>p. may_access e w pid u p \<longrightarrow> p_is_locked p \<Longrightarrow>
   denied w (bindP (check_project_access e pid u) (\<lambda>p. bindP (check_not_locked p) (f p)))"
  unfolding denied_wp by (intro wp_access_then) (auto simp: wp_simps)

lemma denied_access:
  "\<forall>p. \<not> may_access e w pid u p \<Longrightarrow> denied w (bindP (check_project_access e pid u) f)"
  unfolding denied_wp by (intro wp_access_then) auto

lemma denied_get:
  "\<forall>p. \<not> may_access e w pid u p \<Longrightarrow>
   denied w (bindP (valid_object_id e tid) (\<lambda>_. bindP (check_project_access e pid u) f))"
  unfolding denied_wp by (intro wp_valid_then wp_access_then) auto

fun reads_only :: "task_request \<Rightarrow> bool" where
  "reads_only (ListTasks _) = True"
| "reads_only (GetTask _) = True"
| "reads_only _ = False"

lemma route_locked:
  assumes "\<forall>p. may_access e w pid u p \<longrightarrow> p_is_locked p" and "\<not> reads_only r" and "\<forall>ids. r \<noteq> ReorderTasks ids"
  shows "denied w (route e pid u r)"
  using assms
  by (cases r) (simp_all add: denied_editable denied_unlocked denied_bind no_content_def create_task_def update_task_def
      delete_task_def complete_task_def reopen_task_def archive_task_def unarchive_task_def batch_update_tasks_def
      add_comment_def delete_comment_def create_link_def delete_link_def upload_attachment_def delete_attachment_def
      editable_preamble)

lemma route_denied:
  assumes "\<forall>p. \<not> may_access e w pid u p"
  shows "denied w (route e pid u r)"
proof (cases "reads_only r \<or> (\<exists>ids. r = ReorderTasks ids)")
  case True
  then show ?thesis
    using assms by (cases r) (simp_all add: list_tasks_def get_task_def reorder_tasks_def denied_access denied_get)
next
  case False
  with assms route_locked [of e w pid u r] show ?thesis by simp
qed

section \<open>Properties of the task endpoints\<close>


lemma demo_tasks_ok: "tasks_ok plain_env demo_world"
  using demo_links_inv by (auto simp: tasks_ok_def demo_tasks_def demo_task_def new_task_def task_ok_def)

lemma demo_fresh: "fresh_oid plain_env demo_world (new_oid plain_env 0)"
  by (simp add: fresh_oid_def demo_tasks_def demo_task_def new_task_def) (simp add: plain_env_def)


text \<open>
  C8. Projects are isolated. When the stored tasks are in order and new identifiers are fresh, a
  request to one project (one that links, unlinks or deletes tasks: with canonically spelled
  identifiers) changes no project and no user, and leaves every task of the other projects as it
  was; only a request that approves a task can reach beyond, and then all it does there is approve
  tasks (the cascade follows \<open>parent_task_id\<close> across projects).
\<close>

theorem route_isolates_projects:
  assumes "tasks_ok e w" and "request_canonical e r" and "fresh_oid e w (new_oid e 0)"
    and "w' = snd (route e pid u r w)"
  shows "w_projects w' = w_projects w \<and> w_users w' = w_users w \<and>
    list_all2 (cascaded e) (others {pid} w) (others {pid} w') \<and>
    (\<not> cascades r \<longrightarrow> others {pid} w' = others {pid} w)"
  using route_project_step [OF assms(2,3), of pid u] route_safe_step [OF assms(2) _ assms(3), of pid u] assms(1,4)
  by (auto simp: project_step_def safe_step_def)

theorem route_isolates_projects_witness:
  "tasks_ok plain_env demo_world \<and>
   others {''q''} (snd (route plain_env ''q'' demo_user (ArchiveTask ''a'') demo_world)) = others {''q''} demo_world"
  using route_isolates_projects [OF demo_tasks_ok _ demo_fresh refl, of "ArchiveTask ''a''" "''q''" demo_user] demo_tasks_ok
  by simp

text \<open>
  C9. Access control. A caller who is neither administrator nor member, or who names a
  project that does not exist or is archived, gets an error from every endpoint, and the
  state (documents, events, index, files) is exactly what it was. On a locked project the
  same holds for every endpoint that writes, but for \<open>reorder\<close>.
\<close>

theorem route_access_control:
  assumes "(\<forall>p. \<not> may_access e w pid u p) \<or>
    (\<forall>p. may_access e w pid u p \<longrightarrow> p_is_locked p) \<and> \<not> reads_only r \<and> (\<forall>ids. r \<noteq> ReorderTasks ids)"
  shows "\<exists>x. route e pid u r w = (Inl x, w)"
  using assms route_denied route_locked unfolding denied_def by blast

theorem route_access_control_witness:
  "\<exists>x. route plain_env ''p'' (demo_user\<lparr>u_id := ''v''\<rparr>) (DeleteTask ''a'' True) demo_world = (Inl x, demo_world)"
proof (rule route_access_control, intro disjI1 allI)
  show "\<not> may_access plain_env demo_world ''p'' (demo_user\<lparr>u_id := ''v''\<rparr>) p" for p
    by (auto simp: may_access_def coll_get_def demo_world_def empty_world_def demo_project_def demo_user_def
        plain_env_def has_member_def)
qed

end
