(* ===== verification/Error_Worker.thy ===== *)
theory Error_Worker
  imports Error_Pipeline "HOL-Library.Char_ord" "HOL-Library.List_Lexorder"
begin

text \<open>
  The jobs around the handler of the error tracker: the rotation of the daily collections
  (events.py), the hunt for entries a crashed worker left pending (worker.py), and one turn of the
  counter flusher (counters.py).

  The pending list of the consumer group holds identifiers and delivery times in the order of
  identifiers. The command \<open>XAUTOCLAIM\<close> of the server is a parameter of the hunt; what Redis
  documents of its answers is the relation \<open>claim_answer\<close>.
\<close>

section \<open>Rotation of the daily collections\<close>

text \<open>\<open>_COLL_RE.match(name)\<close>: the eight digits; \<open>$\<close> also matches before a final line end.\<close>

definition coll_re :: "string \<Rightarrow> string option" where
  "coll_re name =
     (let r = drop (length coll_prefix) name; ds = take 8 r in
      if is_prefix coll_prefix name \<and> length ds = 8 \<and> list_all ascii_digit ds \<and> drop 8 r \<in> {[], [CHR 10]}
      then Some ds else None)"

text \<open>\<open>strptime(ds, "%Y%m%d").date()\<close> of eight digits, as an ordinal.\<close>

definition date_ordinal :: "int \<Rightarrow> nat \<Rightarrow> int \<Rightarrow> int option" where
  "date_ordinal y m d =
     (if 1 \<le> y \<and> y \<le> 9999 \<and> 1 \<le> m \<and> m \<le> 12 \<and> 1 \<le> d \<and> d \<le> days_in_month y m
      then Some (days_before_year y + days_before_month y m + d) else None)"

definition coll_date :: "string \<Rightarrow> int option" where
  "coll_date name =
     (case coll_re name of
        None \<Rightarrow> None
      | Some ds \<Rightarrow> date_ordinal (digits_value (take 4 ds)) (nat (digits_value (take 2 (drop 4 ds)))) (digits_value (drop 6 ds)))"

definition list_event_collections :: "et_state \<Rightarrow> string list" where
  "list_event_collections s = sort (filter (\<lambda>n. coll_re n \<noteq> None) (map fst (et_events s)))"

definition longest_retention :: "int \<Rightarrow> error_tracking_config list \<Rightarrow> int" where
  "longest_retention cap cs =
     (let longest = fold (\<lambda>p longest. max longest (min (ec_retention_days p) cap)) cs 0
      in if longest = 0 then 30 else longest)"

definition drop_collection :: "string \<Rightarrow> et_state \<Rightarrow> et_state" where
  "drop_collection name s = s\<lparr>et_events := filter (\<lambda>c. fst c \<noteq> name) (et_events s)\<rparr>"

definition drop_step :: "int \<Rightarrow> string \<Rightarrow> string list \<Rightarrow> (et_state, string list) prog" where
  "drop_step cutoff name dropped =
     (case coll_date name of
        None \<Rightarrow> return dropped
      | Some d \<Rightarrow>
          if d < cutoff then bindP (modify (drop_collection name)) (\<lambda>_. return (dropped @ [name])) else return dropped)"

definition drop_expired_event_collections :: "et_env \<Rightarrow> time option \<Rightarrow> int option \<Rightarrow> (et_state, string list) prog" where
  "drop_expired_event_collections e at max_retention_days =
     (let t = (case at of None \<Rightarrow> now (et_base e) | Some t \<Rightarrow> t);
          cap = (case max_retention_days of None \<Rightarrow> 90 | Some d \<Rightarrow> d)
      in
      bindP (gets (\<lambda>s. longest_retention cap (et_configs s))) (\<lambda>longest.
      let past = t - longest * day_us in
      bindP (guard (min_instant \<le> past \<and> past < max_instant) OverflowError) (\<lambda>_.
      bindP (gets list_event_collections) (\<lambda>names.
      foldP (drop_step (ordinal past)) names []))))"

section \<open>Entries left behind\<close>

definition claim_min_idle :: time where
  "claim_min_idle = 5 * 60 * 1000 * 1000"

text \<open>
  The call \<open>XAUTOCLAIM\<close> with a cursor, \<open>CLAIM_MIN_IDLE_MS\<close> and the size of a batch: the next cursor,
  where \<open>None\<close> is \<open>0-0\<close>, and the claimed entries. It belongs to the server, so it is a parameter.
\<close>

type_synonym claim_call = "et_env \<Rightarrow> nat \<Rightarrow> (et_state, nat option \<times> (nat \<times> stream_entry) list) prog"

text \<open>
  What Redis documents of an answer. The call examines some of the pending entries from the cursor
  on, at least one if there is one; how many depends on the batch. Examined entries that the
  stream no longer holds are forgotten, those idle for long enough are claimed, which renews their
  delivery, and the others stay as they are. The next cursor is the first entry that was not
  examined.
\<close>

definition idle_at :: "time \<Rightarrow> nat \<times> time \<Rightarrow> bool" where
  "idle_at clk p = (claim_min_idle \<le> clk - snd p)"

definition claim_answer :: "et_env \<Rightarrow> nat \<Rightarrow> et_state \<Rightarrow> nat option \<Rightarrow> (nat \<times> stream_entry) list \<Rightarrow> et_state \<Rightarrow> bool" where
  "claim_answer e start s nxt cl s' \<longleftrightarrow>
     (let from = filter (\<lambda>p. start \<le> fst p) (rs_pending s); clk = now (et_base e) in
      \<exists>k. (from \<noteq> [] \<longrightarrow> 0 < k) \<and>
        (let live = filter (\<lambda>p. fst p \<in> fst ` set (rs_stream s)) (take k from) in
         s' = s\<lparr>rs_pending := filter (\<lambda>p. fst p < start) (rs_pending s) @
           map (\<lambda>p. if idle_at clk p then (fst p, clk) else p) live @ drop k from\<rparr> \<and>
         cl = map (\<lambda>p. (fst p, the (map_of (rs_stream s) (fst p)))) (filter (idle_at clk) live) \<and>
         nxt = (case drop k from of [] \<Rightarrow> None | p # _ \<Rightarrow> Some (fst p))))"

text \<open>
  The loop of \<open>_reclaim_stale\<close> from a cursor; \<open>calls\<close> and \<open>envs\<close> are the environments of the call with
  a cursor and of the handling of an entry. \<open>None\<close> means that the loop does not end.
\<close>

partial_function (option) reclaim_loop ::
  "claim_call \<Rightarrow> (et_env \<Rightarrow> stream_entry \<Rightarrow> (et_state, unit) prog) \<Rightarrow> (nat \<Rightarrow> et_env) \<Rightarrow> (nat \<Rightarrow> et_env) \<Rightarrow> nat \<Rightarrow> et_state \<Rightarrow>
   ((exn + unit) \<times> et_state) option" where
  "reclaim_loop claim handler calls envs start s =
     (case claim (calls start) start s of
        (Inl x, s') \<Rightarrow> Some (Inl x, s')
      | (Inr (next_start, reclaimed), s') \<Rightarrow>
          if reclaimed = [] then Some (Inr (), s')
          else case forP reclaimed (\<lambda>x. dispatch (envs (fst x)) handler x) s' of
            (Inl x, s'') \<Rightarrow> Some (Inl x, s'')
          | (Inr _, s'') \<Rightarrow>
              (case next_start of None \<Rightarrow> Some (Inr (), s'') | Some n \<Rightarrow> reclaim_loop claim handler calls envs n s''))"

definition reclaim_stale ::
  "claim_call \<Rightarrow> (et_env \<Rightarrow> stream_entry \<Rightarrow> (et_state, unit) prog) \<Rightarrow> (nat \<Rightarrow> et_env) \<Rightarrow> (nat \<Rightarrow> et_env) \<Rightarrow> et_state \<Rightarrow>
   et_state option" where
  "reclaim_stale claim handler calls envs s = map_option snd (reclaim_loop claim handler calls envs 0 s)"

section \<open>The counter flusher\<close>

text \<open>One turn of the loop of \<open>CounterFlusher._run\<close>, and its stop: a failed flush is logged.\<close>

definition flusher_turn :: "et_env \<Rightarrow> (et_state, unit) prog" where
  "flusher_turn e = catchP (bindP (flush_once e) (\<lambda>_. return ())) (\<lambda>_. return ())"

end
