(* ===== verification/Error_Behaviour.thy ===== *)
theory Error_Behaviour
  imports Error_Pipeline
begin

text \<open>
  The properties of the error tracker: what its counters count, how many requests its limiter
  lets through, who may put events on the stream, and what the worker keeps of the stored
  issues, events and tasks.
\<close>

section \<open>Counting events\<close>

text \<open>
  The contract of an event counter: there is a total per issue; recording an event adds one to
  the total of its issue, unless the recording fails, and a flush changes no total.
\<close>

datatype ('p, 'f) counter_op = Seen 'p string | Flush 'f

primrec run_ops :: "('p \<Rightarrow> string \<Rightarrow> 's \<Rightarrow> 's) \<Rightarrow> ('f \<Rightarrow> 's \<Rightarrow> 's) \<Rightarrow> ('p, 'f) counter_op list \<Rightarrow> 's \<Rightarrow> 's" where
  "run_ops seen flush [] s = s"
| "run_ops seen flush (x # xs) s = run_ops seen flush xs (case x of Seen p i \<Rightarrow> seen p i s | Flush f \<Rightarrow> flush f s)"

fun op_adds :: "('p \<Rightarrow> bool) \<Rightarrow> string \<Rightarrow> ('p, 'f) counter_op \<Rightarrow> bool" where
  "op_adds up i (Seen p j) = (up p \<and> i = j)"
| "op_adds up i (Flush f) = False"

fun op_ok :: "('f \<Rightarrow> bool) \<Rightarrow> string set \<Rightarrow> ('p, 'f) counter_op \<Rightarrow> bool" where
  "op_ok safe known (Seen p i) = (i \<in> known)"
| "op_ok safe known (Flush f) = safe f"

locale event_counter =
  fixes total :: "'s \<Rightarrow> string \<Rightarrow> int" and ok :: "'s \<Rightarrow> bool" and known :: "'s \<Rightarrow> string set"
    and seen :: "'p \<Rightarrow> string \<Rightarrow> 's \<Rightarrow> 's" and flush :: "'f \<Rightarrow> 's \<Rightarrow> 's"
    and up :: "'p \<Rightarrow> bool" and safe :: "'f \<Rightarrow> bool"
  assumes seen_total: "ok s \<Longrightarrow> i \<in> known s \<Longrightarrow> total (seen p i s) j = total s j + of_bool (up p \<and> j = i)"
    and flush_total: "ok s \<Longrightarrow> safe f \<Longrightarrow> total (flush f s) j = total s j"
    and seen_ok: "ok s \<Longrightarrow> i \<in> known s \<Longrightarrow> ok (seen p i s) \<and> known (seen p i s) = known s"
    and flush_ok: "ok s \<Longrightarrow> safe f \<Longrightarrow> ok (flush f s) \<and> known (flush f s) = known s"
begin

lemma run_total:
  assumes "ok s" and "list_all (op_ok safe (known s)) ops"
  shows "ok (run_ops seen flush ops s) \<and> known (run_ops seen flush ops s) = known s \<and>
    total (run_ops seen flush ops s) j = total s j + int (length (filter (op_adds up j) ops))"
  using assms
proof (induction ops arbitrary: s)
  case (Cons x ops)
  then show ?case
    by (cases x) (auto simp: seen_ok flush_ok seen_total flush_total)
qed simp

end

text \<open>
  The counters of the tracker: the total of an issue is what its document counts and what is
  still in Redis. Redis holds a count only for an issue that exists and is marked dirty.
\<close>

definition pending_count :: "et_state \<Rightarrow> string \<Rightarrow> int" where
  "pending_count s i = (case rs_evt s i of None \<Rightarrow> 0 | Some n \<Rightarrow> n)"

definition stored_count :: "et_state \<Rightarrow> string \<Rightarrow> int" where
  "stored_count s i = (case coll_get i_id (w_issues (et_app s)) i of None \<Rightarrow> 0 | Some d \<Rightarrow> i_event_count d)"

definition total_count :: "et_state \<Rightarrow> string \<Rightarrow> int" where
  "total_count s i = stored_count s i + pending_count s i"

definition known_issues :: "(string \<Rightarrow> bool) \<Rightarrow> (string \<Rightarrow> string) \<Rightarrow> et_state \<Rightarrow> string set" where
  "known_issues valid canon s = {i \<in> i_id ` set (w_issues (et_app s)). valid i \<and> canon i = i}"

definition counters_ok :: "(string \<Rightarrow> bool) \<Rightarrow> (string \<Rightarrow> string) \<Rightarrow> et_state \<Rightarrow> bool" where
  "counters_ok valid canon s \<longleftrightarrow>
     (\<forall>i n. rs_evt s i = Some n \<longrightarrow> 0 < n \<and> i \<in> set (rs_dirty s) \<and> i \<in> known_issues valid canon s)"

definition seen_step :: "et_env \<times> string option \<times> time \<Rightarrow> string \<Rightarrow> et_state \<Rightarrow> et_state" where
  "seen_step p i s = (case p of (e, u, t) \<Rightarrow> snd (record_event_seen e i u t s))"

definition flush_step :: "et_env \<Rightarrow> et_state \<Rightarrow> et_state" where
  "flush_step e s = snd (flush_once e s)"

definition seen_up :: "et_env \<times> string option \<times> time \<Rightarrow> bool" where
  "seen_up p = (case p of (e, u, t) \<Rightarrow> redis_up (et_base e) \<and> \<not> counter_raises e)"

definition flush_safe :: "(string \<Rightarrow> bool) \<Rightarrow> (string \<Rightarrow> string) \<Rightarrow> et_env \<Rightarrow> bool" where
  "flush_safe valid canon e \<longleftrightarrow> oid_valid (et_base e) = valid \<and> oid_canon (et_base e) = canon \<and> (\<forall>i. \<not> issue_update_raises e i)"

lemma seen_step_cases:
  "seen_step (e, u, t) i s = (if redis_up (et_base e) \<and> \<not> counter_raises e then
     s\<lparr>rs_evt := (rs_evt s)(i \<mapsto> pending_count s i + 1), rs_last := (rs_last s)(i \<mapsto> t),
       rs_hll := (case truthy u of None \<Rightarrow> rs_hll s
         | Some u \<Rightarrow> (rs_hll s)(i \<mapsto> List.insert u (case rs_hll s i of None \<Rightarrow> [] | Some us \<Rightarrow> us))),
       rs_dirty := List.insert i (rs_dirty s)\<rparr> else s)"
  by (simp add: seen_step_def record_event_seen_def bindP_def guard_def modify_def return_def raise_def pending_count_def)

lemma seen_total_count: "total_count (seen_step p i s) j = total_count s j + of_bool (seen_up p \<and> j = i)"
  by (cases p) (simp add: seen_step_cases total_count_def stored_count_def pending_count_def seen_up_def)

lemma seen_known: "known_issues valid canon (seen_step p i s) = known_issues valid canon s"
  by (cases p) (simp add: seen_step_cases known_issues_def)

lemma seen_counters_ok:
  assumes "counters_ok valid canon s" and "i \<in> known_issues valid canon s"
  shows "counters_ok valid canon (seen_step p i s)"
proof -
  have "0 \<le> pending_count s i" using assms(1) by (auto simp: counters_ok_def pending_count_def split: option.splits) force
  then show ?thesis
    using assms by (cases p) (auto simp: seen_step_cases counters_ok_def known_issues_def)
qed

text \<open>The flush of one issue, and of all dirty ones, as functions of the state.\<close>

definition flush_one :: "et_env \<Rightarrow> string \<Rightarrow> et_state \<Rightarrow> et_state" where
  "flush_one e i s =
     (let s1 = s\<lparr>rs_evt := (rs_evt s)(i := None), rs_dirty := removeAll i (rs_dirty s)\<rparr> in
      if pending_count s i \<le> 0 \<and> rs_last s i = None \<or> \<not> oid_valid (et_base e) i \<or> issue_update_raises e i then s1
      else map_issue (oid_canon (et_base e) i) (count_issue (pending_count s i)
        (hll_estimate e (case rs_hll s i of None \<Rightarrow> [] | Some us \<Rightarrow> us)) (rs_last s i)) s1)"

lemma flush_issue_run: "\<exists>n. flush_issue e i s = (Inr n, flush_one e i s)"
  by (auto simp: flush_issue_def flush_one_def pending_count_def bindP_def gets_def modify_def return_def Let_def)

lemma flush_fold_run:
  "\<exists>n. foldP (\<lambda>i touched. bindP (flush_issue e i) (\<lambda>n. return (touched + n))) ids k s = (Inr n, fold (flush_one e) ids s)"
proof (induction ids arbitrary: k s)
  case (Cons i ids)
  obtain n where "flush_issue e i s = (Inr n, flush_one e i s)" using flush_issue_run by blast
  with Cons.IH [of "k + n" "flush_one e i s"] show ?case by (simp add: bindP_def return_def)
qed (simp add: return_def)

lemma flush_step_fold: "flush_step e s = (if redis_up (et_base e) then fold (flush_one e) (rs_dirty s) s else s)"
  using flush_fold_run [of e "rs_dirty s" 0 s]
  by (auto simp: flush_step_def flush_once_def bindP_def guard_def gets_def return_def raise_def)

lemma coll_get_map_issue:
  assumes "\<And>d. i_id (f d) = i_id d"
  shows "coll_get i_id (w_issues (et_app (map_issue i f s))) j =
    map_option (\<lambda>d. if j = i then f d else d) (coll_get i_id (w_issues (et_app s)) j)"
proof -
  have "find (\<lambda>d. i_id d = j) (map (\<lambda>d. if i_id d = i then f d else d) ds) =
      map_option (\<lambda>d. if j = i then f d else d) (find (\<lambda>d. i_id d = j) ds)" for ds
    using assms by (induction ds) auto
  then show ?thesis by (simp add: map_issue_def coll_get_def)
qed

lemma i_id_count_issue [simp]: "i_id (count_issue d u t i) = i_id i"
  by (simp add: count_issue_def)

lemma known_map_issue:
  assumes "\<And>d. i_id (f d) = i_id d"
  shows "known_issues valid canon (map_issue i f s) = known_issues valid canon s"
proof -
  have "i_id ` set (map (\<lambda>d. if i_id d = i then f d else d) ds) = i_id ` set ds" for ds
    using assms by (induction ds) auto
  then show ?thesis by (simp add: known_issues_def map_issue_def del: set_map)
qed

lemma rs_map_issue [simp]:
  "rs_evt (map_issue i f s) = rs_evt s" "rs_dirty (map_issue i f s) = rs_dirty s" "rs_last (map_issue i f s) = rs_last s"
  "rs_hll (map_issue i f s) = rs_hll s"
  by (simp_all add: map_issue_def)

lemma flush_one_redis:
  "rs_evt (flush_one e i s) = (rs_evt s)(i := None)" "rs_dirty (flush_one e i s) = removeAll i (rs_dirty s)"
  by (simp_all add: flush_one_def Let_def)

lemma flush_one_known: "known_issues valid canon (flush_one e i s) = known_issues valid canon s"
  by (simp add: flush_one_def Let_def known_map_issue) (simp add: known_issues_def)

lemma flush_one_total:
  assumes "counters_ok valid canon s" and "flush_safe valid canon e"
  shows "total_count (flush_one e i s) j = total_count s j"
proof -
  let ?s1 = "s\<lparr>rs_evt := (rs_evt s)(i := None), rs_dirty := removeAll i (rs_dirty s)\<rparr>"
  let ?quiet = "pending_count s i \<le> 0 \<and> rs_last s i = None \<or> \<not> oid_valid (et_base e) i \<or> issue_update_raises e i"
  have pend: "pending_count ?s1 j = (if j = i then 0 else pending_count s j)" by (simp add: pending_count_def)
  have none: "pending_count s i = 0" if "?quiet \<or> oid_canon (et_base e) i \<noteq> i"
    using that assms by (fastforce simp: counters_ok_def flush_safe_def known_issues_def pending_count_def split: option.splits)
  have known: "coll_get i_id (w_issues (et_app s)) i \<noteq> None" if "pending_count s i \<noteq> 0"
  proof -
    have "i \<in> i_id ` set (w_issues (et_app s))"
      using that assms(1) by (auto simp: counters_ok_def known_issues_def pending_count_def split: option.splits)
    then show ?thesis by (auto simp: coll_get_None)
  qed
  show ?thesis
  proof (cases ?quiet)
    case True
    then show ?thesis using none pend by (auto simp: flush_one_def Let_def total_count_def stored_count_def pending_count_def)
  next
    case False
    then have "flush_one e i s = map_issue (oid_canon (et_base e) i) (count_issue (pending_count s i)
        (hll_estimate e (case rs_hll s i of None \<Rightarrow> [] | Some us \<Rightarrow> us)) (rs_last s i)) ?s1"
      by (simp only: flush_one_def Let_def if_False)
    then have total: "total_count (flush_one e i s) j =
        (case coll_get i_id (w_issues (et_app s)) j of None \<Rightarrow> 0
         | Some d \<Rightarrow> if j = oid_canon (et_base e) i then i_event_count d + pending_count s i else i_event_count d) +
        (if j = i then 0 else pending_count s j)"
      by (simp add: total_count_def stored_count_def coll_get_map_issue count_issue_def pending_count_def split: option.splits)
    show ?thesis
    proof (cases "pending_count s i = 0")
      case True
      then show ?thesis unfolding total total_count_def [of s] stored_count_def by (simp split: option.splits)
    next
      case False
      with none have "oid_canon (et_base e) i = i" by blast
      with known [OF False] show ?thesis
        unfolding total total_count_def [of s] stored_count_def by (auto split: option.splits)
    qed
  qed
qed

lemma flush_one_ok: "counters_ok valid canon s \<Longrightarrow> counters_ok valid canon (flush_one e i s)"
  by (auto simp: counters_ok_def flush_one_redis flush_one_known)

lemma flush_fold:
  assumes "counters_ok valid canon s" and "flush_safe valid canon e"
  shows "counters_ok valid canon (fold (flush_one e) ids s) \<and>
    known_issues valid canon (fold (flush_one e) ids s) = known_issues valid canon s \<and>
    total_count (fold (flush_one e) ids s) j = total_count s j \<and>
    rs_dirty (fold (flush_one e) ids s) = filter (\<lambda>i. i \<notin> set ids) (rs_dirty s)"
  using assms(1)
proof (induction ids arbitrary: s)
  case (Cons i ids)
  have "counters_ok valid canon (flush_one e i s)" using Cons.prems by (rule flush_one_ok)
  from Cons.IH [OF this] flush_one_total [OF Cons.prems assms(2)] show ?case
    by (auto simp: flush_one_known flush_one_redis removeAll_filter_not_eq intro!: filter_cong)
qed simp

interpretation counters: event_counter total_count "counters_ok valid canon" "known_issues valid canon" seen_step flush_step
  seen_up "flush_safe valid canon" for valid canon
  by unfold_locales
    (simp_all add: seen_total_count seen_counters_ok seen_known flush_step_fold flush_fold)

text \<open>
  C33. The counters of the tracker implement a plain count: whatever sequence of recordings and
  flushes happens in which no update of the database fails, the total of a known issue (its
  document and what Redis holds for it) grows by exactly the number of recordings that succeeded;
  and once a flush has run with Redis up, the document alone holds that total. A flush clears Redis
  before it writes, so that a failing update loses what it had read.
\<close>

theorem counters_count_events:
  assumes "counters_ok valid canon s" and "list_all (op_ok (flush_safe valid canon) (known_issues valid canon s)) ops"
    and "flush_safe valid canon e" and "redis_up (et_base e)" and "s' = run_ops seen_step flush_step ops s"
  shows "total_count s' j = total_count s j + int (length (filter (op_adds seen_up j) ops)) \<and>
    stored_count (flush_step e s') j = total_count s j + int (length (filter (op_adds seen_up j) ops))"
proof -
  note run = counters.run_total [OF assms(1,2), of j, folded assms(5)]
  have fl: "rs_dirty (flush_step e s') = []" "counters_ok valid canon (flush_step e s')" "total_count (flush_step e s') j = total_count s' j"
    using flush_fold [OF conjunct1 [OF run] assms(3)] assms(4) by (simp_all add: flush_step_fold)
  then have "pending_count (flush_step e s') j = 0"
    by (auto simp: counters_ok_def pending_count_def split: option.splits)
  with fl(3) run show ?thesis by (simp add: total_count_def)
qed

section \<open>Caps per minute\<close>

text \<open>
  The contract that the rate limiter and the cap on created tasks share: operations that hit one
  window raise its counter, and admit only up to a limit; all others leave it alone.
\<close>

primrec run_steps :: "('x \<Rightarrow> 's \<Rightarrow> bool \<times> 's) \<Rightarrow> 'x list \<Rightarrow> 's \<Rightarrow> bool list" where
  "run_steps step [] s = []"
| "run_steps step (x # xs) s = fst (step x s) # run_steps step xs (snd (step x s))"

definition admitted :: "('x \<Rightarrow> bool) \<Rightarrow> ('x \<Rightarrow> 's \<Rightarrow> bool \<times> 's) \<Rightarrow> 'x list \<Rightarrow> 's \<Rightarrow> nat" where
  "admitted hits step xs s = length (filter (\<lambda>(x, b). hits x \<and> b) (zip xs (run_steps step xs s)))"

locale window_cap =
  fixes step :: "'x \<Rightarrow> 's \<Rightarrow> bool \<times> 's" and hits fits :: "'x \<Rightarrow> bool" and count :: "'s \<Rightarrow> int"
    and ok :: "'s \<Rightarrow> bool" and cap :: int
  assumes ok_step: "ok s \<Longrightarrow> fits x \<Longrightarrow> ok (snd (step x s))"
    and miss: "ok s \<Longrightarrow> \<not> hits x \<Longrightarrow> count (snd (step x s)) = count s"
    and hit: "ok s \<Longrightarrow> hits x \<Longrightarrow> fits x \<Longrightarrow> count s \<le> count (snd (step x s))"
    and admit: "ok s \<Longrightarrow> hits x \<Longrightarrow> fits x \<Longrightarrow> fst (step x s) \<Longrightarrow> count (snd (step x s)) = count s + 1 \<and> count s < cap"
begin

lemma admitted_bound: "ok s \<Longrightarrow> list_all fits xs \<Longrightarrow> int (admitted hits step xs s) \<le> max 0 (cap - count s)"
proof (induction xs arbitrary: s)
  case (Cons x xs)
  let ?s = "snd (step x s)"
  have rest: "int (admitted hits step xs ?s) \<le> max 0 (cap - count ?s)"
    using Cons ok_step by simp
  have "admitted hits step (x # xs) s = of_bool (hits x \<and> fst (step x s)) + admitted hits step xs ?s"
    by (simp add: admitted_def)
  then show ?case
    using rest miss [OF Cons.prems(1), of x] hit [OF Cons.prems(1), of x] admit [OF Cons.prems(1), of x] Cons.prems(2)
    by (cases "hits x") auto
qed (simp add: admitted_def)

end

definition window_count :: "string \<Rightarrow> et_state \<Rightarrow> int" where
  "window_count k s = (case rs_counts s k of None \<Rightarrow> 0 | Some (n, _) \<Rightarrow> n)"

text \<open>A counter of the minute \<open>m\<close> does not expire within it.\<close>

definition window_open :: "string \<Rightarrow> int \<Rightarrow> et_state \<Rightarrow> bool" where
  "window_open k m s = (case rs_counts s k of None \<Rightarrow> True | Some (n, x) \<Rightarrow> 0 \<le> n \<and> (m + 1) * 60000000 \<le> x)"

definition rate_step :: "et_env \<times> error_tracking_config \<Rightarrow> et_state \<Rightarrow> bool \<times> et_state" where
  "rate_step x s = (case rate_check (fst x) (snd x) s of
     (Inr d, s') \<Rightarrow> (rd_allowed d, s') | (Inl _, s') \<Rightarrow> (False, s'))"

definition burst_step :: "et_env \<times> string \<Rightarrow> et_state \<Rightarrow> bool \<times> et_state" where
  "burst_step x s = (case burst_window_ok (fst x) (snd x) s of
     (Inr b, s') \<Rightarrow> (b, s') | (Inl _, s') \<Rightarrow> (False, s'))"

definition rate_hits :: "string \<Rightarrow> et_env \<times> error_tracking_config \<Rightarrow> bool" where
  "rate_hits k x = (rate_key (ec_project_id (snd x)) (now (et_base (fst x))) = k)"

definition rate_fits :: "string \<Rightarrow> int \<Rightarrow> int \<Rightarrow> et_env \<times> error_tracking_config \<Rightarrow> bool" where
  "rate_fits k m cap x = (rate_hits k x \<longrightarrow> minute (now (et_base (fst x))) = m \<and> effective_limit (snd x) \<le> cap)"

definition burst_hits :: "string \<Rightarrow> et_env \<times> string \<Rightarrow> bool" where
  "burst_hits k x = (burst_key (snd x) (now (et_base (fst x))) = k)"

definition burst_fits :: "string \<Rightarrow> int \<Rightarrow> et_env \<times> string \<Rightarrow> bool" where
  "burst_fits k m x = (burst_hits k x \<longrightarrow> minute (now (et_base (fst x))) = m)"

lemma in_minute: "minute t = m \<Longrightarrow> t < (m + 1) * 60000000 \<and> (m + 1) * 60000000 \<le> t + two_minutes"
  by (auto simp: minute_def seconds_def two_minutes_def)

lemma incr_run:
  "incr_expire k t ttl s =
     (let n = (case rs_counts s k of None \<Rightarrow> 0 | Some (n, x) \<Rightarrow> if t < x then n else 0)
      in (Inr (n + 1), s\<lparr>rs_counts := (rs_counts s)(k \<mapsto> (n + 1, t + ttl))\<rparr>))"
  by (simp add: incr_expire_def bindP_def gets_def modify_def return_def Let_def)

lemma incr_window:
  assumes "window_open k m s" and "minute t = m" and "incr_expire k t two_minutes s = (Inr n, s')"
  shows "n = window_count k s + 1" "window_count k s' = n" "window_open k m s'"
  using assms in_minute [OF assms(2)]
  by (auto simp: incr_run Let_def window_count_def window_open_def split: option.splits)

lemma incr_other:
  assumes "k' \<noteq> k" and "incr_expire k' t ttl s = (Inr n, s')"
  shows "window_count k s' = window_count k s" "window_open k m s' = window_open k m s"
  using assms by (auto simp: incr_run Let_def window_count_def window_open_def)

lemma rate_step_run:
  "rate_step (e, c) s =
     (if redis_up (et_base e) then
        let (n, s') = (case incr_expire (rate_key (ec_project_id c) (now (et_base e))) (now (et_base e)) two_minutes s of
              (Inr n, s') \<Rightarrow> (n, s') | (Inl _, s') \<Rightarrow> (0, s'))
        in (n \<le> effective_limit c, s')
      else (False, s))"
  by (simp add: rate_step_def rate_check_def Let_def bindP_def return_def incr_run)

lemma burst_step_run:
  "burst_step (e, pid) s =
     (if redis_up (et_base e) then
        let (n, s') = (case incr_expire (burst_key pid (now (et_base e))) (now (et_base e)) two_minutes s of
              (Inr n, s') \<Rightarrow> (n, s') | (Inl _, s') \<Rightarrow> (0, s'))
        in (n \<le> max_tasks_per_min, s')
      else (False, s))"
  by (simp add: burst_step_def burst_window_ok_def Let_def bindP_def guard_def raise_def return_def incr_run)

text \<open>Both steps, in terms of the counter they hit.\<close>

definition capped_step :: "bool \<Rightarrow> string \<Rightarrow> time \<Rightarrow> int \<Rightarrow> et_state \<Rightarrow> bool \<times> et_state" where
  "capped_step up k t limit s =
     (if up then
        let (n, s') = (case incr_expire k t two_minutes s of (Inr n, s') \<Rightarrow> (n, s') | (Inl _, s') \<Rightarrow> (0, s'))
        in (n \<le> limit, s')
      else (False, s))"

lemma capped_hit:
  assumes "window_open k m s" and "minute t = m" and "capped_step up k t limit s = (b, s')"
  shows "window_open k m s' \<and> window_count k s \<le> window_count k s' \<and>
    (b \<longrightarrow> window_count k s' = window_count k s + 1 \<and> window_count k s < limit)"
proof (cases up)
  case True
  obtain n s1 where i: "incr_expire k t two_minutes s = (Inr n, s1)" by (simp add: incr_run Let_def)
  have "b = (n \<le> limit)" "s' = s1" using assms(3) True by (simp_all add: capped_step_def i)
  with incr_window [OF assms(1,2) i] show ?thesis by auto
next
  case False
  with assms show ?thesis by (simp add: capped_step_def)
qed

lemma capped_miss:
  assumes "k' \<noteq> k" and "capped_step up k' t limit s = (b, s')"
  shows "window_count k s' = window_count k s \<and> window_open k m s' = window_open k m s"
proof (cases up)
  case True
  obtain n s1 where i: "incr_expire k' t two_minutes s = (Inr n, s1)" by (simp add: incr_run Let_def)
  have "s' = s1" using assms(2) True by (simp add: capped_step_def i)
  with incr_other [OF assms(1) i] show ?thesis by simp
next
  case False
  with assms show ?thesis by (simp add: capped_step_def)
qed

lemma rate_step_capped:
  "rate_step x s = capped_step (redis_up (et_base (fst x))) (rate_key (ec_project_id (snd x)) (now (et_base (fst x))))
     (now (et_base (fst x))) (effective_limit (snd x)) s"
  by (cases x) (simp add: rate_step_run capped_step_def)

lemma burst_step_capped:
  "burst_step x s = capped_step (redis_up (et_base (fst x))) (burst_key (snd x) (now (et_base (fst x))))
     (now (et_base (fst x))) max_tasks_per_min s"
  by (cases x) (simp add: burst_step_run capped_step_def)

lemma capped_window:
  assumes "\<And>x s. step x s = capped_step (up x) (key x) (t x) (limit x) s"
  shows "window_cap step (\<lambda>x. key x = k) (\<lambda>x. key x = k \<longrightarrow> minute (t x) = m \<and> limit x \<le> cap)
    (window_count k) (window_open k m) cap"
proof
  fix s x
  assume ok: "window_open k m s"
  obtain b s' where st: "step x s = (b, s')" by (cases "step x s")
  then have eq: "capped_step (up x) (key x) (t x) (limit x) s = (b, s')" by (simp add: assms)
  show "window_open k m (snd (step x s))" if "key x = k \<longrightarrow> minute (t x) = m \<and> limit x \<le> cap"
  proof (cases "key x = k")
    case True
    with that capped_hit [of "key x" m s "t x"] ok eq show ?thesis by (simp add: st)
  next
    case False
    with capped_miss [OF False eq, of m] ok show ?thesis by (simp add: st)
  qed
  show "window_count k (snd (step x s)) = window_count k s" if "key x \<noteq> k"
    using capped_miss [OF that eq] by (simp add: st)
  show "window_count k s \<le> window_count k (snd (step x s))"
    if "key x = k" "key x = k \<longrightarrow> minute (t x) = m \<and> limit x \<le> cap"
    using that capped_hit [of "key x" m s "t x"] ok eq by (simp add: st)
  show "window_count k (snd (step x s)) = window_count k s + 1 \<and> window_count k s < cap"
    if "key x = k" "key x = k \<longrightarrow> minute (t x) = m \<and> limit x \<le> cap" "fst (step x s)"
    using that capped_hit [of "key x" m s "t x"] ok eq by (fastforce simp: st)
qed

interpretation rate_cap: window_cap rate_step "rate_hits k" "rate_fits k m cap" "window_count k" "window_open k m" cap for k m cap
  unfolding rate_hits_def [abs_def] rate_fits_def [abs_def] by (rule capped_window) (rule rate_step_capped)

interpretation burst_cap: window_cap burst_step "burst_hits k" "burst_fits k m" "window_count k" "window_open k m"
  max_tasks_per_min for k m
  using capped_window [where step = burst_step and limit = "\<lambda>_. max_tasks_per_min" and cap = max_tasks_per_min
      and k = k and m = m, OF burst_step_capped]
  by (simp add: burst_hits_def [abs_def] burst_fits_def [abs_def])

text \<open>
  However many requests arrive, from whichever projects and in whichever order, and whether
  Redis answers or not, the rate limiter admits at most the limit of the project in one minute,
  and the burst cap lets at most ten tasks be created per project and minute. A window starts
  without a counter.
\<close>

theorem minute_caps:
  assumes "rs_counts s k = None"
  shows "(list_all (rate_fits k m limit) requests \<longrightarrow> int (admitted (rate_hits k) rate_step requests s) \<le> max 0 limit) \<and>
    (list_all (burst_fits k m) issues \<longrightarrow> admitted (burst_hits k) burst_step issues s \<le> 10)"
proof -
  have "window_open k m s" "window_count k s = 0" using assms by (simp_all add: window_open_def window_count_def)
  then show ?thesis
    using rate_cap.admitted_bound [of k m s limit requests] burst_cap.admitted_bound [of k m s issues]
    by (auto simp: max_tasks_per_min_def)
qed

section \<open>Who reaches the stream\<close>

text \<open>A request that is vouched for: size, credentials and origin are in order for the configuration.\<close>

definition vouched :: "et_env \<Rightarrow> string \<Rightarrow> ingest_request \<Rightarrow> et_state \<Rightarrow> error_tracking_config \<Rightarrow> bool" where
  "vouched e pid r s c \<longleftrightarrow>
     \<not> dsn_overflow pid \<and> find_config (et_configs s) pid = Some c \<and> ec_enabled c \<and>
     (case extract_public_key (rq_sentry_auth r) (rq_query r) of
        None \<Rightarrow> False | Some k \<Rightarrow> k \<noteq> [] \<and> k \<in> set (active_public_keys (now (et_base e)) c)) \<and>
     error_origin_allowed (bad_host e) c (rq_origin r) = Inr True \<and> length (rq_body r) \<le> max_bytes e"

text \<open>A payload in ASCII comes through the decoding as it is.\<close>

lemma utf8_replace_ascii: "list_all (\<lambda>c. code c < 128) s \<Longrightarrow> utf8_replace s = s"
  by (induction s) (simp_all add: utf8_step_def utf8_lead_def)

text \<open>An entry that speaks for the configuration and carries a payload of the request, decoded.\<close>

definition entry_for :: "error_tracking_config \<Rightarrow> ingest_request \<Rightarrow> stream_entry \<Rightarrow> bool" where
  "entry_for c r x \<longleftrightarrow> se_project_id x = ec_project_id c \<and> se_error_project_id x = ec_id c \<and> se_item_type x = ''event'' \<and>
     (\<exists>p. se_payload x = utf8_replace p \<and> length p \<le> length (rq_body r))"

definition ingest_step :: "error_tracking_config \<Rightarrow> ingest_request \<Rightarrow> et_state \<Rightarrow> et_state \<Rightarrow> bool" where
  "ingest_step c r s s' \<longleftrightarrow>
     et_app s' = et_app s \<and> et_configs s' = et_configs s \<and> et_events s' = et_events s \<and> rs_evt s' = rs_evt s \<and>
     rs_last s' = rs_last s \<and> rs_hll s' = rs_hll s \<and> rs_dirty s' = rs_dirty s \<and> rs_group s' = rs_group s \<and>
     rs_pending s' = rs_pending s \<and> (\<forall>x \<in> set (rs_stream s') - set (rs_stream s). entry_for c r (snd x))"

interpretation ingest: frame "ingest_step c r" for c r
  by unfold_locales (auto simp: ingest_step_def)

lemma keeps_liftE: "frame R \<Longrightarrow> keeps R (liftE x)"
  by (cases x) (simp_all add: liftE_def frame.keeps_return frame.keeps_raise)

lemma keeps_foldP: "frame R \<Longrightarrow> (\<And>x b. x \<in> set xs \<Longrightarrow> keeps R (f x b)) \<Longrightarrow> keeps R (foldP f xs b)"
  by (induction xs arbitrary: b) (auto intro!: frame.keeps_return frame.keeps_bindP)

lemma rate_check_quiet: "keeps (ingest_step c r) (rate_check e c')"
  unfolding rate_check_def incr_expire_def Let_def
  by (intro ingest.keeps_intros ingest.keeps_modify) (simp add: ingest_step_def)

lemma enqueue_keeps: "entry_for c r (x\<lparr>se_payload := utf8_replace (se_payload x)\<rparr>) \<Longrightarrow> keeps (ingest_step c r) (enqueue_event e x)"
  unfolding enqueue_event_def Let_def
  by (intro ingest.keeps_intros ingest.keeps_modify) (auto simp: ingest_step_def dest: in_set_dropD)

lemma ingest_item_keeps:
  assumes "length (en_payload item) \<le> length (rq_body r)"
  shows "keeps (ingest_step c r) (ingest_item e c r env item st)"
  unfolding ingest_item_def Let_def
  by (intro ingest.keeps_intros enqueue_keeps) (use assms in \<open>auto simp: entry_for_def\<close>)

lemma payload_in_body:
  assumes "parse_envelope loads body = Inr env" and "item \<in> set (env_items env)"
  shows "length (en_payload item) \<le> length body"
proof -
  have "length (en_payload item) \<le> payload_bytes (env_items env)"
    using assms(2) by (simp add: payload_bytes_def member_le_sum_list)
  then show ?thesis using parsed_bytes [OF assms(1)] by simp
qed

lemma ingest_authed_keeps: "keeps (ingest_step c r) (ingest_authed e c r)"
  unfolding ingest_authed_def
proof (intro ingest.keeps_bindP ingest.keeps_if keeps_liftE rate_check_quiet ingest.keeps_return ingest.frame_axioms)
  fix ok d h
  show "keeps (ingest_step c r)
      (case parse_envelope (orjson_loads e) (rq_body r) of
         Inl (ValueError msg) \<Rightarrow> return (error_response ''invalid_envelope'' msg 400 [] h)
       | Inl x \<Rightarrow> raise x
       | Inr env \<Rightarrow>
           bindP (foldP (ingest_item e c r env) (env_items env) (envelope_event_id env, 0, False)) (\<lambda>(first_event_id, enqueued, saw_attachment).
           if saw_attachment \<and> enqueued = 0
           then return (error_response ''unsupported_item'' ''attachment items are not supported'' 400 [] h)
           else return \<lparr>rp_status = 200,
             rp_body = JObj (case truthy first_event_id of None \<Rightarrow> [] | Some i \<Rightarrow> [(''id'', JStr i)]),
             rp_headers = h\<rparr>))"
  proof (cases "parse_envelope (orjson_loads e) (rq_body r)")
    case (Inl x)
    then show ?thesis by (cases x) (simp_all add: ingest.keeps_return ingest.keeps_raise)
  next
    case (Inr env)
    then show ?thesis
      by (simp only: sum.case)
        (intro ingest.keeps_intros keeps_foldP ingest.frame_axioms ingest_item_keeps payload_in_body)
  qed
qed

text \<open>Without a vouching configuration the handler ends before it touches anything.\<close>

lemma resolve_iff:
  "resolve_error_project t cs pid k = Inr c \<longleftrightarrow>
     find_config cs pid = Some c \<and> ec_enabled c \<and> k \<noteq> [] \<and> k \<in> set (active_public_keys t c)"
  by (auto simp: resolve_error_project_def split: if_splits option.splits)

lemma resolve_status:
  "resolve_error_project t cs pid k = Inl (AuthError err msg status) \<Longrightarrow> status \<in> {401, 403}"
  by (auto simp: resolve_error_project_def split: if_splits option.splits)

lemma vouched_resolve:
  "vouched e pid r s c \<longleftrightarrow> \<not> dsn_overflow pid \<and>
     (\<exists>k. extract_public_key (rq_sentry_auth r) (rq_query r) = Some k \<and>
        resolve_error_project (now (et_base e)) (et_configs s) pid k = Inr c) \<and>
     error_origin_allowed (bad_host e) c (rq_origin r) = Inr True \<and> length (rq_body r) \<le> max_bytes e"
  by (auto simp: vouched_def resolve_iff split: option.splits)

lemma ingest_authed_cases:
  assumes "ingest_authed e c r s = (x, s')"
  shows "case error_origin_allowed (bad_host e) c (rq_origin r) of
      Inl y \<Rightarrow> x = Inl y \<and> s' = s
    | Inr ok \<Rightarrow> (if ok then ingest_step c r s s' else (\<exists>resp. x = Inr resp \<and> rp_status resp = 403) \<and> s' = s)"
proof (cases "error_origin_allowed (bad_host e) c (rq_origin r)")
  case (Inl y)
  with assms show ?thesis by (simp add: ingest_authed_def liftE_def bindP_def raise_def)
next
  case (Inr ok)
  have "ingest_step c r s s'" using ingest_authed_keeps [of c r e] assms unfolding keeps_def by (metis snd_conv)
  moreover have "x = Inr (error_response ''origin_not_allowed'' ''Origin is not in the project allowlist'' 403 [] [(''Vary'', ''Origin'')]) \<and> s' = s"
    if "\<not> ok"
    using assms Inr that by (simp add: ingest_authed_def liftE_def bindP_def return_def)
  ultimately show ?thesis using Inr by (simp add: error_response_def)
qed

text \<open>
  C31. A request changes nothing but rate counters and the stream, and that only if it is vouched
  for: it is not too large, presents an active key of an enabled configuration the URL names, and
  comes from an allowed origin. Every entry it adds names this configuration and carries a part
  of the request body. A request that is not vouched for changes nothing at all and is not
  answered with success.
\<close>

theorem ingest_needs_credentials:
  assumes "envelope_ingest e pid r s = (x, s')"
  shows "(\<exists>c. vouched e pid r s c \<and> ingest_step c r s s') \<or>
    (\<nexists>c. vouched e pid r s c) \<and> s' = s \<and> (\<forall>resp. x = Inr resp \<longrightarrow> rp_status resp \<in> {401, 403, 413})"
proof -
  let ?k = "extract_public_key (rq_sentry_auth r) (rq_query r)"
  have large: ?thesis if "x = Inr (too_large e)" "s' = s"
    using that ingest.refl by (auto simp: too_large_def error_response_def)
  show ?thesis
  proof (cases "(case rq_content_length r of None \<Rightarrow> False
        | Some l \<Rightarrow> (case py_int l of None \<Rightarrow> False | Some n \<Rightarrow> n > int (max_bytes e))) \<or> length (rq_body r) > max_bytes e")
    case True
    then have "x = Inr (too_large e) \<and> s' = s" using assms by (auto simp: envelope_ingest_def return_def split: if_splits)
    with large show ?thesis by blast
  next
    case False
    then have run: "(case ?k of
        None \<Rightarrow> return (error_response ''invalid_dsn'' ''missing sentry_key in header/query'' 401 [] [])
      | Some k \<Rightarrow> (\<lambda>s. if k \<noteq> [] \<and> dsn_overflow pid then (Inl OverflowError, s)
          else case resolve_error_project (now (et_base e)) (et_configs s) pid k of
            Inl (AuthError err msg status) \<Rightarrow> (Inr (error_response err msg status [] []), s)
          | Inr c \<Rightarrow> ingest_authed e c r s)) s = (x, s')"
      and len: "length (rq_body r) \<le> max_bytes e"
      using assms
      by (auto simp: envelope_ingest_def bindP_def gets_def return_def guard_def raise_def
          split: if_splits option.splits sum.splits auth_error.splits)
    show ?thesis
    proof (cases ?k)
      case None
      with run show ?thesis by (auto simp: return_def error_response_def vouched_def)
    next
      case (Some k)
      consider (overflow) "k \<noteq> []" "dsn_overflow pid"
        | (refused) a where "resolve_error_project (now (et_base e)) (et_configs s) pid k = Inl a" "k = [] \<or> \<not> dsn_overflow pid"
        | (found) c where "resolve_error_project (now (et_base e)) (et_configs s) pid k = Inr c" "\<not> dsn_overflow pid"
        by (cases "resolve_error_project (now (et_base e)) (et_configs s) pid k") (auto simp: resolve_iff)
      then show ?thesis
      proof cases
        case overflow
        then show ?thesis using run Some by (auto simp: vouched_def)
      next
        case (refused a)
        then show ?thesis
          using run Some resolve_status by (cases a) (fastforce simp: error_response_def vouched_resolve)
      next
        case (found c)
        with run Some have "ingest_authed e c r s = (x, s')" by simp
        from ingest_authed_cases [OF this] show ?thesis
          using Some found len by (cases "error_origin_allowed (bad_host e) c (rq_origin r)") (auto simp: vouched_resolve split: if_splits)
      qed
    qed
  qed
qed

text \<open>
  While Redis is down, every request that is vouched for is answered with 429 and leaves no
  trace: the limiter fails closed, but as an exceeded limit and never as the 503 its description
  promises.
\<close>

theorem outage_answers_429:
  assumes "\<not> redis_up (et_base e)" and "vouched e pid r s c" and "rq_content_length r = None"
  shows "\<exists>resp. envelope_ingest e pid r s = (Inr resp, s) \<and> rp_status resp = 429"
proof -
  obtain k where k: "extract_public_key (rq_sentry_auth r) (rq_query r) = Some k"
    "resolve_error_project (now (et_base e)) (et_configs s) pid k = Inr c"
    and o': "error_origin_allowed (bad_host e) c (rq_origin r) = Inr True" and len: "length (rq_body r) \<le> max_bytes e"
    and small: "\<not> dsn_overflow pid"
    using assms(2) by (auto simp: vouched_resolve)
  obtain h where h: "cors_headers_for (bad_host e) c (rq_origin r) = Inr h"
    using o' by (cases "truthy (rq_origin r)") (simp_all add: cors_headers_for_def Let_def)
  have limit: "effective_limit c > 0" by (simp add: effective_limit_def Let_def)
  have "envelope_ingest e pid r s = ingest_authed e c r s"
    using k len small assms(3) by (simp add: envelope_ingest_def bindP_def gets_def guard_def return_def)
  also have "\<dots> = (Inr (rate_limited \<lparr>rd_allowed = False, rd_remaining = 0, rd_retry_after_sec = 60, rd_limit = effective_limit c\<rparr> h), s)"
    using o' h assms(1) by (simp add: ingest_authed_def liftE_def bindP_def return_def rate_check_def Let_def)
  finally show ?thesis using limit by (simp add: rate_limited_def Let_def error_response_def)
qed

section \<open>A demonstration tracker\<close>

definition demo_config :: error_tracking_config where
  "demo_config = \<lparr>ec_id = ''c'', ec_project_id = ''p'', ec_numeric_dsn_id = 7, ec_name = ''demo'',
     ec_keys = [\<lparr>dk_public_key = ''k'', dk_secret_key_hash = '''', dk_secret_key_prefix = '''', dk_created_at = 0, dk_expire_at = None\<rparr>],
     ec_allowed_origins = [], ec_allowed_origin_wildcard = True, ec_rate_limit_per_min = 600, ec_max_event_size_kb = 200,
     ec_retention_days = 30, ec_scrub_ip = True, ec_auto_create_task_on_new_issue = True,
     ec_auto_task_priority = Auto_medium, ec_auto_task_assignee_id = None, ec_auto_task_tags = [''error-tracker''],
     ec_enabled = True, ec_created_by = '''', ec_created_at = 0, ec_updated_at = 0\<rparr>"

definition demo_et_env :: et_env where
  "demo_et_env = \<lparr>et_base = plain_env, sha256_hex = (\<lambda>s. s), orjson_loads = (\<lambda>_. Inr (JObj [])), bad_host = (\<lambda>_. None),
     isoformat = (\<lambda>_. ''now''), max_envelope_kb = 1, event_uuid = (\<lambda>_. ''uuid''), xadd_ok = True, stream_trim = (\<lambda>_. 0),
     hll_estimate = (\<lambda>us. int (length us)), counter_raises = False, issue_update_raises = (\<lambda>_. False),
     issue_upsert_error = (\<lambda>_. None), event_insert_error = None, xack_ok = True, worker_batch = 10\<rparr>"

definition demo_et_state :: et_state where
  "demo_et_state = \<lparr>et_app = demo_world, et_configs = [demo_config], et_events = [], rs_counts = (\<lambda>_. None),
     rs_evt = (\<lambda>_. None), rs_last = (\<lambda>_. None), rs_hll = (\<lambda>_. None), rs_dirty = [], rs_stream = [], rs_next_id = 0,
     rs_group = None, rs_pending = []\<rparr>"

definition demo_ingest_request :: ingest_request where
  "demo_ingest_request = \<lparr>rq_origin = None, rq_content_length = None, rq_body = ''{}'', rq_sentry_auth = None,
     rq_query = [(''sentry_key'', ''k'')], rq_cf_connecting_ip = None, rq_x_forwarded_for = None, rq_client_host = None,
     rq_user_agent = None\<rparr>"

lemma demo_vouched: "vouched (demo_et_env\<lparr>et_base := b\<rparr>) ''p'' demo_ingest_request demo_et_state demo_config"
proof -
  have "extract_public_key None [(''sentry_key'', ''k'')] = Some ''k''" by code_simp
  moreover have "\<not> isdigit ''p''"
    by (simp add: isdigit_def utf8_step_def utf8_lead_def code_def decimal_value_def decimal_zeros_def other_digits_def)
  then have "find_config [demo_config] ''p'' = Some demo_config" "\<not> dsn_overflow ''p''"
    by (simp_all add: find_config_def dsn_overflow_def) (simp add: demo_config_def)
  ultimately show ?thesis
    by (simp add: vouched_def demo_ingest_request_def demo_et_state_def error_origin_allowed_def max_bytes_def demo_et_env_def)
      (simp add: demo_config_def active_public_keys_def)
qed

theorem ingest_needs_credentials_witness:
  "\<exists>c. vouched demo_et_env ''p'' demo_ingest_request demo_et_state c \<and>
     ingest_step c demo_ingest_request demo_et_state (snd (envelope_ingest demo_et_env ''p'' demo_ingest_request demo_et_state))"
proof -
  have "vouched demo_et_env ''p'' demo_ingest_request demo_et_state demo_config"
    using demo_vouched [of plain_env] by (simp add: demo_et_env_def)
  then show ?thesis
    using ingest_needs_credentials [OF surjective_pairing, of demo_et_env "''p''" demo_ingest_request demo_et_state] by blast
qed

theorem outage_answers_429_witness:
  "\<exists>resp. envelope_ingest (demo_et_env\<lparr>et_base := plain_env\<lparr>redis_up := False\<rparr>\<rparr>) ''p'' demo_ingest_request demo_et_state =
     (Inr resp, demo_et_state) \<and> rp_status resp = 429"
  by (rule outage_answers_429 [OF _ demo_vouched]) (simp_all add: demo_ingest_request_def)

theorem minute_caps_witness:
  "admitted (burst_hits (burst_key ''p'' 0)) burst_step (replicate 12 (demo_et_env, ''p'')) demo_et_state \<le> 10"
proof -
  have "list_all (burst_fits (burst_key ''p'' 0) 0) (replicate 12 (demo_et_env, ''p''))"
    by (simp add: burst_fits_def demo_et_env_def plain_env_def list_all_length minute_def seconds_def)
  moreover have "rs_counts demo_et_state (burst_key ''p'' 0) = None" by (simp add: demo_et_state_def)
  ultimately show ?thesis using minute_caps [of demo_et_state "burst_key ''p'' 0"] by blast
qed

definition demo_issue :: error_issue where
  "demo_issue = \<lparr>i_id = ''i'', i_project_id = ''p'', i_error_project_id = ''c'', i_fingerprint = ''f'', i_fingerprint_legacy = None,
     i_title = ''Error'', i_culprit = '''', i_level = Error_level, i_platform = JStr ''javascript'', i_status = Unresolved,
     i_resolution = None, i_ignored_until = None, i_first_seen = 0, i_last_seen = 0, i_event_count = 3, i_user_count = 0,
     i_user_count_hll = None, i_release = JNull, i_environment = JNull, i_assignee_id = None, i_linked_task_ids = [],
     i_tags = JObj [], i_created_at = 0, i_updated_at = 0\<rparr>"

definition issue_state :: et_state where
  "issue_state = demo_et_state\<lparr>et_app := demo_world\<lparr>w_issues := [demo_issue]\<rparr>\<rparr>"

theorem counters_count_events_witness:
  "stored_count (flush_step demo_et_env (run_ops seen_step flush_step
     [Seen (demo_et_env, None, 0) ''i'', Seen (demo_et_env, None, 1) ''i''] issue_state)) ''i'' = 5"
proof -
  have "counters_ok (\<lambda>_. True) id issue_state" by (simp add: counters_ok_def issue_state_def demo_et_state_def)
  moreover have "flush_safe (\<lambda>_. True) id demo_et_env" "redis_up (et_base demo_et_env)" "seen_up (demo_et_env, None, t)" for t
    by (simp_all add: flush_safe_def demo_et_env_def plain_env_def seen_up_def)
  moreover have "''i'' \<in> known_issues (\<lambda>_. True) id issue_state" by (simp add: known_issues_def issue_state_def demo_issue_def)
  moreover have "total_count issue_state ''i'' = 3"
    by (simp add: total_count_def stored_count_def pending_count_def issue_state_def demo_issue_def demo_et_state_def coll_get_def)
  ultimately show ?thesis
    using counters_count_events [of "\<lambda>_. True" id issue_state "[Seen (demo_et_env, None, 0) ''i'', Seen (demo_et_env, None, 1) ''i'']"
        demo_et_env _ "''i''"]
    by simp
qed

end
