(* ===== verification/Error_Jobs.thy ===== *)
theory Error_Jobs
  imports Error_Worker Error_Behaviour
begin

text \<open>
  The properties of the jobs of the error tracker: the name of a daily collection gives back its
  day, so that the rotation drops exactly the days behind the longest retention; and the hunt for
  entries left behind ends, whatever the handler does.
\<close>

section \<open>Names of days\<close>

lemma hex_digit_value: "n < 10 \<Longrightarrow> ascii_digit (hex_digit n) \<and> int (code (hex_digit n)) = 48 + int n"
proof -
  have "\<forall>n \<in> set [0..<10]. ascii_digit (hex_digit n) \<and> int (code (hex_digit n)) = 48 + int n" by code_simp
  then show "n < 10 \<Longrightarrow> ascii_digit (hex_digit n) \<and> int (code (hex_digit n)) = 48 + int n" by auto
qed

lemma digits_value_snoc: "digits_value (ds @ [c]) = 10 * digits_value ds + (int (code c) - 48)"
  by (simp add: digits_value_def)

lemma digits_value_dec: "digits_value (dec n) = int n"
proof (induction n rule: dec.induct)
  case (1 n)
  have "10 * int (n div 10) + int (n mod 10) = int n" by presburger
  with 1 show ?case
    by (subst dec.simps) (auto simp: digits_value_snoc hex_digit_value digits_value_def [of "[_]"])
qed

lemma digits_dec: "list_all ascii_digit (dec n)"
proof (induction n rule: dec.induct)
  case (1 n)
  then show ?case by (subst dec.simps) (auto simp: hex_digit_value)
qed

lemma length_dec: "n < 10 \<Longrightarrow> length (dec n) = 1" "10 \<le> n \<Longrightarrow> length (dec n) = Suc (length (dec (n div 10)))"
  by (subst dec.simps, simp)+

lemma pad_dec:
  assumes "n < 100"
  shows "length (pad 2 (dec n)) = 2" and "list_all ascii_digit (pad 2 (dec n))" and "digits_value (pad 2 (dec n)) = int n"
proof -
  have *: "length (dec n) = (if n < 10 then 1 else 2)" using assms by (simp add: length_dec)
  then have "pad 2 (dec n) = (if n < 10 then [CHR ''0''] else []) @ dec n" by (simp add: pad_def numeral_nat)
  then show "length (pad 2 (dec n)) = 2" and "list_all ascii_digit (pad 2 (dec n))" and "digits_value (pad 2 (dec n)) = int n"
    using * digits_dec [of n] digits_value_dec [of n] by (auto simp: digits_value_def ascii_digit_def code_def)
qed

lemma dec_year: "1000 \<le> n \<Longrightarrow> n < 10000 \<Longrightarrow> length (dec n) = 4"
  by (simp add: length_dec)

lemma ymd_ordinal: "1 \<le> n \<Longrightarrow> year_of n \<le> 9999 \<Longrightarrow> 1 \<le> year_of n \<Longrightarrow> date_ordinal (year_of n) (month_of n) (month_day n) = Some n"
  using month_of_bounds [of n "year_of n" "month_of n" "n - days_before_year (year_of n)"] by (auto simp: date_ordinal_def month_day_def)

lemma days_in_month_le: "days_in_month y m \<le> 31" if "1 \<le> m" "m \<le> 12"
  using that by (auto simp: days_in_month_def le_Suc_eq numeral_nat)

definition four_digit_year :: "time \<Rightarrow> bool" where
  "four_digit_year t \<longleftrightarrow> 1000 \<le> year_of (ordinal t) \<and> year_of (ordinal t) \<le> 9999"

lemma four_digit_ordinal: "four_digit_year t \<Longrightarrow> 1 \<le> ordinal t"
  by (rule ccontr) (auto simp: four_digit_year_def year_of_def Let_def split: if_splits)

lemma coll_date_of_name:
  assumes "four_digit_year t"
  shows "coll_date (collection_name_for t) = Some (ordinal t)"
proof -
  define n y m d where "n = ordinal t" and "y = year_of n" and "m = month_of n" and "d = month_day n"
  have n: "1 \<le> n" and y: "1000 \<le> y" "y \<le> 9999"
    using assms four_digit_ordinal [OF assms] by (auto simp: n_def y_def four_digit_year_def)
  have m: "1 \<le> m" "m \<le> 12" and d: "1 \<le> d" "d \<le> 31"
    using month_of_bounds [OF n refl refl refl] days_in_month_le [of m y]
    by (auto simp: y_def m_def d_def month_day_def)
  define ys ms ds where "ys = dec (nat y)" and "ms = pad 2 (dec m)" and "ds = pad 2 (dec (nat d))"
  have parts: "length ys = 4" "length ms = 2" "length ds = 2" "list_all ascii_digit (ys @ ms @ ds)"
    "digits_value ys = y" "digits_value ms = int m" "digits_value ds = d"
    using y m d dec_year [of "nat y"] digits_dec digits_value_dec pad_dec [of m] pad_dec [of "nat d"]
    by (auto simp: ys_def ms_def ds_def)
  have name: "collection_name_for t = coll_prefix @ ys @ ms @ ds"
    by (simp add: collection_name_for_def ymd_def n_def y_def m_def d_def ys_def ms_def ds_def)
  have "is_prefix p (p @ r)" for p r by (induction p) simp_all
  then have "coll_re (collection_name_for t) = Some (ys @ ms @ ds)"
    using parts unfolding name coll_re_def Let_def by simp
  then have "coll_date (collection_name_for t) = date_ordinal y m d"
    using parts by (simp add: coll_date_def)
  then show ?thesis using ymd_ordinal [OF n] y by (simp add: n_def y_def m_def d_def)
qed

section \<open>Rotation\<close>

definition expired :: "int \<Rightarrow> string \<Rightarrow> bool" where
  "expired cutoff name = (case coll_date name of None \<Rightarrow> False | Some d \<Rightarrow> d < cutoff)"

lemma drop_fold:
  "foldP (drop_step cutoff) names acc s =
     (Inr (acc @ filter (expired cutoff) names),
      s\<lparr>et_events := filter (\<lambda>c. \<not> (fst c \<in> set names \<and> expired cutoff (fst c))) (et_events s)\<rparr>)"
proof (induction names arbitrary: acc s)
  case (Cons n names)
  have "drop_step cutoff n acc s =
      (Inr (if expired cutoff n then acc @ [n] else acc), if expired cutoff n then drop_collection n s else s)"
    by (simp add: drop_step_def expired_def bindP_def modify_def return_def split: option.splits)
  moreover have "filter (\<lambda>c. \<not> (fst c \<in> set names \<and> expired cutoff (fst c))) (if expired cutoff n then filter (\<lambda>c. fst c \<noteq> n) es else es) =
      filter (\<lambda>c. \<not> (fst c \<in> set (n # names) \<and> expired cutoff (fst c))) es" for es :: "(string \<times> error_event list) list"
    by (auto intro!: filter_cong)
  from this [of "et_events s"] have "(if expired cutoff n then drop_collection n s else s)
        \<lparr>et_events := filter (\<lambda>c. \<not> (fst c \<in> set names \<and> expired cutoff (fst c))) (et_events (if expired cutoff n then drop_collection n s else s))\<rparr> =
      s\<lparr>et_events := filter (\<lambda>c. \<not> (fst c \<in> set (n # names) \<and> expired cutoff (fst c))) (et_events s)\<rparr>"
    by (cases "expired cutoff n") (simp_all add: drop_collection_def)
  ultimately show ?case
    using Cons.IH by (simp add: bindP_def)
qed (simp add: return_def)

lemma expired_named: "expired cutoff n \<Longrightarrow> coll_re n \<noteq> None"
  by (auto simp: expired_def coll_date_def split: option.splits)

lemma drop_expired_run:
  assumes "cap = (case max_days of None \<Rightarrow> 90 | Some d \<Rightarrow> d)" and "t = (case at of None \<Rightarrow> now (et_base e) | Some t \<Rightarrow> t)"
    and "past = t - longest_retention cap (et_configs s) * day_us" and "min_instant \<le> past" and "past < max_instant"
  shows "drop_expired_event_collections e at max_days s =
    (Inr (filter (expired (ordinal past)) (list_event_collections s)),
     s\<lparr>et_events := filter (\<lambda>c. \<not> expired (ordinal past) (fst c)) (et_events s)\<rparr>)"
proof -
  have "filter (\<lambda>c. \<not> (fst c \<in> set (list_event_collections s) \<and> expired k (fst c))) (et_events s) =
      filter (\<lambda>c. \<not> expired k (fst c)) (et_events s)" for k
    by (intro filter_cong) (auto simp: list_event_collections_def image_iff dest: expired_named)
  then show ?thesis
    using assms by (simp add: drop_expired_event_collections_def bindP_def gets_def guard_def return_def drop_fold Let_def)
qed

lemma longest_fold:
  "m \<le> fold (\<lambda>p m. max m (min (ec_retention_days p) cap)) cs m \<and>
   (c \<in> set cs \<longrightarrow> min (ec_retention_days c) cap \<le> fold (\<lambda>p m. max m (min (ec_retention_days p) cap)) cs m) \<and>
   (m \<le> k \<longrightarrow> cap \<le> k \<longrightarrow> fold (\<lambda>p m. max m (min (ec_retention_days p) cap)) cs m \<le> k)" for m :: int
proof (induction cs arbitrary: m)
  case (Cons p cs)
  show ?case using Cons [of "max m (min (ec_retention_days p) cap)"] by auto
qed simp

lemma longest_covers: "c \<in> set cs \<Longrightarrow> min (ec_retention_days c) cap \<le> longest_retention cap cs"
  using longest_fold [of 0 cap cs c 0] by (auto simp: longest_retention_def Let_def)

lemma longest_capped: "30 \<le> cap \<Longrightarrow> longest_retention cap cs \<le> cap"
  using longest_fold [of 0 cap cs undefined cap] by (auto simp: longest_retention_def Let_def)

lemma ordinal_back: "ordinal (t - k * day_us) = ordinal t - k"
proof -
  have "(t + (- k) * day_us) div day_us = t div day_us - k" by (subst div_mult_self1) (simp_all add: day_us_def)
  then show ?thesis by (simp add: ordinal_def)
qed

text \<open>
  C40. The rotation, run with its default arguments and if it does not fail, drops whole days and
  nothing else. The collection of every instant within the retention of some project, up to 90
  days, stays with all its events; the collections of days more than 90 days ago are gone;
  collections that are not named after a day stay; and the result lists the dropped names in
  ascending order. Instants are those of the years 1000 to 9999.
\<close>

theorem rotation_respects_retention:
  assumes "drop_expired_event_collections e None None s = (Inr dropped, s')" and "t0 = now (et_base e)"
  shows "(\<forall>c \<in> set (et_configs s). \<forall>t. four_digit_year t \<and> t0 - min (ec_retention_days c) 90 * day_us \<le> t \<longrightarrow>
      filter (\<lambda>d. fst d = collection_name_for t) (et_events s') = filter (\<lambda>d. fst d = collection_name_for t) (et_events s)) \<and>
    (\<forall>t. four_digit_year t \<and> ordinal t < ordinal t0 - 90 \<longrightarrow> collection_name_for t \<notin> fst ` set (et_events s')) \<and>
    (\<forall>c \<in> set (et_events s). coll_date (fst c) = None \<longrightarrow> c \<in> set (et_events s')) \<and>
    sorted dropped \<and> set dropped = fst ` (set (et_events s) - set (et_events s')) \<and> s'\<lparr>et_events := et_events s\<rparr> = s"
proof -
  define past where "past = t0 - longest_retention 90 (et_configs s) * day_us"
  define k where "k = ordinal past"
  have "min_instant \<le> past \<and> past < max_instant"
    using assms by (auto simp: drop_expired_event_collections_def bindP_def gets_def guard_def raise_def past_def Let_def split: if_splits)
  then have dropped: "dropped = filter (expired k) (list_event_collections s)"
    and s': "s' = s\<lparr>et_events := filter (\<lambda>c. \<not> expired k (fst c)) (et_events s)\<rparr>"
    using drop_expired_run [of 90 None t0 e None past s] assms by (simp_all add: past_def k_def)
  have k: "k = ordinal t0 - longest_retention 90 (et_configs s)" by (simp add: k_def past_def ordinal_back)
  have day: "expired k (collection_name_for t) \<longleftrightarrow> ordinal t < k" if "four_digit_year t" for t
    using coll_date_of_name [OF that] by (simp add: expired_def)
  have "\<not> expired k (collection_name_for t)"
    if "c \<in> set (et_configs s)" and "four_digit_year t" and "t0 - min (ec_retention_days c) 90 * day_us \<le> t" for c t
  proof -
    have "ordinal t0 - min (ec_retention_days c) 90 \<le> ordinal t"
      using that(3) unfolding ordinal_back [symmetric] by (simp add: ordinal_def day_us_def zdiv_mono1)
    then show ?thesis using longest_covers [OF that(1), of 90] day [OF that(2)] k by simp
  qed
  then have "filter (\<lambda>d. fst d = collection_name_for t) (et_events s') = filter (\<lambda>d. fst d = collection_name_for t) (et_events s)"
    if "c \<in> set (et_configs s)" and "four_digit_year t" and "t0 - min (ec_retention_days c) 90 * day_us \<le> t" for c t
    using that unfolding s' by (auto intro!: filter_cong)
  moreover
  have "expired k (collection_name_for t)" if "four_digit_year t" and "ordinal t < ordinal t0 - 90" for t
    using that day [OF that(1)] longest_capped [of 90 "et_configs s"] k by simp
  then have "collection_name_for t \<notin> fst ` set (et_events s')" if "four_digit_year t" and "ordinal t < ordinal t0 - 90" for t
    using that by (auto simp: s' image_iff)
  moreover have "\<forall>c \<in> set (et_events s). coll_date (fst c) = None \<longrightarrow> c \<in> set (et_events s')"
    by (simp add: s' expired_def)
  moreover have "sorted dropped" unfolding dropped list_event_collections_def by (rule sorted_wrt_filter) simp
  moreover have "set dropped = fst ` (set (et_events s) - set (et_events s'))"
    by (auto simp: dropped list_event_collections_def s' image_iff dest: expired_named)
  moreover have "s'\<lparr>et_events := et_events s\<rparr> = s" by (simp add: s')
  ultimately show ?thesis by blast
qed

section \<open>Entries left behind\<close>

definition same_queue :: "et_state \<Rightarrow> et_state \<Rightarrow> bool" where
  "same_queue s s' \<longleftrightarrow> rs_pending s' = rs_pending s \<and> rs_stream s' = rs_stream s \<and> rs_group s' = rs_group s \<and>
     rs_next_id s' = rs_next_id s"

interpretation queue: frame same_queue
  by unfold_locales (auto simp: same_queue_def)

lemma queue_modify:
  "(\<And>s. rs_pending (f s) = rs_pending s) \<Longrightarrow> (\<And>s. rs_stream (f s) = rs_stream s) \<Longrightarrow> (\<And>s. rs_group (f s) = rs_group s) \<Longrightarrow>
   (\<And>s. rs_next_id (f s) = rs_next_id s) \<Longrightarrow> keeps same_queue (modify f)"
  by (rule queue.keeps_modify) (simp add: same_queue_def)

lemmas queue_intros = queue.keeps_intros keeps_liftE [OF queue.frame_axioms] queue_modify

lemma handle_same_queue: "keeps same_queue (handle_event_entry e x)"
  unfolding handle_event_entry_def config_get_def upsert_issue_def record_event_seen_def ensure_event_collection_def
    insert_event_def link_new_issue_def issue_get_def create_task_for_new_issue_def burst_window_ok_def incr_expire_def Let_def
  by (intro queue_intros) simp_all

text \<open>Why a handled entry stays pending: its handler failed in the state it ran in, or the acknowledgement.\<close>

definition dispatch_failed :: "(et_env \<Rightarrow> stream_entry \<Rightarrow> (et_state, unit) prog) \<Rightarrow> et_env \<Rightarrow> stream_entry \<Rightarrow> et_state \<Rightarrow> bool" where
  "dispatch_failed handler e x s \<longleftrightarrow> (\<exists>y. fst (handler e x s) = Inl y) \<or> \<not> redis_up (et_base e) \<or> \<not> xack_ok e"

text \<open>The hunt from a cursor and a state hands an entry to the handler, in the state that the entries before it left.\<close>

inductive hands_over ::
  "claim_call \<Rightarrow> (et_env \<Rightarrow> stream_entry \<Rightarrow> (et_state, unit) prog) \<Rightarrow> (nat \<Rightarrow> et_env) \<Rightarrow> (nat \<Rightarrow> et_env) \<Rightarrow>
   nat \<Rightarrow> et_state \<Rightarrow> nat \<times> stream_entry \<Rightarrow> et_state \<Rightarrow> bool"
  for claim handler calls envs where
  here: "claim (calls start) start s = (Inr (nxt, xs @ x # ys), s1) \<Longrightarrow>
    forP xs (\<lambda>x. dispatch (envs (fst x)) handler x) s1 = (Inr (), s0) \<Longrightarrow> hands_over claim handler calls envs start s x s0"
| later: "claim (calls start) start s = (Inr (Some n, cl), s1) \<Longrightarrow> cl \<noteq> [] \<Longrightarrow>
    forP cl (\<lambda>x. dispatch (envs (fst x)) handler x) s1 = (Inr (), s2) \<Longrightarrow> hands_over claim handler calls envs n s2 x s0 \<Longrightarrow>
    hands_over claim handler calls envs start s x s0"

text \<open>The pending list in the order of the identifiers.\<close>

definition pending_sorted :: "et_state \<Rightarrow> bool" where
  "pending_sorted s = sorted_wrt (<) (map fst (rs_pending s))"

lemma split_sorted:
  "sorted_wrt (<) (map fst ps) \<Longrightarrow> ps = filter (\<lambda>p. fst p < k) ps @ filter (\<lambda>p. k \<le> fst p) ps" for k :: nat and ps :: "(nat \<times> time) list"
proof (induction ps)
  case (Cons p ps)
  then have "filter (\<lambda>p. fst p < k) ps = []" if "k \<le> fst p" using that by (force simp: filter_empty_conv)
  then show ?case using Cons by (cases "k \<le> fst p") auto
qed simp

text \<open>An answer splits the pending entries into those before the cursor, the examined ones and the rest.\<close>

lemma claim_answer_split:
  assumes "pending_sorted s" and "claim_answer e start s nxt cl s1"
  obtains lo ex rest where "rs_pending s = lo @ ex @ rest" and "lo = filter (\<lambda>p. fst p < start) (rs_pending s)"
    and "ex @ rest = filter (\<lambda>p. start \<le> fst p) (rs_pending s)" and "ex = [] \<longrightarrow> rest = []"
    and "s1 = s\<lparr>rs_pending := lo @ map (\<lambda>p. if idle_at (now (et_base e)) p then (fst p, now (et_base e)) else p)
      (filter (\<lambda>p. fst p \<in> fst ` set (rs_stream s)) ex) @ rest\<rparr>"
    and "cl = map (\<lambda>p. (fst p, the (map_of (rs_stream s) (fst p))))
      (filter (idle_at (now (et_base e))) (filter (\<lambda>p. fst p \<in> fst ` set (rs_stream s)) ex))"
    and "nxt = (case rest of [] \<Rightarrow> None | p # _ \<Rightarrow> Some (fst p))"
proof -
  let ?from = "filter (\<lambda>p. start \<le> fst p) (rs_pending s)"
  obtain k where k: "?from \<noteq> [] \<longrightarrow> 0 < k"
    "s1 = s\<lparr>rs_pending := filter (\<lambda>p. fst p < start) (rs_pending s) @ map (\<lambda>p. if idle_at (now (et_base e)) p then (fst p, now (et_base e)) else p)
      (filter (\<lambda>p. fst p \<in> fst ` set (rs_stream s)) (take k ?from)) @ drop k ?from\<rparr>"
    "cl = map (\<lambda>p. (fst p, the (map_of (rs_stream s) (fst p))))
      (filter (idle_at (now (et_base e))) (filter (\<lambda>p. fst p \<in> fst ` set (rs_stream s)) (take k ?from)))"
    "nxt = (case drop k ?from of [] \<Rightarrow> None | p # _ \<Rightarrow> Some (fst p))"
    using assms(2) unfolding claim_answer_def Let_def by blast
  show thesis
    by (rule that [OF _ refl _ _ k(2-4)])
      (use split_sorted [of "rs_pending s" start] assms(1) k(1) in \<open>auto simp: pending_sorted_def append_take_drop_id\<close>)
qed

lemma sorted_pieces:
  assumes "sorted_wrt (<) (map fst (lo @ ex @ rest))" and "map fst kept = filter live (map fst ex)"
  shows "sorted_wrt (<) (map fst (lo @ kept @ rest))" and "fst ` set (lo @ kept @ rest) \<subseteq> fst ` set (lo @ ex @ rest)"
    and "p # tail = rest \<Longrightarrow> q \<in> set (lo @ kept) \<Longrightarrow> fst q < fst p"
proof -
  have kept: "fst ` set kept = {i \<in> fst ` set ex. live i}" using arg_cong [OF assms(2), of set] by auto
  show "sorted_wrt (<) (map fst (lo @ kept @ rest))"
    unfolding map_append assms(2) using assms(1) by (auto simp: sorted_wrt_append sorted_wrt_filter ball_Un)
  show "fst ` set (lo @ kept @ rest) \<subseteq> fst ` set (lo @ ex @ rest)" using kept by auto
  show "fst q < fst p" if "p # tail = rest" and "q \<in> set (lo @ kept)"
  proof -
    have "fst q \<in> set (map fst (lo @ ex))" using that(2) kept by auto
    with assms(1) show ?thesis unfolding that(1) [symmetric] by (auto simp: sorted_wrt_append ball_Un)
  qed
qed

lemma kept_ids:
  "map fst (map (\<lambda>p. if idle_at clk p then (fst p, clk) else p) (filter (\<lambda>p. fst p \<in> L) ex)) = filter (\<lambda>i. i \<in> L) (map fst ex)"
  by (induction ex) auto

lemma kept_none:
  "(\<And>p. p \<in> set ex \<Longrightarrow> \<not> Q (fst p)) \<Longrightarrow> filter (\<lambda>p. Q (fst p)) (map (\<lambda>p. if idle_at clk p then (fst p, clk) else p) (filter L ex)) = []"
  by (induction ex) auto

lemma claim_keeps:
  assumes "pending_sorted s" and "claim_answer e start s nxt cl s1"
  shows "pending_sorted s1" and "fst ` set (rs_pending s1) \<subseteq> fst ` set (rs_pending s)" and "s1 = s\<lparr>rs_pending := rs_pending s1\<rparr>"
    and "filter (\<lambda>p. fst p < start) (rs_pending s1) = filter (\<lambda>p. fst p < start) (rs_pending s)"
    and "distinct (map fst cl)" and "\<forall>x \<in> set cl. start \<le> fst x"
proof -
  obtain lo ex rest where *: "rs_pending s = lo @ ex @ rest" "lo = filter (\<lambda>p. fst p < start) (rs_pending s)"
    "ex @ rest = filter (\<lambda>p. start \<le> fst p) (rs_pending s)"
    and s1: "s1 = s\<lparr>rs_pending := lo @ map (\<lambda>p. if idle_at (now (et_base e)) p then (fst p, now (et_base e)) else p)
      (filter (\<lambda>p. fst p \<in> fst ` set (rs_stream s)) ex) @ rest\<rparr>"
    and cl: "cl = map (\<lambda>p. (fst p, the (map_of (rs_stream s) (fst p))))
      (filter (idle_at (now (et_base e))) (filter (\<lambda>p. fst p \<in> fst ` set (rs_stream s)) ex))"
    by (rule claim_answer_split [OF assms])
  note sorted = assms(1) [unfolded pending_sorted_def *(1)]
  show "pending_sorted s1" "fst ` set (rs_pending s1) \<subseteq> fst ` set (rs_pending s)"
    using sorted_pieces(1,2) [OF sorted kept_ids] unfolding pending_sorted_def *(1) s1 by simp_all
  show "s1 = s\<lparr>rs_pending := rs_pending s1\<rparr>" by (simp add: s1)
  have hi: "start \<le> fst p" if "p \<in> set ex \<or> p \<in> set rest" for p
    using that arg_cong [OF *(3), of set] by auto
  have "filter (\<lambda>p. fst p < start) rest = []" using hi by (force simp: filter_empty_conv not_less)
  then have "filter (\<lambda>p. fst p < start) (rs_pending s1) = filter (\<lambda>p. fst p < start) lo"
    using kept_none [of ex "\<lambda>i. i < start"] hi by (simp add: s1 not_less)
  also have "\<dots> = filter (\<lambda>p. fst p < start) (rs_pending s)" unfolding *(2) by simp
  finally show "filter (\<lambda>p. fst p < start) (rs_pending s1) = filter (\<lambda>p. fst p < start) (rs_pending s)" .
  have "distinct (map fst ex)" using sorted by (simp add: sorted_wrt_append strict_sorted_iff)
  then show "distinct (map fst cl)" by (simp add: cl comp_def distinct_map_filter)
  show "\<forall>x \<in> set cl. start \<le> fst x" using hi by (auto simp: cl)
qed

lemma claim_advances:
  assumes "pending_sorted s" and "claim_answer e start s (Some n) cl s1"
  shows "filter (\<lambda>p. n \<le> fst p) (rs_pending s1) = filter (\<lambda>p. n \<le> fst p) (rs_pending s)" and "start \<le> n"
    and "length (filter (\<lambda>p. n \<le> fst p) (rs_pending s)) < length (filter (\<lambda>p. start \<le> fst p) (rs_pending s))"
    and "\<forall>x \<in> set cl. fst x < n"
proof -
  obtain lo ex rest where *: "rs_pending s = lo @ ex @ rest" "ex @ rest = filter (\<lambda>p. start \<le> fst p) (rs_pending s)" "ex = [] \<longrightarrow> rest = []"
    and s1: "s1 = s\<lparr>rs_pending := lo @ map (\<lambda>p. if idle_at (now (et_base e)) p then (fst p, now (et_base e)) else p)
      (filter (\<lambda>p. fst p \<in> fst ` set (rs_stream s)) ex) @ rest\<rparr>"
    and cl: "cl = map (\<lambda>p. (fst p, the (map_of (rs_stream s) (fst p))))
      (filter (idle_at (now (et_base e))) (filter (\<lambda>p. fst p \<in> fst ` set (rs_stream s)) ex))"
    and nxt: "Some n = (case rest of [] \<Rightarrow> None | p # _ \<Rightarrow> Some (fst p))"
    by (rule claim_answer_split [OF assms])
  obtain p tail where rest: "p # tail = rest" "n = fst p" using nxt by (cases rest) auto
  note sorted = assms(1) [unfolded pending_sorted_def *(1)]
  have low: "fst q < n" if "q \<in> set (lo @ ex)" for q
    using sorted that unfolding rest(1) [symmetric] rest(2) by (auto simp: sorted_wrt_append ball_Un)
  have below: "filter (\<lambda>p. n \<le> fst p) ex = []" "filter (\<lambda>p. n \<le> fst p) lo = []" using low by (force simp: filter_empty_conv)+
  have "filter (\<lambda>p. n \<le> fst p) (map (\<lambda>p. if idle_at (now (et_base e)) p then (fst p, now (et_base e)) else p)
      (filter (\<lambda>p. fst p \<in> fst ` set (rs_stream s)) ex)) = []"
    using kept_none [of ex "\<lambda>i. n \<le> i"] low by (simp add: not_le)
  then show "filter (\<lambda>p. n \<le> fst p) (rs_pending s1) = filter (\<lambda>p. n \<le> fst p) (rs_pending s)"
    using below by (simp add: s1 *(1))
  have "length (filter (\<lambda>p. n \<le> fst p) (rs_pending s)) \<le> length rest" using below by (simp add: *(1))
  also have "ex \<noteq> []" using *(3) rest(1) by blast
  then have "length rest < length (ex @ rest)" by simp
  finally show "length (filter (\<lambda>p. n \<le> fst p) (rs_pending s)) < length (filter (\<lambda>p. start \<le> fst p) (rs_pending s))"
    unfolding *(2) .
  have "p \<in> set (ex @ rest)" using rest(1) by auto
  then show "start \<le> n" unfolding *(2) rest(2) by simp
  show "\<forall>x \<in> set cl. fst x < n" using low by (auto simp: cl)
qed

text \<open>All pending entries from the cursor on are still in the stream and idle for long enough.\<close>

definition left_behind :: "(nat \<Rightarrow> et_env) \<Rightarrow> nat \<Rightarrow> et_state \<Rightarrow> bool" where
  "left_behind calls start s \<longleftrightarrow>
     (\<forall>p \<in> set (rs_pending s). start \<le> fst p \<longrightarrow> fst p \<in> fst ` set (rs_stream s) \<and> (\<forall>j. idle_at (now (et_base (calls j))) p))"

lemma claim_takes:
  assumes "pending_sorted s" and "claim_answer (calls start) start s nxt cl s1" and "left_behind calls start s"
    and "p \<in> set (rs_pending s)" and "start \<le> fst p" and "\<forall>n. nxt = Some n \<longrightarrow> fst p < n"
  shows "\<exists>x. map_of (rs_stream s) (fst p) = Some x \<and> (fst p, x) \<in> set cl" and "fst p \<in> fst ` set (rs_pending s1)"
proof -
  obtain lo ex rest where *: "rs_pending s = lo @ ex @ rest" "ex @ rest = filter (\<lambda>p. start \<le> fst p) (rs_pending s)"
    and s1: "s1 = s\<lparr>rs_pending := lo @ map (\<lambda>p. if idle_at (now (et_base (calls start))) p then (fst p, now (et_base (calls start))) else p)
      (filter (\<lambda>p. fst p \<in> fst ` set (rs_stream s)) ex) @ rest\<rparr>"
    and cl: "cl = map (\<lambda>p. (fst p, the (map_of (rs_stream s) (fst p))))
      (filter (idle_at (now (et_base (calls start)))) (filter (\<lambda>p. fst p \<in> fst ` set (rs_stream s)) ex))"
    and nxt: "nxt = (case rest of [] \<Rightarrow> None | p # _ \<Rightarrow> Some (fst p))"
    by (rule claim_answer_split [OF assms(1,2)])
  have "nxt \<noteq> None \<and> the nxt \<le> fst q" if "q \<in> set rest" for q
    using that nxt assms(1) unfolding pending_sorted_def *(1) by (cases rest) (auto simp: sorted_wrt_append less_imp_le)
  then have "p \<notin> set rest" using assms(6) by fastforce
  then have ex: "p \<in> set ex" using arg_cong [OF *(2), of set] assms(4,5) by auto
  have live: "fst p \<in> fst ` set (rs_stream s)" and idle: "idle_at (now (et_base (calls start))) p"
    using assms(3-5) by (simp_all add: left_behind_def)
  obtain x where x: "map_of (rs_stream s) (fst p) = Some x" using live by (metis map_of_eq_None_iff not_Some_eq)
  then have "(fst p, x) \<in> set cl" using ex live idle by (auto simp: cl intro!: image_eqI [of _ _ p])
  then show "\<exists>x. map_of (rs_stream s) (fst p) = Some x \<and> (fst p, x) \<in> set cl" using x by blast
  show "fst p \<in> fst ` set (rs_pending s1)"
  proof -
    have "fst p \<in> set (filter (\<lambda>i. i \<in> fst ` set (rs_stream s)) (map fst ex))" using ex live by simp
    then have "fst p \<in> set (map fst (rs_pending s1))" unfolding kept_ids [of "now (et_base (calls start))", symmetric] s1 by simp
    then show ?thesis by simp
  qed
qed

lemma none_claimed:
  assumes "pending_sorted s" and "claim_answer (calls start) start s nxt [] s1" and "left_behind calls start s"
  shows "\<forall>p \<in> set (rs_pending s). fst p < start"
proof -
  obtain lo ex rest where *: "ex @ rest = filter (\<lambda>p. start \<le> fst p) (rs_pending s)" "ex = [] \<longrightarrow> rest = []"
    and cl: "[] = map (\<lambda>p. (fst p, the (map_of (rs_stream s) (fst p))))
      (filter (idle_at (now (et_base (calls start)))) (filter (\<lambda>p. fst p \<in> fst ` set (rs_stream s)) ex))"
    by (rule claim_answer_split [OF assms(1,2)])
  have "p \<in> set (rs_pending s) \<and> start \<le> fst p" if "p \<in> set ex" for p using that arg_cong [OF *(1), of set] by auto
  then have "filter (idle_at (now (et_base (calls start)))) (filter (\<lambda>p. fst p \<in> fst ` set (rs_stream s)) ex) = ex"
    using assms(3) by (intro filter_True [THEN trans]) (auto simp: left_behind_def)
  then have "filter (\<lambda>p. start \<le> fst p) (rs_pending s) = []" using cl * by auto
  then show ?thesis by (auto simp: filter_empty_conv not_le)
qed

lemma filter_below: "filter (\<lambda>p. fst p < n) ps = filter (\<lambda>p. fst p < n) qs \<Longrightarrow> k \<le> n \<Longrightarrow>
    filter (\<lambda>p. fst p < k) ps = filter (\<lambda>p. fst p < k) qs" for n k :: nat
proof -
  have "filter (\<lambda>p. fst p < k) ps = filter (\<lambda>p. fst p < k) (filter (\<lambda>p. fst p < n) ps)" if "k \<le> n" for ps :: "(nat \<times> 'a) list"
    using that by (auto intro!: filter_cong)
  then show "filter (\<lambda>p. fst p < n) ps = filter (\<lambda>p. fst p < n) qs \<Longrightarrow> k \<le> n \<Longrightarrow> filter (\<lambda>p. fst p < k) ps = filter (\<lambda>p. fst p < k) qs" by metis
qed

section \<open>The hunt\<close>

text \<open>A handler of stream entries touches neither the stream nor the pending list.\<close>

locale stream_handler =
  fixes handler :: "et_env \<Rightarrow> stream_entry \<Rightarrow> (et_state, unit) prog"
  assumes keeps_queue: "keeps same_queue (handler e x)"
begin

lemma dispatch_run:
  "\<exists>s'. dispatch e handler (i, x) s = (Inr (), s') \<and> rs_stream s' = rs_stream s \<and>
     rs_pending s' = filter (\<lambda>p. dispatch_failed handler e x s \<or> fst p \<noteq> i) (rs_pending s)"
proof -
  obtain r s1 where run: "handler e x s = (r, s1)" by fastforce
  have queue: "rs_pending s1 = rs_pending s" "rs_stream s1 = rs_stream s"
    using keeps_queue [of e x] run by (auto simp: keeps_def same_queue_def dest: spec [of _ s])
  show ?thesis
    using run queue
    by (cases r) (auto simp: dispatch_def dispatch_failed_def catchP_def bindP_def return_def whenP_def modify_def case_prod_unfold)
qed

lemma dispatch_all:
  assumes "distinct (map fst cl)"
  shows "\<exists>s' P. forP cl (\<lambda>x. dispatch (envs (fst x)) handler x) s = (Inr (), s') \<and> rs_stream s' = rs_stream s \<and>
     rs_pending s' = filter (\<lambda>p. P (fst p)) (rs_pending s) \<and> (\<forall>i. i \<notin> fst ` set cl \<longrightarrow> P i) \<and>
     (\<forall>(i, x) \<in> set cl. \<exists>xs ys s0. cl = xs @ (i, x) # ys \<and> forP xs (\<lambda>x. dispatch (envs (fst x)) handler x) s = (Inr (), s0) \<and>
        (P i \<longleftrightarrow> dispatch_failed handler (envs i) x s0))"
  using assms
proof (induction cl arbitrary: s)
  case (Cons a cl)
  obtain i x where a: "a = (i, x)" by fastforce
  define b where "b = dispatch_failed handler (envs i) x s"
  obtain s1 where 1: "dispatch (envs i) handler (i, x) s = (Inr (), s1)" "rs_stream s1 = rs_stream s"
    "rs_pending s1 = filter (\<lambda>p. b \<or> fst p \<noteq> i) (rs_pending s)"
    unfolding b_def using dispatch_run by blast
  obtain s2 P where 2: "forP cl (\<lambda>x. dispatch (envs (fst x)) handler x) s1 = (Inr (), s2)" "rs_stream s2 = rs_stream s1"
    "rs_pending s2 = filter (\<lambda>p. P (fst p)) (rs_pending s1)" "\<forall>i. i \<notin> fst ` set cl \<longrightarrow> P i"
    "\<forall>(i, x) \<in> set cl. \<exists>xs ys s0. cl = xs @ (i, x) # ys \<and> forP xs (\<lambda>x. dispatch (envs (fst x)) handler x) s1 = (Inr (), s0) \<and>
        (P i \<longleftrightarrow> dispatch_failed handler (envs i) x s0)"
    using Cons.IH [of s1] Cons.prems by auto
  define Q where "Q j = (P j \<and> (b \<or> j \<noteq> i))" for j
  have pend: "rs_pending s2 = filter (\<lambda>p. Q (fst p)) (rs_pending s)"
    using 1(3) 2(3) by (auto simp: Q_def o_def intro!: filter_cong)
  have out: "\<forall>j. j \<notin> fst ` set (a # cl) \<longrightarrow> Q j" using 2(4) by (auto simp: Q_def a)
  have "\<exists>xs ys s0. a # cl = xs @ (j, y) # ys \<and> forP xs (\<lambda>x. dispatch (envs (fst x)) handler x) s = (Inr (), s0) \<and>
      (Q j \<longleftrightarrow> dispatch_failed handler (envs j) y s0)" if "(j, y) \<in> set (a # cl)" for j y
  proof (cases "(j, y) = a")
    case True
    then have "Q j \<longleftrightarrow> b" using 2(4) Cons.prems by (auto simp: Q_def a)
    then show ?thesis using True by (intro exI [of _ "[]"] exI [of _ cl] exI [of _ s]) (simp add: return_def b_def a)
  next
    case False
    then have mem: "(j, y) \<in> set cl" and "j \<noteq> i" using that Cons.prems by (force simp: a)+
    then have "Q j \<longleftrightarrow> P j" by (simp add: Q_def)
    moreover obtain xs ys s0 where "cl = xs @ (j, y) # ys" "forP xs (\<lambda>x. dispatch (envs (fst x)) handler x) s1 = (Inr (), s0)"
        "P j \<longleftrightarrow> dispatch_failed handler (envs j) y s0"
      using bspec [OF 2(5) mem, unfolded prod.case] by blast
    ultimately show ?thesis
      using 1(1) by (intro exI [of _ "a # xs"] exI [of _ ys] exI [of _ s0]) (simp add: a bindP_def)
  qed
  then show ?case
    using 1(1,2) 2(1,2) pend out by (intro exI [of _ s2] exI [of _ Q]) (auto simp: a bindP_def)
qed (auto simp: return_def o_def intro: exI [of _ "\<lambda>_. True"])

end

text \<open>The server as far as the hunt relies on it: an error changes nothing, a call that reaches it is answered, as documented.\<close>

locale autoclaim =
  fixes claim :: claim_call
  assumes refused: "claim e start s = (Inl x, s') \<Longrightarrow> s' = s"
    and answered: "redis_up (et_base e) \<Longrightarrow> 0 < worker_batch e \<Longrightarrow> \<exists>a s'. claim e start s = (Inr a, s')"
    and documented: "claim e start s = (Inr (nxt, cl), s') \<Longrightarrow> claim_answer e start s nxt cl s'"

locale reclaim = stream_handler handler + autoclaim claim for handler claim
begin

lemma claim_round:
  assumes "pending_sorted s" and "claim (calls start) start s = (Inr (nxt, cl), s1)"
  obtains s2 where "forP cl (\<lambda>x. dispatch (envs (fst x)) handler x) s1 = (Inr (), s2)" and "pending_sorted s2"
    and "rs_stream s2 = rs_stream s" and "fst ` set (rs_pending s2) \<subseteq> fst ` set (rs_pending s)"
    and "filter (\<lambda>p. fst p < start) (rs_pending s2) = filter (\<lambda>p. fst p < start) (rs_pending s)"
    and "\<forall>n. nxt = Some n \<longrightarrow> filter (\<lambda>p. n \<le> fst p) (rs_pending s2) = filter (\<lambda>p. n \<le> fst p) (rs_pending s)"
    and "left_behind calls start s \<longrightarrow> (\<forall>p \<in> set (rs_pending s). start \<le> fst p \<longrightarrow> (\<forall>n. nxt = Some n \<longrightarrow> fst p < n) \<longrightarrow>
      (\<exists>x s0. map_of (rs_stream s) (fst p) = Some x \<and> hands_over claim handler calls envs start s (fst p, x) s0 \<and>
        (fst p \<in> fst ` set (rs_pending s2) \<longleftrightarrow> dispatch_failed handler (envs (fst p)) x s0)))"
proof -
  have answer: "claim_answer (calls start) start s nxt cl s1" by (rule documented [OF assms(2)])
  note s1 = claim_keeps [OF assms(1) answer]
  have stream: "rs_stream s1 = rs_stream s" by (subst s1(3)) simp
  obtain s2 P where run: "forP cl (\<lambda>x. dispatch (envs (fst x)) handler x) s1 = (Inr (), s2)" "rs_stream s2 = rs_stream s1"
    "rs_pending s2 = filter (\<lambda>p. P (fst p)) (rs_pending s1)" "\<forall>i. i \<notin> fst ` set cl \<longrightarrow> P i"
    and each: "\<forall>(i, x) \<in> set cl. \<exists>xs ys s0. cl = xs @ (i, x) # ys \<and> forP xs (\<lambda>x. dispatch (envs (fst x)) handler x) s1 = (Inr (), s0) \<and>
        (P i \<longleftrightarrow> dispatch_failed handler (envs i) x s0)"
    using dispatch_all [OF s1(5), of envs s1] by blast
  have outside: "filter Q (rs_pending s2) = filter Q (rs_pending s1)"
    if that1: "\<And>x. x \<in> set cl \<Longrightarrow> \<not> R (fst x)" and that2: "\<And>p. Q p \<Longrightarrow> R (fst p)" for Q R
  proof -
    have "P (fst p)" if "Q p" for p using run(4) that1 that2 [OF that] by (metis imageE)
    then show ?thesis unfolding run(3) by (auto intro!: filter_cong)
  qed
  show thesis
  proof (rule that [of s2, OF run(1)])
    show "pending_sorted s2" using s1(1) unfolding pending_sorted_def run(3) by (simp add: sorted_wrt_map sorted_wrt_filter)
    show "rs_stream s2 = rs_stream s" using stream run(2) by simp
    show "fst ` set (rs_pending s2) \<subseteq> fst ` set (rs_pending s)" using s1(2) unfolding run(3) by auto
    show "filter (\<lambda>p. fst p < start) (rs_pending s2) = filter (\<lambda>p. fst p < start) (rs_pending s)"
      using outside [of "\<lambda>i. i < start" "\<lambda>p. fst p < start"] s1(4,6) by (force simp: not_less)
    show "\<forall>n. nxt = Some n \<longrightarrow> filter (\<lambda>p. n \<le> fst p) (rs_pending s2) = filter (\<lambda>p. n \<le> fst p) (rs_pending s)"
    proof (intro allI impI)
      fix n assume n: "nxt = Some n"
      note adv = claim_advances [OF assms(1) answer [unfolded n]]
      show "filter (\<lambda>p. n \<le> fst p) (rs_pending s2) = filter (\<lambda>p. n \<le> fst p) (rs_pending s)"
        using outside [of "\<lambda>i. n \<le> i" "\<lambda>p. n \<le> fst p"] adv(1,4) by (force simp: not_le)
    qed
    show "left_behind calls start s \<longrightarrow> (\<forall>p \<in> set (rs_pending s). start \<le> fst p \<longrightarrow> (\<forall>n. nxt = Some n \<longrightarrow> fst p < n) \<longrightarrow>
      (\<exists>x s0. map_of (rs_stream s) (fst p) = Some x \<and> hands_over claim handler calls envs start s (fst p, x) s0 \<and>
        (fst p \<in> fst ` set (rs_pending s2) \<longleftrightarrow> dispatch_failed handler (envs (fst p)) x s0)))"
    proof (intro impI ballI)
      fix p assume *: "left_behind calls start s" "p \<in> set (rs_pending s)" "start \<le> fst p" "\<forall>n. nxt = Some n \<longrightarrow> fst p < n"
      note takes = claim_takes [OF assms(1) answer *]
      obtain x where x: "map_of (rs_stream s) (fst p) = Some x" "(fst p, x) \<in> set cl" using takes(1) by blast
      then obtain xs ys s0 where cl: "cl = xs @ (fst p, x) # ys" and s0: "forP xs (\<lambda>x. dispatch (envs (fst x)) handler x) s1 = (Inr (), s0)"
        "P (fst p) \<longleftrightarrow> dispatch_failed handler (envs (fst p)) x s0"
        using bspec [OF each, of "(fst p, x)", unfolded prod.case] by blast
      have "hands_over claim handler calls envs start s (fst p, x) s0"
        by (rule hands_over.here [where claim = claim and handler = handler and calls = calls and start = start and envs = envs, OF assms(2) [unfolded cl] s0(1)])
      moreover have "fst p \<in> fst ` set (rs_pending s2) \<longleftrightarrow> P (fst p)" using takes(2) unfolding run(3) by auto
      ultimately show "\<exists>x s0. map_of (rs_stream s) (fst p) = Some x \<and> hands_over claim handler calls envs start s (fst p, x) s0 \<and>
          (fst p \<in> fst ` set (rs_pending s2) \<longleftrightarrow> dispatch_failed handler (envs (fst p)) x s0)"
        using x(1) s0(2) by blast
    qed
  qed
qed

text \<open>The loop ends, since the cursor moves past every examined entry.\<close>

lemma loop_ends:
  assumes "pending_sorted s"
  shows "\<exists>r s'. reclaim_loop claim handler calls envs start s = Some (r, s') \<and> rs_stream s' = rs_stream s \<and> pending_sorted s' \<and>
    fst ` set (rs_pending s') \<subseteq> fst ` set (rs_pending s) \<and>
    filter (\<lambda>p. fst p < start) (rs_pending s') = filter (\<lambda>p. fst p < start) (rs_pending s) \<and>
    (left_behind calls start s \<and> (\<forall>i. redis_up (et_base (calls i)) \<and> 0 < worker_batch (calls i)) \<longrightarrow>
      (\<forall>p \<in> set (rs_pending s). start \<le> fst p \<longrightarrow> (\<exists>x s0. map_of (rs_stream s) (fst p) = Some x \<and>
        hands_over claim handler calls envs start s (fst p, x) s0 \<and>
        (fst p \<in> fst ` set (rs_pending s') \<longleftrightarrow> dispatch_failed handler (envs (fst p)) x s0))))"
  using assms
proof (induction "length (filter (\<lambda>p. start \<le> fst p) (rs_pending s))" arbitrary: start s rule: less_induct)
  case less
  obtain r s1 where call: "claim (calls start) start s = (r, s1)" by fastforce
  show ?case
  proof (cases r)
    case (Inl x)
    then have s1: "s1 = s" and down: "\<not> (\<forall>i. redis_up (et_base (calls i)) \<and> 0 < worker_batch (calls i))"
      using call refused [of "calls start" start s x s1] answered [of "calls start" start s] by auto
    have "reclaim_loop claim handler calls envs start s = Some (Inl x, s)" by (subst reclaim_loop.simps) (simp add: call Inl s1)
    then show ?thesis using less.prems down by blast
  next
    case (Inr y)
    obtain nxt cl where y: "y = (nxt, cl)" by fastforce
    note answer = documented [OF call [unfolded Inr y]]
    obtain s2 where s2: "forP cl (\<lambda>x. dispatch (envs (fst x)) handler x) s1 = (Inr (), s2)" "pending_sorted s2"
      "rs_stream s2 = rs_stream s" "fst ` set (rs_pending s2) \<subseteq> fst ` set (rs_pending s)"
      "filter (\<lambda>p. fst p < start) (rs_pending s2) = filter (\<lambda>p. fst p < start) (rs_pending s)"
      and high: "\<forall>n. nxt = Some n \<longrightarrow> filter (\<lambda>p. n \<le> fst p) (rs_pending s2) = filter (\<lambda>p. n \<le> fst p) (rs_pending s)"
      and here: "left_behind calls start s \<longrightarrow> (\<forall>p \<in> set (rs_pending s). start \<le> fst p \<longrightarrow> (\<forall>n. nxt = Some n \<longrightarrow> fst p < n) \<longrightarrow>
        (\<exists>x s0. map_of (rs_stream s) (fst p) = Some x \<and> hands_over claim handler calls envs start s (fst p, x) s0 \<and>
          (fst p \<in> fst ` set (rs_pending s2) \<longleftrightarrow> dispatch_failed handler (envs (fst p)) x s0)))"
      by (rule claim_round [where calls = calls and start = start and envs = envs, OF less.prems call [unfolded Inr y]])
    have loop: "reclaim_loop claim handler calls envs start s =
        (if cl = [] then Some (Inr (), s2) else case nxt of None \<Rightarrow> Some (Inr (), s2) | Some n \<Rightarrow> reclaim_loop claim handler calls envs n s2)"
      using s2(1) by (subst reclaim_loop.simps) (auto simp: call Inr y return_def split: option.splits)
    show ?thesis
    proof (cases "cl = [] \<or> nxt = None")
      case True
      then have "reclaim_loop claim handler calls envs start s = Some (Inr (), s2)" using loop by auto
      moreover have "\<forall>n. nxt = Some n \<longrightarrow> fst p < n" if "left_behind calls start s" "p \<in> set (rs_pending s)" "start \<le> fst p" for p
        using True none_claimed [where calls = calls, OF less.prems _ that(1)] answer that(2,3) by (metis leD option.distinct(1))
      ultimately show ?thesis using s2 here by (intro exI [of _ "Inr ()"] exI [of _ s2]) blast
    next
      case False
      then obtain n where n: "nxt = Some n" "cl \<noteq> []" by auto
      note adv = claim_advances [OF less.prems answer [unfolded n(1)]]
      have shorter: "length (filter (\<lambda>p. n \<le> fst p) (rs_pending s2)) < length (filter (\<lambda>p. start \<le> fst p) (rs_pending s))"
        using high [rule_format, OF n(1)] adv(3) by simp
      obtain r' s' where IH: "reclaim_loop claim handler calls envs n s2 = Some (r', s')" "rs_stream s' = rs_stream s2" "pending_sorted s'"
        "fst ` set (rs_pending s') \<subseteq> fst ` set (rs_pending s2)"
        "filter (\<lambda>p. fst p < n) (rs_pending s') = filter (\<lambda>p. fst p < n) (rs_pending s2)"
        and rest: "left_behind calls n s2 \<and> (\<forall>i. redis_up (et_base (calls i)) \<and> 0 < worker_batch (calls i)) \<longrightarrow>
          (\<forall>p \<in> set (rs_pending s2). n \<le> fst p \<longrightarrow> (\<exists>x s0. map_of (rs_stream s2) (fst p) = Some x \<and>
            hands_over claim handler calls envs n s2 (fst p, x) s0 \<and>
            (fst p \<in> fst ` set (rs_pending s') \<longleftrightarrow> dispatch_failed handler (envs (fst p)) x s0)))"
        using less.hyps [OF shorter s2(2)] by blast
      have "reclaim_loop claim handler calls envs start s = Some (r', s')" using loop n IH(1) by simp
      moreover have "filter (\<lambda>p. fst p < start) (rs_pending s') = filter (\<lambda>p. fst p < start) (rs_pending s)"
        using filter_below [OF IH(5) adv(2)] s2(5) by simp
      moreover have "\<exists>x s0. map_of (rs_stream s) (fst p) = Some x \<and> hands_over claim handler calls envs start s (fst p, x) s0 \<and>
          (fst p \<in> fst ` set (rs_pending s') \<longleftrightarrow> dispatch_failed handler (envs (fst p)) x s0)"
        if all: "left_behind calls start s" "\<forall>i. redis_up (et_base (calls i)) \<and> 0 < worker_batch (calls i)" and p: "p \<in> set (rs_pending s)" "start \<le> fst p" for p
      proof (cases "n \<le> fst p")
        case True
        have same: "p \<in> set (rs_pending s2) \<longleftrightarrow> p \<in> set (rs_pending s)" if "n \<le> fst p" for p
          using that arg_cong [OF high [rule_format, OF n(1)], of set] by auto
        then have "left_behind calls n s2" using all(1) adv(2) s2(3) unfolding left_behind_def by (metis order.trans)
        then show ?thesis
          using rest all(2) True same [OF True] p(1) s2(3) hands_over.later [where claim = claim and handler = handler and calls = calls and start = start and envs = envs, OF call [unfolded Inr y n(1)] n(2) s2(1)] by metis
      next
        case False
        have "fst p \<in> fst ` set (rs_pending s') \<longleftrightarrow> fst p \<in> fst ` set (rs_pending s2)"
          using False arg_cong [OF IH(5), of set] by (force simp: not_le)
        then show ?thesis using here all(1) p False n(1) by simp
      qed
      ultimately show ?thesis using IH(2-4) s2(3,4) by (intro exI [of _ r'] exI [of _ s']) auto
    qed
  qed
qed

end

interpretation pipeline: stream_handler handle_event_entry
  by unfold_locales (rule handle_same_queue)

section \<open>A server\<close>

text \<open>
  A server that behaves as documented: a call examines up to ten times as many entries as the batch
  holds, and stops when it has claimed or forgotten a batch.
\<close>

fun claim_scan :: "time \<Rightarrow> (nat \<Rightarrow> bool) \<Rightarrow> nat \<Rightarrow> nat \<Rightarrow> (nat \<times> time) list \<Rightarrow> nat" where
  "claim_scan clk live (Suc attempts) (Suc n) (p # ps) =
     Suc (claim_scan clk live attempts (if live (fst p) \<and> \<not> idle_at clk p then Suc n else n) ps)"
| "claim_scan clk live attempts n ps = 0"

definition xautoclaim :: claim_call where
  "xautoclaim e start =
     bindP (guard (redis_up (et_base e) \<and> 0 < worker_batch e) RedisError) (\<lambda>_.
     bindP (gets (\<lambda>s. filter (\<lambda>p. start \<le> fst p) (rs_pending s))) (\<lambda>from.
     bindP (gets (\<lambda>s. claim_scan (now (et_base e)) (\<lambda>i. i \<in> fst ` set (rs_stream s)) (10 * worker_batch e) (worker_batch e) from)) (\<lambda>k.
     bindP (gets (\<lambda>s. filter (\<lambda>p. fst p \<in> fst ` set (rs_stream s)) (take k from))) (\<lambda>live.
     bindP (gets (\<lambda>s. map (\<lambda>p. (fst p, the (map_of (rs_stream s) (fst p)))) (filter (idle_at (now (et_base e))) live))) (\<lambda>claimed.
     bindP (modify (\<lambda>s. s\<lparr>rs_pending := filter (\<lambda>p. fst p < start) (rs_pending s) @
       map (\<lambda>p. if idle_at (now (et_base e)) p then (fst p, now (et_base e)) else p) live @ drop k from\<rparr>)) (\<lambda>_.
     return (case drop k from of [] \<Rightarrow> None | p # _ \<Rightarrow> Some (fst p), claimed)))))))"

lemma claim_scan_pos: "0 < a \<Longrightarrow> 0 < n \<Longrightarrow> ps \<noteq> [] \<Longrightarrow> 0 < claim_scan clk live a n ps"
  by (cases a; cases n; cases ps) simp_all

lemma xautoclaim_answer: "xautoclaim e start s = (Inr (nxt, cl), s') \<Longrightarrow> claim_answer e start s nxt cl s'"
  unfolding claim_answer_def Let_def
  by (rule exI [of _ "claim_scan (now (et_base e)) (\<lambda>i. i \<in> fst ` set (rs_stream s)) (10 * worker_batch e) (worker_batch e)
        (filter (\<lambda>p. start \<le> fst p) (rs_pending s))"])
    (auto simp: xautoclaim_def bindP_def guard_def gets_def modify_def return_def raise_def claim_scan_pos split: if_splits)

interpretation server: reclaim handle_event_entry xautoclaim
  by (unfold_locales, simp_all only: xautoclaim_answer)
    (auto simp: xautoclaim_def bindP_def guard_def gets_def modify_def return_def raise_def split: if_splits)

text \<open>
  C36. When the worker starts, its hunt for entries a crashed worker left pending ends, whatever the
  handler, the database and Redis do in between; it adds no pending entry and keeps their order.
  If moreover all pending entries are still in the stream and idle for five minutes, and all calls
  reach Redis with a batch that is not empty, then every one of them is handed to the handler, and
  it is pending afterwards exactly if, in the state it was handled in, the handler failed, or its
  acknowledgement did. The server is assumed to answer \<open>XAUTOCLAIM\<close> as Redis documents it.
\<close>

theorem reclaim_terminates:
  assumes "autoclaim claim" and "pending_sorted s"
  shows "\<exists>s'. reclaim_stale claim handle_event_entry calls envs s = Some s' \<and> rs_stream s' = rs_stream s \<and> pending_sorted s' \<and>
    fst ` set (rs_pending s') \<subseteq> fst ` set (rs_pending s) \<and>
    (left_behind calls 0 s \<and> (\<forall>i. redis_up (et_base (calls i)) \<and> 0 < worker_batch (calls i)) \<longrightarrow>
      (\<forall>i \<in> fst ` set (rs_pending s). \<exists>x s0. map_of (rs_stream s) i = Some x \<and>
        hands_over claim handle_event_entry calls envs 0 s (i, x) s0 \<and>
        (i \<in> fst ` set (rs_pending s') \<longleftrightarrow> dispatch_failed handle_event_entry (envs i) x s0)))"
proof -
  have "reclaim handle_event_entry claim" by (intro reclaim.intro pipeline.stream_handler_axioms assms(1))
  from reclaim.loop_ends [OF this assms(2), of calls envs 0] obtain r s' where
    *: "reclaim_loop claim handle_event_entry calls envs 0 s = Some (r, s')" "rs_stream s' = rs_stream s" "pending_sorted s'"
    "fst ` set (rs_pending s') \<subseteq> fst ` set (rs_pending s)"
    and "left_behind calls 0 s \<and> (\<forall>i. redis_up (et_base (calls i)) \<and> 0 < worker_batch (calls i)) \<longrightarrow>
      (\<forall>p \<in> set (rs_pending s). 0 \<le> fst p \<longrightarrow> (\<exists>x s0. map_of (rs_stream s) (fst p) = Some x \<and>
        hands_over claim handle_event_entry calls envs 0 s (fst p, x) s0 \<and>
        (fst p \<in> fst ` set (rs_pending s') \<longleftrightarrow> dispatch_failed handle_event_entry (envs (fst p)) x s0)))"
    by blast
  then show ?thesis by (intro exI [of _ s']) (simp add: reclaim_stale_def)
qed

text \<open>
  A batch of entries that the stream no longer holds ends the hunt, and what lies behind stays
  pending: here the entry 2, which is in the stream and idle.
\<close>

definition demo_entry :: stream_entry where
  "demo_entry = \<lparr>se_project_id = ''p'', se_error_project_id = ''c'', se_event_id = ''e'', se_item_type = ''session'',
     se_received_at = '''', se_payload = ''{}'', se_client_ip = None, se_user_agent = None\<rparr>"

definition later_env :: et_env where
  "later_env = demo_et_env\<lparr>et_base := plain_env\<lparr>now := 600000000\<rparr>, worker_batch := 1\<rparr>"

definition behind_state :: "nat list \<Rightarrow> et_state" where
  "behind_state ids = demo_et_state\<lparr>rs_stream := [(2, demo_entry)], rs_next_id := 3, rs_group := Some 3, rs_pending := map (\<lambda>i. (i, 0)) ids\<rparr>"

lemma trimmed_batch_stops_reclaim:
  "map_option rs_pending (reclaim_stale xautoclaim handle_event_entry (\<lambda>_. later_env) (\<lambda>_. later_env) (behind_state [1, 2])) = Some [(2, 0)]"
  by (simp add: reclaim_stale_def reclaim_loop.simps xautoclaim_def bindP_def guard_def gets_def modify_def return_def
      later_env_def behind_state_def demo_et_env_def plain_env_def demo_et_state_def numeral_eq_Suc idle_at_def claim_min_idle_def)

section \<open>The theorems at work\<close>

definition rotation_state :: et_state where
  "rotation_state = demo_et_state\<lparr>et_events := [(''error_events_19691231'', []), (''other'', []), (''error_events_19690801'', [])]\<rparr>"

theorem rotation_respects_retention_witness:
  "\<exists>dropped s'. drop_expired_event_collections demo_et_env None None rotation_state = (Inr dropped, s') \<and>
     sorted dropped \<and> (''other'', []) \<in> set (et_events s') \<and> collection_name_for (- 100 * day_us) \<notin> fst ` set (et_events s')"
proof -
  have "fst (drop_expired_event_collections demo_et_env None None rotation_state) = Inr [''error_events_19690801'']" by code_simp
  then obtain s' where run: "drop_expired_event_collections demo_et_env None None rotation_state = (Inr [''error_events_19690801''], s')"
    by (metis fst_conv surj_pair)
  have "four_digit_year (- 100 * day_us) \<and> ordinal (- 100 * day_us) < ordinal (now (et_base demo_et_env)) - 90" by code_simp
  moreover have "(''other'', []) \<in> set (et_events rotation_state)" "coll_date ''other'' = None"
    by (simp add: rotation_state_def) code_simp
  ultimately show ?thesis using rotation_respects_retention [OF run refl] run by fastforce
qed

theorem reclaim_terminates_witness:
  "\<exists>s'. reclaim_stale xautoclaim handle_event_entry (\<lambda>_. later_env) (\<lambda>_. later_env) (behind_state [2]) = Some s' \<and> rs_pending s' = []"
proof -
  have "pending_sorted (behind_state [2])" by (simp add: pending_sorted_def behind_state_def)
  moreover have "left_behind (\<lambda>_. later_env) 0 (behind_state [2])" "redis_up (et_base later_env) \<and> 0 < worker_batch later_env"
    by (simp_all add: left_behind_def behind_state_def later_env_def plain_env_def idle_at_def claim_min_idle_def)
  moreover have "\<not> dispatch_failed handle_event_entry later_env demo_entry s0" for s0
    by (simp add: dispatch_failed_def handle_event_entry_def demo_entry_def return_def later_env_def plain_env_def demo_et_env_def)
  moreover have "map_of (rs_stream (behind_state [2])) i = Some x \<Longrightarrow> x = demo_entry" for i x
    by (simp add: behind_state_def split: if_splits)
  ultimately obtain s' where "reclaim_stale xautoclaim handle_event_entry (\<lambda>_. later_env) (\<lambda>_. later_env) (behind_state [2]) = Some s'"
    "fst ` set (rs_pending s') \<subseteq> fst ` set (rs_pending (behind_state [2]))"
    "\<forall>i \<in> fst ` set (rs_pending (behind_state [2])). i \<notin> fst ` set (rs_pending s')"
    using reclaim_terminates [OF server.autoclaim_axioms, of "behind_state [2]" "\<lambda>_. later_env" "\<lambda>_. later_env"] by metis
  then show ?thesis by (metis all_not_in_conv image_is_empty set_empty subset_iff)
qed

end
