(* ===== verification/Task_Behaviour.thy ===== *)
theory Task_Behaviour
  imports Task_Safety
begin

text \<open>
  What single task endpoints do: when the completion event is published, what deleting and
  reordering write, and that re-parenting keeps the parent chains
  free of loops. The last section states where the code departs from what its comments and
  neighbours say.
\<close>

section \<open>The completion event\<close>

definition completions :: "world \<Rightarrow> event list" where
  "completions w = filter (\<lambda>v. ev_type v = ''task.completed'') (w_events w)"

definition same_completions :: "world \<Rightarrow> world \<Rightarrow> bool" where
  "same_completions w w' \<longleftrightarrow> completions w' = completions w"

interpretation comp: frame same_completions
  by unfold_locales (simp_all add: same_completions_def)

lemma comp_modify: "(\<And>w. w_events (f w) = w_events w) \<Longrightarrow> keeps same_completions (modify f)"
  by (rule comp.keeps_modify) (simp add: same_completions_def completions_def)

lemma comp_publish: "k \<noteq> ''task.completed'' \<Longrightarrow> keeps same_completions (publish_event e p k d)"
  unfolding publish_event_def by (rule comp.keeps_modify) (simp add: same_completions_def completions_def)

lemma comp_index: "keeps same_completions (index_task e t)" "keeps same_completions (deindex_task e tid)"
  unfolding index_task_def deindex_task_def publish_note_def
  by (intro comp.keeps_intros comp_modify; simp)+

lemma comp_linked: "keeps same_completions (resolve_linked_issues e tid)" "keeps same_completions (ignore_linked_issues e tid)"
  unfolding resolve_linked_issues_def ignore_linked_issues_def set_linked_issues_def
  by (intro comp.keeps_intros comp_modify; simp)+

lemma comp_save: "keeps same_completions (save_updated e t)"
  unfolding save_updated_def by (intro comp.keeps_intros comp_modify) simp

lemma comp_save_all: "keeps same_completions (save_all e ts)"
  by (induction ts) (auto intro: comp.keeps_intros comp_save)

lemma comp_gather: "keeps same_completions (gather_saves e ts)"
  by (induction ts) (auto intro: comp.keeps_intros comp_save)

lemma comp_batch: "keeps same_completions (batch_event e p ids)"
  unfolding batch_event_def by (rule comp_publish) simp

lemma comp_cascade: "keeps same_completions (cascade_approve_subtasks e root actor)"
  unfolding cascade_approve_subtasks_def by (intro comp.keeps_intros comp_gather comp_index comp_batch)

lemma comp_quiet:
  "keeps same_completions (valid_object_id e x)" "keeps same_completions (check_not_locked p)"
  "keeps same_completions (task_get e x)" "keeps same_completions (project_get e x)"
  "keeps same_completions (query_tasks P)" "keeps same_completions (in_project pid t0)"
  unfolding valid_object_id_def check_not_locked_def task_get_def project_get_def query_tasks_def in_project_def
  by (intro comp.keeps_intros)+

lemma comp_access: "keeps same_completions (check_project_access e pid u)"
  unfolding check_project_access_def by (intro comp.keeps_intros comp_quiet)

lemma comp_editable: "keeps same_completions (get_editable_task e pid tid u)"
  unfolding get_editable_task_def by (intro comp.keeps_intros comp_quiet comp_access)

lemma comp_links: "keeps same_completions (link e s t r b)" "keeps same_completions (unlink e s t r b)"
  "keeps same_completions (list_dependents pid tid)" "keeps same_completions (cleanup_dependents e tid pid b)"
  unfolding link_def unlink_def list_dependents_def cleanup_dependents_def
  by (intro comp.keeps_intros comp_quiet comp_save comp_save_all)+

lemma comp_fetch: "keeps same_completions (fetch_map e pid ids)" "keeps same_completions (load_task e pid tid)"
  unfolding fetch_map_def load_task_def by (intro comp.keeps_intros comp_quiet)+

lemma comp_link_events: "k \<noteq> ''task.completed'' \<Longrightarrow> keeps same_completions (link_events e pid k r s t)"
  unfolding link_events_def by (intro comp.keeps_intros comp_publish) auto

lemma comp_parent: "keeps same_completions (update_parent e a tid b t)"
  unfolding update_parent_def check_new_parent_def by (intro comp.keeps_intros comp_quiet)

lemma comp_context: "keeps same_completions (update_decision_context b t)"
  unfolding update_decision_context_def dumped_context_def
  by (intro comp.keeps_intros)

lemmas comp_intros = comp.keeps_intros comp_index comp_linked comp_save comp_gather comp_batch comp_cascade comp_quiet
  comp_access comp_editable comp_links comp_fetch comp_parent comp_context

text \<open>When a request moves a task into \<open>done\<close>.\<close>

fun completes :: "env \<Rightarrow> world \<Rightarrow> string \<Rightarrow> task_request \<Rightarrow> bool" where
  "completes e w pid (CompleteTask tid _) = (\<exists>t. editable e w pid tid t \<and> t_status t \<noteq> Done)"
| "completes e w pid (UpdateTask tid b) = (\<exists>t. editable e w pid tid t \<and> t_status t \<noteq> Done \<and> ur_status b = Some Done)"
| "completes e w pid _ = False"

lemma comp_route:
  assumes "\<forall>tid b. r \<noteq> UpdateTask tid b" and "\<forall>tid x. r \<noteq> CompleteTask tid x"
  shows "keeps same_completions (route e pid u r)"
proof -
  have "keeps same_completions (list_tasks e pid q u)" "keeps same_completions (create_task e pid c u)"
    "keeps same_completions (get_task e pid tid u)" "keeps same_completions (delete_task e pid tid f u)"
    "keeps same_completions (reopen_task e pid tid u)" "keeps same_completions (archive_task e pid tid u)"
    "keeps same_completions (unarchive_task e pid tid u)" "keeps same_completions (reorder_tasks e pid ids u)"
    "keeps same_completions (batch_update_tasks e pid its u)" "keeps same_completions (add_comment e pid tid x u)"
    "keeps same_completions (delete_comment e pid tid x u)" "keeps same_completions (create_link e pid tid x y u)"
    "keeps same_completions (delete_link e pid tid x y u)" "keeps same_completions (upload_attachment e pid tid g u)"
    "keeps same_completions (delete_attachment e pid tid x u)" for q c tid f ids its x y g
    unfolding list_tasks_def enrich_tasks_meta_def create_task_def task_insert_def get_task_def delete_task_def
      reopen_task_def archive_task_def unarchive_task_def reorder_tasks_def batch_update_tasks_def add_comment_def
      delete_comment_def create_link_def delete_link_def upload_attachment_def delete_attachment_def
    by (intro comp_intros comp_modify comp_publish comp_link_events; simp)+
  then show ?thesis
    using assms by (cases r) (simp_all add: no_content_def comp.keeps_bindP comp.keeps_return)
qed

definition gains :: "nat \<Rightarrow> world \<Rightarrow> world \<Rightarrow> bool" where
  "gains n w w' \<longleftrightarrow> length (completions w') = length (completions w) + n"

lemma gains_same: "gains n w w' \<Longrightarrow> same_completions w' w'' \<Longrightarrow> gains n w w''"
  by (simp add: gains_def same_completions_def)

text \<open>Steps that publish no completion, followed by the rest of the handler.\<close>

lemma wp_comp_then:
  assumes "keeps same_completions m" and "gains n w w1"
    and "\<And>x w2. gains n w w2 \<Longrightarrow> wp (f x) Q (\<lambda>_ _. True) w2"
  shows "wp (bindP m f) Q (\<lambda>_ _. True) w1"
  unfolding wp_bindP using assms gains_same by (intro wp_keeps [OF assms(1)]) auto

lemma wp_completed_then:
  assumes "gains 0 w w1" and "\<And>x w2. gains (if redis_up e \<and> b then 1 else 0) w w2 \<Longrightarrow> wp (f x) Q E w2"
  shows "wp (bindP (whenP b (publish_event e pid ''task.completed'' d)) f) Q E w1"
  using assms by (auto simp: publish_event_def wp_simps gains_def completions_def)

lemma gains_refl: "gains 0 w w"
  by (simp add: gains_def)

lemma wp_gains_return: "gains n w w' \<Longrightarrow> wp (return x) (\<lambda>_. gains n w) E w'"
  by (simp add: wp_simps)

lemma complete_gains:
  "wp (complete_task e pid tid r u) (\<lambda>_. gains (if redis_up e \<and> completes e w pid (CompleteTask tid r) then 1 else 0) w)
    (\<lambda>_ _. True) w"
  unfolding complete_task_def Let_def wp_bindP [of "get_editable_task e pid tid u"]
proof (intro wp_get_editable, unfold prod.case)
  fix p t assume t: "editable e w pid tid t"
  then have c: "completes e w pid (CompleteTask tid r) \<longleftrightarrow> t_status t \<noteq> Done" by (auto simp: editable_def)
  show "wp (bindP (save_updated e x) (\<lambda>t3. bindP (publish_event e pid ''task.updated'' (task_dict t3)) (\<lambda>_.
      bindP (whenP (t_status t \<noteq> Done) (publish_event e pid ''task.completed'' (task_dict t3))) (\<lambda>_.
      bindP (index_task e t3) (\<lambda>_. bindP (resolve_linked_issues e (t_id t3)) (\<lambda>_. return (task_dict t3)))))))
    (\<lambda>_. gains (if redis_up e \<and> completes e w pid (CompleteTask tid r) then 1 else 0) w) (\<lambda>_ _. True) w" for x
    unfolding c
    by (intro wp_comp_then [OF comp_save gains_refl] wp_comp_then [OF comp_publish] wp_completed_then
        wp_comp_then [OF comp_index(1)] wp_comp_then [OF comp_linked(1)] wp_gains_return; simp)
qed simp

lemma update_gains:
  "wp (update_task e pid tid b u) (\<lambda>_. gains (if redis_up e \<and> completes e w pid (UpdateTask tid b) then 1 else 0) w)
    (\<lambda>_ _. True) w"
  unfolding update_task_def editable_preamble Let_def wp_bindP [of "get_editable_task e pid tid u"]
proof (intro wp_get_editable, unfold prod.case)
  fix p t assume t: "editable e w pid tid t"
  then have c: "completes e w pid (UpdateTask tid b) \<longleftrightarrow> t_status t \<noteq> Done \<and> ur_status b = Some Done"
    by (auto simp: editable_def)
  have casc: "keeps same_completions (whenP x (bindP (cascade_approve_subtasks e i a) (\<lambda>_. return ())))" for x i a
    by (intro comp_intros)
  show "wp (bindP (update_parent e (u_id u) tid b (update_before_parent e (u_id u) b t)) (\<lambda>t1.
      bindP (update_decision_context b (update_tags_type e (u_id u) b t1)) (\<lambda>t2.
      bindP (save_updated e (update_after_context e (u_id u) b t2)) (\<lambda>t3.
      bindP (whenP (ur_approved b = Some True) (bindP (cascade_approve_subtasks e (t_id t3) (u_id u)) (\<lambda>_. return ()))) (\<lambda>_.
      bindP (publish_event e pid ''task.updated'' (task_dict t3)) (\<lambda>_.
      bindP (whenP (t_status t \<noteq> Done \<and> ur_status b = Some Done) (publish_event e pid ''task.completed'' (task_dict t3))) (\<lambda>_.
      bindP (index_task e t3) (\<lambda>_. return (task_dict t3)))))))))
    (\<lambda>_. gains (if redis_up e \<and> completes e w pid (UpdateTask tid b) then 1 else 0) w) (\<lambda>_ _. True) w"
    unfolding c
    by (intro wp_comp_then [OF comp_parent gains_refl] wp_comp_then [OF comp_context] wp_comp_then [OF comp_save]
        wp_comp_then [OF casc] wp_comp_then [OF comp_publish] wp_completed_then
        wp_comp_then [OF comp_index(1)] wp_gains_return; simp)
qed simp

text \<open>
  C11. The completion event marks transitions. A request that succeeds publishes \<open>task.completed\<close>
  exactly once if Redis answers and the request moves a task that was not done into \<open>done\<close> (by the
  complete endpoint or by a status update), and not at all otherwise: completing a task again,
  re-sending the status, or approving a whole subtree fires nothing, and during an outage of Redis
  the event is dropped although the request succeeds.
\<close>

theorem completed_event_iff_transition:
  assumes "route e pid u r w = (Inr x, w')"
  shows "length (completions w') = length (completions w) + (if redis_up e \<and> completes e w pid r then 1 else 0)"
proof (cases "(\<exists>tid b. r = UpdateTask tid b) \<or> (\<exists>tid y. r = CompleteTask tid y)")
  case True
  with assms wp_value [OF update_gains] wp_value [OF complete_gains]
  show ?thesis by (auto simp: gains_def)
next
  case False
  then have "\<not> completes e w pid r" by (cases r) auto
  moreover have "same_completions w w'"
    using comp_route [of r e pid u] False assms by (auto simp: keeps_def dest: spec [of _ w])
  ultimately show ?thesis by (simp add: same_completions_def)
qed

lemma demo_complete_succeeds:
  "\<exists>x w'. route plain_env ''p'' demo_user (CompleteTask ''a'' None) demo_world = (Inr x, w')"
  unfolding wp_succeeds
  by (simp add: complete_task_def get_editable_task_def check_project_access_def in_project_def publish_event_def
      index_task_def publish_note_def resolve_linked_issues_def set_linked_issues_def task_simps wp_simps)

theorem completed_event_iff_transition_witness:
  "\<exists>x w'. route plain_env ''p'' demo_user (CompleteTask ''a'' None) demo_world = (Inr x, w') \<and>
     length (completions w') = Suc (length (completions demo_world))"
proof -
  obtain x w' where r: "route plain_env ''p'' demo_user (CompleteTask ''a'' None) demo_world = (Inr x, w')"
    using demo_complete_succeeds by blast
  have "completes plain_env demo_world ''p'' (CompleteTask ''a'' None)" by (simp add: editable_def)
  with r completed_event_iff_transition [OF r] show ?thesis by auto
qed

section \<open>Deleting a task\<close>

lemma wp_editable_ok:
  assumes "may_access e w pid u p" and "\<not> p_is_locked p" and "editable e w pid tid t" and "wp (f t) Q E w"
  shows "wp (bindP (get_editable_task e pid tid u) (\<lambda>(_, t). f t)) Q E w"
  using assms
  by (auto simp: get_editable_task_def check_project_access_def may_access_def editable_def in_project_def wp_simps)

definition same_content :: "world \<Rightarrow> world \<Rightarrow> bool" where
  "same_content w w' \<longleftrightarrow> w_tasks w' = w_tasks w \<and> w_projects w' = w_projects w \<and> w_users w' = w_users w \<and>
     w_issues w' = w_issues w \<and> w_files w' = w_files w"

lemma wp_save_step: "wp (f (touch (now e) t)) Q E (store_task (touch (now e) t) w) \<Longrightarrow> wp (bindP (save_updated e t) f) Q E w"
  by (simp add: wp_simps)

lemma wp_publish_then:
  "(\<And>w'. same_content w w' \<Longrightarrow> wp (f ()) Q E w') \<Longrightarrow> wp (bindP (publish_event e p k d) f) Q E w"
  by (simp add: publish_event_def wp_simps same_content_def)

lemma wp_deindex_up:
  "redis_up e \<Longrightarrow> (\<And>w'. same_content w w' \<Longrightarrow> Q () w') \<Longrightarrow> wp (deindex_task e tid) Q E w"
  by (simp add: deindex_task_def publish_note_def wp_simps same_content_def)

lemma wp_index_then:
  "redis_up e \<Longrightarrow> (\<And>w'. same_content w w' \<Longrightarrow> wp (f ()) Q E w') \<Longrightarrow> wp (bindP (index_task e t) f) Q E w"
  by (simp add: index_task_def publish_note_def wp_simps same_content_def)

lemma wp_publish_loop:
  "(\<And>w'. same_content w w' \<Longrightarrow> wp (f ()) Q E w') \<Longrightarrow>
   wp (bindP (forP ds (\<lambda>d. publish_event e p k (g d))) f) Q E w"
  unfolding wp_bindP
  by (rule wp_forP [where I = "same_content w"]) (auto simp: publish_event_def wp_simps same_content_def)

definition deletion :: "env \<Rightarrow> string \<Rightarrow> string \<Rightarrow> string \<Rightarrow> task \<Rightarrow> task" where
  "deletion e pid tid b x =
     (if t_id x = tid then touch (now e) (x\<lparr>t_is_deleted := True\<rparr>)
      else if depends_on pid tid x then touch (now e) (purge_blocked_by e tid b x) else x)"

lemma save_deleted:
  assumes "keys_distinct t_id ts" and "t \<in> set ts" "t_id t = tid"
  shows "coll_save t_id (touch (now e) (t\<lparr>t_is_deleted := True\<rparr>))
      (map (\<lambda>x. if depends_on pid tid x then touch (now e) (purge_blocked_by e tid b x) else x) ts) =
    map (deletion e pid tid b) ts"
proof -
  have "x = t" if "x \<in> set ts" "t_id x = tid" for x
    using keys_distinct_eq [OF assms(1) that(1) assms(2)] assms(3) that(2) by simp
  moreover have "coll_save t_id (touch (now e) (t\<lparr>t_is_deleted := True\<rparr>))
      (map (\<lambda>x. if depends_on pid tid x then touch (now e) (purge_blocked_by e tid b x) else x) ts) =
      map (\<lambda>x. if t_id x = t_id t then touch (now e) (t\<lparr>t_is_deleted := True\<rparr>)
        else if depends_on pid tid x then touch (now e) (purge_blocked_by e tid b x) else x) ts"
    using coll_save_map [OF assms(2), of t_id] by (simp add: task_simps)
  ultimately show ?thesis using assms(3) by (auto simp: deletion_def)
qed

text \<open>
  C12. Deleting a task, for a caller who may edit it, with the identifier written canonically (lower
  case; with another spelling the dependents and the uploads are missed), stored tasks that are in
  order, and Redis up: while some live task of the project is blocked by it, a plain delete fails
  with the list of these tasks and changes nothing; with \<open>force\<close>, or when there is none, it succeeds,
  marks the task deleted, takes its identifier out of every dependent's \<open>blocked_by\<close>, removes its
  uploads (but those the file system does not let go), and leaves every other task alone.
\<close>

theorem delete_task_outcome:
  assumes ok: "tasks_ok e w" and c: "canonical e tid" and up: "redis_up e"
    and acc: "may_access e w pid u p" "\<not> p_is_locked p" "editable e w pid tid t"
  shows "if \<not> force \<and> coll_find (depends_on pid tid) (w_tasks w) \<noteq> []
    then delete_task e pid tid force u w =
      (Inl (http_error 400 ''blocks_dependents''
         ''Task is blocking other tasks; pass ?force=true to purge references and delete anyway.''
         [(''dependents'', JList (map (\<lambda>d. JStr (t_id d)) (coll_find (depends_on pid tid) (w_tasks w))))]), w)
    else \<exists>w'. delete_task e pid tid force u w = (Inr (), w') \<and>
      w_tasks w' = map (deletion e pid tid (u_id u)) (w_tasks w) \<and>
      w_files w' = filter (\<lambda>f. fst f \<noteq> tid \<or> rmtree_leaves e f) (w_files w)"
proof (cases "\<not> force \<and> coll_find (depends_on pid tid) (w_tasks w) \<noteq> []")
  case True
  then show ?thesis
    unfolding if_P [OF True] wp_fails delete_task_def editable_preamble
    by (intro wp_editable_ok [OF acc] wp_dependents_then wp_guard_then) blast+
next
  case False
  have t: "t \<in> set (w_tasks w)" "t_id t = tid" using acc(3) canonical_get [OF c] by (auto simp: editable_def)
  note save = save_deleted [OF tasks_ok_keys [OF ok] t]
  have "wp (delete_task e pid tid force u)
      (\<lambda>_ w'. w_tasks w' = map (deletion e pid tid (u_id u)) (w_tasks w) \<and>
        w_files w' = filter (\<lambda>f. fst f \<noteq> tid \<or> rmtree_leaves e f) (w_files w)) (\<lambda>_ _. False) w"
    unfolding delete_task_def editable_preamble
    by (intro wp_editable_ok [OF acc] wp_dependents_then wp_guard_then wp_delete_cleanup tasks_ok_keys [OF ok]
        wp_save_step wp_modify_then wp_publish_then wp_publish_loop wp_deindex_up up)
      (use False in \<open>auto simp: same_content_def save\<close>)
  with False show ?thesis unfolding wp_total [symmetric] by (auto simp: save)
qed

lemma demo_may_access: "may_access plain_env demo_world ''p'' demo_user demo_project"
  by (simp add: may_access_def)

theorem delete_task_outcome_witness:
  "delete_task plain_env ''p'' ''a'' False demo_user demo_world =
     (Inl (http_error 400 ''blocks_dependents''
        ''Task is blocking other tasks; pass ?force=true to purge references and delete anyway.''
        [(''dependents'', JList [JStr ''b''])]), demo_world) \<and>
   (\<exists>w'. delete_task plain_env ''p'' ''a'' True demo_user demo_world = (Inr (), w') \<and>
      map (\<lambda>t. (t_id t, t_is_deleted t, t_blocked_by t)) (w_tasks w') =
        [(''a'', True, []), (''b'', False, []), (''c'', False, [])])"
proof -
  have t: "editable plain_env demo_world ''p'' ''a'' (demo_task ''a'' [''b''] [])" by (simp add: editable_def)
  have deps: "coll_find (depends_on ''p'' ''a'') demo_tasks = [demo_task ''b'' [] [''a'']]"
    by (simp add: coll_find_def demo_tasks_def depends_on_def)
  note outcome = delete_task_outcome [OF demo_tasks_ok plain_env_canonical _ demo_may_access _ t]
  from outcome [of False] have "delete_task plain_env ''p'' ''a'' False demo_user demo_world =
     (Inl (http_error 400 ''blocks_dependents''
        ''Task is blocking other tasks; pass ?force=true to purge references and delete anyway.''
        [(''dependents'', JList [JStr ''b''])]), demo_world)" by (simp add: deps)
  moreover from outcome [of True] obtain w'
    where "delete_task plain_env ''p'' ''a'' True demo_user demo_world = (Inr (), w')"
      "w_tasks w' = map (deletion plain_env ''p'' ''a'' ''u'') demo_tasks" by auto
  moreover have "map (\<lambda>t. (t_id t, t_is_deleted t, t_blocked_by t)) (map (deletion plain_env ''p'' ''a'' ''u'') demo_tasks) =
      [(''a'', True, []), (''b'', False, []), (''c'', False, [])]"
    by (simp add: demo_tasks_def deletion_def depends_on_def task_simps)
  ultimately show ?thesis by auto
qed

section \<open>Re-parenting\<close>

definition parents_inv :: "env \<Rightarrow> task list \<Rightarrow> bool" where
  "parents_inv e ts \<longleftrightarrow> keys_distinct t_id ts \<and> canon_parents e ts \<and> (\<forall>pid. acyclic (parent_edges pid ts))"

definition same_node :: "task \<Rightarrow> task \<Rightarrow> bool" where
  "same_node t t' \<longleftrightarrow> t_id t' = t_id t \<and> t_project_id t' = t_project_id t \<and> t_is_deleted t' = t_is_deleted t"

lemma same_node_refl [simp]: "same_node t t"
  by (simp add: same_node_def)

lemma harmless_same_node: "harmless t t' \<Longrightarrow> same_node t t'"
  by (simp add: harmless_def same_links_def same_node_def)

text \<open>What a new parent of \<open>t\<close> has to satisfy.\<close>

definition parent_change :: "env \<Rightarrow> task list \<Rightarrow> task \<Rightarrow> string option \<Rightarrow> bool" where
  "parent_change e ts t q \<longleftrightarrow> q = t_parent_task_id t \<or> q = None \<or>
     (\<exists>p. q = Some p \<and> as_object_id e p = p \<and> has_parent_cycle e (t_project_id t) (t_id t) p ts = None)"

lemma reparent_inv:
  assumes inv: "parents_inv e ts" and t: "t \<in> set ts" and n: "same_node t t'"
    and q: "parent_change e ts t (t_parent_task_id t')"
  shows "parents_inv e (coll_save t_id t' ts)"
proof -
  let ?q = "t_parent_task_id t'" and ?f = "\<lambda>x. if x = t then t' else x"
  have d: "keys_distinct t_id ts" and c: "canon_parents e ts" and a: "acyclic (parent_edges pid ts)" for pid
    using inv by (auto simp: parents_inv_def)
  have save: "coll_save t_id t' ts = map ?f ts"
    using t n keys_distinct_eq [OF d _ t] by (auto simp: coll_save_def same_node_def)
  have "map t_id (map ?f ts) = map t_id ts" using n by (simp add: same_node_def)
  then have "keys_distinct t_id (map ?f ts)" using d unfolding keys_distinct_def by presburger
  moreover have "canon_parents e (map ?f ts)"
    using c q t by (fastforce simp: canon_parents_def all_parents_def parent_change_def)
  moreover have "acyclic (parent_edges pid (map ?f ts))" for pid
  proof -
    have sub: "parent_edges pid (map ?f ts) \<subseteq> parent_edges pid ts \<union>
        {(t_id t, p) | p. pid = t_project_id t \<and> ?q = Some p \<and> ?q \<noteq> t_parent_task_id t}"
      using t n by (auto simp: parent_edges_def same_node_def split: if_splits)
    show ?thesis
    proof (cases "\<exists>p. pid = t_project_id t \<and> ?q = Some p \<and> ?q \<noteq> t_parent_task_id t")
      case False
      then have "parent_edges pid (map ?f ts) \<subseteq> parent_edges pid ts" using sub by blast
      then show ?thesis by (rule acyclic_subset [OF a])
    next
      case True
      then obtain p where p: "pid = t_project_id t" "?q = Some p" "?q \<noteq> t_parent_task_id t" by blast
      with q have "has_parent_cycle e pid (t_id t) p ts = None" "as_object_id e p = p"
        by (auto simp: parent_change_def)
      then have "(p, t_id t) \<notin> (parent_edges pid ts)\<^sup>*" using has_parent_cycle_None [OF d c] by blast
      with a have "acyclic (insert (t_id t, p) (parent_edges pid ts))" by (simp add: acyclic_insert)
      moreover have "parent_edges pid (map ?f ts) \<subseteq> insert (t_id t, p) (parent_edges pid ts)" using sub p by auto
      ultimately show ?thesis by (rule acyclic_subset)
    qed
  qed
  ultimately show ?thesis by (simp add: parents_inv_def save)
qed

lemma parent_edges_iff:
  "(a, q) \<in> parent_edges pid ts \<longleftrightarrow>
     (\<exists>t \<in> set ts. t_id t = a \<and> t_project_id t = pid \<and> \<not> t_is_deleted t \<and> t_parent_task_id t = Some q)"
  by (auto simp: parent_edges_def)

lemma parents_inv_map:
  assumes "parents_inv e ts" and "\<And>t. same_node t (f t) \<and> t_parent_task_id (f t) = t_parent_task_id t"
  shows "parents_inv e (map f ts)"
proof -
  have "map t_id (map f ts) = map t_id ts" using assms(2) by (simp add: same_node_def)
  then have "keys_distinct t_id (map f ts)" using assms(1) unfolding parents_inv_def keys_distinct_def by presburger
  moreover have "all_parents (map f ts) = all_parents ts" using assms(2) by (simp add: all_parents_def)
  moreover have "x \<in> parent_edges pid (map f ts) \<longleftrightarrow> x \<in> parent_edges pid ts" for x pid
    using assms(2) by (cases x) (simp add: parent_edges_iff same_node_def)
  then have "parent_edges pid (map f ts) = parent_edges pid ts" for pid by blast
  ultimately show ?thesis using assms(1) by (simp add: parents_inv_def canon_parents_def)
qed

definition parents_step :: "env \<Rightarrow> world \<Rightarrow> world \<Rightarrow> bool" where
  "parents_step e w w' \<longleftrightarrow> (parents_inv e (w_tasks w) \<longrightarrow> parents_inv e (w_tasks w'))"

interpretation parents: frame "parents_step e" for e
  by unfold_locales (auto simp: parents_step_def)

lemma quiet_parents: "keeps same_store m \<Longrightarrow> keeps (parents_step e) m"
  by (auto simp: keeps_def parents_step_def same_store_def)

lemma cascade_parents: "keeps (parents_step e) (cascade_approve_subtasks e root a)"
  unfolding keeps_wp
proof
  fix w :: world
  show "wp (cascade_approve_subtasks e root a) (\<lambda>_. parents_step e w) (\<lambda>_. parents_step e w) w"
  proof (cases "parents_inv e (w_tasks w)")
    case True
    then have d: "keys_distinct t_id (w_tasks w)" by (simp add: parents_inv_def)
    show ?thesis
      by (rule wp_cascade [OF d]) (auto simp: parents_step_def same_node_def task_simps intro: parents_inv_map)
  qed (auto intro: wpI simp: parents_step_def)
qed

lemma upd_fields:
  "(\<And>v x. same_node x (f v x) \<and> t_parent_task_id (f v x) = t_parent_task_id x) \<Longrightarrow>
   same_node t u \<and> t_parent_task_id u = q \<Longrightarrow> same_node t (upd y f u) \<and> t_parent_task_id (upd y f u) = q"
  by (auto simp: upd_def same_node_def split: option.split)

lemma update_same_parent:
  "same_node t (update_before_parent e a b t) \<and> t_parent_task_id (update_before_parent e a b t) = t_parent_task_id t"
  "same_node t (update_tags_type e a b t) \<and> t_parent_task_id (update_tags_type e a b t) = t_parent_task_id t"
  "same_node t (update_after_context e a b t) \<and> t_parent_task_id (update_after_context e a b t) = t_parent_task_id t"
  unfolding update_before_parent_def update_tags_type_def update_after_context_def comp_def
  by (intro upd_fields conjI; simp add: same_node_def task_simps set_needs_detail_def set_approved_def Let_def)+

lemma wp_update_parent_node:
  assumes "canonical e tid" and "t_id t = tid" and "\<forall>p. ur_parent_task_id b = Some (Some p) \<longrightarrow> canonical e p"
    and "\<And>t'. same_node t t' \<Longrightarrow> parent_change e (w_tasks w) t (t_parent_task_id t') \<Longrightarrow> Q t' w" and "\<And>x. E x w"
  shows "wp (update_parent e a tid b t) Q E w"
proof -
  let ?t = "\<lambda>q. (record_change ''parent_task_id'' (t_parent_task_id t) q a Human (now e) t)\<lparr>t_parent_task_id := q\<rparr>"
  have node: "same_node t (?t q)" for q by (simp add: same_node_def task_simps)
  have keep: "parent_change e (w_tasks w) t (t_parent_task_id t)" "parent_change e (w_tasks w) t None"
    by (simp_all add: parent_change_def)
  have new: "parent_change e (w_tasks w) t (Some p)"
    if "ur_parent_task_id b = Some (Some p)" "has_parent_cycle e (t_project_id t) tid p (w_tasks w) = None" for p
    using that assms(2,3) canonical_as_object_id by (auto simp: parent_change_def)
  show ?thesis
    unfolding update_parent_def wp_case_option wp_bindP wp_return
    using assms(4,5) node keep new
    by (auto simp: wp_simps intro!: wp_check_new_parent split: option.split)
qed

lemma wp_context_node:
  assumes "\<And>t'. same_node t t' \<Longrightarrow> t_parent_task_id t' = t_parent_task_id t \<Longrightarrow> Q t' w" and "\<And>x. E x w"
  shows "wp (update_decision_context b t) Q E w"
  using assms by (auto simp: update_decision_context_def dumped_context_def wp_simps same_node_def split: option.split)

text \<open>
  C13. Re-parenting keeps the parent chains free of loops, for canonically written identifiers: if in
  every project the \<open>parent_task_id\<close> links of the live tasks are acyclic and all stored parent
  identifiers canonical, they still are after an update of any kind, approved cascades included,
  provided the identifiers of the task and of its new parent are canonical (lower case). With
  another spelling the check is passed by and a loop can result.
\<close>

theorem update_task_keeps_parents_acyclic:
  assumes inv: "parents_inv e (w_tasks w)" and c: "canonical e tid"
    and cp: "\<forall>p. ur_parent_task_id b = Some (Some p) \<longrightarrow> canonical e p"
  shows "parents_inv e (w_tasks (snd (update_task e pid tid b u w)))"
proof -
  have "wp (update_task e pid tid b u) (\<lambda>_. parents_step e w) (\<lambda>_. parents_step e w) w"
    unfolding update_task_def editable_preamble Let_def wp_bindP [of "get_editable_task e pid tid u"]
  proof (intro wp_get_editable parents.refl, unfold prod.case)
    fix p t assume "editable e w pid tid t"
    then have t: "t \<in> set (w_tasks w)" "t_id t = tid" using canonical_get [OF c] by (auto simp: editable_def)
    let ?t0 = "update_before_parent e (u_id u) b t"
    have t0: "same_node t ?t0" "t_parent_task_id ?t0 = t_parent_task_id t" "t_id ?t0 = tid"
      using update_same_parent(1) [of t e "u_id u" b] t(2) by (auto simp: same_node_def)
    show "wp (bindP (update_parent e (u_id u) tid b ?t0) (\<lambda>t1.
        bindP (update_decision_context b (update_tags_type e (u_id u) b t1)) (\<lambda>t2.
        bindP (save_updated e (update_after_context e (u_id u) b t2)) (\<lambda>t3.
        bindP (whenP (ur_approved b = Some True) (bindP (cascade_approve_subtasks e (t_id t3) (u_id u)) (\<lambda>_. return ()))) (\<lambda>_.
        bindP (publish_event e pid ''task.updated'' (task_dict t3)) (\<lambda>_.
        bindP (whenP (t_status t \<noteq> Done \<and> ur_status b = Some Done) (publish_event e pid ''task.completed'' (task_dict t3))) (\<lambda>_.
        bindP (index_task e t3) (\<lambda>_. return (task_dict t3)))))))))
      (\<lambda>_. parents_step e w) (\<lambda>_. parents_step e w) w"
      unfolding wp_bindP [of "update_parent e x tid b y" for x y] wp_bindP [of "update_decision_context b y" for y]
        wp_bindP [of "save_updated e y" for y] wp_save_updated
    proof (intro wp_update_parent_node [OF c t0(3) cp] wp_context_node parents.wp_after parents.refl)
      fix t1 t2
      assume 1: "same_node ?t0 t1" "parent_change e (w_tasks w) ?t0 (t_parent_task_id t1)"
        and 2: "same_node (update_tags_type e (u_id u) b t1) t2"
          "t_parent_task_id t2 = t_parent_task_id (update_tags_type e (u_id u) b t1)"
      let ?t3 = "touch (now e) (update_after_context e (u_id u) b t2)"
      have "same_node t ?t3" "t_parent_task_id ?t3 = t_parent_task_id t1"
        using 1(1) 2 t0 update_same_parent(2,3) by (auto simp: same_node_def task_simps)
      moreover have "parent_change e (w_tasks w) t (t_parent_task_id t1)"
        using 1(2) t0 t(2) by (simp add: parent_change_def same_node_def)
      ultimately have "parents_inv e (coll_save t_id ?t3 (w_tasks w))" using reparent_inv [OF inv t(1)] by simp
      then show "parents_step e w (store_task ?t3 w)" by (simp add: parents_step_def)
    qed (intro parents.keeps_intros cascade_parents quiet_parents quiet_intros)+
  qed
  then show ?thesis using inv by (simp add: wp_snd parents_step_def)
qed

definition no_update :: update_task_request where
  "no_update = \<lparr>ur_title = None, ur_description = None, ur_priority = None, ur_status = None, ur_task_type = None,
     ur_decision_context = None, ur_due_date = None, ur_assignee_id = None, ur_parent_task_id = None, ur_tags = None,
     ur_needs_detail = None, ur_approved = None, ur_completion_report = None, ur_active_form = None\<rparr>"

theorem update_task_keeps_parents_acyclic_witness:
  "parents_inv plain_env (w_tasks (snd (update_task plain_env ''p'' ''a''
     (no_update\<lparr>ur_parent_task_id := Some (Some ''b'')\<rparr>) demo_user demo_world)))"
proof (rule update_task_keeps_parents_acyclic)
  have "parent_edges pid demo_tasks = {}" for pid by (auto simp: parent_edges_iff demo_tasks_def)
  then show "parents_inv plain_env (w_tasks demo_world)"
    by (simp add: parents_inv_def canon_parents_def keys_distinct_def acyclic_def) (simp add: demo_tasks_def)
qed simp_all

section \<open>Where the code departs from its description\<close>

text \<open>
  A task created below a parent of another project (the create endpoint does not check the
  parent) is approved together with that parent, by a caller who has no access to its
  project, and although that project is locked.
\<close>

definition locked_project :: project where
  "locked_project = demo_project\<lparr>p_id := ''q'', p_is_locked := True, p_members := []\<rparr>"

definition cross_world :: world where
  "cross_world = demo_world\<lparr>w_projects := [demo_project, locked_project],
     w_tasks := [demo_task ''r'' [] [], (demo_task ''x'' [] [])\<lparr>t_project_id := ''q'', t_parent_task_id := Some ''r''\<rparr>]\<rparr>"

lemma cross_world_fields [simp]:
  "w_tasks cross_world = [demo_task ''r'' [] [], (demo_task ''x'' [] [])\<lparr>t_project_id := ''q'', t_parent_task_id := Some ''r''\<rparr>]"
  "w_projects cross_world = [demo_project, locked_project]"
  by (simp_all add: cross_world_def)

text \<open>
  A PATCH that approves a task approves a subtask that lies in another project, one that is
  locked and to which the caller has no access.
\<close>

theorem approval_reaches_locked_project:
  "(\<forall>p. \<not> may_access plain_env cross_world ''q'' demo_user p) \<and>
   (\<exists>x w'. update_task plain_env ''p'' ''r'' (no_update\<lparr>ur_approved := Some True\<rparr>) demo_user cross_world = (Inr x, w') \<and>
      map (\<lambda>t. (t_id t, t_project_id t, t_approved t)) (w_tasks w') = [(''r'', ''p'', True), (''x'', ''q'', True)])"
proof
  show "\<forall>p. \<not> may_access plain_env cross_world ''q'' demo_user p"
    by (auto simp: may_access_def coll_get_def locked_project_def has_member_def)
  have "wp (update_task plain_env ''p'' ''r'' (no_update\<lparr>ur_approved := Some True\<rparr>) demo_user)
      (\<lambda>_ w'. map (\<lambda>t. (t_id t, t_project_id t, t_approved t)) (w_tasks w') = [(''r'', ''p'', True), (''x'', ''q'', True)])
      (\<lambda>_ _. False) cross_world"
    by (simp add: update_task_def check_project_access_def in_project_def update_parent_def update_decision_context_def
        cascade_approve_subtasks_def no_update_def update_before_parent_def update_tags_type_def update_after_context_def
        upd_def publish_event_def index_task_def publish_note_def batch_event_def wp_simps coll_get_def
        cascade_walk.simps children_of_def coll_find_def coll_save_def store_tasks_def task_simps set_approved_def Let_def)
  then show "\<exists>x w'. update_task plain_env ''p'' ''r'' (no_update\<lparr>ur_approved := Some True\<rparr>) demo_user cross_world = (Inr x, w') \<and>
      map (\<lambda>t. (t_id t, t_project_id t, t_approved t)) (w_tasks w') = [(''r'', ''p'', True), (''x'', ''q'', True)]"
    by (rule iffD2 [OF wp_total])
qed

text \<open>Reordering does not look at the lock.\<close>

definition lock_world :: world where
  "lock_world = demo_world\<lparr>w_projects := [demo_project\<lparr>p_is_locked := True\<rparr>]\<rparr>"

text \<open>A reorder request succeeds on a locked project and rewrites the sort order of its tasks.\<close>

theorem reorder_ignores_lock:
  "(\<exists>p. may_access plain_env lock_world ''p'' demo_user p \<and> p_is_locked p) \<and>
   (\<exists>x w'. reorder_tasks plain_env ''p'' [''b'', ''a''] demo_user lock_world = (Inr x, w') \<and>
      map t_sort_order (w_tasks w') = [1, 0, 0])"
proof
  have get: "coll_get p_id [demo_project\<lparr>p_is_locked := True\<rparr>] ''p'' = Some (demo_project\<lparr>p_is_locked := True\<rparr>)"
    by (simp add: coll_get_def)
  have member: "has_member (demo_project\<lparr>p_is_locked := True\<rparr>) ''u''" by (simp add: demo_project_def has_member_def)
  with get show "\<exists>p. may_access plain_env lock_world ''p'' demo_user p \<and> p_is_locked p"
    by (simp add: may_access_def lock_world_def)
  from get member have "wp (reorder_tasks plain_env ''p'' [''b'', ''a''] demo_user)
      (\<lambda>_ w'. map t_sort_order (w_tasks w') = [1, 0, 0]) (\<lambda>_ _. False) lock_world"
    by (simp add: reorder_tasks_def check_project_access_def fetch_map_def lock_world_def coll_get_def coll_find_def
        demo_tasks_def enumerate_eq_zip wp_simps coll_save_def)
  then show "\<exists>x w'. reorder_tasks plain_env ''p'' [''b'', ''a''] demo_user lock_world = (Inr x, w') \<and>
      map t_sort_order (w_tasks w') = [1, 0, 0]"
    by (rule iffD2 [OF wp_total])
qed

text \<open>
  The link service compares identifiers as strings, while the lookup accepts any case of the
  hexadecimal digits: a task can be made to block itself by writing its identifier in capitals,
  and the two writes of the same document leave the edge on one side only.
\<close>

definition hex_value :: "char \<Rightarrow> nat option" where
  "hex_value c = (let n = (of_char c :: nat) in
     if 48 \<le> n \<and> n \<le> 57 then Some (n - 48)
     else if 97 \<le> n \<and> n \<le> 102 then Some (n - 87)
     else if 65 \<le> n \<and> n \<le> 70 then Some (n - 55) else None)"

definition bson_env :: env where
  "bson_env = plain_env\<lparr>oid_valid := (\<lambda>s. length s = 24 \<and> list_all (\<lambda>c. hex_value c \<noteq> None) s),
     oid_canon := map (\<lambda>c. case hex_value c of None \<Rightarrow> c | Some n \<Rightarrow> hex_digit n)\<rparr>"

definition lower_id :: string where
  "lower_id = ''0123456789abcdef01234567''"

definition upper_id :: string where
  "upper_id = ''0123456789ABCDEF01234567''"

definition hex_world :: world where
  "hex_world = demo_world\<lparr>w_tasks := [demo_task lower_id [] []]\<rparr>"

lemma hex_ids [simp]:
  "canonical bson_env lower_id" "oid_valid bson_env upper_id" "oid_canon bson_env upper_id = lower_id"
  "lower_id \<noteq> upper_id" "oid_valid bson_env lower_id" "oid_canon bson_env lower_id = lower_id"
  by (simp_all add: canonical_def bson_env_def lower_id_def upper_id_def hex_value_def hex_digit_def)

text \<open>
  From a database in order, \<open>link\<close> called with a task and the same task in capitals succeeds,
  and leaves a database that violates the invariant of the dependency graph.
\<close>

theorem self_link_by_case:
  "tasks_ok bson_env hex_world \<and>
   (\<exists>r w'. link bson_env lower_id upper_id ''blocks'' ''u'' hex_world = (Inr r, w') \<and>
      map (\<lambda>t. (t_id t, t_blocks t, t_blocked_by t)) (w_tasks w') = [(lower_id, [], [lower_id])] \<and>
      \<not> tasks_ok bson_env w')"
proof
  have "blocks_edges pid [demo_task lower_id [] []] = {}" for pid by (auto simp: blocks_edges_iff)
  then show "tasks_ok bson_env hex_world"
    by (simp add: hex_world_def tasks_ok_def links_inv_def keys_distinct_def ids_canonical_def links_sym_def
        no_dangling_def acyclic_links_def acyclic_def task_ok_def)
  have bad: "\<not> tasks_ok bson_env w'" if "map (\<lambda>t. (t_id t, t_blocks t, t_blocked_by t)) (w_tasks w') = [(lower_id, [], [lower_id])]"
    "\<not> t_is_deleted (hd (w_tasks w'))" for w' :: world
    using that links_inv_irrefl [of bson_env "w_tasks w'" "hd (w_tasks w')"] by (auto simp: tasks_ok_def)
  have "wp (link bson_env lower_id upper_id ''blocks'' ''u'')
      (\<lambda>_ w'. map (\<lambda>t. (t_id t, t_blocks t, t_blocked_by t)) (w_tasks w') = [(lower_id, [], [lower_id])] \<and>
        \<not> t_is_deleted (hd (w_tasks w'))) (\<lambda>_ _. False) hex_world"
    by (simp add: link_def wp_simps hex_world_def coll_get_def not_deleted_def has_cycle_def bfs_layers.simps layer_docs_def
        coll_find_def as_object_id_def coll_save_def task_simps)
  then obtain r w' where x: "link bson_env lower_id upper_id ''blocks'' ''u'' hex_world = (Inr r, w')"
      "map (\<lambda>t. (t_id t, t_blocks t, t_blocked_by t)) (w_tasks w') = [(lower_id, [], [lower_id])]"
      "\<not> t_is_deleted (hd (w_tasks w'))"
    unfolding wp_total [symmetric] by (elim exE conjE) (rule that)
  show "\<exists>r w'. link bson_env lower_id upper_id ''blocks'' ''u'' hex_world = (Inr r, w') \<and>
      map (\<lambda>t. (t_id t, t_blocks t, t_blocked_by t)) (w_tasks w') = [(lower_id, [], [lower_id])] \<and>
      \<not> tasks_ok bson_env w'"
    by (intro exI [of _ r] exI [of _ w'] conjI x bad [OF x(2,3)])
qed

text \<open>Creating a task that is already done leaves it without a completion time.\<close>

definition done_request :: create_task_request where
  "done_request = \<lparr>cr_title = ''t'', cr_description = [], cr_priority = Medium, cr_status = Done, cr_task_type = Action,
     cr_decision_context = None, cr_due_date = None, cr_assignee_id = None, cr_parent_task_id = None, cr_tags = []\<rparr>"

theorem created_done_has_no_completion_time:
  "\<exists>x w'. create_task plain_env ''p'' done_request demo_user demo_world = (Inr x, w') \<and>
     (\<exists>t \<in> set (w_tasks w'). t_status t = Done \<and> t_completed_at t = None)"
proof -
  have "wp (create_task plain_env ''p'' done_request demo_user)
      (\<lambda>_ w'. \<exists>t \<in> set (w_tasks w'). t_status t = Done \<and> t_completed_at t = None) (\<lambda>_ _. False) demo_world"
    by (simp add: create_task_def check_project_access_def task_insert_def publish_event_def index_task_def publish_note_def
        done_request_def new_task_def coll_insert_def Let_def wp_simps)
  then show ?thesis by (rule iffD2 [OF wp_total])
qed

end
