(* ===== verification/Mcp_Auth.thy ===== *)
theory Mcp_Auth
  imports Task_Behaviour
begin

text \<open>
  Authentication of the MCP tools (mcp/auth.py): the cache of resolved API keys, with its
  contract as the locale \<open>ttl_cache\<close>, the two ways to authenticate (API key first, then OAuth
  token) and the membership check. Non-ASCII literals of the source are given by their
  UTF-8 encoding.
\<close>

definition utf8 :: "nat list \<Rightarrow> string" where
  "utf8 ns = map char_of ns"

section \<open>The credential cache\<close>

text \<open>
  \<open>_BoundedTTLCache\<close>, an \<open>OrderedDict\<close>: its items from the least to the most recently used,
  each with the instant it expires.
\<close>

type_synonym 'v ttl_items = "(string \<times> 'v \<times> time) list"

definition auth_cache_max_size :: nat where
  "auth_cache_max_size = 1000"

definition del_key :: "string \<Rightarrow> 'v ttl_items \<Rightarrow> 'v ttl_items" where
  "del_key k c = filter (\<lambda>(k', _). k' \<noteq> k) c"

definition move_to_end :: "string \<Rightarrow> 'v ttl_items \<Rightarrow> 'v ttl_items" where
  "move_to_end k c = (case map_of c k of None \<Rightarrow> c | Some v \<Rightarrow> del_key k c @ [(k, v)])"

text \<open>\<open>self[key] = value\<close>: an existing key keeps its position.\<close>

definition set_item :: "string \<Rightarrow> 'v \<times> time \<Rightarrow> 'v ttl_items \<Rightarrow> 'v ttl_items" where
  "set_item k v c =
     (if k \<in> fst ` set c then map (\<lambda>(k', v'). if k' = k then (k', v) else (k', v')) c else c @ [(k, v)])"

definition get_valid :: "time \<Rightarrow> string \<Rightarrow> 'v ttl_items \<Rightarrow> ('v \<times> time) option \<times> 'v ttl_items" where
  "get_valid clk k c =
     (case map_of c k of
        None \<Rightarrow> (None, c)
      | Some (r, expiry) \<Rightarrow> if clk \<ge> expiry then (None, del_key k c) else (Some (r, expiry), move_to_end k c))"

fun evict :: "nat \<Rightarrow> 'v ttl_items \<Rightarrow> 'v ttl_items" where
  "evict n [] = []"
| "evict n (x # c) = (if length (x # c) > n then evict n c else x # c)"

definition cache_put :: "nat \<Rightarrow> string \<Rightarrow> 'v \<times> time \<Rightarrow> 'v ttl_items \<Rightarrow> 'v ttl_items" where
  "cache_put max_size k v c =
     (let c1 = (if k \<in> fst ` set c then move_to_end k c else c) in evict max_size (set_item k v c1))"

text \<open>
  What a cache of expiring entries promises its client: \<open>get\<close> returns only entries that are
  held and not expired, and forgets at most the entry it was asked for; \<open>put\<close> makes the entry
  available, invents nothing, and respects the bound.
\<close>

locale ttl_cache =
  fixes get :: "time \<Rightarrow> 'k \<Rightarrow> 'c \<Rightarrow> ('v \<times> time) option \<times> 'c"
    and put :: "'k \<Rightarrow> 'v \<times> time \<Rightarrow> 'c \<Rightarrow> 'c"
    and held :: "'c \<Rightarrow> 'k \<Rightarrow> ('v \<times> time) option"
    and size_of :: "'c \<Rightarrow> nat"
    and inv :: "'c \<Rightarrow> bool"
    and bound :: nat
  assumes get_result: "inv c \<Longrightarrow> fst (get clk k c) = Some (r, x) \<longleftrightarrow> held c k = Some (r, x) \<and> clk < x"
    and get_held: "inv c \<Longrightarrow> held (snd (get clk k c)) k' =
          (if k' = k \<and> (\<exists>r x. held c k = Some (r, x) \<and> x \<le> clk) then None else held c k')"
    and get_inv: "inv c \<Longrightarrow> inv (snd (get clk k c))"
    and put_held: "inv c \<Longrightarrow> held (put k v c) k = Some v"
    and put_other: "inv c \<Longrightarrow> k' \<noteq> k \<Longrightarrow> held (put k v c) k' = Some w \<Longrightarrow> held c k' = Some w"
    and put_inv: "inv c \<Longrightarrow> inv (put k v c)"
    and size_bound: "inv c \<Longrightarrow> size_of c \<le> bound"
begin

lemma get_after_put: "inv c \<Longrightarrow> clk < x \<Longrightarrow> fst (get clk k (put k (r, x) c)) = Some (r, x)"
  by (simp add: get_result put_inv put_held)

text \<open>Entries never live longer than the horizon every \<open>put\<close> respects.\<close>

definition expires_by :: "time \<Rightarrow> 'k \<Rightarrow> 'c \<Rightarrow> bool" where
  "expires_by h k c \<longleftrightarrow> (\<forall>r x. held c k = Some (r, x) \<longrightarrow> x \<le> h)"

lemma expires_by_get: "inv c \<Longrightarrow> expires_by h k c \<Longrightarrow> expires_by h k (snd (get clk k' c))"
  by (simp add: expires_by_def get_held)

lemma expires_by_put: "inv c \<Longrightarrow> expires_by h k c \<Longrightarrow> k' = k \<longrightarrow> snd v \<le> h \<Longrightarrow> expires_by h k (put k' v c)"
  by (metis expires_by_def option.inject put_held put_other snd_conv)

lemma get_expired:
  assumes "inv c" and "expires_by h k c" and "h \<le> clk"
  shows "fst (get clk k c) = None"
proof (cases "fst (get clk k c)")
  case (Some v)
  then obtain r x where "fst (get clk k c) = Some (r, x)" by (cases v) auto
  with assms show ?thesis unfolding get_result [OF assms(1)] by (force simp: expires_by_def)
qed

end

text \<open>The \<open>OrderedDict\<close> keeps the contract.\<close>

definition cache_inv :: "nat \<Rightarrow> 'v ttl_items \<Rightarrow> bool" where
  "cache_inv n c \<longleftrightarrow> distinct (map fst c) \<and> length c \<le> n"

lemma map_of_filter_key: "map_of (filter (\<lambda>(k', _). k' \<noteq> k) c) x = (if x = k then None else map_of c x)"
  by (induction c) auto

lemma map_of_del_key: "map_of (del_key k c) x = (if x = k then None else map_of c x)"
  by (simp add: del_key_def map_of_filter_key)

lemma del_key_facts: "distinct (map fst c) \<Longrightarrow> distinct (map fst (del_key k c))" "length (del_key k c) \<le> length c"
  "k \<notin> fst ` set (del_key k c)" "k \<in> fst ` set c \<Longrightarrow> length (del_key k c) < length c"
proof -
  show "k \<in> fst ` set c \<Longrightarrow> length (del_key k c) < length c"
    by (auto simp: del_key_def intro!: length_filter_less)
qed (auto simp: del_key_def distinct_map_filter)

lemma map_of_move_to_end: "map_of (move_to_end k c) x = map_of c x"
  by (auto simp: move_to_end_def map_add_def map_of_del_key split: option.split)

lemma move_to_end_inv: "cache_inv n c \<Longrightarrow> cache_inv n (move_to_end k c)"
proof (cases "map_of c k")
  case (Some v)
  assume inv: "cache_inv n c"
  from Some have "k \<in> fst ` set c" by (auto dest!: map_of_SomeD intro: rev_image_eqI)
  with inv Some del_key_facts [where c = c and k = k] show ?thesis
    by (auto simp: cache_inv_def move_to_end_def)
qed (simp add: move_to_end_def)

lemma evict_suffix: "\<exists>d. c = d @ evict n c" and evict_length: "length (evict n c) \<le> n"
  and evict_last: "0 < n \<Longrightarrow> c \<noteq> [] \<Longrightarrow> evict n c \<noteq> [] \<and> last (evict n c) = last c"
proof -
  show "\<exists>d. c = d @ evict n c" by (induction c) (auto intro: exI [of _ "_ # _"])
  show "length (evict n c) \<le> n" by (induction c) auto
  show "0 < n \<Longrightarrow> c \<noteq> [] \<Longrightarrow> evict n c \<noteq> [] \<and> last (evict n c) = last c"
    by (induction c) (auto split: if_splits)
qed

text \<open>After the preparatory move, the key to be written stands last or not at all.\<close>

lemma put_shape:
  assumes "distinct (map fst c)"
  shows "\<exists>d. set_item k v (if k \<in> fst ` set c then move_to_end k c else c) = d @ [(k, v)] \<and>
    d = del_key k c"
proof (cases "k \<in> fst ` set c")
  case True
  then obtain w where w: "map_of c k = Some w" by (metis image_iff map_of_eq_None_iff not_None_eq)
  have id: "map (\<lambda>(k', v'). if k' = k then (k', v) else (k', v')) (del_key k c) = del_key k c"
    by (rule map_idI) (auto simp: del_key_def)
  have "set_item k v (move_to_end k c) = del_key k c @ [(k, v)]"
    using w id by (simp add: move_to_end_def set_item_def)
  with True show ?thesis by simp
next
  case False
  then have "del_key k c = c" by (force simp: del_key_def filter_id_conv)
  with False show ?thesis by (simp add: set_item_def)
qed

lemma put_eq:
  assumes "distinct (map fst c)"
  shows "cache_put n k v c = evict n (del_key k c @ [(k, v)])"
  using put_shape [OF assms, of k v] by (auto simp: cache_put_def Let_def)

lemma cache_put_inv:
  assumes "cache_inv n c"
  shows "cache_inv n (cache_put n k v c)"
proof -
  have d: "distinct (map fst c)" using assms by (simp add: cache_inv_def)
  obtain xs where xs: "del_key k c @ [(k, v)] = xs @ evict n (del_key k c @ [(k, v)])" using evict_suffix by blast
  have "distinct (map fst (del_key k c @ [(k, v)]))" using del_key_facts(1) [OF d] del_key_facts(3) by simp
  then have "distinct (map fst (evict n (del_key k c @ [(k, v)])))" by (subst (asm) xs) simp
  then show ?thesis using evict_length by (simp add: cache_inv_def put_eq [OF d])
qed

lemma cache_put_last:
  assumes "0 < n" and "distinct (map fst c)"
  shows "\<exists>d. cache_put n k v c = d @ [(k, v)] \<and> set d \<subseteq> set (del_key k c)"
proof -
  let ?c = "evict n (del_key k c @ [(k, v)])"
  have "?c \<noteq> []" "last ?c = (k, v)" using evict_last [OF assms(1), of "del_key k c @ [(k, v)]"] by auto
  then have split: "?c = butlast ?c @ [(k, v)]" by (metis append_butlast_last_id)
  obtain xs where "del_key k c @ [(k, v)] = xs @ ?c" using evict_suffix by blast
  then have "del_key k c @ [(k, v)] = (xs @ butlast ?c) @ [(k, v)]" using split by simp
  then have "del_key k c = xs @ butlast ?c" by simp
  then have "set (butlast ?c) \<subseteq> set (del_key k c)" by (metis set_append sup.cobounded2)
  with split show ?thesis unfolding put_eq [OF assms(2)] by blast
qed

lemma map_of_put:
  assumes n: "0 < n" and d: "distinct (map fst c)"
  shows "map_of (cache_put n k v c) k = Some v" "k' \<noteq> k \<Longrightarrow> map_of (cache_put n k v c) k' = Some w \<Longrightarrow> map_of c k' = Some w"
proof -
  obtain xs where xs: "cache_put n k v c = xs @ [(k, v)]" "set xs \<subseteq> set (del_key k c)"
    using cache_put_last [OF assms] by blast
  then have "map_of xs k = None" using del_key_facts(3) [of k c] by (auto simp: map_of_eq_None_iff)
  with xs(1) show "map_of (cache_put n k v c) k = Some v" by (simp add: map_add_def)
  assume "k' \<noteq> k" "map_of (cache_put n k v c) k' = Some w"
  then have "map_of xs k' = Some w" by (auto simp: xs(1) map_add_def split: option.splits)
  then have "(k', w) \<in> set c" using xs(2) by (auto dest!: map_of_SomeD simp: del_key_def)
  with d show "map_of c k' = Some w" by simp
qed

lemma cache_is_ttl_cache:
  assumes "0 < n"
  shows "ttl_cache get_valid (cache_put n) map_of length (cache_inv n) n"
proof
  fix c :: "'v ttl_items" and clk k k' v w r x
  assume inv: "cache_inv n c"
  then have d: "distinct (map fst c)" by (simp add: cache_inv_def)
  show "fst (get_valid clk k c) = Some (r, x) \<longleftrightarrow> map_of c k = Some (r, x) \<and> clk < x"
    by (auto simp: get_valid_def split: option.splits)
  show "map_of (snd (get_valid clk k c)) k' =
      (if k' = k \<and> (\<exists>r x. map_of c k = Some (r, x) \<and> x \<le> clk) then None else map_of c k')"
    by (auto simp: get_valid_def map_of_del_key map_of_move_to_end split: option.splits)
  show "cache_inv n (snd (get_valid clk k c))"
    using inv move_to_end_inv [OF inv, of k] del_key_facts(1) [OF d, of k] del_key_facts(2) [of k c]
    by (auto simp: get_valid_def cache_inv_def split: option.splits)
  show "map_of (cache_put n k v c) k = Some v" by (rule map_of_put(1) [OF assms d])
  show "map_of c k' = Some w" if "k' \<noteq> k" "map_of (cache_put n k v c) k' = Some w"
    using map_of_put(2) [OF assms d that] .
  show "cache_inv n (cache_put n k v c)" by (rule cache_put_inv [OF inv])
  show "length c \<le> n" using inv by (simp add: cache_inv_def)
qed

interpretation cache: ttl_cache get_valid "cache_put auth_cache_max_size" map_of length "cache_inv auth_cache_max_size"
  auth_cache_max_size
  by (rule cache_is_ttl_cache) (simp add: auth_cache_max_size_def)

section \<open>Authentication\<close>

text \<open>
  What a tool call carries: whether an HTTP request is at hand, the \<open>X-API-Key\<close> header, and
  the OAuth token the transport has verified, with the \<open>user_id\<close> claim if there is one.
\<close>

definition user_disabled :: string where
  "user_disabled = utf8 [227, 131, 166, 227, 131, 188, 227, 130, 182, 227, 131, 188, 227, 129, 140, 231, 132, 161, 229, 138, 185, 227, 129, 167, 227, 129, 153]"

datatype oauth_token = NoToken | TokenFailure | Token "string option"

record mcp_request =
  mr_http :: bool
  mr_api_key :: "string option"
  mr_token :: oauth_token

definition resolve_oauth_user :: "env \<Rightarrow> string option \<Rightarrow> (world, key_info) prog" where
  "resolve_oauth_user e claim =
     (case truthy claim of
        None \<Rightarrow> raise (McpAuthError (utf8 [79, 65, 117, 116, 104, 32, 227, 131, 136, 227, 131, 188, 227, 130, 175, 227, 131, 179, 227, 129, 171, 227, 131, 166, 227, 131, 188, 227, 130, 182, 227, 131, 188, 230, 131, 133, 229, 160, 177, 227, 129, 140, 227, 129, 130, 227, 130, 138, 227, 129, 190, 227, 129, 155, 227, 130, 147, 227, 128, 130, 229, 134, 141, 230, 142, 165, 231, 182, 154, 227, 129, 151, 227, 129, 166, 227, 129, 143, 227, 129, 160, 227, 129, 149, 227, 129, 132]))
      | Some user_id \<Rightarrow>
          bindP (user_get e user_id) (\<lambda>user0.
          case user0 of
            None \<Rightarrow> raise (McpAuthError user_disabled)
          | Some u \<Rightarrow>
              bindP (guard (u_is_active u) (McpAuthError user_disabled)) (\<lambda>_.
              return \<lparr>ki_key_id = None, ki_key_name = None, ki_user_id = u_id u, ki_user_name = u_name u,
                ki_is_admin = u_is_admin u, ki_auth_kind = ''oauth''\<rparr>)))"

definition cache_lookup :: "env \<Rightarrow> string \<Rightarrow> (world, (key_info \<times> time) option) prog" where
  "cache_lookup e k =
     bindP (gets (\<lambda>w. get_valid (monotonic e) k (w_auth_cache w))) (\<lambda>(r, c).
     bindP (modify (\<lambda>w. w\<lparr>w_auth_cache := c\<rparr>)) (\<lambda>_.
     return r))"

text \<open>\<open>User.get(api_key_doc.created_by.ref.id)\<close>: the owner, if the key has one.\<close>

definition key_owner :: "mcp_api_key \<Rightarrow> (world, user option) prog" where
  "key_owner k =
     (case ak_created_by k of
        None \<Rightarrow> return None
      | Some uid \<Rightarrow>
          bindP (gets (\<lambda>w. coll_get u_id (w_users w) uid)) (\<lambda>owner0.
          case owner0 of
            None \<Rightarrow> raise (McpAuthError ''API key owner is disabled'')
          | Some owner \<Rightarrow>
              bindP (guard (u_is_active owner) (McpAuthError ''API key owner is disabled'')) (\<lambda>_.
              return (Some owner))))"

definition touch_key :: "env \<Rightarrow> mcp_api_key \<Rightarrow> (world, unit) prog" where
  "touch_key e k =
     whenP (case ak_last_used_at k of None \<Rightarrow> True | Some last_used \<Rightarrow> now e - last_used > 60 * 1000000)
       (modify (\<lambda>w. w\<lparr>w_api_keys := coll_save ak_id (k\<lparr>ak_last_used_at := Some (now e)\<rparr>) (w_api_keys w)\<rparr>))"

definition resolve_api_key_user :: "env \<Rightarrow> string \<Rightarrow> (world, key_info) prog" where
  "resolve_api_key_user e api_key =
     (let cache_key = hash_api_key e api_key in
      bindP (cache_lookup e cache_key) (\<lambda>cached.
      case cached of
        Some (result, _) \<Rightarrow> return result
      | None \<Rightarrow>
          bindP (gets (\<lambda>w. List.find (\<lambda>k. ak_key_hash k = cache_key \<and> ak_is_active k) (w_api_keys w))) (\<lambda>doc0.
          bindP (some_or doc0 (McpAuthError ''Invalid API key'')) (\<lambda>doc.
          bindP (key_owner doc) (\<lambda>owner0.
          bindP (touch_key e doc) (\<lambda>_.
          bindP (some_or owner0 (McpAuthError ''API key has no owner user'')) (\<lambda>owner.
          let result = \<lparr>ki_key_id = Some (ak_id doc), ki_key_name = Some (ak_name doc), ki_user_id = u_id owner,
                ki_user_name = u_name owner, ki_is_admin = u_is_admin owner, ki_auth_kind = ''api_key''\<rparr> in
          bindP (modify (\<lambda>w. w\<lparr>w_auth_cache := cache_put auth_cache_max_size cache_key
              (result, monotonic e + auth_cache_ttl e) (w_auth_cache w)\<rparr>)) (\<lambda>_.
          return result))))))))"

definition authenticate :: "env \<Rightarrow> mcp_request \<Rightarrow> (world, key_info) prog" where
  "authenticate e rq =
     bindP (guard (mr_http rq) (McpAuthError ''HTTP request context unavailable'')) (\<lambda>_.
     case truthy (mr_api_key rq) of
       Some api_key \<Rightarrow> resolve_api_key_user e api_key
     | None \<Rightarrow>
         (case mr_token rq of
            TokenFailure \<Rightarrow> raise (McpAuthError (utf8 [232, 170, 141, 232, 168, 188, 227, 130, 183, 227, 130, 185, 227, 131, 134, 227, 131, 160, 227, 129, 167, 227, 130, 168, 227, 131, 169, 227, 131, 188, 227, 129, 140, 231, 153, 186, 231, 148, 159, 227, 129, 151, 227, 129, 190, 227, 129, 151, 227, 129, 159]))
          | Token claim \<Rightarrow> resolve_oauth_user e claim
          | NoToken \<Rightarrow> raise (McpAuthError ''Authentication required'')))"

definition mcp_check_project_access :: "env \<Rightarrow> string \<Rightarrow> key_info \<Rightarrow> (world, project) prog" where
  "mcp_check_project_access e project_id ki =
     bindP (project_get e project_id) (\<lambda>p.
     case p of
       None \<Rightarrow> raise (McpAuthError (''Project '' @ project_id @ '' not found''))
     | Some project \<Rightarrow>
         if ki_is_admin ki then return project
         else bindP (guard (ki_user_id ki \<noteq> []) (McpAuthError ''Authentication subject missing'')) (\<lambda>_.
              bindP (guard (has_member project (ki_user_id ki))
                (McpAuthError (''No access to project '' @ project_id))) (\<lambda>_.
              return project)))"

end
