(* ===== verification/Mcp_Projects.thy ===== *)
theory Mcp_Projects
  imports Mcp_Auth
begin

text \<open>
  The project tools of the MCP server (mcp/tools/projects.py): the resolution of project names
  with its cache, the lock check every writing tool makes, and the tools that list, read,
  update and archive projects. Every tool takes the request it authenticates first.
\<close>

section \<open>Project names\<close>

text \<open>
  \<open>int(s, 16)\<close> succeeds: after stripping, an optional sign, an optional \<open>0x\<close>, and hexadecimal
  digits with single underscores between them (one may follow the prefix).
\<close>

definition is_hex :: "char \<Rightarrow> bool" where
  "is_hex c \<longleftrightarrow> c \<in> set ''0123456789abcdefABCDEF''"

fun hex_digits :: "string \<Rightarrow> bool" where
  "hex_digits [] = False"
| "hex_digits [c] = is_hex c"
| "hex_digits (c # d # s) = (is_hex c \<and> (if d = CHR ''_'' then hex_digits s else hex_digits (d # s)))"

definition drop_sign :: "string \<Rightarrow> string" where
  "drop_sign s = (case s of c # s' \<Rightarrow> if c = CHR ''+'' \<or> c = CHR ''-'' then s' else s | [] \<Rightarrow> [])"

definition is_int16 :: "string \<Rightarrow> bool" where
  "is_int16 s =
     (case drop_sign (py_strip s) of
        c # d # s' \<Rightarrow>
          if c = CHR ''0'' \<and> (d = CHR ''x'' \<or> d = CHR ''X'')
          then hex_digits (case s' of u # s'' \<Rightarrow> if u = CHR ''_'' then s'' else s' | [] \<Rightarrow> [])
          else hex_digits (c # d # s')
      | s' \<Rightarrow> hex_digits s')"

definition project_cache_ttl :: int where
  "project_cache_ttl = 300 * 1000000"

definition resolve_project_id :: "env \<Rightarrow> string \<Rightarrow> (world, string) prog" where
  "resolve_project_id e project_id =
     (if length project_id = 24 \<and> is_int16 project_id then return project_id
      else
        bindP (gets (\<lambda>w. w_project_cache w project_id)) (\<lambda>cached.
        case (case cached of None \<Rightarrow> None | Some (pid, expiry) \<Rightarrow> if expiry > monotonic e then Some pid else None) of
          Some pid \<Rightarrow> return pid
        | None \<Rightarrow>
            bindP (gets (\<lambda>w. List.find (\<lambda>p. p_name p = project_id \<and> p_status p = Active) (w_projects w))) (\<lambda>p0.
            bindP (some_or p0 (ToolError (''Project not found: '' @ project_id))) (\<lambda>p.
            bindP (modify (\<lambda>w. w\<lparr>w_project_cache :=
                (w_project_cache w)(project_id \<mapsto> (p_id p, monotonic e + project_cache_ttl))\<rparr>)) (\<lambda>_.
            return (p_id p))))))"

definition check_project_not_locked :: "env \<Rightarrow> string \<Rightarrow> (world, unit) prog" where
  "check_project_not_locked e project_id =
     bindP (project_get e project_id) (\<lambda>p0.
     case p0 of
       None \<Rightarrow> raise (ToolError ''Project not found'')
     | Some p \<Rightarrow>
         bindP (guard (p_status p \<noteq> Archived) (ToolError ''Project not found'')) (\<lambda>_.
         guard (\<not> p_is_locked p) (ToolError ''Project is locked. Unlock it before making changes.'')))"

section \<open>The tools\<close>

fun project_status_str :: "project_status \<Rightarrow> string" where
  "project_status_str Active = ''active''"
| "project_status_str Archived = ''archived''"

fun member_role_str :: "member_role \<Rightarrow> string" where
  "member_role_str Owner = ''owner''"
| "member_role_str Member = ''member''"

definition project_to_dict :: "project \<Rightarrow> json" where
  "project_to_dict p = JObj
     [(''id'', JStr (p_id p)), (''name'', JStr (p_name p)), (''description'', JStr (p_description p)),
      (''color'', JStr (p_color p)), (''status'', JStr (project_status_str (p_status p))),
      (''is_locked'', JBool (p_is_locked p)), (''sort_order'', JInt (p_sort_order p)), (''hidden'', JBool (p_hidden p)),
      (''remote'', jopt (\<lambda>r. JObj [(''agent_id'', JStr (rb_agent_id r)), (''remote_path'', JStr (rb_remote_path r)),
         (''label'', JStr (rb_label r)), (''updated_at'', JTime (rb_updated_at r))]) (p_remote p)),
      (''members'', JList (map (\<lambda>m. JObj [(''user_id'', JStr (pm_user_id m)), (''role'', JStr (member_role_str (pm_role m))),
         (''joined_at'', JTime (pm_joined_at m))]) (p_members p))),
      (''created_by'', JStr (p_created_by p)), (''created_at'', JTime (p_created_at p)),
      (''updated_at'', JTime (p_updated_at p))]"

definition mcp_list_projects :: "env \<Rightarrow> mcp_request \<Rightarrow> (world, json) prog" where
  "mcp_list_projects e rq =
     bindP (authenticate e rq) (\<lambda>ki.
     if \<not> ki_is_admin ki \<and> ki_user_id ki = [] then return (JList [])
     else gets (\<lambda>w. JList (map project_to_dict (coll_find (\<lambda>p. p_status p = Active \<and>
       (ki_is_admin ki \<or> has_member p (ki_user_id ki))) (w_projects w)))))"

definition live_project :: "env \<Rightarrow> string \<Rightarrow> (world, project) prog" where
  "live_project e project_id =
     bindP (project_get e project_id) (\<lambda>p0.
     case p0 of
       None \<Rightarrow> raise (ToolError ''Project not found'')
     | Some p \<Rightarrow>
         bindP (guard (p_status p \<noteq> Archived) (ToolError ''Project not found'')) (\<lambda>_.
         return p))"

definition mcp_get_project :: "env \<Rightarrow> mcp_request \<Rightarrow> string \<Rightarrow> (world, json) prog" where
  "mcp_get_project e rq name_or_id =
     bindP (authenticate e rq) (\<lambda>ki.
     bindP (resolve_project_id e name_or_id) (\<lambda>project_id.
     bindP (mcp_check_project_access e project_id ki) (\<lambda>_.
     bindP (live_project e project_id) (\<lambda>p.
     return (project_to_dict p)))))"

definition project_touch :: "env \<Rightarrow> project \<Rightarrow> project" where
  "project_touch e p = p\<lparr>p_updated_at := now e\<rparr>"

definition project_save :: "env \<Rightarrow> project \<Rightarrow> (world, project) prog" where
  "project_save e p =
     bindP (modify (\<lambda>w. w\<lparr>w_projects := coll_save p_id (project_touch e p) (w_projects w)\<rparr>)) (\<lambda>_.
     return (project_touch e p))"

record update_project_args =
  up_name :: "string option"
  up_description :: "string option"
  up_color :: "string option"
  up_status :: "string option"
  up_is_locked :: "bool option"

definition parse_project_status :: "string \<Rightarrow> project_status option" where
  "parse_project_status = enum_of_str project_status_str [Active, Archived]"

definition update_project_fields :: "update_project_args \<Rightarrow> project \<Rightarrow> project" where
  "update_project_fields a p =
     (let p = (case up_name a of None \<Rightarrow> p | Some v \<Rightarrow> p\<lparr>p_name := v\<rparr>);
          p = (case up_description a of None \<Rightarrow> p | Some v \<Rightarrow> p\<lparr>p_description := v\<rparr>);
          p = (case up_color a of None \<Rightarrow> p | Some v \<Rightarrow> p\<lparr>p_color := v\<rparr>);
          p = (case up_status a of None \<Rightarrow> p | Some s \<Rightarrow>
                 (case parse_project_status s of None \<Rightarrow> p | Some v \<Rightarrow> p\<lparr>p_status := v\<rparr>))
      in (case up_is_locked a of None \<Rightarrow> p | Some v \<Rightarrow> p\<lparr>p_is_locked := v\<rparr>))"

definition mcp_update_project :: "env \<Rightarrow> mcp_request \<Rightarrow> string \<Rightarrow> update_project_args \<Rightarrow> (world, json) prog" where
  "mcp_update_project e rq name_or_id a =
     bindP (authenticate e rq) (\<lambda>ki.
     bindP (resolve_project_id e name_or_id) (\<lambda>project_id.
     bindP (mcp_check_project_access e project_id ki) (\<lambda>_.
     bindP (live_project e project_id) (\<lambda>p.
     bindP (case up_status a of None \<Rightarrow> return () | Some s \<Rightarrow>
         guard (s \<in> {''active'', ''archived''})
           (ToolError (''Invalid status '' @ quoted s @ ''. Valid: active, archived''))) (\<lambda>_.
     bindP (project_save e (update_project_fields a p)) (\<lambda>p1.
     bindP (publish_event e project_id ''project.updated'' (project_to_dict p1)) (\<lambda>_.
     return (project_to_dict p1))))))))"

text \<open>\<open>Task.find(...).update({"$set": {"is_deleted": True}})\<close> on the live tasks of the project.\<close>

definition delete_project_tasks :: "string \<Rightarrow> (world, unit) prog" where
  "delete_project_tasks project_id =
     modify (\<lambda>w. w\<lparr>w_tasks := map (\<lambda>t. if t_project_id t = project_id \<and> \<not> t_is_deleted t
       then t\<lparr>t_is_deleted := True\<rparr> else t) (w_tasks w)\<rparr>)"

definition mcp_delete_project :: "env \<Rightarrow> mcp_request \<Rightarrow> string \<Rightarrow> (world, json) prog" where
  "mcp_delete_project e rq name_or_id =
     bindP (authenticate e rq) (\<lambda>ki.
     bindP (resolve_project_id e name_or_id) (\<lambda>project_id.
     bindP (mcp_check_project_access e project_id ki) (\<lambda>_.
     bindP (live_project e project_id) (\<lambda>p.
     bindP (project_save e (p\<lparr>p_status := Archived\<rparr>)) (\<lambda>_.
     bindP (delete_project_tasks project_id) (\<lambda>_.
     bindP (publish_event e project_id ''project.deleted'' (JObj [(''id'', JStr project_id)])) (\<lambda>_.
     return (JObj [(''success'', JBool True), (''project_id'', JStr project_id)]))))))))"

end
