(* ===== verification/Mcp_Task_Read.thy ===== *)
theory Mcp_Task_Read
  imports Mcp_Projects Calendar "HOL-Library.List_Lexorder" "HOL-Library.Char_ord" "HOL-Library.Option_ord"
begin

text \<open>
  The reading half of the task tools (mcp/tools/tasks.py): the levels of detail, the date
  filters with their calendar shorthands, and the tools that get, list and search tasks.
  \<open>limit\<close> and \<open>skip\<close> are natural numbers; the database reads a limit of 0 as no limit.
\<close>

section \<open>Shared steps\<close>

definition get_task_or_raise :: "env \<Rightarrow> string \<Rightarrow> key_info \<Rightarrow> (world, task) prog" where
  "get_task_or_raise e task_id ki =
     bindP (task_get e task_id) (\<lambda>task0.
     bindP (some_or (not_deleted task0) (ToolError ''Task not found'')) (\<lambda>t.
     bindP (mcp_check_project_access e (t_project_id t) ki) (\<lambda>_.
     return t)))"

fun jpop :: "string list \<Rightarrow> json \<Rightarrow> json" where
  "jpop ks (JObj kvs) = JObj (filter (\<lambda>(k, _). k \<notin> set ks) kvs)"
| "jpop ks j = j"

definition task_summary :: "task \<Rightarrow> json" where
  "task_summary t = jpop [''comments'', ''attachments''] (task_dict t)"

definition task_minimal :: "task \<Rightarrow> json" where
  "task_minimal t = JObj
     ([(''id'', JStr (t_id t)), (''title'', JStr (t_title t)), (''status'', JStr (status_str (t_status t))),
       (''priority'', JStr (priority_str (t_priority t)))] @
      (case t_due_date t of None \<Rightarrow> [] | Some d \<Rightarrow> [(''due_date'', JTime d)]) @
      (case truthy (t_assignee_id t) of None \<Rightarrow> [] | Some a \<Rightarrow> [(''assignee_id'', JStr a)]) @
      (if t_needs_detail t then [(''needs_detail'', JBool True)] else []) @
      (if t_approved t then [(''approved'', JBool True)] else []))"

definition task_serializer :: "string \<Rightarrow> (world, task \<Rightarrow> json) prog" where
  "task_serializer detail =
     (if detail = ''minimal'' then return task_minimal
      else if detail = ''summary'' then return task_summary
      else if detail = ''full'' then return (\<lambda>t. task_dict t)
      else raise (ToolError (''detail must be '' @ quoted ''minimal'' @ '', '' @ quoted ''summary'' @ '', or '' @ quoted ''full'')))"

definition serialize :: "bool \<Rightarrow> task \<Rightarrow> json" where
  "serialize summary t = (if summary then task_summary t else task_dict t)"

definition mongo_page :: "nat \<Rightarrow> nat \<Rightarrow> 'a list \<Rightarrow> 'a list" where
  "mongo_page skip limit xs = (if limit = 0 then drop skip xs else take limit (drop skip xs))"

definition page_of :: "(task \<Rightarrow> json) \<Rightarrow> nat \<Rightarrow> nat \<Rightarrow> task list \<Rightarrow> task list \<Rightarrow> json" where
  "page_of f limit skip found sorted_tasks = JObj
     [(''items'', JList (map f (mongo_page skip limit sorted_tasks))), (''total'', JInt (int (length found))),
      (''limit'', JInt (int limit)), (''skip'', JInt (int skip))]"

text \<open>\<open>TaskStatus(s)\<close> and its kin, raising.\<close>

definition enum_or_raise :: "(string \<Rightarrow> 'a option) \<Rightarrow> string \<Rightarrow> string \<Rightarrow> (world, 'a) prog" where
  "enum_or_raise parse cls s = some_or (parse s) (ValueError (py_repr s @ '' is not a valid '' @ cls))"

definition optional :: "'a option \<Rightarrow> ('a \<Rightarrow> (world, 'b) prog) \<Rightarrow> (world, 'b option) prog" where
  "optional x f = (case x of None \<Rightarrow> return None | Some v \<Rightarrow> bindP (f v) (\<lambda>y. return (Some y)))"

section \<open>Dates\<close>

text \<open>\<open>t.replace(hour=23, minute=59, second=59)\<close> keeps the microsecond.\<close>

definition end_of_day :: "time \<Rightarrow> time" where
  "end_of_day t = (t div day_us) * day_us + 86399 * 1000000 + t mod 1000000"

definition is_digit :: "char \<Rightarrow> bool" where
  "is_digit c \<longleftrightarrow> c \<in> set ''0123456789''"

definition int_of_digits :: "string \<Rightarrow> int" where
  "int_of_digits ds = fold (\<lambda>c n. 10 * n + (int (of_char c) - 48)) ds 0"

text \<open>
  \<open>re.match(r'^([+-]?\d+)d$', value)\<close>; \<open>$\<close> also matches before a final newline.
\<close>

definition relative_days :: "string \<Rightarrow> int option" where
  "relative_days v =
     (let v = (if v \<noteq> [] \<and> last v = CHR 10 then butlast v else v);
          body = butlast v; ds = drop_sign body in
      if v \<noteq> [] \<and> last v = CHR ''d'' \<and> ds \<noteq> [] \<and> list_all is_digit ds
      then Some (if hd body = CHR ''-'' then - int_of_digits ds else int_of_digits ds) else None)"

definition add_days :: "env \<Rightarrow> int \<Rightarrow> (world, time) prog" where
  "add_days e days =
     bindP (guard (\<bar>days\<bar> \<le> 999999999) OverflowError) (\<lambda>_.
     bindP (guard (min_instant \<le> now e + days * day_us \<and> now e + days * day_us < max_instant) OverflowError) (\<lambda>_.
     return (now e + days * day_us)))"

definition parse_iso :: "env \<Rightarrow> string \<Rightarrow> (world, time) prog" where
  "parse_iso e v = some_or (fromisoformat e v) (ValueError (''Invalid isoformat string: '' @ py_repr v))"

definition parse_date_filter :: "env \<Rightarrow> string \<Rightarrow> (world, time) prog" where
  "parse_date_filter e v =
     (if v = ''today'' then return (end_of_day (now e))
      else if v = ''tomorrow'' then return (end_of_day (now e + day_us))
      else if v = ''yesterday'' then return (end_of_day (now e - day_us))
      else if v = ''this_week'' then return (now e + (6 - weekday (now e)) * day_us)
      else if v = ''next_week'' then return (now e + (13 - weekday (now e)) * day_us)
      else if v = ''this_month'' then
        return ((next_month_start (ordinal (now e)) - epoch_ordinal) * day_us + now e mod day_us - 1000000)
      else case relative_days v of Some days \<Rightarrow> add_days e days | None \<Rightarrow> parse_iso e v)"

section \<open>Getting tasks\<close>

definition mcp_get_task :: "env \<Rightarrow> mcp_request \<Rightarrow> string \<Rightarrow> (world, json) prog" where
  "mcp_get_task e rq task_id =
     bindP (authenticate e rq) (\<lambda>ki.
     bindP (get_task_or_raise e task_id ki) (\<lambda>t.
     return (task_dict t)))"

definition activity_json :: "activity_entry \<Rightarrow> json" where
  "activity_json a = JObj
     [(''field'', JStr (ae_field a)), (''old_value'', jopt JStr (ae_old_value a)), (''new_value'', jopt JStr (ae_new_value a)),
      (''changed_by'', JStr (ae_changed_by a)), (''changed_at'', JTime (ae_changed_at a))]"

text \<open>\<open>sorted(..., key=..., reverse=True)\<close> keeps the order of equal elements.\<close>

definition sorted_desc :: "('a \<Rightarrow> 'k :: linorder) \<Rightarrow> 'a list \<Rightarrow> 'a list" where
  "sorted_desc key xs = rev (sort_key key (rev xs))"

definition mcp_get_task_context :: "env \<Rightarrow> mcp_request \<Rightarrow> string \<Rightarrow> nat \<Rightarrow> (world, json) prog" where
  "mcp_get_task_context e rq task_id activity_limit =
     bindP (authenticate e rq) (\<lambda>ki.
     bindP (get_task_or_raise e task_id ki) (\<lambda>t.
     bindP (query_tasks (\<lambda>c. t_parent_task_id c = Some task_id \<and> \<not> t_is_deleted c)) (\<lambda>found.
     let subtasks = mongo_sort e t_id list_order found;
         activity_entries = take activity_limit (sorted_desc ae_changed_at (t_activity_log t)) in
     bindP (case truthy (t_parent_task_id t) of
         None \<Rightarrow> return JNull
       | Some p \<Rightarrow> bindP (task_get e p) (\<lambda>parent0. return (case not_deleted parent0 of None \<Rightarrow> JNull | Some parent \<Rightarrow>
           JObj [(''id'', JStr (t_id parent)), (''title'', JStr (t_title parent)),
                 (''status'', JStr (status_str (t_status parent)))]))) (\<lambda>parent.
     return (JObj
       [(''task'', task_dict t), (''parent'', parent),
        (''subtasks'', JObj [(''items'', JList (map task_summary subtasks)), (''total'', JInt (int (length subtasks)))]),
        (''activity'', JObj [(''entries'', JList (map activity_json activity_entries)),
                            (''total'', JInt (int (length (t_activity_log t))))])])))))"

definition mcp_get_task_activity :: "env \<Rightarrow> mcp_request \<Rightarrow> string \<Rightarrow> nat \<Rightarrow> nat \<Rightarrow> (world, json) prog" where
  "mcp_get_task_activity e rq task_id limit skip =
     bindP (authenticate e rq) (\<lambda>ki.
     bindP (get_task_or_raise e task_id ki) (\<lambda>t.
     let all_entries = sorted_desc ae_changed_at (t_activity_log t);
         entries = take limit (drop skip all_entries) in
     return (JObj
       [(''task_id'', JStr (t_id t)), (''title'', JStr (t_title t)), (''entries'', JList (map activity_json entries)),
        (''total'', JInt (int (length all_entries))), (''limit'', JInt (int limit)), (''skip'', JInt (int skip))])))"

section \<open>Listing tasks\<close>

text \<open>Every list tool starts so: the caller, the project the name denotes, the membership.\<close>

definition tool_project :: "env \<Rightarrow> key_info \<Rightarrow> string \<Rightarrow> (world, string) prog" where
  "tool_project e ki name_or_id =
     bindP (resolve_project_id e name_or_id) (\<lambda>project_id.
     bindP (mcp_check_project_access e project_id ki) (\<lambda>_.
     return project_id))"

record mcp_list_args =
  ml_status :: "string option"
  ml_priority :: "string option"
  ml_task_type :: "string option"
  ml_assignee_id :: "string option"
  ml_tag :: "string option"
  ml_needs_detail :: "bool option"
  ml_approved :: "bool option"
  ml_archived :: "bool option"
  ml_due_before :: "string option"
  ml_due_after :: "string option"
  ml_updated_since :: "string option"
  ml_sort_by :: string
  ml_order :: string
  ml_limit :: nat
  ml_skip :: nat
  ml_summary :: bool

type_synonym mcp_filter =
  "task_status option \<times> task_priority option \<times> task_type option \<times> time option \<times> time option \<times> time option"

definition list_filter :: "env \<Rightarrow> mcp_list_args \<Rightarrow> (world, mcp_filter) prog" where
  "list_filter e a =
     bindP (optional (truthy (ml_status a)) (enum_or_raise parse_status ''TaskStatus'')) (\<lambda>st.
     bindP (optional (truthy (ml_priority a)) (enum_or_raise parse_priority ''TaskPriority'')) (\<lambda>pr.
     bindP (optional (truthy (ml_task_type a)) (enum_or_raise parse_task_type ''TaskType'')) (\<lambda>ty.
     bindP (optional (truthy (ml_due_before a)) (parse_date_filter e)) (\<lambda>before.
     bindP (optional (truthy (ml_due_after a)) (parse_date_filter e)) (\<lambda>after.
     bindP (optional (truthy (ml_updated_since a)) (\<lambda>s. some_or (fromisoformat e s)
       (ToolError (''Invalid updated_since '' @ quoted s @ '': expected ISO 8601'')))) (\<lambda>since.
     return (st, pr, ty, before, after, since)))))))"

definition is_or_any :: "'a option \<Rightarrow> 'a \<Rightarrow> bool" where
  "is_or_any x y = (case x of None \<Rightarrow> True | Some v \<Rightarrow> y = v)"

definition mcp_list_matches :: "string \<Rightarrow> mcp_list_args \<Rightarrow> mcp_filter \<Rightarrow> task \<Rightarrow> bool" where
  "mcp_list_matches project_id a = (\<lambda>(st, pr, ty, before, after, since) t.
     t_project_id t = project_id \<and> \<not> t_is_deleted t \<and>
     is_or_any st (t_status t) \<and> is_or_any pr (t_priority t) \<and>
     is_or_any (map_option Some (truthy (ml_assignee_id a))) (t_assignee_id t) \<and>
     (case truthy (ml_tag a) of None \<Rightarrow> True | Some g \<Rightarrow> g \<in> set (t_tags t)) \<and>
     is_or_any ty (t_task_type t) \<and> is_or_any (ml_needs_detail a) (t_needs_detail t) \<and>
     is_or_any (ml_approved a) (t_approved t) \<and> is_or_any (ml_archived a) (t_archived t) \<and>
     (case before of None \<Rightarrow> True | Some b \<Rightarrow> (case t_due_date t of None \<Rightarrow> False | Some d \<Rightarrow> d \<le> b)) \<and>
     (case after of None \<Rightarrow> True | Some b \<Rightarrow> (case t_due_date t of None \<Rightarrow> False | Some d \<Rightarrow> b \<le> d)) \<and>
     (case since of None \<Rightarrow> True | Some s \<Rightarrow> s < t_updated_at t))"

text \<open>
  The sort keys; a missing due date sorts first, priorities sort by their names.
\<close>

definition sort_field :: "string \<Rightarrow> (task \<Rightarrow> int option \<times> string) option" where
  "sort_field f =
     (if f = ''sort_order'' then Some (\<lambda>t. (Some (t_sort_order t), ''''))
      else if f = ''created_at'' then Some (\<lambda>t. (Some (t_created_at t), ''''))
      else if f = ''due_date'' then Some (\<lambda>t. (t_due_date t, ''''))
      else if f = ''priority'' then Some (\<lambda>t. (None, priority_str (t_priority t)))
      else if f = ''updated_at'' then Some (\<lambda>t. (Some (t_updated_at t), ''''))
      else None)"

definition mcp_sorted :: "env \<Rightarrow> (task \<Rightarrow> int option \<times> string) \<Rightarrow> bool \<Rightarrow> (task \<Rightarrow> int) \<Rightarrow> task list \<Rightarrow> task list" where
  "mcp_sorted e primary desc secondary ts =
     (let us = mongo_sort e t_id secondary ts in if desc then sorted_desc primary us else sort_key primary us)"

definition mcp_list_tasks :: "env \<Rightarrow> mcp_request \<Rightarrow> string \<Rightarrow> mcp_list_args \<Rightarrow> (world, json) prog" where
  "mcp_list_tasks e rq name_or_id a =
     bindP (authenticate e rq) (\<lambda>ki.
     bindP (tool_project e ki name_or_id) (\<lambda>project_id.
     bindP (list_filter e a) (\<lambda>filters.
     bindP (some_or (sort_field (ml_sort_by a)) (ToolError (''Invalid sort_by '' @ quoted (ml_sort_by a) @
       ''. Valid: created_at, due_date, priority, sort_order, updated_at''))) (\<lambda>primary.
     bindP (guard (ml_order a = ''asc'' \<or> ml_order a = ''desc'')
       (ToolError (''Invalid order '' @ quoted (ml_order a) @ ''. Valid: asc, desc''))) (\<lambda>_.
     bindP (query_tasks (mcp_list_matches project_id a filters)) (\<lambda>found.
     let secondary = (if ml_sort_by a \<noteq> ''created_at'' then t_created_at else t_sort_order) in
     return (page_of (serialize (ml_summary a)) (ml_limit a) (ml_skip a) found
       (mcp_sorted e primary (ml_order a = ''desc'') secondary found))))))))"

definition live_in :: "string \<Rightarrow> task \<Rightarrow> bool" where
  "live_in project_id t \<longleftrightarrow> \<not> t_is_deleted t \<and> t_project_id t = project_id"

definition overdue :: "env \<Rightarrow> task \<Rightarrow> bool" where
  "overdue e t \<longleftrightarrow> (case t_due_date t of None \<Rightarrow> False | Some d \<Rightarrow> d < now e) \<and>
     t_status t \<notin> {On_hold, Done, Cancelled}"

definition mcp_get_work_context :: "env \<Rightarrow> mcp_request \<Rightarrow> string \<Rightarrow> nat \<Rightarrow> nat \<Rightarrow> string \<Rightarrow> (world, json) prog" where
  "mcp_get_work_context e rq name_or_id limit skip detail =
     bindP (authenticate e rq) (\<lambda>ki.
     bindP (task_serializer detail) (\<lambda>f.
     bindP (tool_project e ki name_or_id) (\<lambda>project_id.
     bindP (query_tasks (\<lambda>t. live_in project_id t \<and> t_approved t \<and> t_status t \<in> {Todo, In_progress})) (\<lambda>approved.
     bindP (query_tasks (\<lambda>t. live_in project_id t \<and> t_status t = In_progress)) (\<lambda>in_progress.
     bindP (query_tasks (\<lambda>t. live_in project_id t \<and> overdue e t)) (\<lambda>late.
     bindP (query_tasks (\<lambda>t. live_in project_id t \<and> t_needs_detail t \<and> t_status t \<notin> {Done, Cancelled})) (\<lambda>needs_detail.
     return (JObj
       [(''approved'', page_of f limit skip approved (mongo_sort e t_id list_order approved)),
        (''in_progress'', page_of f limit skip in_progress (mongo_sort e t_id list_order in_progress)),
        (''overdue'', page_of f limit skip late (mongo_sort e t_id t_due_date late)),
        (''needs_detail'', page_of f limit skip needs_detail (mongo_sort e t_id list_order needs_detail))]))))))))"

definition mcp_list_overdue_tasks :: "env \<Rightarrow> mcp_request \<Rightarrow> string \<Rightarrow> nat \<Rightarrow> nat \<Rightarrow> bool \<Rightarrow> (world, json) prog" where
  "mcp_list_overdue_tasks e rq name_or_id limit skip summary =
     bindP (authenticate e rq) (\<lambda>ki.
     bindP (tool_project e ki name_or_id) (\<lambda>project_id.
     bindP (query_tasks (\<lambda>t. live_in project_id t \<and> overdue e t)) (\<lambda>found.
     return (page_of (serialize summary) limit skip found (mongo_sort e t_id t_due_date found)))))"

definition review_filter :: "string \<Rightarrow> (task \<Rightarrow> bool) option" where
  "review_filter flag =
     (if flag = ''needs_detail'' then Some t_needs_detail
      else if flag = ''approved'' then Some t_approved
      else if flag = ''pending'' then Some (\<lambda>t. \<not> t_needs_detail t \<and> \<not> t_approved t)
      else if flag = ''all'' then Some (\<lambda>_. True)
      else None)"

definition mcp_list_review_tasks :: "env \<Rightarrow> mcp_request \<Rightarrow> string \<Rightarrow> string \<Rightarrow> nat \<Rightarrow> nat \<Rightarrow> bool \<Rightarrow> (world, json) prog" where
  "mcp_list_review_tasks e rq name_or_id flag limit skip summary =
     bindP (authenticate e rq) (\<lambda>ki.
     bindP (tool_project e ki name_or_id) (\<lambda>project_id.
     bindP (some_or (review_filter flag) (ToolError (''Invalid flag '' @ quoted flag @
       ''. Valid: needs_detail, approved, pending, all''))) (\<lambda>P.
     bindP (query_tasks (\<lambda>t. live_in project_id t \<and> P t)) (\<lambda>found.
     return (page_of (serialize summary) limit skip found (mongo_sort e t_id list_order found))))))"

definition mcp_list_approved_tasks ::
  "env \<Rightarrow> mcp_request \<Rightarrow> string \<Rightarrow> string option \<Rightarrow> nat \<Rightarrow> nat \<Rightarrow> bool \<Rightarrow> (world, json) prog" where
  "mcp_list_approved_tasks e rq name_or_id status limit skip summary =
     bindP (authenticate e rq) (\<lambda>ki.
     bindP (tool_project e ki name_or_id) (\<lambda>project_id.
     bindP (optional (truthy status) (enum_or_raise parse_status ''TaskStatus'')) (\<lambda>st.
     bindP (query_tasks (\<lambda>t. t_approved t \<and> live_in project_id t \<and> is_or_any st (t_status t))) (\<lambda>found.
     return (page_of (serialize summary) limit skip found (mongo_sort e t_id list_order found))))))"

definition mcp_get_subtasks ::
  "env \<Rightarrow> mcp_request \<Rightarrow> string \<Rightarrow> string option \<Rightarrow> nat \<Rightarrow> nat \<Rightarrow> bool \<Rightarrow> (world, json) prog" where
  "mcp_get_subtasks e rq task_id status limit skip summary =
     bindP (authenticate e rq) (\<lambda>ki.
     bindP (get_task_or_raise e task_id ki) (\<lambda>_.
     bindP (optional (truthy status) (enum_or_raise parse_status ''TaskStatus'')) (\<lambda>st.
     bindP (query_tasks (\<lambda>t. t_parent_task_id t = Some task_id \<and> \<not> t_is_deleted t \<and> is_or_any st (t_status t))) (\<lambda>found.
     return (page_of (serialize summary) limit skip found (mongo_sort e t_id list_order found))))))"

definition mcp_list_tags :: "env \<Rightarrow> mcp_request \<Rightarrow> string \<Rightarrow> (world, json) prog" where
  "mcp_list_tags e rq name_or_id =
     bindP (authenticate e rq) (\<lambda>ki.
     bindP (tool_project e ki name_or_id) (\<lambda>project_id.
     bindP (query_tasks (\<lambda>t. t_project_id t = project_id \<and> \<not> t_is_deleted t)) (\<lambda>found.
     return (JList (map JStr (sort (remdups (concat (map t_tags found)))))))))"

definition mcp_list_users :: "env \<Rightarrow> mcp_request \<Rightarrow> (world, json) prog" where
  "mcp_list_users e rq =
     bindP (authenticate e rq) (\<lambda>_.
     gets (\<lambda>w. JList (map (\<lambda>u. JObj [(''id'', JStr (u_id u)), (''name'', JStr (u_name u)), (''email'', JStr (u_email u))])
       (coll_find u_is_active (w_users w)))))"

section \<open>Searching tasks\<close>

text \<open>Case folding and substring search, as the database does for an escaped pattern with option \<open>i\<close>.\<close>

definition fold_case :: "char \<Rightarrow> char" where
  "fold_case c = (let n = (of_char c :: nat) in
     if (65 \<le> n \<and> n \<le> 90) \<or> (192 \<le> n \<and> n \<le> 222 \<and> n \<noteq> 215) then char_of (n + 32) else c)"

definition contains_folded :: "string \<Rightarrow> string \<Rightarrow> bool" where
  "contains_folded q s = is_infix (map fold_case q) (map fold_case s)"

record mcp_search_args =
  ms_query :: string
  ms_status :: "string option"
  ms_needs_detail :: "bool option"
  ms_approved :: "bool option"
  ms_limit :: nat
  ms_skip :: nat
  ms_summary :: bool

definition search_result :: "mcp_search_args \<Rightarrow> string \<Rightarrow> task list \<Rightarrow> nat \<Rightarrow> json" where
  "search_result a engine items n = JObj
     [(''items'', JList (map (serialize (ms_summary a)) items)), (''total'', JInt (int n)), (''limit'', JInt (int (ms_limit a))),
      (''skip'', JInt (int (ms_skip a))), (''_meta'', JObj [(''search_engine'', JStr engine)])]"

definition tantivy_search :: "env \<Rightarrow> mcp_search_args \<Rightarrow> string \<Rightarrow> (world, json option) prog" where
  "tantivy_search e a project_id =
     (case search_svc e of
        None \<Rightarrow> return None
      | Some svc \<Rightarrow>
          (case svc (ms_query a) project_id (ms_status a) (ms_limit a + ms_skip a) of
             None \<Rightarrow> return None
           | Some task_ids \<Rightarrow>
               if task_ids = [] then return (Some (search_result a ''tantivy'' [] 0))
               else if \<not> list_all (oid_valid e) task_ids then return None
               else
                 bindP (query_tasks (\<lambda>t. t_id t \<in> oid_canon e ` set task_ids \<and> \<not> t_is_deleted t)) (\<lambda>found.
                 let ordered = filter (\<lambda>t. is_or_any (ms_needs_detail a) (t_needs_detail t) \<and>
                       is_or_any (ms_approved a) (t_approved t)) (List.map_filter (coll_get t_id found) task_ids) in
                 return (Some (search_result a ''tantivy'' (take (ms_limit a) (drop (ms_skip a) ordered)) (length ordered))))))"

definition mcp_search_tasks :: "env \<Rightarrow> mcp_request \<Rightarrow> string \<Rightarrow> mcp_search_args \<Rightarrow> (world, json) prog" where
  "mcp_search_tasks e rq name_or_id a =
     bindP (authenticate e rq) (\<lambda>ki.
     bindP (tool_project e ki name_or_id) (\<lambda>project_id.
     bindP (tantivy_search e a project_id) (\<lambda>r.
     case r of
       Some result \<Rightarrow> return result
     | None \<Rightarrow>
         bindP (optional (truthy (ms_status a)) (enum_or_raise parse_status ''TaskStatus'')) (\<lambda>st.
         bindP (query_tasks (\<lambda>t. (contains_folded (ms_query a) (t_title t) \<or> contains_folded (ms_query a) (t_description t)) \<and>
           \<not> t_is_deleted t \<and> t_project_id t = project_id \<and> is_or_any st (t_status t) \<and>
           is_or_any (ms_needs_detail a) (t_needs_detail t) \<and> is_or_any (ms_approved a) (t_approved t))) (\<lambda>found.
         return (search_result a ''regex'' (mongo_page (ms_skip a) (ms_limit a) found) (length found)))))))"

end
