(* ===== verification/Mcp_Task_Write.thy ===== *)
theory Mcp_Task_Write
  imports Mcp_Task_Read
begin

text \<open>
  The writing half of the task tools (mcp/tools/tasks.py): create, update, delete, link, the
  lifecycle, comments, duplication and the bulk tools. An update is the list of the fields it
  sets, in the order of the dictionary the code builds; \<open>apply_field\<close> is the body of the loop
  over that dictionary. Dictionaries that a client sends (\<open>decision_context\<close>) are JSON objects;
  the items of the bulk tools carry values of the documented types, or any unknown field.
\<close>

section \<open>Arguments\<close>

definition mcp_actor :: "key_info \<Rightarrow> string" where
  "mcp_actor ki = (case truthy (ki_key_name ki) of None \<Rightarrow> ''mcp'' | Some n \<Rightarrow> ''mcp:'' @ n)"

definition validate_user_exists :: "env \<Rightarrow> string \<Rightarrow> string \<Rightarrow> (world, unit) prog" where
  "validate_user_exists e user_id field_name =
     bindP (guard (oid_valid e user_id)
       (ToolError (''Invalid '' @ field_name @ '' '' @ quoted user_id @ '': must be a valid ObjectId''))) (\<lambda>_.
     bindP (user_get e user_id) (\<lambda>u.
     guard (u \<noteq> None) (ToolError (field_name @ '' '' @ quoted user_id @ '' not found''))))"

text \<open>A pydantic field of type \<open>str\<close>.\<close>

definition str_field :: "string \<Rightarrow> json \<Rightarrow> exn + string" where
  "str_field model j = (case j of JStr s \<Rightarrow> Inr s | _ \<Rightarrow> Inl (ValidationError model))"

definition parse_option :: "json \<Rightarrow> exn + decision_option" where
  "parse_option j =
     (case j of
        JObj kvs \<Rightarrow>
          (case str_field ''DecisionOption'' (dict_get ''label'' (JStr '''') kvs) of
             Inl x \<Rightarrow> Inl x
           | Inr label \<Rightarrow>
               (case str_field ''DecisionOption'' (dict_get ''description'' (JStr '''') kvs) of
                  Inl x \<Rightarrow> Inl x
                | Inr desc \<Rightarrow> Inr \<lparr>do_label = label, do_description = desc\<rparr>))
      | _ \<Rightarrow> Inl (no_get j))"

fun parse_options :: "json list \<Rightarrow> exn + decision_option list" where
  "parse_options [] = Inr []"
| "parse_options (j # js) =
     (case parse_option j of
        Inl x \<Rightarrow> Inl x
      | Inr d \<Rightarrow> (case parse_options js of Inl x \<Rightarrow> Inl x | Inr ds \<Rightarrow> Inr (d # ds)))"

definition recommendation_field :: "json \<Rightarrow> exn + string option" where
  "recommendation_field j =
     (case j of JNull \<Rightarrow> Inr None | JStr s \<Rightarrow> Inr (Some s) | _ \<Rightarrow> Inl (ValidationError ''DecisionContext''))"

definition build_context :: "jdict \<Rightarrow> decision_option list \<Rightarrow> exn + decision_context" where
  "build_context kvs os =
     (case (str_field ''DecisionContext'' (dict_get ''background'' (JStr '''') kvs),
            str_field ''DecisionContext'' (dict_get ''decision_point'' (JStr '''') kvs),
            recommendation_field (dict_get ''recommendation'' JNull kvs)) of
        (Inr b, Inr p, Inr r) \<Rightarrow>
          Inr \<lparr>dc_background = b, dc_decision_point = p, dc_options = os, dc_recommendation = r\<rparr>
      | _ \<Rightarrow> Inl (ValidationError ''DecisionContext''))"

definition parse_decision_context :: "jdict option \<Rightarrow> exn + decision_context option" where
  "parse_decision_context value =
     (case value of
        None \<Rightarrow> Inr None
      | Some [] \<Rightarrow> Inr None
      | Some kvs \<Rightarrow>
          (case iterate (dict_get ''options'' (JList []) kvs) of
             Inl x \<Rightarrow> Inl x
           | Inr js \<Rightarrow>
               (case parse_options js of
                  Inl x \<Rightarrow> Inl x
                | Inr os \<Rightarrow> (case build_context kvs os of Inl x \<Rightarrow> Inl x | Inr c \<Rightarrow> Inr (Some c)))))"

definition lift_result :: "exn + 'a \<Rightarrow> (world, 'a) prog" where
  "lift_result r = (case r of Inl x \<Rightarrow> raise x | Inr v \<Rightarrow> return v)"

text \<open>\<open>not decision_context or not decision_context.get("decision_point")\<close>.\<close>

definition lacks_decision_point :: "jdict option \<Rightarrow> bool" where
  "lacks_decision_point dc =
     (case dc of None \<Rightarrow> True | Some kvs \<Rightarrow> kvs = [] \<or> \<not> jtruthy (dict_get ''decision_point'' JNull kvs))"

section \<open>Create\<close>

record mcp_create_args =
  ca_title :: string
  ca_description :: string
  ca_priority :: string
  ca_status :: string
  ca_task_type :: string
  ca_decision_context :: "jdict option"
  ca_due_date :: "string option"
  ca_assignee_id :: "string option"
  ca_decider_id :: "string option"
  ca_parent_task_id :: "string option"
  ca_tags :: "string list option"

definition decision_required :: string where
  "decision_required = ''decision_context with at least '' @ quoted ''decision_point'' @ '' is required when task_type='' @ quoted ''decision'' @
     ''. Provide: {background: str, decision_point: str, options: [{label, description}]}''"

definition mcp_create_task :: "env \<Rightarrow> mcp_request \<Rightarrow> string \<Rightarrow> mcp_create_args \<Rightarrow> (world, json) prog" where
  "mcp_create_task e rq name_or_id a =
     bindP (guard (length (ca_title a) \<le> 255) (ToolError ''Title exceeds maximum length of 255 characters'')) (\<lambda>_.
     bindP (guard (length (ca_description a) \<le> 10000) (ToolError ''Description exceeds maximum length of 10000 characters'')) (\<lambda>_.
     bindP (guard (ca_task_type a = ''action'' \<or> ca_task_type a = ''decision'')
       (ToolError (''Invalid task_type '' @ quoted (ca_task_type a) @ ''. Valid: action, decision''))) (\<lambda>_.
     bindP (guard (\<not> (ca_task_type a = ''decision'' \<and> lacks_decision_point (ca_decision_context a)))
       (ToolError decision_required)) (\<lambda>_.
     bindP (authenticate e rq) (\<lambda>ki.
     bindP (tool_project e ki name_or_id) (\<lambda>project_id.
     bindP (check_project_not_locked e project_id) (\<lambda>_.
     bindP (optional (truthy (ca_due_date a)) (parse_iso e)) (\<lambda>due.
     bindP (lift_result (parse_decision_context (ca_decision_context a))) (\<lambda>dc.
     bindP (case ca_decider_id a of None \<Rightarrow> return () | Some d \<Rightarrow> validate_user_exists e d ''decider_id'') (\<lambda>_.
     bindP (enum_or_raise parse_priority ''TaskPriority'' (ca_priority a)) (\<lambda>pr.
     bindP (enum_or_raise parse_status ''TaskStatus'' (ca_status a)) (\<lambda>st.
     bindP (enum_or_raise parse_task_type ''TaskType'' (ca_task_type a)) (\<lambda>ty.
     let t = (new_task (new_oid e 0) (now e) project_id (ca_title a) (mcp_actor ki))
           \<lparr>t_description := ca_description a, t_priority := pr, t_status := st, t_task_type := ty,
            t_decision_context := dc, t_decider_id := ca_decider_id a,
            t_decision_requested_at := (if ca_decider_id a = None then None else Some (now e)), t_due_date := due,
            t_assignee_id := ca_assignee_id a, t_parent_task_id := ca_parent_task_id a,
            t_tags := (case ca_tags a of None \<Rightarrow> [] | Some ts \<Rightarrow> ts)\<rparr> in
     bindP (task_insert t) (\<lambda>_.
     bindP (publish_event e project_id ''task.created'' (task_dict t)) (\<lambda>_.
     bindP (index_task e t) (\<lambda>_.
     return (task_dict t)))))))))))))))))"

section \<open>Update\<close>

datatype field_update =
    F_title string
  | F_description string
  | F_priority string
  | F_status string
  | F_task_type string
  | F_decision_context jdict
  | F_due_date string
  | F_assignee_id string
  | F_decider_id "string option"
  | F_parent_task_id "string option"
  | F_tags "string list"
  | F_completion_report string
  | F_needs_detail bool
  | F_approved bool
  | F_active_form "string option"
  | F_sort_order int
  | F_archived bool
  | F_unknown string

fun field_name :: "field_update \<Rightarrow> string" where
  "field_name (F_title _) = ''title''"
| "field_name (F_description _) = ''description''"
| "field_name (F_priority _) = ''priority''"
| "field_name (F_status _) = ''status''"
| "field_name (F_task_type _) = ''task_type''"
| "field_name (F_decision_context _) = ''decision_context''"
| "field_name (F_due_date _) = ''due_date''"
| "field_name (F_assignee_id _) = ''assignee_id''"
| "field_name (F_decider_id _) = ''decider_id''"
| "field_name (F_parent_task_id _) = ''parent_task_id''"
| "field_name (F_tags _) = ''tags''"
| "field_name (F_completion_report _) = ''completion_report''"
| "field_name (F_needs_detail _) = ''needs_detail''"
| "field_name (F_approved _) = ''approved''"
| "field_name (F_active_form _) = ''active_form''"
| "field_name (F_sort_order _) = ''sort_order''"
| "field_name (F_archived _) = ''archived''"
| "field_name (F_unknown k) = k"

definition updatable_fields :: "string list" where
  "updatable_fields =
     [''title'', ''description'', ''status'', ''priority'', ''due_date'', ''assignee_id'', ''parent_task_id'', ''tags'',
      ''needs_detail'', ''approved'', ''sort_order'', ''archived'', ''completion_report'', ''task_type'', ''decision_context'',
      ''active_form'', ''decider_id'']"

definition disallowed :: "field_update list \<Rightarrow> string list" where
  "disallowed fs = sort (remdups (filter (\<lambda>k. k \<notin> set updatable_fields) (map field_name fs)))"

definition cannot_update :: "string list \<Rightarrow> string" where
  "cannot_update ks = ''Cannot update field(s): '' @ join_with '', '' ks"

text \<open>The \<open>if/elif\<close> chain over the field; an unknown field never reaches it.\<close>

definition with_enum :: "(string \<Rightarrow> 'a option) \<Rightarrow> string \<Rightarrow> string \<Rightarrow> ('a \<Rightarrow> task) \<Rightarrow> exn + task" where
  "with_enum parse cls s f = (case parse s of None \<Rightarrow> Inl (ValueError (py_repr s @ '' is not a valid '' @ cls)) | Some v \<Rightarrow> Inr (f v))"

fun apply_field :: "env \<Rightarrow> field_update \<Rightarrow> task \<Rightarrow> exn + task" where
  "apply_field e (F_status s) t = with_enum parse_status ''TaskStatus'' s (\<lambda>v. transition_status v (now e) t)"
| "apply_field e (F_due_date s) t =
     (if s = [] then Inr (t\<lparr>t_due_date := None\<rparr>)
      else case fromisoformat e s of
        None \<Rightarrow> Inl (ValueError (''Invalid isoformat string: '' @ py_repr s))
      | Some d \<Rightarrow> Inr (t\<lparr>t_due_date := Some d\<rparr>))"
| "apply_field e (F_priority s) t = with_enum parse_priority ''TaskPriority'' s (\<lambda>v. t\<lparr>t_priority := v\<rparr>)"
| "apply_field e (F_task_type s) t = with_enum parse_task_type ''TaskType'' s (\<lambda>v. t\<lparr>t_task_type := v\<rparr>)"
| "apply_field e (F_decision_context d) t =
     (case parse_decision_context (Some d) of Inl x \<Rightarrow> Inl x | Inr c \<Rightarrow> Inr (t\<lparr>t_decision_context := c\<rparr>))"
| "apply_field e (F_decider_id v) t =
     Inr (if v \<noteq> t_decider_id t
          then t\<lparr>t_decider_id := v, t_decision_requested_at := (if truthy v = None then None else Some (now e))\<rparr>
          else t)"
| "apply_field e (F_title v) t = Inr (t\<lparr>t_title := v\<rparr>)"
| "apply_field e (F_description v) t = Inr (t\<lparr>t_description := v\<rparr>)"
| "apply_field e (F_assignee_id v) t = Inr (t\<lparr>t_assignee_id := Some v\<rparr>)"
| "apply_field e (F_parent_task_id v) t = Inr (t\<lparr>t_parent_task_id := v\<rparr>)"
| "apply_field e (F_tags v) t = Inr (t\<lparr>t_tags := v\<rparr>)"
| "apply_field e (F_completion_report v) t = Inr (t\<lparr>t_completion_report := Some v\<rparr>)"
| "apply_field e (F_needs_detail v) t = Inr (t\<lparr>t_needs_detail := v\<rparr>)"
| "apply_field e (F_approved v) t = Inr (t\<lparr>t_approved := v\<rparr>)"
| "apply_field e (F_active_form v) t = Inr (t\<lparr>t_active_form := v\<rparr>)"
| "apply_field e (F_sort_order v) t = Inr (t\<lparr>t_sort_order := v\<rparr>)"
| "apply_field e (F_archived v) t = Inr (t\<lparr>t_archived := v\<rparr>)"
| "apply_field e (F_unknown k) t = Inr t"

fun track_field :: "env \<Rightarrow> string \<Rightarrow> field_update \<Rightarrow> task \<Rightarrow> task" where
  "track_field e actor (F_status s) t =
     record_change ''status'' (Some (status_str (t_status t))) (Some s) actor Ai (now e) t"
| "track_field e actor (F_priority s) t =
     record_change ''priority'' (Some (priority_str (t_priority t))) (Some s) actor Ai (now e) t"
| "track_field e actor (F_assignee_id v) t = record_change ''assignee_id'' (t_assignee_id t) (Some v) actor Ai (now e) t"
| "track_field e actor (F_parent_task_id v) t = record_change ''parent_task_id'' (t_parent_task_id t) v actor Ai (now e) t"
| "track_field e actor (F_task_type s) t =
     record_change ''task_type'' (Some (task_type_str (t_task_type t))) (Some s) actor Ai (now e) t"
| "track_field e actor (F_needs_detail v) t =
     record_change ''needs_detail'' (Some (str_bool (t_needs_detail t))) (Some (str_bool v)) actor Ai (now e) t"
| "track_field e actor (F_approved v) t =
     record_change ''approved'' (Some (str_bool (t_approved t))) (Some (str_bool v)) actor Ai (now e) t"
| "track_field e actor (F_decider_id v) t = record_change ''decider_id'' (t_decider_id t) v actor Ai (now e) t"
| "track_field e actor _ t = t"

text \<open>The loop, with the step each tool makes of it; then the statements that follow it.\<close>

fun apply_fields :: "(field_update \<Rightarrow> task \<Rightarrow> exn + task) \<Rightarrow> field_update list \<Rightarrow> task \<Rightarrow> exn + task" where
  "apply_fields step [] t = Inr t"
| "apply_fields step (f # fs) t = (case step f t of Inl x \<Rightarrow> Inl x | Inr t' \<Rightarrow> apply_fields step fs t')"

definition settle_flags :: "field_update list \<Rightarrow> task \<Rightarrow> task" where
  "settle_flags fs t =
     (let t1 = (if F_needs_detail True \<in> set fs then t\<lparr>t_approved := False\<rparr> else t)
      in if F_approved True \<in> set fs then t1\<lparr>t_needs_detail := False\<rparr> else t1)"

record mcp_update_args =
  ua_title :: "string option"
  ua_description :: "string option"
  ua_priority :: "string option"
  ua_status :: "string option"
  ua_task_type :: "string option"
  ua_decision_context :: "jdict option"
  ua_due_date :: "string option"
  ua_assignee_id :: "string option"
  ua_decider_id :: "string option"
  ua_parent_task_id :: "string option"
  ua_tags :: "string list option"
  ua_completion_report :: "string option"
  ua_needs_detail :: "bool option"
  ua_approved :: "bool option"
  ua_active_form :: "string option"

definition given :: "'a option \<Rightarrow> ('a \<Rightarrow> field_update) \<Rightarrow> field_update list" where
  "given x f = (case x of None \<Rightarrow> [] | Some v \<Rightarrow> [f v])"

definition updates_of :: "mcp_update_args \<Rightarrow> field_update list" where
  "updates_of a =
     given (ua_title a) F_title @ given (ua_description a) F_description @ given (ua_priority a) F_priority @
     given (ua_status a) F_status @ given (ua_task_type a) F_task_type @ given (ua_decision_context a) F_decision_context @
     given (ua_due_date a) F_due_date @ given (ua_assignee_id a) F_assignee_id @
     given (ua_decider_id a) (\<lambda>v. F_decider_id (truthy (Some v))) @
     given (ua_parent_task_id a) (\<lambda>v. F_parent_task_id (truthy (Some v))) @ given (ua_tags a) F_tags @
     given (ua_completion_report a) F_completion_report @ given (ua_needs_detail a) F_needs_detail @
     given (ua_approved a) F_approved @ given (ua_active_form a) (\<lambda>v. F_active_form (truthy (Some v)))"

definition at_most :: "nat \<Rightarrow> string option \<Rightarrow> string \<Rightarrow> (world, unit) prog" where
  "at_most n x what =
     guard (case x of None \<Rightarrow> True | Some s \<Rightarrow> length s \<le> n) (ToolError what)"

definition one_of :: "string list \<Rightarrow> string \<Rightarrow> string option \<Rightarrow> (world, unit) prog" where
  "one_of valid field x =
     (case x of None \<Rightarrow> return () | Some s \<Rightarrow> guard (s \<in> set valid)
        (ToolError (''Invalid '' @ field @ '' '' @ quoted s @ ''. Valid: '' @ join_with '', '' valid)))"

definition check_mcp_parent :: "env \<Rightarrow> string \<Rightarrow> task \<Rightarrow> string \<Rightarrow> (world, unit) prog" where
  "check_mcp_parent e task_id t new_parent =
     bindP (guard (new_parent \<noteq> task_id) (ToolError ''self_reference: a task cannot be its own parent'')) (\<lambda>_.
     bindP (task_get e new_parent) (\<lambda>target0.
     bindP (some_or (not_deleted target0)
       (ToolError (''target_not_found: parent task '' @ quoted new_parent @ '' not found''))) (\<lambda>target.
     bindP (guard (t_project_id target = t_project_id t)
       (ToolError ''cross_project: parent task is in a different project'')) (\<lambda>_.
     bindP (gets (\<lambda>w. has_parent_cycle e (t_project_id t) task_id new_parent (w_tasks w))) (\<lambda>cycle_path.
     case cycle_path of
       None \<Rightarrow> return ()
     | Some path \<Rightarrow> raise (ToolError (''parent_cycle_detected: setting this parent would create a cycle (path: '' @
         join_with '' -> '' path @ '')'')))))))"

definition check_parent_arg :: "env \<Rightarrow> string \<Rightarrow> task \<Rightarrow> mcp_update_args \<Rightarrow> (world, unit) prog" where
  "check_parent_arg e task_id t a =
     (case truthy (ua_parent_task_id a) of None \<Rightarrow> return () | Some p \<Rightarrow> check_mcp_parent e task_id t p)"

definition check_decider_arg :: "env \<Rightarrow> mcp_update_args \<Rightarrow> (world, unit) prog" where
  "check_decider_arg e a =
     (case truthy (ua_decider_id a) of None \<Rightarrow> return () | Some d \<Rightarrow> validate_user_exists e d ''decider_id'')"

definition mcp_update_task :: "env \<Rightarrow> mcp_request \<Rightarrow> string \<Rightarrow> mcp_update_args \<Rightarrow> (world, json) prog" where
  "mcp_update_task e rq task_id a =
     bindP (at_most 255 (ua_title a) ''Title exceeds maximum length of 255 characters'') (\<lambda>_.
     bindP (at_most 10000 (ua_description a) ''Description exceeds maximum length of 10000 characters'') (\<lambda>_.
     bindP (at_most 10000 (ua_completion_report a) ''Completion report exceeds maximum length of 10000 characters'') (\<lambda>_.
     bindP (at_most 500 (ua_active_form a) ''active_form exceeds maximum length of 500 characters'') (\<lambda>_.
     bindP (authenticate e rq) (\<lambda>ki.
     bindP (one_of [''cancelled'', ''done'', ''in_progress'', ''on_hold'', ''todo''] ''status'' (ua_status a)) (\<lambda>_.
     bindP (one_of [''high'', ''low'', ''medium'', ''urgent''] ''priority'' (ua_priority a)) (\<lambda>_.
     bindP (one_of [''action'', ''decision''] ''task_type'' (ua_task_type a)) (\<lambda>_.
     bindP (get_task_or_raise e task_id ki) (\<lambda>t.
     bindP (check_project_not_locked e (t_project_id t)) (\<lambda>_.
     let updates = updates_of a; actor = mcp_actor ki in
     bindP (guard (disallowed updates = []) (ToolError (cannot_update (disallowed updates)))) (\<lambda>_.
     bindP (check_parent_arg e task_id t a) (\<lambda>_.
     bindP (check_decider_arg e a) (\<lambda>_.
     bindP (lift_result (apply_fields (\<lambda>f t. apply_field e f (track_field e actor f t)) updates t)) (\<lambda>t1.
     bindP (save_updated e (settle_flags updates t1)) (\<lambda>t2.
     bindP (whenP (F_approved True \<in> set updates)
       (bindP (cascade_approve_subtasks e (t_id t2) actor) (\<lambda>_. return ()))) (\<lambda>_.
     bindP (publish_event e (t_project_id t2) ''task.updated'' (task_dict t2)) (\<lambda>_.
     bindP (index_task e t2) (\<lambda>_.
     return (task_dict t2)))))))))))))))))))"

section \<open>Delete and link\<close>

text \<open>The preamble of the tools that write one task.\<close>

definition tool_task :: "env \<Rightarrow> mcp_request \<Rightarrow> string \<Rightarrow> (world, key_info \<times> task) prog" where
  "tool_task e rq task_id =
     bindP (authenticate e rq) (\<lambda>ki.
     bindP (get_task_or_raise e task_id ki) (\<lambda>t.
     bindP (check_project_not_locked e (t_project_id t)) (\<lambda>_.
     return (ki, t))))"

definition mcp_delete_task :: "env \<Rightarrow> mcp_request \<Rightarrow> string \<Rightarrow> bool \<Rightarrow> (world, json) prog" where
  "mcp_delete_task e rq task_id force =
     bindP (tool_task e rq task_id) (\<lambda>(ki, t).
     bindP (list_dependents (t_project_id t) task_id) (\<lambda>dependents.
     bindP (guard (dependents = [] \<or> force)
       (ToolError (''blocks_dependents: task is blocking other tasks ('' @ join_with '', '' (map t_id dependents) @
          ''). Pass force=true to purge references and delete anyway.''))) (\<lambda>_.
     let actor = ''mcp:'' @ (case ki_key_id ki of None \<Rightarrow> ''unknown'' | Some k \<Rightarrow> k) in
     bindP (if dependents \<noteq> [] \<and> force then cleanup_dependents e task_id (t_project_id t) actor else return []) (\<lambda>cleaned.
     bindP (save_updated e (t\<lparr>t_is_deleted := True\<rparr>)) (\<lambda>_.
     bindP (publish_event e (t_project_id t) ''task.deleted'' (JObj [(''id'', JStr task_id)])) (\<lambda>_.
     bindP (forP cleaned (\<lambda>dep. publish_event e (t_project_id t) ''task.updated'' (task_dict dep))) (\<lambda>_.
     bindP (deindex_task e task_id) (\<lambda>_.
     return (JObj [(''success'', JBool True), (''task_id'', JStr task_id),
       (''cleaned_dependents'', JList (map (\<lambda>d. JStr (t_id d)) cleaned))])))))))))"

fun link_tool_error :: "exn \<Rightarrow> exn" where
  "link_tool_error (TaskLinkError msg (SelfReferenceError t)) = ToolError (''self_reference: '' @ msg)"
| "link_tool_error (TaskLinkError msg (TargetNotFoundError t)) = ToolError (''target_not_found: '' @ msg)"
| "link_tool_error (TaskLinkError msg (CrossProjectError a b)) = ToolError (''cross_project: '' @ msg)"
| "link_tool_error (TaskLinkError msg (DuplicateLinkError s t)) = ToolError (''duplicate_link: '' @ msg)"
| "link_tool_error (TaskLinkError msg (CycleError p)) = ToolError (''cycle_detected: would form cycle '' @ join_with '' -> '' p)"
| "link_tool_error x = x"

fun unlink_tool_error :: "exn \<Rightarrow> exn" where
  "unlink_tool_error (TaskLinkError msg (LinkNotFoundError s t)) = ToolError (''link_not_found: '' @ msg)"
| "unlink_tool_error x = x"

definition link_tool_events ::
  "env \<Rightarrow> string \<Rightarrow> string \<Rightarrow> string \<Rightarrow> string \<Rightarrow> string \<Rightarrow> task \<Rightarrow> task \<Rightarrow> (world, json) prog" where
  "link_tool_events e project_id event_type source_id target_id relation source target =
     bindP (publish_event e project_id event_type
       (JObj [(''source_id'', JStr source_id), (''target_id'', JStr target_id), (''relation'', JStr relation)])) (\<lambda>_.
     bindP (publish_event e project_id ''task.updated'' (task_dict source)) (\<lambda>_.
     bindP (publish_event e project_id ''task.updated'' (task_dict target)) (\<lambda>_.
     return (JObj [(''success'', JBool True), (''source'', task_dict source), (''target'', task_dict target)]))))"

definition mcp_link_tasks :: "env \<Rightarrow> mcp_request \<Rightarrow> string \<Rightarrow> string \<Rightarrow> string \<Rightarrow> (world, json) prog" where
  "mcp_link_tasks e rq source_id target_id relation =
     bindP (guard (relation = ''blocks'') (ToolError (''Unsupported relation: '' @ py_repr relation))) (\<lambda>_.
     bindP (authenticate e rq) (\<lambda>ki.
     bindP (get_task_or_raise e source_id ki) (\<lambda>source.
     bindP (get_task_or_raise e target_id ki) (\<lambda>_.
     bindP (check_project_not_locked e (t_project_id source)) (\<lambda>_.
     bindP (catchP (link e source_id target_id relation (mcp_actor ki)) (\<lambda>x. raise (link_tool_error x))) (\<lambda>(s, t).
     link_tool_events e (t_project_id source) ''task.linked'' source_id target_id relation s t))))))"

definition mcp_unlink_tasks :: "env \<Rightarrow> mcp_request \<Rightarrow> string \<Rightarrow> string \<Rightarrow> string \<Rightarrow> (world, json) prog" where
  "mcp_unlink_tasks e rq source_id target_id relation =
     bindP (guard (relation = ''blocks'') (ToolError (''Unsupported relation: '' @ py_repr relation))) (\<lambda>_.
     bindP (authenticate e rq) (\<lambda>ki.
     bindP (get_task_or_raise e source_id ki) (\<lambda>source.
     bindP (get_task_or_raise e target_id ki) (\<lambda>_.
     bindP (check_project_not_locked e (t_project_id source)) (\<lambda>_.
     bindP (catchP (unlink e source_id target_id relation (mcp_actor ki)) (\<lambda>x. raise (unlink_tool_error x))) (\<lambda>(s, t).
     link_tool_events e (t_project_id source) ''task.unlinked'' source_id target_id relation s t))))))"

section \<open>Lifecycle and comments\<close>

definition complete_document :: "env \<Rightarrow> string \<Rightarrow> task \<Rightarrow> task" where
  "complete_document e actor t =
     (if t_status t \<noteq> Done
      then (record_change ''status'' (Some (status_str (t_status t))) (Some ''done'') actor Ai (now e) t)
             \<lparr>t_status := Done, t_completed_at := Some (now e)\<rparr>
      else t)"

definition set_report :: "string option \<Rightarrow> task \<Rightarrow> task" where
  "set_report completion_report t = (case completion_report of None \<Rightarrow> t | Some r \<Rightarrow> t\<lparr>t_completion_report := Some r\<rparr>)"

definition mcp_complete_task :: "env \<Rightarrow> mcp_request \<Rightarrow> string \<Rightarrow> string option \<Rightarrow> (world, json) prog" where
  "mcp_complete_task e rq task_id completion_report =
     bindP (at_most 10000 completion_report ''Completion report exceeds maximum length of 10000 characters'') (\<lambda>_.
     bindP (tool_task e rq task_id) (\<lambda>(ki, t).
     let was_done = (t_status t = Done); changed = (\<not> was_done \<or> completion_report \<noteq> None);
         t1 = set_report completion_report (complete_document e (mcp_actor ki) t) in
     if \<not> changed then return (task_dict t)
     else
       bindP (save_updated e t1) (\<lambda>t2.
       bindP (publish_event e (t_project_id t2) ''task.updated'' (task_dict t2)) (\<lambda>_.
       bindP (whenP (\<not> was_done) (publish_event e (t_project_id t2) ''task.completed'' (task_dict t2))) (\<lambda>_.
       bindP (index_task e t2) (\<lambda>_.
       bindP (resolve_linked_issues e (t_id t2)) (\<lambda>_.
       return (task_dict t2))))))))"

definition mcp_reopen_task :: "env \<Rightarrow> mcp_request \<Rightarrow> string \<Rightarrow> (world, json) prog" where
  "mcp_reopen_task e rq task_id =
     bindP (tool_task e rq task_id) (\<lambda>(ki, t).
     let t1 = (record_change ''status'' (Some (status_str (t_status t))) (Some ''todo'') (mcp_actor ki) Ai (now e) t)
           \<lparr>t_status := Todo, t_completed_at := None\<rparr> in
     bindP (save_updated e t1) (\<lambda>t2.
     bindP (publish_event e (t_project_id t2) ''task.updated'' (task_dict t2)) (\<lambda>_.
     bindP (index_task e t2) (\<lambda>_.
     return (task_dict t2)))))"

definition mcp_archive_task :: "env \<Rightarrow> mcp_request \<Rightarrow> string \<Rightarrow> (world, json) prog" where
  "mcp_archive_task e rq task_id =
     bindP (tool_task e rq task_id) (\<lambda>(_, t).
     bindP (save_updated e (t\<lparr>t_archived := True\<rparr>)) (\<lambda>t2.
     bindP (publish_event e (t_project_id t2) ''task.updated'' (task_dict t2)) (\<lambda>_.
     bindP (index_task e t2) (\<lambda>_.
     bindP (ignore_linked_issues e (t_id t2)) (\<lambda>_.
     return (task_dict t2))))))"

definition mcp_unarchive_task :: "env \<Rightarrow> mcp_request \<Rightarrow> string \<Rightarrow> (world, json) prog" where
  "mcp_unarchive_task e rq task_id =
     bindP (tool_task e rq task_id) (\<lambda>(_, t).
     bindP (save_updated e (t\<lparr>t_archived := False\<rparr>)) (\<lambda>t2.
     bindP (publish_event e (t_project_id t2) ''task.updated'' (task_dict t2)) (\<lambda>_.
     bindP (index_task e t2) (\<lambda>_.
     return (task_dict t2)))))"

definition mcp_add_comment :: "env \<Rightarrow> mcp_request \<Rightarrow> string \<Rightarrow> string \<Rightarrow> (world, json) prog" where
  "mcp_add_comment e rq task_id content =
     bindP (authenticate e rq) (\<lambda>ki.
     bindP (guard (length content \<le> 10000) (ToolError ''Comment content exceeds maximum length of 10000 characters'')) (\<lambda>_.
     bindP (get_task_or_raise e task_id ki) (\<lambda>t.
     bindP (check_project_not_locked e (t_project_id t)) (\<lambda>_.
     let author_name = (case ki_key_name ki of None \<Rightarrow> ''Claude'' | Some n \<Rightarrow> n);
         comment = new_comment e content ''mcp'' author_name in
     bindP (save_updated e (t\<lparr>t_comments := t_comments t @ [comment]\<rparr>)) (\<lambda>t1.
     bindP (publish_event e (t_project_id t1) ''comment.added''
       (JObj [(''task_id'', JStr task_id), (''comment'', comment_to_dict comment)])) (\<lambda>_.
     bindP (index_task e t1) (\<lambda>_.
     return (task_dict t1))))))))"

definition mcp_delete_comment :: "env \<Rightarrow> mcp_request \<Rightarrow> string \<Rightarrow> string \<Rightarrow> (world, json) prog" where
  "mcp_delete_comment e rq task_id comment_id =
     bindP (tool_task e rq task_id) (\<lambda>(_, t).
     bindP (some_or (List.find (\<lambda>c. cm_id c = comment_id) (t_comments t)) (ToolError ''Comment not found'')) (\<lambda>_.
     bindP (save_updated e (t\<lparr>t_comments := filter (\<lambda>c. cm_id c \<noteq> comment_id) (t_comments t)\<rparr>)) (\<lambda>t1.
     bindP (publish_event e (t_project_id t1) ''comment.deleted''
       (JObj [(''task_id'', JStr task_id), (''comment_id'', JStr comment_id)])) (\<lambda>_.
     bindP (index_task e t1) (\<lambda>_.
     return (task_dict t1))))))"

definition copy_suffix :: string where
  "copy_suffix = utf8 [239, 188, 136, 227, 130, 179, 227, 131, 148, 227, 131, 188, 239, 188, 137]"

definition mcp_duplicate_task ::
  "env \<Rightarrow> mcp_request \<Rightarrow> string \<Rightarrow> string option \<Rightarrow> string option \<Rightarrow> (world, json) prog" where
  "mcp_duplicate_task e rq task_id project title =
     bindP (authenticate e rq) (\<lambda>ki.
     bindP (get_task_or_raise e task_id ki) (\<lambda>source.
     bindP (case truthy project of None \<Rightarrow> return (t_project_id source) | Some p \<Rightarrow> tool_project e ki p) (\<lambda>target_project_id.
     bindP (check_project_not_locked e target_project_id) (\<lambda>_.
     let t = (new_task (new_oid e 0) (now e) target_project_id
             (case truthy title of None \<Rightarrow> t_title source @ copy_suffix | Some x \<Rightarrow> x) (mcp_actor ki))
           \<lparr>t_description := t_description source, t_priority := t_priority source, t_task_type := t_task_type source,
            t_decision_context := t_decision_context source, t_tags := t_tags source, t_due_date := t_due_date source\<rparr> in
     bindP (task_insert t) (\<lambda>_.
     bindP (publish_event e target_project_id ''task.created'' (task_dict t)) (\<lambda>_.
     bindP (index_task e t) (\<lambda>_.
     return (task_dict t))))))))"

section \<open>Bulk tools\<close>

text \<open>
  \<open>str(e)\<close> of an exception the loop over the items catches. The texts of foreign exceptions
  (of the database driver and of pydantic) are parameters.
\<close>

fun exn_str :: "env \<Rightarrow> exn \<Rightarrow> string" where
  "exn_str e (ToolError m) = m"
| "exn_str e (McpAuthError m) = m"
| "exn_str e (ValueError m) = m"
| "exn_str e (AttributeError m) = m"
| "exn_str e (TypeError m) = m"
| "exn_str e (KeyError k) = py_repr k"
| "exn_str e x = exn_text e x"

text \<open>
  The first phase of the bulk tools: per item, a document to save or an entry for the
  \<open>failed\<close> list; whatever is raised becomes such an entry.
\<close>

record bulk =
  bk_to_save :: "task list"
  bk_failed :: "json list"

definition bulk_item :: "env \<Rightarrow> (exn \<Rightarrow> json) \<Rightarrow> (world, json + task) prog \<Rightarrow> bulk \<Rightarrow> (world, bulk) prog" where
  "bulk_item e entry m b =
     catchP
       (bindP m (\<lambda>r. return (case r of
          Inl j \<Rightarrow> b\<lparr>bk_failed := bk_failed b @ [j]\<rparr>
        | Inr t \<Rightarrow> b\<lparr>bk_to_save := bk_to_save b @ [t]\<rparr>)))
       (\<lambda>x. return (b\<lparr>bk_failed := bk_failed b @ [entry x]\<rparr>))"

definition no_bulk :: bulk where
  "no_bulk = \<lparr>bk_to_save = [], bk_failed = []\<rparr>"

definition bulk_fetch :: "env \<Rightarrow> key_info \<Rightarrow> string \<Rightarrow> (task \<Rightarrow> json + task) \<Rightarrow> (world, json + task) prog" where
  "bulk_fetch e ki task_id f =
     bindP (task_get e task_id) (\<lambda>task0.
     case not_deleted task0 of
       None \<Rightarrow> return (Inl (failure task_id ''Task not found''))
     | Some t \<Rightarrow>
         bindP (mcp_check_project_access e (t_project_id t) ki) (\<lambda>_.
         bindP (check_project_not_locked e (t_project_id t)) (\<lambda>_.
         return (f t))))"

text \<open>
  The last phases: what was saved, one event per project that has a saved task. The order of
  the projects is that of the first saved task of each; the code iterates over a set.
\<close>

definition save_failures :: "env \<Rightarrow> (task \<times> bool) list \<Rightarrow> json list" where
  "save_failures e results = map (\<lambda>(t, _). failure (t_id t) (save_error e (t_id t))) (filter (\<lambda>(_, ok). \<not> ok) results)"

definition bulk_events :: "env \<Rightarrow> (task \<times> bool) list \<Rightarrow> (world, unit) prog" where
  "bulk_events e results =
     (let saved = map fst (filter snd results) in
      forP (distinct_in_order (map t_project_id saved)) (\<lambda>pid.
        publish_event e pid ''tasks.batch_updated'' (JObj [(''count'', JInt (int (length
          (filter (\<lambda>(t, _). t_project_id t = pid \<and> task_dict t \<in> set (map (\<lambda>t. task_dict t) saved)) results))))])))"

definition bulk_result :: "env \<Rightarrow> string \<Rightarrow> bulk \<Rightarrow> (task \<times> bool) list \<Rightarrow> json" where
  "bulk_result e key b results = JObj
     [(key, JList (map (\<lambda>t. task_dict t) (map fst (filter snd results)))),
      (''failed'', JList (bk_failed b @ save_failures e results))]"

record mcp_batch_item =
  mb_task_id :: "string option"
  mb_fields :: "field_update option list"

definition batch_update_fields :: "env \<Rightarrow> string \<Rightarrow> field_update list \<Rightarrow> task \<Rightarrow> (world, json + task) prog" where
  "batch_update_fields e task_id fs t =
     (if disallowed fs \<noteq> [] then return (Inl (failure task_id (cannot_update (disallowed fs))))
      else if ''parent_task_id'' \<in> set (map field_name fs)
        then return (Inl (failure task_id ''Cannot update field(s): parent_task_id (use update_task)''))
      else bindP (lift_result (apply_fields (apply_field e) fs t)) (\<lambda>t1.
           return (Inr (settle_flags fs t1))))"

definition batch_update_one :: "env \<Rightarrow> key_info \<Rightarrow> mcp_batch_item \<Rightarrow> (world, json + task) prog" where
  "batch_update_one e ki item =
     (case truthy (mb_task_id item) of
        None \<Rightarrow> return (Inl (JObj [(''task_id'', JNull), (''error'', JStr ''task_id required'')]))
      | Some task_id \<Rightarrow>
          bindP (bulk_fetch e ki task_id Inr) (\<lambda>r.
          case r of
            Inl j \<Rightarrow> return (Inl j)
          | Inr t \<Rightarrow> batch_update_fields e task_id (List.map_filter id (mb_fields item)) t))"

definition mcp_batch_update_tasks :: "env \<Rightarrow> mcp_request \<Rightarrow> mcp_batch_item list \<Rightarrow> (world, json) prog" where
  "mcp_batch_update_tasks e rq items =
     bindP (authenticate e rq) (\<lambda>ki.
     bindP (foldP (\<lambda>item. bulk_item e
         (\<lambda>x. JObj [(''task_id'', jopt JStr (mb_task_id item)), (''error'', JStr (exn_str e x))]) (batch_update_one e ki item))
       items no_bulk) (\<lambda>b.
     bindP (gather_saves e (bk_to_save b)) (\<lambda>results.
     let saved = map fst (filter snd results) in
     bindP (forP saved (index_task e)) (\<lambda>_.
     bindP (bulk_events e results) (\<lambda>_.
     bindP (forP items (\<lambda>item.
         case truthy (mb_task_id item) of
           None \<Rightarrow> return ()
         | Some tid \<Rightarrow>
             whenP (tid \<in> t_id ` set saved \<and> Some (F_approved True) \<in> set (mb_fields item))
               (bindP (cascade_approve_subtasks e tid (mcp_actor ki)) (\<lambda>_. return ())))) (\<lambda>_.
     return (bulk_result e ''updated'' b results)))))))"

definition task_entry :: "env \<Rightarrow> string \<Rightarrow> exn \<Rightarrow> json" where
  "task_entry e tid x = failure tid (exn_str e x)"

definition mcp_bulk_complete_tasks :: "env \<Rightarrow> mcp_request \<Rightarrow> string list \<Rightarrow> string option \<Rightarrow> (world, json) prog" where
  "mcp_bulk_complete_tasks e rq task_ids completion_report =
     bindP (authenticate e rq) (\<lambda>ki.
     bindP (foldP (\<lambda>tid. bulk_item e (task_entry e tid) (bulk_fetch e ki tid (\<lambda>t.
         Inr (set_report completion_report
           (if t_status t \<noteq> Done then t\<lparr>t_status := Done, t_completed_at := Some (now e)\<rparr> else t)))))
       task_ids no_bulk) (\<lambda>b.
     bindP (gather_saves e (bk_to_save b)) (\<lambda>results.
     bindP (forP (map fst (filter snd results)) (\<lambda>t.
       bindP (index_task e t) (\<lambda>_. bindP (resolve_linked_issues e (t_id t)) (\<lambda>_. return ())))) (\<lambda>_.
     bindP (bulk_events e results) (\<lambda>_.
     return (bulk_result e ''completed'' b results))))))"

definition mcp_bulk_archive_tasks :: "env \<Rightarrow> mcp_request \<Rightarrow> string list \<Rightarrow> (world, json) prog" where
  "mcp_bulk_archive_tasks e rq task_ids =
     bindP (authenticate e rq) (\<lambda>ki.
     bindP (foldP (\<lambda>tid. bulk_item e (task_entry e tid) (bulk_fetch e ki tid (\<lambda>t. Inr (t\<lparr>t_archived := True\<rparr>))))
       task_ids no_bulk) (\<lambda>b.
     bindP (gather_saves e (bk_to_save b)) (\<lambda>results.
     bindP (forP (map fst (filter snd results)) (\<lambda>t. bindP (ignore_linked_issues e (t_id t)) (\<lambda>_. return ()))) (\<lambda>_.
     bindP (bulk_events e results) (\<lambda>_.
     return (bulk_result e ''archived'' b results))))))"

text \<open>Creating a batch: a key of an item is \<open>None\<close> when the client left it out.\<close>

record mcp_create_item =
  ci_title :: "string option"
  ci_description :: "string option"
  ci_priority :: "string option"
  ci_status :: "string option"
  ci_task_type :: "string option"
  ci_decision_context :: "jdict option"
  ci_due_date :: "string option"
  ci_assignee_id :: "string option"
  ci_parent_task_id :: "string option"
  ci_tags :: "string list option"

definition or_default :: "'a \<Rightarrow> 'a option \<Rightarrow> 'a" where
  "or_default d x = (case x of None \<Rightarrow> d | Some v \<Rightarrow> v)"

definition title_failure :: "json \<Rightarrow> string \<Rightarrow> json" where
  "title_failure title err = JObj [(''title'', title), (''error'', JStr err)]"

definition batch_create_one :: "env \<Rightarrow> string \<Rightarrow> string \<Rightarrow> mcp_create_item \<Rightarrow> (world, json + task) prog" where
  "batch_create_one e project_id creator item =
     (let title = or_default '''' (ci_title item); desc = or_default '''' (ci_description item) in
      if length title > 255
        then return (Inl (title_failure (JStr (take 50 title)) ''Title exceeds maximum length of 255 characters''))
      else if length desc > 10000
        then return (Inl (title_failure (JStr title) ''Description exceeds maximum length of 10000 characters''))
      else
        bindP (optional (truthy (ci_due_date item)) (parse_iso e)) (\<lambda>due.
        bindP (enum_or_raise parse_task_type ''TaskType'' (or_default ''action'' (ci_task_type item))) (\<lambda>ty.
        if ty = Decision \<and> lacks_decision_point (ci_decision_context item)
          then return (Inl (title_failure (JStr title) ''decision_context with decision_point is required for decision tasks''))
        else
          bindP (lift_result (parse_decision_context (ci_decision_context item))) (\<lambda>dc.
          bindP (some_or (ci_title item) (KeyError ''title'')) (\<lambda>title.
          bindP (enum_or_raise parse_priority ''TaskPriority'' (or_default ''medium'' (ci_priority item))) (\<lambda>pr.
          bindP (enum_or_raise parse_status ''TaskStatus'' (or_default ''todo'' (ci_status item))) (\<lambda>st.
          return (Inr ((new_task '''' (now e) project_id title creator)
            \<lparr>t_description := desc, t_priority := pr, t_status := st, t_task_type := ty, t_decision_context := dc,
             t_due_date := due, t_assignee_id := ci_assignee_id item, t_parent_task_id := ci_parent_task_id item,
             t_tags := or_default [] (ci_tags item)\<rparr>)))))))))"

text \<open>
  \<open>insert_many\<close>, and the loop of single inserts that follows when it raises: the documents
  reported as created, and the entries for those whose insert raised.
\<close>

definition identify :: "(nat \<Rightarrow> string) \<Rightarrow> task list \<Rightarrow> task list" where
  "identify f ts = map (\<lambda>(i, t). t\<lparr>t_id := f i\<rparr>) (enumerate 0 ts)"

definition insert_all :: "task list \<Rightarrow> (world, unit) prog" where
  "insert_all ts = forP ts task_insert"

definition insert_batch :: "env \<Rightarrow> task list \<Rightarrow> (world, task list \<times> json list) prog" where
  "insert_batch e ts =
     (case insert_many_stops e of
        None \<Rightarrow> bindP (insert_all (identify (new_oid e) ts)) (\<lambda>_. return (identify (insert_many_id e) ts, []))
      | Some k \<Rightarrow>
          bindP (insert_all (identify (new_oid e) (take k ts))) (\<lambda>_.
          let docs = enumerate 0 (identify (\<lambda>i. new_oid e (length ts + i)) ts);
              ok = map snd (filter (\<lambda>(i, _). \<not> insert_raises e i) docs) in
          bindP (insert_all ok) (\<lambda>_.
          return (ok, map (\<lambda>(_, t). title_failure (JStr (t_title t)) (save_error e (t_id t)))
            (filter (\<lambda>(i, _). insert_raises e i) docs)))))"

definition mcp_batch_create_tasks :: "env \<Rightarrow> mcp_request \<Rightarrow> string \<Rightarrow> mcp_create_item list \<Rightarrow> (world, json) prog" where
  "mcp_batch_create_tasks e rq name_or_id items =
     bindP (authenticate e rq) (\<lambda>ki.
     bindP (tool_project e ki name_or_id) (\<lambda>project_id.
     bindP (check_project_not_locked e project_id) (\<lambda>_.
     bindP (foldP (\<lambda>item. bulk_item e (\<lambda>x. title_failure (jopt JStr (ci_title item)) (exn_str e x))
         (batch_create_one e project_id (mcp_actor ki) item)) items no_bulk) (\<lambda>b.
     bindP (if bk_to_save b = [] then return ([], []) else insert_batch e (bk_to_save b)) (\<lambda>(created, failed).
     bindP (whenP (created \<noteq> []) (publish_event e project_id ''tasks.batch_created''
       (JObj [(''count'', JInt (int (length created)))]))) (\<lambda>_.
     bindP (forP created (index_task e)) (\<lambda>_.
     return (JObj [(''created'', JList (map (\<lambda>t. task_dict t) created)), (''failed'', JList (bk_failed b @ failed))]))))))))"

end
