(* ===== verification/Mcp_Safety.thy ===== *)
theory Mcp_Safety
  imports Mcp_Task_Write
begin

text \<open>
  What the task tools of the MCP server keep. The tools share the frames of the REST handlers:
  \<open>safe_step e W\<close> and \<open>project_step e W\<close>, where \<open>W\<close> is now the set of projects the authenticated
  caller may write (a member or an administrator, and the project neither locked nor
  archived). The locale \<open>tool_frame\<close> gives the rules by which a tool is executed symbolically
  under such a frame; \<open>mcp_call\<close> dispatches the calls of the server to the tools.
\<close>

section \<open>Who may write what\<close>

definition may_use :: "env \<Rightarrow> world \<Rightarrow> key_info \<Rightarrow> string \<Rightarrow> bool" where
  "may_use e w ki pid \<longleftrightarrow> oid_valid e pid \<and> (\<exists>p. coll_get p_id (w_projects w) (oid_canon e pid) = Some p \<and>
     (ki_is_admin ki \<or> ki_user_id ki \<noteq> [] \<and> has_member p (ki_user_id ki)))"

definition unlocked :: "env \<Rightarrow> world \<Rightarrow> string \<Rightarrow> bool" where
  "unlocked e w pid \<longleftrightarrow> oid_valid e pid \<and> (\<exists>p. coll_get p_id (w_projects w) (oid_canon e pid) = Some p \<and>
     p_status p \<noteq> Archived \<and> \<not> p_is_locked p)"

definition writable :: "env \<Rightarrow> world \<Rightarrow> key_info \<Rightarrow> string set" where
  "writable e w ki = {pid. may_use e w ki pid \<and> unlocked e w pid}"

definition caller_writes :: "env \<Rightarrow> mcp_request \<Rightarrow> world \<Rightarrow> string set" where
  "caller_writes e rq w = (case authenticate e rq w of (Inr ki, _) \<Rightarrow> writable e w ki | (Inl _, _) \<Rightarrow> {})"

lemma same_store_access:
  assumes "same_store w w'"
  shows "may_use e w' ki pid \<longleftrightarrow> may_use e w ki pid" "unlocked e w' pid \<longleftrightarrow> unlocked e w pid"
    "writable e w' ki = writable e w ki" "tasks_ok e w' \<longleftrightarrow> tasks_ok e w" "fresh_oid e w' x \<longleftrightarrow> fresh_oid e w x"
  using assms by (simp_all add: same_store_def may_use_def unlocked_def writable_def tasks_ok_def fresh_oid_def)

section \<open>Steps that write no document\<close>

lemma keeps_cache: "keeps same_store (modify (\<lambda>w. w\<lparr>w_auth_cache := f w\<rparr>))"
  "keeps same_store (modify (\<lambda>w. w\<lparr>w_api_keys := g w\<rparr>))" "keeps same_store (modify (\<lambda>w. w\<lparr>w_project_cache := h w\<rparr>))"
  by (rule quiet.keeps_modify, simp add: same_store_def)+

lemma keeps_case_token:
  "(\<And>c. keeps R (f c)) \<Longrightarrow> keeps R m \<Longrightarrow> keeps R n \<Longrightarrow>
   keeps R (case x of NoToken \<Rightarrow> m | TokenFailure \<Rightarrow> n | Token c \<Rightarrow> f c)"
  by (cases x) simp_all

lemma keeps_user_get: "keeps same_store (user_get e x)"
  unfolding user_get_def by (intro quiet.keeps_intros)

lemma authenticate_quiet: "keeps same_store (authenticate e rq)"
  unfolding authenticate_def resolve_api_key_user_def resolve_oauth_user_def cache_lookup_def key_owner_def touch_key_def Let_def
  by (intro quiet.keeps_intros keeps_case_token keeps_cache keeps_user_get)

lemma resolve_quiet: "keeps same_store (resolve_project_id e n)"
  unfolding resolve_project_id_def by (intro quiet.keeps_intros keeps_cache)

text \<open>Steps that do not touch the state at all.\<close>

interpretation still: frame "(=)"
  by unfold_locales simp_all

lemma still_lift: "keeps (=) (lift_result r)"
  by (cases r) (simp_all add: lift_result_def still.keeps_intros)

lemma still_steps:
  "(\<And>v. keeps (=) (f v)) \<Longrightarrow> keeps (=) (optional x f)" "keeps (=) (enum_or_raise parse cls s)" "keeps (=) (parse_iso e s)"
  "keeps (=) (at_most n y what)" "keeps (=) (one_of vs k y)" "keeps (=) (task_get e s)" "keeps (=) (project_get e s)"
  "keeps (=) (user_get e s)" "keeps (=) (query_tasks P)" "keeps (=) (task_serializer s)"
  unfolding optional_def enum_or_raise_def parse_iso_def at_most_def one_of_def task_get_def project_get_def user_get_def
    query_tasks_def task_serializer_def
  by (intro still.keeps_intros; simp)+

lemma still_checks:
  "keeps (=) (validate_user_exists e u f)" "keeps (=) (mcp_check_project_access e pid ki)"
  "keeps (=) (check_project_not_locked e pid)" "keeps (=) (live_project e pid)"
  unfolding validate_user_exists_def mcp_check_project_access_def check_project_not_locked_def live_project_def
  by (intro still.keeps_intros still_steps)+

lemma still_task: "keeps (=) (get_task_or_raise e tid ki)"
  unfolding get_task_or_raise_def by (intro still.keeps_intros still_steps still_checks)

lemma still_dates: "keeps (=) (parse_date_filter e v)"
  unfolding parse_date_filter_def add_days_def by (intro still.keeps_intros still_steps)

lemma still_filter: "keeps (=) (list_filter e a)"
  unfolding list_filter_def by (intro still.keeps_intros still_steps still_dates)

lemma still_parent: "keeps (=) (check_parent_arg e tid t a)" "keeps (=) (check_decider_arg e a)"
  unfolding check_parent_arg_def check_mcp_parent_def check_decider_arg_def
  by (intro still.keeps_intros still_steps still_checks)+

lemma still_tantivy: "keeps (=) (tantivy_search e a pid)"
  unfolding tantivy_search_def by (intro still.keeps_intros still_steps)

lemmas still_intros = still.keeps_intros still_lift still_steps still_checks still_task still_dates still_filter
  still_parent still_tantivy

lemma still_quiet: "keeps (=) m \<Longrightarrow> keeps same_store m"
  unfolding keeps_def using quiet.refl by metis

lemma tool_project_quiet: "keeps same_store (tool_project e ki n)"
  unfolding tool_project_def by (intro quiet.keeps_intros resolve_quiet still_quiet [OF still_checks(2)])

text \<open>What the checks establish about the task or project they let through.\<close>

lemma access_given: "mcp_check_project_access e pid ki w = (Inr p, w') \<Longrightarrow> may_use e w ki pid"
  by (auto simp: mcp_check_project_access_def may_use_def project_get_def bindP_def gets_def guard_def return_def raise_def
      split: if_splits option.splits)

lemma unlocked_given: "check_project_not_locked e pid w = (Inr u, w') \<Longrightarrow> unlocked e w pid"
  by (auto simp: check_project_not_locked_def unlocked_def project_get_def bindP_def gets_def guard_def return_def raise_def
      split: if_splits option.splits)

lemma task_given:
  assumes "get_task_or_raise e tid ki w = (Inr t, w')"
  shows "editable e w (t_project_id t) tid t \<and> may_use e w ki (t_project_id t)"
proof -
  from assms obtain p where "mcp_check_project_access e (t_project_id t) ki w = (Inr p, w')"
    and "editable e w (t_project_id t) tid t"
    by (auto simp: get_task_or_raise_def task_get_def bindP_def gets_def some_or_def return_def raise_def editable_def
        not_deleted_def split: if_splits option.splits prod.splits sum.splits)
  with access_given show ?thesis by blast
qed

lemma project_given:
  assumes "tool_project e ki n w = (Inr pid, w')"
  shows "may_use e w' ki pid"
proof -
  obtain w1 p where "resolve_project_id e n w = (Inr pid, w1)" "mcp_check_project_access e pid ki w1 = (Inr p, w')"
    using assms by (auto simp: tool_project_def bindP_def return_def split: prod.splits sum.splits)
  moreover from this(2) still_checks(2) have "w' = w1" by (metis keeps_def snd_conv)
  ultimately show ?thesis using access_given by simp
qed

section \<open>Running a tool under a frame\<close>

locale tool_frame = frame R for R :: "world \<Rightarrow> world \<Rightarrow> bool" +
  assumes quiet: "same_store w w' \<Longrightarrow> R w w'"
begin

definition runs :: "world \<Rightarrow> (world, 'a) prog \<Rightarrow> bool" where
  "runs w m \<longleftrightarrow> wp m (\<lambda>_. R w) (\<lambda>_. R w) w"

lemma runs_iff: "runs w m \<longleftrightarrow> R w (snd (m w))"
  by (simp add: runs_def wp_snd)

lemma runs_quiet_then:
  assumes "keeps same_store m" and "\<And>x w'. same_store w w' \<Longrightarrow> m w = (Inr x, w') \<Longrightarrow> runs w' (f x)"
  shows "runs w (bindP m f)"
proof -
  have q: "same_store w (snd (m w))" using assms(1) by (simp add: keeps_def)
  show ?thesis
  proof (cases "m w")
    case (Pair r w')
    with q assms(2) [of w'] show ?thesis
      by (cases r) (auto simp: runs_iff bindP_def intro: quiet trans)
  qed
qed

lemma runs_still_then: "keeps (=) m \<Longrightarrow> (\<And>x. m w = (Inr x, w) \<Longrightarrow> runs w (f x)) \<Longrightarrow> runs w (bindP m f)"
proof (rule runs_quiet_then [OF still_quiet])
  fix x w' assume m: "keeps (=) m" "m w = (Inr x, w')" and f: "\<And>x. m w = (Inr x, w) \<Longrightarrow> runs w (f x)"
  from m have "w' = w" by (metis keeps_def snd_conv)
  with f m(2) show "runs w' (f x)" by simp
qed

lemma runs_skip: "keeps (=) m \<Longrightarrow> (\<And>x. runs w (f x)) \<Longrightarrow> runs w (bindP m f)"
  by (rule runs_still_then)

lemma runs_guard_then: "(b \<Longrightarrow> runs w (f ())) \<Longrightarrow> runs w (bindP (guard b x) f)"
  by (cases b) (simp_all add: runs_iff bindP_def guard_def return_def raise_def refl)

lemma runs_some_then: "(\<And>v. y = Some v \<Longrightarrow> runs w (f v)) \<Longrightarrow> runs w (bindP (some_or y x) f)"
  by (cases y) (simp_all add: runs_iff bindP_def some_or_def return_def raise_def refl)

lemma runs_lift_then: "(\<And>v. r = Inr v \<Longrightarrow> runs w (f v)) \<Longrightarrow> runs w (bindP (lift_result r) f)"
  by (cases r) (simp_all add: runs_iff bindP_def lift_result_def return_def raise_def refl)

lemma runs_argument_then:
  "(\<And>x. runs w (f x)) \<Longrightarrow> runs w (bindP (at_most n y what) f)"
  "(\<And>x. runs w (f x)) \<Longrightarrow> runs w (bindP (one_of vs k y) f)"
  "(\<And>x. runs w (g x)) \<Longrightarrow> (\<And>v. keeps (=) (h v)) \<Longrightarrow> runs w (bindP (optional z h) g)"
  "(\<And>x. runs w (p x)) \<Longrightarrow> runs w (bindP (enum_or_raise parse cls s) p)"
  "(\<And>x. runs w (f x)) \<Longrightarrow> runs w (bindP (check_parent_arg e tid t a) f)"
  "(\<And>x. runs w (f x)) \<Longrightarrow> runs w (bindP (check_decider_arg e a) f)"
  by (rule runs_skip; simp add: still_steps still_parent)+

lemma runs_task_then:
  "(\<And>t. editable e w (t_project_id t) tid t \<Longrightarrow> may_use e w ki (t_project_id t) \<Longrightarrow> runs w (f t)) \<Longrightarrow>
   runs w (bindP (get_task_or_raise e tid ki) f)"
  by (rule runs_still_then [OF still_task]) (auto dest: task_given)

lemma runs_unlocked_then:
  "(unlocked e w pid \<Longrightarrow> runs w (f ())) \<Longrightarrow> runs w (bindP (check_project_not_locked e pid) f)"
  by (rule runs_still_then [OF still_checks(3)]) (auto dest: unlocked_given)

lemma runs_project_then:
  "(\<And>pid w'. same_store w w' \<Longrightarrow> may_use e w' ki pid \<Longrightarrow> runs w' (f pid)) \<Longrightarrow> runs w (bindP (tool_project e ki n) f)"
  by (rule runs_quiet_then [OF tool_project_quiet]) (auto dest: project_given)

lemma runs_auth_then:
  assumes "W = caller_writes e rq w" and "\<And>ki w'. same_store w w' \<Longrightarrow> W = writable e w' ki \<Longrightarrow> runs w' (f ki)"
  shows "runs w (bindP (authenticate e rq) f)"
  by (rule runs_quiet_then [OF authenticate_quiet]) (use assms in \<open>auto simp: caller_writes_def same_store_access\<close>)

lemma runs_tool_task_then:
  assumes "W = caller_writes e rq w"
    and "\<And>ki t w'. same_store w w' \<Longrightarrow> editable e w' (t_project_id t) tid t \<Longrightarrow> t_project_id t \<in> W \<Longrightarrow> runs w' (f (ki, t))"
  shows "runs w (bindP (tool_task e rq tid) f)"
  unfolding tool_task_def bindP_assoc bindP_return
  by (intro runs_auth_then [OF assms(1)] runs_task_then runs_unlocked_then assms(2)) (auto simp: writable_def)

lemma runs_keeps: "keeps R m \<Longrightarrow> runs w m"
  by (simp add: runs_iff keeps_def)

lemma runs_quiet: "keeps same_store m \<Longrightarrow> runs w m"
  by (simp add: runs_iff keeps_def quiet)

lemma runs_if: "(b \<Longrightarrow> runs w m) \<Longrightarrow> (\<not> b \<Longrightarrow> runs w n) \<Longrightarrow> runs w (if b then m else n)"
  by simp

lemma runs_case_prod: "(\<And>a b. x = (a, b) \<Longrightarrow> runs w (f a b)) \<Longrightarrow> runs w (case x of (a, b) \<Rightarrow> f a b)"
  by (cases x) simp

end

interpretation safe_tool: tool_frame "safe_step e W" for e W
  by unfold_locales (rule same_store_safe)

interpretation proj_tool: tool_frame "project_step e W" for e W
  by unfold_locales (rule safe_project [OF same_store_safe])


section \<open>The tools that only read\<close>

lemma reading_quiet:
  "keeps same_store (mcp_get_task e rq tid)" "keeps same_store (mcp_get_task_context e rq tid n)"
  "keeps same_store (mcp_get_task_activity e rq tid n m)" "keeps same_store (mcp_list_tasks e rq p a)"
  "keeps same_store (mcp_get_work_context e rq p n m d)" "keeps same_store (mcp_list_overdue_tasks e rq p n m s)"
  "keeps same_store (mcp_list_review_tasks e rq p f n m s)" "keeps same_store (mcp_list_approved_tasks e rq p st n m s)"
  "keeps same_store (mcp_get_subtasks e rq tid st n m s)" "keeps same_store (mcp_list_tags e rq p)"
  "keeps same_store (mcp_list_users e rq)" "keeps same_store (mcp_search_tasks e rq p sa)"
  "keeps same_store (mcp_list_projects e rq)" "keeps same_store (mcp_get_project e rq p)"
  unfolding mcp_get_task_def mcp_get_task_context_def mcp_get_task_activity_def mcp_list_tasks_def mcp_get_work_context_def
    mcp_list_overdue_tasks_def mcp_list_review_tasks_def mcp_list_approved_tasks_def mcp_get_subtasks_def mcp_list_tags_def
    mcp_list_users_def mcp_search_tasks_def mcp_list_projects_def mcp_get_project_def Let_def
  by (rule quiet.keeps_bindP [OF authenticate_quiet],
      intro quiet.keeps_intros tool_project_quiet resolve_quiet still_quiet [OF still_task] still_quiet [OF still_filter]
        still_quiet [OF still_steps(1)] still_quiet [OF still_steps(2)] still_quiet [OF still_tantivy] keeps_checks
        still_quiet [OF still_checks(2)] still_quiet [OF still_checks(4)] still_quiet [OF still_steps(10)] still_steps(2))+

section \<open>The tools that edit one task\<close>

lemma runs_save_then:
  assumes "tasks_ok e w" and "editable e w pid tid t" and "harmless t g" and "pid \<in> W" and "\<And>t'. keeps same_store (tail t')"
  shows "safe_tool.runs e W w (bindP (save_updated e g) tail)"
  unfolding safe_tool.runs_def by (rule wp_save_then [OF assms(1-3,5,4)])

lemma tool_keeps:
  assumes "\<And>w. tasks_ok e w \<Longrightarrow> safe_tool.runs e (caller_writes e rq w) w m"
  shows "safe_step e (caller_writes e rq w) w (snd (m w))"
proof (cases "tasks_ok e w")
  case True
  with assms [OF True] show ?thesis by (simp add: safe_tool.runs_iff)
qed (simp add: not_ok_safe)

lemma complete_document_harmless: "harmless t (set_report r (complete_document e a t))"
  by (auto simp: complete_document_def set_report_def harmless_def same_links_def task_ok_def task_simps split: option.splits)

lemma mcp_complete_safe: "tasks_ok e w \<Longrightarrow> safe_tool.runs e (caller_writes e rq w) w (mcp_complete_task e rq tid r)"
  unfolding mcp_complete_task_def resolve_linked_issues_def Let_def
  by (intro safe_tool.runs_argument_then safe_tool.runs_tool_task_then [OF refl] safe_tool.runs_case_prod safe_tool.runs_if
      safe_tool.runs_quiet runs_save_then quiet_intros)
    (auto simp: same_store_access complete_document_harmless)

lemma mcp_reopen_safe: "tasks_ok e w \<Longrightarrow> safe_tool.runs e (caller_writes e rq w) w (mcp_reopen_task e rq tid)"
  unfolding mcp_reopen_task_def Let_def
  by (intro safe_tool.runs_tool_task_then [OF refl] safe_tool.runs_case_prod runs_save_then quiet_intros)
    (auto simp: same_store_access harmless_def same_links_def task_ok_def task_simps)

lemma mcp_archive_safe: "tasks_ok e w \<Longrightarrow> safe_tool.runs e (caller_writes e rq w) w (mcp_archive_task e rq tid)"
  unfolding mcp_archive_task_def ignore_linked_issues_def
  by (intro safe_tool.runs_tool_task_then [OF refl] safe_tool.runs_case_prod runs_save_then quiet_intros)
    (auto simp: same_store_access harmless_def same_links_def task_ok_def)

lemma mcp_unarchive_safe: "tasks_ok e w \<Longrightarrow> safe_tool.runs e (caller_writes e rq w) w (mcp_unarchive_task e rq tid)"
  unfolding mcp_unarchive_task_def
  by (intro safe_tool.runs_tool_task_then [OF refl] safe_tool.runs_case_prod runs_save_then quiet_intros)
    (auto simp: same_store_access harmless_def same_links_def task_ok_def)

lemma mcp_add_comment_safe: "tasks_ok e w \<Longrightarrow> safe_tool.runs e (caller_writes e rq w) w (mcp_add_comment e rq tid c)"
  unfolding mcp_add_comment_def Let_def
  by (intro safe_tool.runs_auth_then [OF refl] safe_tool.runs_guard_then safe_tool.runs_task_then
      safe_tool.runs_unlocked_then runs_save_then quiet_intros)
    (auto simp: same_store_access writable_def harmless_def same_links_def task_ok_def)

lemma mcp_delete_comment_safe: "tasks_ok e w \<Longrightarrow> safe_tool.runs e (caller_writes e rq w) w (mcp_delete_comment e rq tid c)"
  unfolding mcp_delete_comment_def
  by (intro safe_tool.runs_tool_task_then [OF refl] safe_tool.runs_case_prod safe_tool.runs_some_then
      runs_save_then quiet_intros)
    (auto simp: same_store_access harmless_def same_links_def task_ok_def)

section \<open>Update\<close>

text \<open>
  One field at a time the review flags can be out of order; what each step keeps is the rest
  of the document's invariant, and flags that only an update of the flag itself can raise.
\<close>

definition field_safe :: "field_update list \<Rightarrow> task \<Rightarrow> task \<Rightarrow> bool" where
  "field_safe fs t t' \<longleftrightarrow> same_links t t' \<and>
     ((t_completed_at t \<noteq> None \<longrightarrow> t_status t = Done) \<longrightarrow> t_completed_at t' \<noteq> None \<longrightarrow> t_status t' = Done) \<and>
     (t_approved t' \<longrightarrow> t_approved t \<or> F_approved True \<in> set fs) \<and>
     (t_needs_detail t' \<longrightarrow> t_needs_detail t \<or> F_needs_detail True \<in> set fs)"

lemma with_enum_Inr: "with_enum parse cls s f = Inr t \<longleftrightarrow> (\<exists>v. parse s = Some v \<and> t = f v)"
  by (auto simp: with_enum_def split: option.splits)

lemma track_field_simps:
  "same_links t (track_field e a f t)" "t_status (track_field e a f t) = t_status t"
  "t_completed_at (track_field e a f t) = t_completed_at t" "t_approved (track_field e a f t) = t_approved t"
  "t_needs_detail (track_field e a f t) = t_needs_detail t" "t_parent_task_id (track_field e a f t) = t_parent_task_id t"
  by (cases f; simp add: task_simps same_links_def)+

lemma apply_field_safe:
  assumes "apply_field e f t = Inr t'" and "f \<in> set fs"
  shows "field_safe fs t t'"
proof (cases f)
  case (F_status s)
  with assms show ?thesis by (auto simp: with_enum_Inr field_safe_def same_links_def task_simps split: if_splits)
next
  case (F_decider_id v)
  with assms show ?thesis by (auto simp: field_safe_def same_links_def split: if_splits)
next
  case (F_due_date s)
  with assms show ?thesis by (auto simp: field_safe_def same_links_def split: if_splits option.splits)
next
  case (F_decision_context d)
  with assms show ?thesis by (auto simp: field_safe_def same_links_def split: sum.splits)
qed (use assms in \<open>auto simp: with_enum_Inr field_safe_def same_links_def\<close>)

lemma field_safe_trans: "field_safe fs t u \<Longrightarrow> field_safe fs u v \<Longrightarrow> field_safe fs t v"
  using same_links_trans by (auto simp: field_safe_def)

lemma field_safe_track: "field_safe fs t (track_field e a f t)"
  by (simp add: field_safe_def track_field_simps)

lemma apply_fields_safe:
  assumes "\<And>f t t'. f \<in> set fs \<Longrightarrow> step f t = Inr t' \<Longrightarrow> field_safe fs t t'" and "apply_fields step gs t = Inr t'"
    and "set gs \<subseteq> set fs"
  shows "field_safe fs t t'"
  using assms(2,3)
proof (induction gs arbitrary: t)
  case Nil
  then show ?case by (simp add: field_safe_def same_links_def)
next
  case (Cons g gs)
  then obtain u where "step g t = Inr u" "apply_fields step gs u = Inr t'" by (auto split: sum.splits)
  with Cons assms(1) [of g t u] show ?case by (auto intro: field_safe_trans)
qed

lemma settle_harmless: "field_safe fs t t' \<Longrightarrow> harmless t (settle_flags fs t')"
  by (auto simp: field_safe_def harmless_def settle_flags_def task_ok_def same_links_def Let_def)

lemma tracked_update_harmless:
  assumes "apply_fields (\<lambda>f t. apply_field e f (track_field e a f t)) fs t = Inr t'"
  shows "harmless t (settle_flags fs t')"
proof (rule settle_harmless, rule apply_fields_safe [OF _ assms order_refl])
  fix f :: field_update and u v assume "f \<in> set fs" "apply_field e f (track_field e a f u) = Inr v"
  then show "field_safe fs u v" using apply_field_safe field_safe_track field_safe_trans by blast
qed

lemma batch_update_harmless: "apply_fields (apply_field e) fs t = Inr t' \<Longrightarrow> harmless t (settle_flags fs t')"
  by (rule settle_harmless, rule apply_fields_safe [OF apply_field_safe _ order_refl])

lemma runs_save_approve:
  assumes "tasks_ok e w" and "editable e w pid tid t" and "harmless t g" and "pid \<in> W" and "\<And>t'. keeps (project_step e W) (tail t')"
  shows "proj_tool.runs e W w (bindP (save_updated e g) tail)"
proof -
  have "safe_step e W w (store_task (touch (now e) g) w)"
    using assms by (intro safe_save [of e w _ t] harmless_touch) (auto simp: editable_def)
  with assms(5) show ?thesis
    unfolding proj_tool.runs_def wp_bindP wp_save_updated by (intro proj.wp_after safe_project)
qed

lemma mcp_update_project_step: "tasks_ok e w \<Longrightarrow> proj_tool.runs e (caller_writes e rq w) w (mcp_update_task e rq tid a)"
  unfolding mcp_update_task_def Let_def
  by (intro proj_tool.runs_argument_then proj_tool.runs_auth_then [OF refl] proj_tool.runs_guard_then proj_tool.runs_task_then
      proj_tool.runs_unlocked_then proj_tool.runs_lift_then runs_save_approve project_intros)
    (auto simp: same_store_access writable_def intro: tracked_update_harmless)

lemma mcp_update_safe:
  assumes "tasks_ok e w" and "ua_approved a \<noteq> Some True"
  shows "safe_tool.runs e (caller_writes e rq w) w (mcp_update_task e rq tid a)"
proof -
  have "F_approved True \<notin> set (updates_of a)"
    using assms(2) by (auto simp: updates_of_def given_def split: option.splits)
  with assms(1) show ?thesis
    unfolding mcp_update_task_def Let_def
    by (intro safe_tool.runs_argument_then safe_tool.runs_auth_then [OF refl] safe_tool.runs_guard_then safe_tool.runs_task_then
        safe_tool.runs_unlocked_then safe_tool.runs_lift_then runs_save_then quiet_intros)
      (auto simp: same_store_access writable_def intro: tracked_update_harmless)
qed

section \<open>Delete, link and create\<close>

lemma runs_within:
  assumes "wp m (\<lambda>_. safe_step e {pid} w) (\<lambda>_. safe_step e {pid} w) w" and "pid \<in> W"
  shows "safe_tool.runs e W w m"
  using assms safe_mono [of e "{pid}"] by (auto simp: safe_tool.runs_def intro: wp_mono)

lemma runs_delete:
  assumes "tasks_ok e w" and "editable e w pid tid t" and "canonical e tid" and "pid \<in> W" and "\<And>ds cl x. keeps same_store (tail ds cl x)"
  shows "safe_tool.runs e W w (bindP (list_dependents pid tid) (\<lambda>ds. bindP (guard (ds = [] \<or> force) (x ds)) (\<lambda>_.
    bindP (if ds \<noteq> [] \<and> force then cleanup_dependents e tid pid b else return []) (\<lambda>cl.
    bindP (save_updated e (t\<lparr>t_is_deleted := True\<rparr>)) (tail ds cl)))))"
  by (intro runs_within [OF _ assms(4)] wp_dependents_then wp_guard_then wp_delete_cleanup tasks_ok_keys wp_then_quiet
      delete_edit_safe safe.refl) (use assms in auto)

lemma mcp_delete_safe:
  assumes "tasks_ok e w" and "canonical e tid"
  shows "safe_tool.runs e (caller_writes e rq w) w (mcp_delete_task e rq tid force)"
  unfolding mcp_delete_task_def Let_def
  by (intro safe_tool.runs_tool_task_then [OF refl] safe_tool.runs_case_prod runs_delete quiet_intros)
    (use assms in \<open>auto simp: same_store_access\<close>)

lemma keeps_link_tool_events: "keeps same_store (link_tool_events e pid k s t r x y)"
  unfolding link_tool_events_def by (intro quiet_intros)

lemma wp_link_tool_events:
  "safe_step e {pid} w w' \<Longrightarrow>
   wp (case st of (x, y) \<Rightarrow> link_tool_events e pid k s t r x y) (\<lambda>_. safe_step e {pid} w) (\<lambda>_. safe_step e {pid} w) w'"
  by (cases st) (simp add: safe.wp_after quiet_safe keeps_link_tool_events)

lemma mcp_link_safe:
  assumes "tasks_ok e w" and c: "canonical e sid" "canonical e tid"
  shows "safe_tool.runs e (caller_writes e rq w) w (mcp_link_tasks e rq sid tid r)"
  unfolding mcp_link_tasks_def
proof (intro safe_tool.runs_guard_then safe_tool.runs_auth_then [OF refl] safe_tool.runs_task_then safe_tool.runs_unlocked_then)
  fix ki w' s assume w': "same_store w w'" and W: "caller_writes e rq w = writable e w' ki"
    and s: "editable e w' (t_project_id s) sid s" "may_use e w' ki (t_project_id s)" and u: "unlocked e w' (t_project_id s)"
  from assms(1) w' have ok: "tasks_ok e w'" by (simp add: same_store_access)
  show "safe_tool.runs e (caller_writes e rq w) w' (bindP (catchP (link e sid tid r (mcp_actor ki)) (\<lambda>x. raise (link_tool_error x)))
      (\<lambda>(x, y). link_tool_events e (t_project_id s) ''task.linked'' sid tid r x y))"
    using s u W
    by (intro runs_within [where pid = "t_project_id s"] wp_translate_then wp_link wp_link_tool_events link_safe [OF ok c] safe.refl)
      (auto simp: editable_def link_pre_def writable_def)
qed

lemma mcp_unlink_safe:
  assumes "tasks_ok e w" and c: "canonical e sid" "canonical e tid"
  shows "safe_tool.runs e (caller_writes e rq w) w (mcp_unlink_tasks e rq sid tid r)"
  unfolding mcp_unlink_tasks_def
proof (intro safe_tool.runs_guard_then safe_tool.runs_auth_then [OF refl] safe_tool.runs_task_then safe_tool.runs_unlocked_then)
  fix ki w' s assume w': "same_store w w'" and W: "caller_writes e rq w = writable e w' ki"
    and s: "editable e w' (t_project_id s) sid s" "may_use e w' ki (t_project_id s)" and u: "unlocked e w' (t_project_id s)"
  from assms(1) w' have ok: "tasks_ok e w'" by (simp add: same_store_access)
  show "safe_tool.runs e (caller_writes e rq w) w' (bindP (catchP (unlink e sid tid r (mcp_actor ki)) (\<lambda>x. raise (unlink_tool_error x)))
      (\<lambda>(x, y). link_tool_events e (t_project_id s) ''task.unlinked'' sid tid r x y))"
    using s u W
    by (intro runs_within [where pid = "t_project_id s"] wp_translate_then wp_unlink wp_link_tool_events unlink_safe [OF ok c] safe.refl)
      (auto simp: editable_def writable_def)
qed

text \<open>Inserting new documents, one or many.\<close>

definition insertable :: "task \<Rightarrow> bool" where
  "insertable t \<longleftrightarrow> t_blocks t = [] \<and> t_blocked_by t = [] \<and> task_ok t"

lemma runs_insert_then:
  assumes "fresh_oid e w (t_id t)" and "insertable t" and "t_project_id t \<in> W" and "\<And>x. keeps same_store (tail x)"
  shows "safe_tool.runs e W w (bindP (task_insert t) tail)"
  using assms by (intro runs_within [where pid = "t_project_id t"] wp_insert_then safe_insert) (auto simp: insertable_def)

lemma insertable_new: "insertable (new_task x n p t c)"
  by (simp add: insertable_def new_task_def task_ok_def)

lemma runs_decider_then:
  "(\<And>x. safe_tool.runs e W w (f x)) \<Longrightarrow>
   safe_tool.runs e W w (bindP (case d of None \<Rightarrow> return () | Some d \<Rightarrow> validate_user_exists e d k) f)"
  by (rule safe_tool.runs_skip) (intro still_intros)

lemma mcp_create_safe:
  assumes "tasks_ok e w" and "fresh_oid e w (new_oid e 0)"
  shows "safe_tool.runs e (caller_writes e rq w) w (mcp_create_task e rq n a)"
  unfolding mcp_create_task_def Let_def
  by (intro safe_tool.runs_guard_then safe_tool.runs_auth_then [OF refl] safe_tool.runs_project_then safe_tool.runs_unlocked_then
      safe_tool.runs_argument_then still_steps safe_tool.runs_lift_then runs_decider_then runs_insert_then quiet_intros)
    (use assms in \<open>auto simp: same_store_access writable_def insertable_def new_task_def task_ok_def\<close>)

lemma runs_target_then:
  assumes "may_use e w ki pid" and "\<And>p w'. same_store w w' \<Longrightarrow> may_use e w' ki p \<Longrightarrow> safe_tool.runs e W w' (f p)"
  shows "safe_tool.runs e W w (bindP (case x of None \<Rightarrow> return pid | Some n \<Rightarrow> tool_project e ki n) f)"
  using assms quiet.refl [of w]
  by (cases x) (auto simp: bindP_return intro: safe_tool.runs_project_then)

lemma mcp_duplicate_safe:
  assumes "tasks_ok e w" and "fresh_oid e w (new_oid e 0)"
  shows "safe_tool.runs e (caller_writes e rq w) w (mcp_duplicate_task e rq tid p title)"
  unfolding mcp_duplicate_task_def Let_def
  by (intro safe_tool.runs_auth_then [OF refl] safe_tool.runs_task_then runs_target_then safe_tool.runs_unlocked_then
      runs_insert_then quiet_intros)
    (use assms in \<open>auto simp: same_store_access writable_def insertable_def new_task_def task_ok_def\<close>)

section \<open>The bulk tools\<close>

lemma wp_foldP:
  assumes "\<And>x b s. x \<in> set xs \<Longrightarrow> J b s \<Longrightarrow> wp (f x b) J E s" and "J b s" and "\<And>b s. J b s \<Longrightarrow> Q b s"
  shows "wp (foldP f xs b) Q E s"
  using assms
proof (induction xs arbitrary: b s)
  case Nil
  then show ?case by (simp add: wp_simps)
next
  case (Cons x xs)
  from Cons.prems(1,2) have "wp (f x b) J E s" by simp
  moreover have "J b' s' \<Longrightarrow> wp (foldP f xs b') Q E s'" for b' s'
    using Cons.prems(1,3) by (auto intro: Cons.IH)
  ultimately show ?case by (auto simp: wp_simps elim: wp_mono)
qed

text \<open>The first phase changes nothing, and every document it collects is as its item made it.\<close>

lemma wp_collect:
  assumes "\<And>x. x \<in> set xs \<Longrightarrow> wp (m x) (\<lambda>r w'. w' = w \<and> (\<forall>u. r = Inr u \<longrightarrow> P u)) (\<lambda>_ w'. w' = w) w"
    and "\<And>b :: bulk. \<forall>u \<in> set (bk_to_save b). P u \<Longrightarrow> wp (f b) Q E w"
  shows "wp (bindP (foldP (\<lambda>x. bulk_item e (entry x) (m x)) xs no_bulk) f) Q E w"
  unfolding wp_bindP
proof (rule wp_foldP [where J = "\<lambda>b s. s = w \<and> (\<forall>u \<in> set (bk_to_save b). P u)"])
  fix x and b :: bulk and s assume "x \<in> set xs" and J: "s = w \<and> (\<forall>u \<in> set (bk_to_save b). P u)"
  from assms(1) [OF this(1)] have
    "wp (m x) (\<lambda>r s. wp (return (case r of Inl j \<Rightarrow> b\<lparr>bk_failed := bk_failed b @ [j]\<rparr>
        | Inr t \<Rightarrow> b\<lparr>bk_to_save := bk_to_save b @ [t]\<rparr>)) (\<lambda>b s. s = w \<and> (\<forall>u \<in> set (bk_to_save b). P u)) E s)
       (\<lambda>x' s. wp (return (b\<lparr>bk_failed := bk_failed b @ [entry x x']\<rparr>)) (\<lambda>b s. s = w \<and> (\<forall>u \<in> set (bk_to_save b). P u)) E s) w"
    by (rule wp_mono) (use J in \<open>auto simp: wp_simps split: sum.splits\<close>)
  with J show "wp (bulk_item e (entry x) (m x) b) (\<lambda>b s. s = w \<and> (\<forall>u \<in> set (bk_to_save b). P u)) E s"
    unfolding bulk_item_def wp_catchP wp_bindP
    by (elim conjE) (simp, erule wp_mono; simp add: wp_simps)
qed (use assms(2) in \<open>auto simp: no_bulk_def\<close>)

lemma wp_bulk_fetch:
  assumes "\<And>t. editable e w (t_project_id t) tid t \<Longrightarrow> t_project_id t \<in> writable e w ki \<Longrightarrow> Q (f t) w"
    and "\<And>j. Q (Inl j) w" and "\<And>x. E x w"
  shows "wp (bulk_fetch e ki tid f) Q E w"
  using assms
  by (auto simp: bulk_fetch_def wp_simps mcp_check_project_access_def check_project_not_locked_def not_deleted_def editable_def
      writable_def may_use_def unlocked_def split: option.splits)

definition copy_of :: "world \<Rightarrow> string set \<Rightarrow> task \<Rightarrow> bool" where
  "copy_of w W u \<longleftrightarrow> (\<exists>t \<in> set (w_tasks w). t_project_id t \<in> W \<and> harmless t u)"

lemma copy_of_editable: "editable e w (t_project_id t) tid t \<Longrightarrow> t_project_id t \<in> W \<Longrightarrow> harmless t u \<Longrightarrow> copy_of w W u"
  by (auto simp: copy_of_def editable_def dest: coll_get_in)

lemma keeps_bulk_events: "keeps same_store (bulk_events e rs)"
  unfolding bulk_events_def Let_def by (intro quiet_intros)

lemma runs_gather_then:
  assumes "tasks_ok e w" and "\<forall>u \<in> set us. copy_of w W u" and "\<And>rs. keeps same_store (tail rs)"
  shows "safe_tool.runs e W w (bindP (gather_saves e us) tail)"
  unfolding safe_tool.runs_def using assms by (intro wp_gather_then) (auto simp: copy_of_def)

lemma runs_gather_approve:
  assumes "tasks_ok e w" and "\<forall>u \<in> set us. copy_of w W u" and "\<And>rs. keeps (project_step e W) (tail rs)"
  shows "proj_tool.runs e W w (bindP (gather_saves e us) tail)"
  unfolding proj_tool.runs_def using assms by (intro wp_gather_project) (auto simp: copy_of_def)

context tool_frame
begin

lemma runs_collect:
  assumes "\<And>x. x \<in> set xs \<Longrightarrow> wp (m x) (\<lambda>r w'. w' = w \<and> (\<forall>u. r = Inr u \<longrightarrow> P u)) (\<lambda>_ w'. w' = w) w"
    and "\<And>b :: bulk. \<forall>u \<in> set (bk_to_save b). P u \<Longrightarrow> runs w (f b)"
  shows "runs w (bindP (foldP (\<lambda>x. bulk_item e (entry x) (m x)) xs no_bulk) f)"
  using assms unfolding runs_def by (rule wp_collect)

end

lemma mcp_bulk_complete_safe:
  assumes "tasks_ok e w"
  shows "safe_tool.runs e (caller_writes e rq w) w (mcp_bulk_complete_tasks e rq ids r)"
  unfolding mcp_bulk_complete_tasks_def resolve_linked_issues_def
  by (intro safe_tool.runs_auth_then [OF refl] safe_tool.runs_collect [where P = "copy_of w' W" for w' W] wp_bulk_fetch runs_gather_then
      quiet_intros keeps_bulk_events)
    (use assms in \<open>auto simp: same_store_access harmless_def same_links_def task_ok_def set_report_def
       split: option.splits intro!: copy_of_editable\<close>)

lemma mcp_bulk_archive_safe:
  assumes "tasks_ok e w"
  shows "safe_tool.runs e (caller_writes e rq w) w (mcp_bulk_archive_tasks e rq ids)"
  unfolding mcp_bulk_archive_tasks_def ignore_linked_issues_def
  by (intro safe_tool.runs_auth_then [OF refl] safe_tool.runs_collect [where P = "copy_of w' W" for w' W] wp_bulk_fetch runs_gather_then
      quiet_intros keeps_bulk_events)
    (use assms in \<open>auto simp: same_store_access harmless_def same_links_def task_ok_def intro!: copy_of_editable\<close>)

lemma wp_batch_update_one:
  "wp (batch_update_one e ki item) (\<lambda>r w'. w' = w \<and> (\<forall>u. r = Inr u \<longrightarrow> copy_of w (writable e w ki) u)) (\<lambda>_ w'. w' = w) w"
proof (cases "truthy (mb_task_id item)")
  case None
  then show ?thesis by (simp add: batch_update_one_def wp_simps)
next
  case (Some tid)
  have "wp (batch_update_fields e tid fs t) (\<lambda>r w'. w' = w \<and> (\<forall>u. r = Inr u \<longrightarrow> copy_of w (writable e w ki) u)) (\<lambda>_ w'. w' = w) w"
    if "editable e w (t_project_id t) tid t" "t_project_id t \<in> writable e w ki" for t fs
  proof (cases "apply_fields (apply_field e) fs t")
    case (Inl x)
    then show ?thesis by (simp add: batch_update_fields_def lift_result_def wp_simps)
  next
    case (Inr u)
    with that have "copy_of w (writable e w ki) (settle_flags fs u)"
      by (blast intro: copy_of_editable batch_update_harmless)
    with Inr show ?thesis by (simp add: batch_update_fields_def lift_result_def wp_simps)
  qed
  then show ?thesis
    unfolding batch_update_one_def Some option.case wp_bindP
    by (intro wp_bulk_fetch) (simp_all add: wp_simps)
qed

lemma mcp_batch_update_project_step:
  assumes "tasks_ok e w"
  shows "proj_tool.runs e (caller_writes e rq w) w (mcp_batch_update_tasks e rq items)"
  unfolding mcp_batch_update_tasks_def Let_def
  by (intro proj_tool.runs_auth_then [OF refl] proj_tool.runs_collect [OF wp_batch_update_one] runs_gather_approve project_intros
      quiet_project [OF keeps_bulk_events]) (use assms in \<open>auto simp: same_store_access\<close>)

text \<open>Without an approval among the items nothing cascades.\<close>

lemma mcp_batch_update_safe:
  assumes "tasks_ok e w" and "\<forall>i \<in> set items. Some (F_approved True) \<notin> set (mb_fields i)"
  shows "safe_tool.runs e (caller_writes e rq w) w (mcp_batch_update_tasks e rq items)"
  unfolding mcp_batch_update_tasks_def Let_def
  by (intro safe_tool.runs_auth_then [OF refl] safe_tool.runs_collect [OF wp_batch_update_one] runs_gather_then quiet_intros
      keeps_bulk_events) (use assms in \<open>auto simp: same_store_access\<close>)

text \<open>A batch of new documents, with identifiers that are new and differ from each other.\<close>

definition fresh_oids :: "env \<Rightarrow> world \<Rightarrow> bool" where
  "fresh_oids e w \<longleftrightarrow> inj (new_oid e) \<and> (\<forall>i. fresh_oid e w (new_oid e i))"

lemma wp_insert_all: "wp (insert_all ts) Q E w = Q () (w\<lparr>w_tasks := w_tasks w @ ts\<rparr>)"
  unfolding insert_all_def by (induction ts arbitrary: w) (simp_all add: wp_simps task_insert_def coll_insert_def)

lemma safe_insert_many:
  assumes "\<forall>t \<in> set ts. insertable t \<and> t_project_id t \<in> W \<and> fresh_oid e w (t_id t)" and "distinct (map t_id ts)"
  shows "safe_step e W w (w\<lparr>w_tasks := w_tasks w @ ts\<rparr>)"
  using assms
proof (induction ts arbitrary: w)
  case Nil
  then show ?case by (simp add: safe.refl)
next
  case (Cons t ts)
  let ?w = "w\<lparr>w_tasks := coll_insert t (w_tasks w)\<rparr>"
  have one: "safe_step e W w ?w"
    using Cons.prems(1) by (intro safe_mono [OF safe_insert [where pid = "t_project_id t"]]) (auto simp: insertable_def)
  have "safe_step e W ?w (?w\<lparr>w_tasks := w_tasks ?w @ ts\<rparr>)"
    using Cons.prems by (intro Cons.IH) (auto simp: fresh_oid_def coll_insert_def insertable_def image_iff)
  with one show ?case by (auto intro: safe.trans simp: coll_insert_def)
qed

lemma identify_ids: "map t_id (identify f ts) = map f [0..<length ts]"
  by (rule nth_equalityI) (simp_all add: identify_def nth_enumerate_eq)

lemma identify_in:
  assumes "t \<in> set (identify f ts)"
  obtains i u where "u \<in> set ts" "t = u\<lparr>t_id := f i\<rparr>" "i < length ts"
proof -
  from assms obtain i where "i < length ts" "t = (ts ! i)\<lparr>t_id := f i\<rparr>"
    by (auto simp: identify_def in_set_enumerate_eq)
  then show ?thesis by (intro that [of "ts ! i" i]) simp_all
qed

lemma safe_identified:
  assumes "\<forall>t \<in> set ts. insertable t \<and> t_project_id t \<in> W" and "fresh_oids e w"
  shows "safe_step e W w (w\<lparr>w_tasks := w_tasks w @ identify (\<lambda>i. new_oid e (n + i)) ts\<rparr>)"
proof (rule safe_insert_many)
  have inj: "inj (new_oid e)" using assms(2) by (simp add: fresh_oids_def)
  then show "distinct (map t_id (identify (\<lambda>i. new_oid e (n + i)) ts))"
    by (auto simp: identify_ids distinct_map inj_on_def inj_eq [OF inj])
  show "\<forall>t \<in> set (identify (\<lambda>i. new_oid e (n + i)) ts). insertable t \<and> t_project_id t \<in> W \<and> fresh_oid e w (t_id t)"
    using assms by (auto elim!: identify_in simp: insertable_def task_ok_def fresh_oids_def)
qed

lemma wp_batch_create_one:
  assumes "pid \<in> W"
  shows "wp (batch_create_one e pid c item) (\<lambda>r w'. w' = w \<and> (\<forall>u. r = Inr u \<longrightarrow> insertable u \<and> t_project_id u \<in> W)) (\<lambda>_ w'. w' = w) w"
  using assms
  by (simp add: batch_create_one_def wp_simps optional_def parse_iso_def enum_or_raise_def lift_result_def insertable_def new_task_def
      task_ok_def Let_def split: option.splits sum.splits)

lemma fallback_ids:
  assumes "inj (new_oid e)"
  shows "distinct (map t_id (identify (new_oid e) (take k ts) @
    map snd (filter P (enumerate 0 (identify (\<lambda>i. new_oid e (length ts + i)) ts)))))"
proof -
  let ?docs = "identify (\<lambda>i. new_oid e (length ts + i)) ts"
  let ?ok = "map snd (filter P (enumerate 0 ?docs))"
  have "map (t_id \<circ> snd) (enumerate 0 ?docs) = map (\<lambda>i. new_oid e (length ts + i)) [0..<length ts]"
    by (metis identify_ids map_map map_snd_enumerate)
  then have "distinct (map (t_id \<circ> snd) (enumerate 0 ?docs))"
    by (simp add: distinct_map inj_on_def inj_eq [OF assms])
  then have "distinct (map t_id ?ok)" by (simp add: distinct_map_filter comp_def)
  moreover have "t_id ` set ?ok \<subseteq> t_id ` set ?docs" by (auto simp: in_set_enumerate_eq)
  moreover have "t_id ` set (identify f us) = f ` {..<length us}" for f us
    using arg_cong [OF identify_ids [of f us], of set] by (simp add: atLeast_upt)
  moreover have "distinct (map t_id (identify (new_oid e) (take k ts)))"
    by (simp add: identify_ids distinct_map inj_on_def inj_eq [OF assms])
  ultimately show ?thesis by (fastforce simp: inj_eq [OF assms])
qed

lemma safe_fallback:
  assumes t: "\<forall>t \<in> set ts. insertable t \<and> t_project_id t \<in> W" and f: "fresh_oids e w"
  shows "safe_step e W w (w\<lparr>w_tasks := (w_tasks w @ identify (new_oid e) (take k ts)) @
    map snd (filter P (enumerate 0 (identify (\<lambda>i. new_oid e (length ts + i)) ts)))\<rparr>)"
proof -
  let ?all = "identify (new_oid e) (take k ts) @ map snd (filter P (enumerate 0 (identify (\<lambda>i. new_oid e (length ts + i)) ts)))"
  have good: "insertable x \<and> t_project_id x \<in> W \<and> fresh_oid e w (t_id x)"
    if "x \<in> set (identify (\<lambda>i. new_oid e (n + i)) us)" "set us \<subseteq> set ts" for x n us
    using that t f by (auto elim!: identify_in simp: insertable_def task_ok_def fresh_oids_def)
  have "x \<in> set (identify (\<lambda>i. new_oid e (0 + i)) (take k ts)) \<or> x \<in> set (identify (\<lambda>i. new_oid e (length ts + i)) ts)"
    if "x \<in> set ?all" for x
    using that map_snd_enumerate [of 0 "identify (\<lambda>i. new_oid e (length ts + i)) ts"]
    by (auto simp: in_set_enumerate_eq)
  then have "\<forall>x \<in> set ?all. insertable x \<and> t_project_id x \<in> W \<and> fresh_oid e w (t_id x)"
    using good set_take_subset by (metis order_refl)
  with f show ?thesis
    unfolding append_assoc by (intro safe_insert_many fallback_ids) (simp_all add: fresh_oids_def)
qed

lemma runs_insert_batch_then:
  assumes t: "\<forall>t \<in> set ts. insertable t \<and> t_project_id t \<in> W" and f: "fresh_oids e w" and "\<And>x. keeps same_store (tail x)"
  shows "safe_tool.runs e W w (bindP (if ts = [] then return ([], []) else insert_batch e ts) tail)"
proof -
  have tail: "safe_step e W w w' \<Longrightarrow> wp (tail x) (\<lambda>_. safe_step e W w) (\<lambda>_. safe_step e W w) w'" for x w'
    using assms(3) by (intro safe.wp_after quiet_safe)
  show ?thesis
    unfolding safe_tool.runs_def wp_bindP insert_batch_def
    using tail [OF safe.refl] tail [OF safe_identified [OF t f, of 0]] tail [OF safe_fallback [OF t f]]
    by (simp add: wp_simps wp_insert_all Let_def split: option.split)
qed

lemma mcp_batch_create_safe:
  assumes "tasks_ok e w" and "fresh_oids e w"
  shows "safe_tool.runs e (caller_writes e rq w) w (mcp_batch_create_tasks e rq n items)"
  unfolding mcp_batch_create_tasks_def
  by (intro safe_tool.runs_auth_then [OF refl] safe_tool.runs_project_then safe_tool.runs_unlocked_then
      safe_tool.runs_collect [OF wp_batch_create_one] runs_insert_batch_then quiet_intros)
    (use assms in \<open>auto simp: same_store_access writable_def fresh_oids_def\<close>)

section \<open>Calling a tool\<close>

datatype mcp_call =
    C_list_tasks string mcp_list_args
  | C_get_task string
  | C_get_task_context string nat
  | C_get_work_context string nat nat string
  | C_get_task_activity string nat nat
  | C_create_task string mcp_create_args
  | C_update_task string mcp_update_args
  | C_delete_task string bool
  | C_link_tasks string string string
  | C_unlink_tasks string string string
  | C_complete_task string "string option"
  | C_reopen_task string
  | C_archive_task string
  | C_unarchive_task string
  | C_add_comment string string
  | C_delete_comment string string
  | C_search_tasks string mcp_search_args
  | C_list_overdue_tasks string nat nat bool
  | C_list_users
  | C_batch_create_tasks string "mcp_create_item list"
  | C_list_review_tasks string string nat nat bool
  | C_list_approved_tasks string "string option" nat nat bool
  | C_batch_update_tasks "mcp_batch_item list"
  | C_get_subtasks string "string option" nat nat bool
  | C_list_tags string
  | C_duplicate_task string "string option" "string option"
  | C_bulk_complete_tasks "string list" "string option"
  | C_bulk_archive_tasks "string list"

fun call_tool :: "env \<Rightarrow> mcp_request \<Rightarrow> mcp_call \<Rightarrow> (world, json) prog" where
  "call_tool e rq (C_list_tasks p a) = mcp_list_tasks e rq p a"
| "call_tool e rq (C_get_task tid) = mcp_get_task e rq tid"
| "call_tool e rq (C_get_task_context tid n) = mcp_get_task_context e rq tid n"
| "call_tool e rq (C_get_work_context p n m d) = mcp_get_work_context e rq p n m d"
| "call_tool e rq (C_get_task_activity tid n m) = mcp_get_task_activity e rq tid n m"
| "call_tool e rq (C_create_task p a) = mcp_create_task e rq p a"
| "call_tool e rq (C_update_task tid a) = mcp_update_task e rq tid a"
| "call_tool e rq (C_delete_task tid f) = mcp_delete_task e rq tid f"
| "call_tool e rq (C_link_tasks s t r) = mcp_link_tasks e rq s t r"
| "call_tool e rq (C_unlink_tasks s t r) = mcp_unlink_tasks e rq s t r"
| "call_tool e rq (C_complete_task tid r) = mcp_complete_task e rq tid r"
| "call_tool e rq (C_reopen_task tid) = mcp_reopen_task e rq tid"
| "call_tool e rq (C_archive_task tid) = mcp_archive_task e rq tid"
| "call_tool e rq (C_unarchive_task tid) = mcp_unarchive_task e rq tid"
| "call_tool e rq (C_add_comment tid c) = mcp_add_comment e rq tid c"
| "call_tool e rq (C_delete_comment tid c) = mcp_delete_comment e rq tid c"
| "call_tool e rq (C_search_tasks p a) = mcp_search_tasks e rq p a"
| "call_tool e rq (C_list_overdue_tasks p n m s) = mcp_list_overdue_tasks e rq p n m s"
| "call_tool e rq C_list_users = mcp_list_users e rq"
| "call_tool e rq (C_batch_create_tasks p is) = mcp_batch_create_tasks e rq p is"
| "call_tool e rq (C_list_review_tasks p f n m s) = mcp_list_review_tasks e rq p f n m s"
| "call_tool e rq (C_list_approved_tasks p st n m s) = mcp_list_approved_tasks e rq p st n m s"
| "call_tool e rq (C_batch_update_tasks is) = mcp_batch_update_tasks e rq is"
| "call_tool e rq (C_get_subtasks tid st n m s) = mcp_get_subtasks e rq tid st n m s"
| "call_tool e rq (C_list_tags p) = mcp_list_tags e rq p"
| "call_tool e rq (C_duplicate_task tid p t) = mcp_duplicate_task e rq tid p t"
| "call_tool e rq (C_bulk_complete_tasks ids r) = mcp_bulk_complete_tasks e rq ids r"
| "call_tool e rq (C_bulk_archive_tasks ids) = mcp_bulk_archive_tasks e rq ids"

fun call_canonical :: "env \<Rightarrow> mcp_call \<Rightarrow> bool" where
  "call_canonical e (C_delete_task tid _) = canonical e tid"
| "call_canonical e (C_link_tasks s t _) = (canonical e s \<and> canonical e t)"
| "call_canonical e (C_unlink_tasks s t _) = (canonical e s \<and> canonical e t)"
| "call_canonical e _ = True"

fun call_approves :: "mcp_call \<Rightarrow> bool" where
  "call_approves (C_update_task _ a) = (ua_approved a = Some True)"
| "call_approves (C_batch_update_tasks is) = list_ex (\<lambda>i. Some (F_approved True) \<in> set (mb_fields i)) is"
| "call_approves _ = False"

fun call_reads :: "mcp_call \<Rightarrow> bool" where
  "call_reads (C_list_tasks _ _) = True"
| "call_reads (C_get_task _) = True"
| "call_reads (C_get_task_context _ _) = True"
| "call_reads (C_get_work_context _ _ _ _) = True"
| "call_reads (C_get_task_activity _ _ _) = True"
| "call_reads (C_search_tasks _ _) = True"
| "call_reads (C_list_overdue_tasks _ _ _ _) = True"
| "call_reads C_list_users = True"
| "call_reads (C_list_review_tasks _ _ _ _ _) = True"
| "call_reads (C_list_approved_tasks _ _ _ _ _) = True"
| "call_reads (C_get_subtasks _ _ _ _ _) = True"
| "call_reads (C_list_tags _) = True"
| "call_reads _ = False"

lemma call_reads_quiet: "call_reads c \<Longrightarrow> keeps same_store (call_tool e rq c)"
  by (cases c) (simp_all add: reading_quiet)

lemma call_runs_safe:
  assumes "tasks_ok e w" and "call_canonical e c" and "fresh_oids e w" and "\<not> call_approves c"
  shows "safe_tool.runs e (caller_writes e rq w) w (call_tool e rq c)"
proof (cases "call_reads c")
  case True
  then show ?thesis by (intro safe_tool.runs_quiet call_reads_quiet)
next
  case False
  have "fresh_oid e w (new_oid e 0)" using assms(3) by (simp add: fresh_oids_def)
  with False assms show ?thesis
    by (cases c) (simp_all add: mcp_create_safe mcp_update_safe mcp_delete_safe mcp_link_safe mcp_unlink_safe mcp_complete_safe
        mcp_reopen_safe mcp_archive_safe mcp_unarchive_safe mcp_add_comment_safe mcp_delete_comment_safe mcp_batch_create_safe
        mcp_batch_update_safe mcp_duplicate_safe mcp_bulk_complete_safe mcp_bulk_archive_safe list_ex_iff)
qed

lemma call_project_step:
  assumes "tasks_ok e w" and "call_canonical e c" and "fresh_oids e w"
  shows "project_step e (caller_writes e rq w) w (snd (call_tool e rq c w))"
proof (cases "call_approves c")
  case True
  then obtain tid a items where "c = C_update_task tid a \<or> c = C_batch_update_tasks items" by (cases c) auto
  then show ?thesis
    using mcp_update_project_step [OF assms(1)] mcp_batch_update_project_step [OF assms(1)]
    by (auto simp: proj_tool.runs_iff)
next
  case False
  with call_runs_safe [OF assms] show ?thesis by (simp add: safe_tool.runs_iff safe_project)
qed

text \<open>A caller who cannot authenticate gets nothing out of any tool.\<close>

definition rejects :: "env \<Rightarrow> mcp_request \<Rightarrow> world \<Rightarrow> (world, 'a) prog \<Rightarrow> bool" where
  "rejects e rq w m \<longleftrightarrow> (\<exists>x w'. m w = (Inl x, w') \<and> (w' = w \<or> w' = snd (authenticate e rq w)))"

lemma rejects_auth: "authenticate e rq w = (Inl x, w1) \<Longrightarrow> rejects e rq w (bindP (authenticate e rq) f)"
  by (simp add: rejects_def bindP_def)

lemma rejects_tool_task: "authenticate e rq w = (Inl x, w1) \<Longrightarrow> rejects e rq w (bindP (tool_task e rq tid) f)"
  by (simp add: rejects_def bindP_def tool_task_def)

lemma rejects_guard: "rejects e rq w (f ()) \<Longrightarrow> rejects e rq w (bindP (guard b x) f)"
  by (simp add: rejects_def bindP_def guard_def return_def raise_def)

lemma rejects_at_most: "rejects e rq w (f ()) \<Longrightarrow> rejects e rq w (bindP (at_most n y k) f)"
  unfolding at_most_def by (rule rejects_guard)

lemmas tool_defs = mcp_list_tasks_def mcp_get_task_def mcp_get_task_context_def mcp_get_work_context_def
  mcp_get_task_activity_def mcp_create_task_def mcp_update_task_def mcp_delete_task_def mcp_link_tasks_def
  mcp_unlink_tasks_def mcp_complete_task_def mcp_reopen_task_def mcp_archive_task_def mcp_unarchive_task_def
  mcp_add_comment_def mcp_delete_comment_def mcp_search_tasks_def mcp_list_overdue_tasks_def mcp_list_users_def
  mcp_batch_create_tasks_def mcp_list_review_tasks_def mcp_list_approved_tasks_def mcp_batch_update_tasks_def
  mcp_get_subtasks_def mcp_list_tags_def mcp_duplicate_task_def mcp_bulk_complete_tasks_def mcp_bulk_archive_tasks_def

lemma call_rejects:
  assumes "authenticate e rq w = (Inl x, w1)"
  shows "rejects e rq w (call_tool e rq c)"
  by (cases c; simp only: call_tool.simps tool_defs;
      intro rejects_guard rejects_at_most rejects_auth [OF assms] rejects_tool_task [OF assms])

end
