(* ===== verification/Mcp_Behaviour.thy ===== *)
theory Mcp_Behaviour
  imports Mcp_Safety
begin

text \<open>
  The properties of the MCP server: what every tool call keeps, who is let in and for how
  long, and that REST and MCP change a task in the same way. The last section closes the
  system: the states reachable by any sequence of REST requests, tool calls and project
  operations.
\<close>

section \<open>A caller for the demonstration database\<close>

definition demo_key :: mcp_api_key where
  "demo_key = \<lparr>ak_id = ''k1'', ak_key_hash = ''hk'', ak_name = ''bot'', ak_created_by = Some ''u'', ak_last_used_at = None,
     ak_is_active = True, ak_created_at = 0\<rparr>"

definition demo_request :: mcp_request where
  "demo_request = \<lparr>mr_http = True, mr_api_key = Some ''k'', mr_token = NoToken\<rparr>"

definition demo_mcp_world :: world where
  "demo_mcp_world = demo_world\<lparr>w_api_keys := [demo_key]\<rparr>"

definition demo_caller :: key_info where
  "demo_caller = \<lparr>ki_key_id = Some ''k1'', ki_key_name = Some ''bot'', ki_user_id = ''u'', ki_user_name = ''U'',
     ki_is_admin = False, ki_auth_kind = ''api_key''\<rparr>"

lemma demo_mcp_fields [simp]:
  "w_tasks demo_mcp_world = demo_tasks" "w_projects demo_mcp_world = [demo_project]" "w_users demo_mcp_world = [demo_user]"
  by (simp_all add: demo_mcp_world_def)

lemma demo_mcp_ok: "tasks_ok plain_env demo_mcp_world"
  using demo_tasks_ok by (simp add: tasks_ok_def)

lemma demo_mcp_fresh: "fresh_oids plain_env demo_mcp_world"
proof -
  have "inj (new_oid plain_env)" by (rule injI) (simp add: plain_env_def replicate_eq_replicate)
  moreover have "fresh_oid plain_env demo_mcp_world (new_oid plain_env i)" for i
  proof -
    have "hd (new_oid plain_env i) = CHR ''n''" by (simp add: plain_env_def)
    then have "new_oid plain_env i \<notin> {''a'', ''b'', ''c''}" by auto
    then show ?thesis by (simp add: fresh_oid_def demo_tasks_def canonical_def)
  qed
  ultimately show ?thesis by (simp add: fresh_oids_def)
qed

lemma demo_authenticates: "\<exists>w'. authenticate plain_env demo_request demo_mcp_world = (Inr demo_caller, w')"
proof -
  have "wp (authenticate plain_env demo_request) (\<lambda>ki _. ki = demo_caller) (\<lambda>_ _. False) demo_mcp_world"
    unfolding authenticate_def demo_request_def resolve_api_key_user_def cache_lookup_def key_owner_def touch_key_def
    by (simp add: wp_simps truthy_def get_valid_def demo_mcp_world_def demo_key_def demo_caller_def demo_defs coll_get_def Let_def)
  then show ?thesis unfolding wp_total [symmetric] by blast
qed

lemma demo_writes: "caller_writes plain_env demo_request demo_mcp_world = {''p''}"
proof -
  have "caller_writes plain_env demo_request demo_mcp_world = writable plain_env demo_mcp_world demo_caller"
    using demo_authenticates by (auto simp: caller_writes_def)
  also have "\<dots> = {''p''}"
    by (auto simp: writable_def may_use_def unlocked_def coll_get_def demo_caller_def split: if_splits)
  finally show ?thesis .
qed

section \<open>What every tool call keeps\<close>

text \<open>
  C2. When the stored tasks are in order and new identifiers are fresh, a tool call (one that links,
  unlinks or deletes tasks: with canonically spelled identifiers) keeps them in order (the
  invariant of the dependency graph and of every document), changes no project and no user, and
  writes only to tasks of projects the authenticated caller may write: members and
  administrators, in projects that are neither locked nor archived. Beyond them it can at most
  approve tasks, and only where the call itself approves one.
\<close>

theorem tool_call_safe:
  assumes "tasks_ok e w" and "call_canonical e c" and "fresh_oids e w" and "w' = snd (call_tool e rq c w)"
    and "W = caller_writes e rq w"
  shows "tasks_ok e w' \<and> w_projects w' = w_projects w \<and> w_users w' = w_users w \<and>
    list_all2 (cascaded e) (others W w) (others W w') \<and> (\<not> call_approves c \<longrightarrow> others W w' = others W w)"
  using call_project_step [OF assms(1-3), of rq] call_runs_safe [OF assms(1-3), of rq] assms(1,4,5)
  by (auto simp: project_step_def safe_tool.runs_iff safe_step_def)

theorem tool_call_safe_witness:
  "tasks_ok plain_env demo_mcp_world \<and> caller_writes plain_env demo_request demo_mcp_world = {''p''} \<and>
   tasks_ok plain_env (snd (call_tool plain_env demo_request (C_delete_task ''a'' True) demo_mcp_world))"
  using tool_call_safe [OF demo_mcp_ok _ demo_mcp_fresh refl refl, of "C_delete_task ''a'' True" demo_request]
  by (simp add: demo_mcp_ok demo_writes canonical_def)

text \<open>
  C3. Errors of authentication. When the credentials of a call do not authenticate, every
  tool ends in an error and no task, project or user has changed, whatever the arguments.
\<close>

theorem tool_call_needs_authentication:
  assumes "authenticate e rq w = (Inl x, w1)"
  shows "\<exists>y w'. call_tool e rq c w = (Inl y, w') \<and> same_store w w'"
proof -
  have "same_store w (snd (authenticate e rq w))" using authenticate_quiet by (simp add: keeps_def)
  with call_rejects [OF assms, of c] quiet.refl [of w] show ?thesis by (auto simp: rejects_def)
qed

theorem tool_call_needs_authentication_witness:
  "\<exists>y w'. call_tool plain_env (demo_request\<lparr>mr_api_key := None\<rparr>) (C_delete_task ''a'' True) demo_mcp_world = (Inl y, w') \<and>
     same_store demo_mcp_world w'"
proof (rule tool_call_needs_authentication)
  show "authenticate plain_env (demo_request\<lparr>mr_api_key := None\<rparr>) demo_mcp_world =
      (Inl (McpAuthError ''Authentication required''), demo_mcp_world)"
    by (simp add: authenticate_def demo_request_def truthy_def guard_def bindP_def return_def raise_def)
qed

section \<open>The life of a credential\<close>

text \<open>
  What the database says of a digest: an active key whose owner is a stored, active user.
  \<open>auth_calls\<close> runs a sequence of authentications, each with its own clock.
\<close>

definition live_owner :: "world \<Rightarrow> mcp_api_key \<Rightarrow> user option" where
  "live_owner w k =
     (case ak_created_by k of None \<Rightarrow> None | Some uid \<Rightarrow>
        (case coll_get u_id (w_users w) uid of None \<Rightarrow> None | Some u \<Rightarrow> if u_is_active u then Some u else None))"

definition revoked :: "world \<Rightarrow> string \<Rightarrow> bool" where
  "revoked w digest \<longleftrightarrow>
     (case List.find (\<lambda>k. ak_key_hash k = digest \<and> ak_is_active k) (w_api_keys w) of
        None \<Rightarrow> True | Some k \<Rightarrow> live_owner w k = None)"

definition auth_calls :: "(env \<times> mcp_request) list \<Rightarrow> world \<Rightarrow> world" where
  "auth_calls calls w = fold (\<lambda>(e, rq) w. snd (authenticate e rq w)) calls w"

definition expire_by :: "time \<Rightarrow> string \<Rightarrow> world \<Rightarrow> bool" where
  "expire_by h digest w = cache.expires_by h digest (w_auth_cache w)"

abbreviation cache_ok :: "world \<Rightarrow> bool" where
  "cache_ok w \<equiv> cache_inv auth_cache_max_size (w_auth_cache w)"

text \<open>
  The symbolic execution of an API-key login: a valid cache entry, an error, or a fresh entry
  for the digest, put from a live key and owner.
\<close>

lemma wp_key_owner:
  assumes "\<And>u. live_owner w k = Some u \<Longrightarrow> Q (Some u) w" and "ak_created_by k = None \<Longrightarrow> Q None w" and "\<And>x. E x w"
  shows "wp (key_owner k) Q E w"
  using assms by (auto simp: key_owner_def live_owner_def wp_simps split: option.splits)

lemma wp_resolve_api_key:
  assumes c: "c = snd (get_valid (monotonic e) (hash_api_key e k) (w_auth_cache w))"
    and hit: "\<And>r x. fst (get_valid (monotonic e) (hash_api_key e k) (w_auth_cache w)) = Some (r, x) \<Longrightarrow> Q r (w\<lparr>w_auth_cache := c\<rparr>)"
    and err: "\<And>x. fst (get_valid (monotonic e) (hash_api_key e k) (w_auth_cache w)) = None \<Longrightarrow> E x (w\<lparr>w_auth_cache := c\<rparr>)"
    and touched: "\<And>x d. d \<in> set (w_api_keys w) \<Longrightarrow> E x (w\<lparr>w_auth_cache := c, w_api_keys := coll_save ak_id (d\<lparr>ak_last_used_at := Some (now e)\<rparr>) (w_api_keys w)\<rparr>)"
    and new: "\<And>d u r ks. List.find (\<lambda>k'. ak_key_hash k' = hash_api_key e k \<and> ak_is_active k') (w_api_keys w) = Some d \<Longrightarrow>
      live_owner w d = Some u \<Longrightarrow> ki_user_id r = u_id u \<Longrightarrow>
      ks = w_api_keys w \<or> ks = coll_save ak_id (d\<lparr>ak_last_used_at := Some (now e)\<rparr>) (w_api_keys w) \<Longrightarrow>
      Q r (w\<lparr>w_api_keys := ks, w_auth_cache := cache_put auth_cache_max_size (hash_api_key e k) (r, monotonic e + auth_cache_ttl e) c\<rparr>)"
  shows "wp (resolve_api_key_user e k) Q E w"
proof (cases "fst (get_valid (monotonic e) (hash_api_key e k) (w_auth_cache w))")
  case (Some v)
  then obtain r x where "get_valid (monotonic e) (hash_api_key e k) (w_auth_cache w) = (Some (r, x), c)"
    by (metis c prod.collapse)
  with hit show ?thesis by (simp add: resolve_api_key_user_def cache_lookup_def wp_simps Let_def)
next
  case None
  then have get: "get_valid (monotonic e) (hash_api_key e k) (w_auth_cache w) = (None, c)"
    by (metis c prod.collapse)
  let ?w = "w\<lparr>w_auth_cache := c\<rparr>"
  show ?thesis
  proof (cases "List.find (\<lambda>k'. ak_key_hash k' = hash_api_key e k \<and> ak_is_active k') (w_api_keys w)")
    case None
    with get err show ?thesis by (simp add: resolve_api_key_user_def cache_lookup_def wp_simps Let_def)
  next
    case (Some d)
    then have d: "d \<in> set (w_api_keys w)" by (auto simp: find_Some_iff)
    have "live_owner ?w d = live_owner w d" by (simp add: live_owner_def cong: option.case_cong)
    moreover have "w\<lparr>w_api_keys := w_api_keys w, w_auth_cache := x\<rparr> = w\<lparr>w_auth_cache := x\<rparr>" for x by (cases w) simp
    then have "Q r (w\<lparr>w_auth_cache := cache_put auth_cache_max_size (hash_api_key e k) (r, monotonic e + auth_cache_ttl e) c\<rparr>)"
      if "live_owner w d = Some u" "ki_user_id r = u_id u" for u r
      using new [OF Some that, of "w_api_keys w"] by simp
    ultimately show ?thesis
      using get Some unfolding resolve_api_key_user_def Let_def
      by (simp add: cache_lookup_def wp_simps)
        (rule wp_key_owner; auto simp: touch_key_def wp_simps None split: option.splits intro!: new [OF Some] touched [OF d] err)
  qed
qed

text \<open>What one authentication does to the cache and to the keys.\<close>

lemma get_valid_cache:
  assumes "cache_ok w"
  shows "cache_inv auth_cache_max_size (snd (get_valid clk k (w_auth_cache w)))"
    and "cache.expires_by h d (w_auth_cache w) \<Longrightarrow> cache.expires_by h d (snd (get_valid clk k (w_auth_cache w)))"
  using cache.get_inv [OF assms] cache.expires_by_get [OF assms] by blast+

lemma save_key_find:
  assumes "keys_distinct ak_id ks" and "d \<in> set ks" and P: "\<And>k x. P (k\<lparr>ak_last_used_at := x\<rparr>) = P k"
  shows "List.find P (coll_save ak_id (d\<lparr>ak_last_used_at := x\<rparr>) ks) = map_option (\<lambda>k. if k = d then d\<lparr>ak_last_used_at := x\<rparr> else k) (List.find P ks)"
proof -
  have "coll_save ak_id (d\<lparr>ak_last_used_at := x\<rparr>) ks = map (\<lambda>k. if k = d then d\<lparr>ak_last_used_at := x\<rparr> else k) ks"
    using assms coll_save_map [where g = id and key = ak_id and ds = ks and x = d] doc_store.docs_key_unique [OF coll_doc_store assms(1)]
    by (auto intro!: map_cong)
  moreover have "List.find P (map (\<lambda>k. if k = d then d\<lparr>ak_last_used_at := x\<rparr> else k) xs) =
      map_option (\<lambda>k. if k = d then d\<lparr>ak_last_used_at := x\<rparr> else k) (List.find P xs)" for xs
    by (induction xs) (auto simp: P)
  ultimately show ?thesis by simp
qed

definition credential_inv :: "time \<Rightarrow> string \<Rightarrow> world \<Rightarrow> bool" where
  "credential_inv h digest w \<longleftrightarrow> cache_ok w \<and> keys_distinct ak_id (w_api_keys w) \<and> revoked w digest \<and> expire_by h digest w"

lemma revoked_cong:
  "w_users w' = w_users w \<Longrightarrow> w_api_keys w' = w_api_keys w \<Longrightarrow> revoked w' d = revoked w d"
  by (simp add: revoked_def live_owner_def cong: option.case_cong)

lemma revoked_touched:
  assumes "keys_distinct ak_id (w_api_keys w)" and "d \<in> set (w_api_keys w)" and "w_users w' = w_users w"
    and "w_api_keys w' = coll_save ak_id (d\<lparr>ak_last_used_at := x\<rparr>) (w_api_keys w)"
  shows "revoked w' digest = revoked w digest" and "keys_distinct ak_id (w_api_keys w')"
proof -
  have "live_owner w' (if k = d then d\<lparr>ak_last_used_at := x\<rparr> else k) = live_owner w k" for k
    using assms(3) by (simp add: live_owner_def cong: option.case_cong)
  then show "revoked w' digest = revoked w digest"
    unfolding revoked_def assms(4) by (subst save_key_find [OF assms(1,2)]) (auto split: option.splits)
  have "coll_get ak_id (w_api_keys w) (ak_id d) = Some d" using assms(1,2) by (simp add: coll_get_Some)
  then have "map ak_id (w_api_keys w') = map ak_id (w_api_keys w)"
    unfolding assms(4) by (intro coll_save_keys [where old = d]) simp
  with assms(1) show "keys_distinct ak_id (w_api_keys w')" by (simp add: keys_distinct_def)
qed

lemma still_oauth: "keeps (=) (resolve_oauth_user e c)"
  unfolding resolve_oauth_user_def by (intro still_intros)

lemma authenticate_cases:
  "(\<exists>k. mr_http rq \<and> truthy (mr_api_key rq) = Some k \<and> authenticate e rq = resolve_api_key_user e k) \<or> keeps (=) (authenticate e rq)"
proof (cases "truthy (mr_api_key rq)")
  case None
  then have "keeps (=) (authenticate e rq)"
    unfolding authenticate_def None option.case by (intro still_intros keeps_case_token still_oauth)
  then show ?thesis ..
next
  case (Some k)
  show ?thesis
  proof (cases "mr_http rq")
    case True
    with Some show ?thesis by (simp add: authenticate_def guard_def bindP_return)
  next
    case False
    then have "keeps (=) (authenticate e rq)"
      by (simp add: authenticate_def guard_def bindP_def raise_def keeps_def)
    then show ?thesis ..
  qed
qed

text \<open>Whatever an authentication keeps of the state, it keeps through the API-key login.\<close>

lemma authenticate_keeps:
  assumes "P w" and "\<And>k. wp (resolve_api_key_user e k) (\<lambda>_. P) (\<lambda>_. P) w"
  shows "P (snd (authenticate e rq w))"
  using authenticate_cases [of rq e]
proof (elim disjE exE conjE)
  fix k assume "authenticate e rq = resolve_api_key_user e k"
  with assms(2) [of k] show ?thesis by (simp add: wp_snd)
next
  assume "keeps (=) (authenticate e rq)"
  then show ?thesis using assms(1) by (metis keeps_def)
qed

lemma authenticate_cache_ok: "cache_ok w \<Longrightarrow> cache_ok (snd (authenticate e rq w))"
proof (rule authenticate_keeps [where P = cache_ok])
  assume ok: "cache_ok w"
  show "wp (resolve_api_key_user e k) (\<lambda>_. cache_ok) (\<lambda>_. cache_ok) w" for k
    using get_valid_cache(1) [OF ok] by (intro wp_resolve_api_key [OF refl]) (simp_all add: cache.put_inv)
qed

lemma authenticate_fresh:
  assumes "cache_ok w" and "\<forall>d. expire_by h d w" and "monotonic e + auth_cache_ttl e \<le> h"
  shows "\<forall>d. expire_by h d (snd (authenticate e rq w))"
proof (rule authenticate_keeps [where P = "\<lambda>w. \<forall>d. expire_by h d w", OF assms(2)])
  have get: "cache.expires_by h d (snd (get_valid clk k (w_auth_cache w)))" for d clk k
    using get_valid_cache(2) [OF assms(1)] assms(2) by (simp add: expire_by_def)
  then show "wp (resolve_api_key_user e k) (\<lambda>_ w. \<forall>d. expire_by h d w) (\<lambda>_ w. \<forall>d. expire_by h d w) w" for k
    using get_valid_cache(1) [OF assms(1)] assms(3)
    by (intro wp_resolve_api_key [OF refl]) (auto simp: expire_by_def intro: cache.expires_by_put)
qed

lemma authenticate_revocation:
  assumes inv: "credential_inv h digest w"
  shows "credential_inv h digest (snd (authenticate e rq w))"
proof (rule authenticate_keeps [where P = "credential_inv h digest", OF inv])
  fix k
  let ?c = "snd (get_valid (monotonic e) (hash_api_key e k) (w_auth_cache w))"
  from inv have ok: "cache_ok w" and d: "keys_distinct ak_id (w_api_keys w)" and r: "revoked w digest"
    and x: "cache.expires_by h digest (w_auth_cache w)" by (simp_all add: credential_inv_def expire_by_def)
  note c = get_valid_cache(1) [OF ok, of "monotonic e" "hash_api_key e k"] get_valid_cache(2) [OF ok x, of "monotonic e" "hash_api_key e k"]
  have still: "credential_inv h digest (w\<lparr>w_auth_cache := ?c\<rparr>)"
    using c d r revoked_cong [of "w\<lparr>w_auth_cache := ?c\<rparr>" w] by (simp add: credential_inv_def expire_by_def)
  show "wp (resolve_api_key_user e k) (\<lambda>_. credential_inv h digest) (\<lambda>_. credential_inv h digest) w"
  proof (rule wp_resolve_api_key [OF refl])
    fix y k' assume "k' \<in> set (w_api_keys w)"
    let ?w = "w\<lparr>w_auth_cache := ?c, w_api_keys := coll_save ak_id (k'\<lparr>ak_last_used_at := Some (now e)\<rparr>) (w_api_keys w)\<rparr>"
    from revoked_touched [OF d \<open>k' \<in> set (w_api_keys w)\<close>, of ?w] c r show "credential_inv h digest ?w"
      by (simp add: credential_inv_def expire_by_def)
  next
    fix k' u v ks assume k': "List.find (\<lambda>k'. ak_key_hash k' = hash_api_key e k \<and> ak_is_active k') (w_api_keys w) = Some k'"
      and u: "live_owner w k' = Some u"
      and ks: "ks = w_api_keys w \<or> ks = coll_save ak_id (k'\<lparr>ak_last_used_at := Some (now e)\<rparr>) (w_api_keys w)"
    let ?w = "w\<lparr>w_api_keys := ks, w_auth_cache := cache_put auth_cache_max_size (hash_api_key e k) (v, monotonic e + auth_cache_ttl e) ?c\<rparr>"
    have other: "hash_api_key e k \<noteq> digest" using r k' u by (auto simp: revoked_def)
    have "k' \<in> set (w_api_keys w)" using k' by (auto simp: find_Some_iff)
    from revoked_touched [OF d this, of ?w] revoked_cong [of ?w w] ks d r
    have "keys_distinct ak_id (w_api_keys ?w) \<and> revoked ?w digest" by auto
    with c other show "credential_inv h digest ?w"
      by (simp add: credential_inv_def expire_by_def cache.put_inv cache.expires_by_put)
  qed (simp_all add: still)
qed

text \<open>Sequences of authentications.\<close>

lemma auth_calls_cache_ok: "cache_ok w \<Longrightarrow> cache_ok (auth_calls calls w)"
  unfolding auth_calls_def by (induction calls arbitrary: w) (auto simp: authenticate_cache_ok)

lemma auth_calls_fresh:
  assumes "cache_ok w" and "\<forall>d. expire_by h d w" and "\<forall>(e, rq) \<in> set calls. monotonic e + auth_cache_ttl e \<le> h"
  shows "\<forall>d. expire_by h d (auth_calls calls w)"
  using assms unfolding auth_calls_def
  by (induction calls arbitrary: w) (auto simp: authenticate_cache_ok authenticate_fresh)

lemma auth_calls_revocation: "credential_inv h d w \<Longrightarrow> credential_inv h d (auth_calls calls w)"
  unfolding auth_calls_def by (induction calls arbitrary: w) (auto simp: authenticate_revocation)

lemma revoked_rejected:
  assumes inv: "credential_inv h digest w" and "h \<le> monotonic e" and "truthy (mr_api_key rq) = Some k" and "hash_api_key e k = digest"
  shows "\<exists>x w'. authenticate e rq w = (Inl x, w')"
proof (cases "mr_http rq")
  case True
  have "fst (get_valid (monotonic e) digest (w_auth_cache w)) = None"
    using inv assms(2) by (intro cache.get_expired [of _ h]) (simp_all add: credential_inv_def expire_by_def)
  with inv assms(4) have "wp (resolve_api_key_user e k) (\<lambda>_ _. False) (\<lambda>_ _. True) w"
    by (intro wp_resolve_api_key [OF refl]) (auto simp: credential_inv_def revoked_def)
  with True assms(3) show ?thesis
    by (auto simp: authenticate_def guard_def bindP_return wp_def split: prod.splits sum.splits)
qed (simp add: authenticate_def guard_def bindP_def raise_def)

text \<open>
  C5. The bound of the credential cache. Whatever sequence of authentications the process
  serves, starting with an empty cache: it holds at most 1000 entries, no digest twice.
\<close>

theorem auth_cache_bounded:
  assumes "w_auth_cache w = []"
  shows "length (w_auth_cache (auth_calls calls w)) \<le> 1000 \<and> distinct (map fst (w_auth_cache (auth_calls calls w)))"
proof -
  have "cache_ok (auth_calls calls w)" using assms by (intro auth_calls_cache_ok) (simp add: cache_inv_def)
  then show ?thesis by (simp add: cache_inv_def auth_cache_max_size_def)
qed

theorem auth_cache_bounded_witness:
  "w_auth_cache demo_mcp_world = [] \<and> length (w_auth_cache (auth_calls [(plain_env, demo_request)] demo_mcp_world)) \<le> 1000"
  using auth_cache_bounded [of demo_mcp_world "[(plain_env, demo_request)]"]
  by (simp add: demo_mcp_world_def demo_world_def empty_world_def)

text \<open>
  C4. Revocation takes effect within the lifetime of a cache entry. Authentications up to
  the instant \<open>clk\<close> fill the cache; then the key is deactivated or its owner removed, disabled or
  unset. However many authentications follow, the key is rejected from \<open>clk\<close> plus the
  configured lifetime on.
\<close>

theorem revocation_takes_effect:
  assumes "w_auth_cache w0 = []" and "\<forall>(e, rq) \<in> set before. monotonic e \<le> clk \<and> auth_cache_ttl e = ttl"
    and "w_auth_cache w = w_auth_cache (auth_calls before w0)" and "keys_distinct ak_id (w_api_keys w)"
    and "revoked w (hash_api_key e k)" and "k \<noteq> []" and "mr_api_key rq = Some k" and "clk + ttl \<le> monotonic e"
  shows "\<exists>x w'. authenticate e rq (auth_calls after w) = (Inl x, w')"
proof (rule revoked_rejected [where h = "clk + ttl"])
  have ok: "cache_ok w0" and fresh: "\<forall>d. expire_by (clk + ttl) d w0"
    using assms(1) by (simp_all add: cache_inv_def expire_by_def cache.expires_by_def)
  have "\<forall>(e, rq) \<in> set before. monotonic e + auth_cache_ttl e \<le> clk + ttl" using assms(2) by auto
  note auth_calls_cache_ok [OF ok, of before] auth_calls_fresh [OF ok fresh this]
  with assms(3-5) have "credential_inv (clk + ttl) (hash_api_key e k) w"
    by (simp add: credential_inv_def expire_by_def)
  then show "credential_inv (clk + ttl) (hash_api_key e k) (auth_calls after w)" by (rule auth_calls_revocation)
  show "truthy (mr_api_key rq) = Some k" using assms(6,7) by (cases k) (simp_all add: truthy_def)
qed (use assms(8) in simp_all)

theorem revocation_takes_effect_witness:
  "\<exists>x w'. authenticate (plain_env\<lparr>monotonic := 60000000\<rparr>) demo_request
     (auth_calls [(plain_env, demo_request)]
       (auth_calls [(plain_env, demo_request)] demo_mcp_world\<lparr>w_api_keys := []\<rparr>)) = (Inl x, w')"
proof -
  have "w_auth_cache demo_mcp_world = []" by (simp add: demo_mcp_world_def demo_world_def empty_world_def)
  from revocation_takes_effect [OF this, of "[(plain_env, demo_request)]" 0 60000000
      "auth_calls [(plain_env, demo_request)] demo_mcp_world\<lparr>w_api_keys := []\<rparr>"
      "plain_env\<lparr>monotonic := 60000000\<rparr>" "''k''" demo_request "[(plain_env, demo_request)]"]
  show ?thesis by (simp add: plain_env_def demo_request_def keys_distinct_def revoked_def)
qed

section \<open>REST and MCP agree\<close>

text \<open>The stored tasks up to their activity logs, which name the actor.\<close>

definition unlogged :: "world \<Rightarrow> task list" where
  "unlogged w = map (\<lambda>t. t\<lparr>t_activity_log := []\<rparr>) (w_tasks w)"

lemma unlogged_save:
  assumes "t_id a = t_id b" and "a\<lparr>t_activity_log := []\<rparr> = b\<lparr>t_activity_log := []\<rparr>"
  shows "map (\<lambda>t. t\<lparr>t_activity_log := []\<rparr>) (coll_save t_id a ts) = map (\<lambda>t. t\<lparr>t_activity_log := []\<rparr>) (coll_save t_id b ts)"
  using assms by (simp add: coll_save_def coll_insert_def)

lemma stored_by:
  assumes "\<And>x. keeps same_store (tail x)"
  shows "w_tasks (snd (bindP (save_updated e g) tail w)) = coll_save t_id (touch (now e) g) (w_tasks w)"
proof -
  have "bindP (save_updated e g) tail w = tail (touch (now e) g) (store_task (touch (now e) g) w)"
    by (simp add: bindP_def save_updated_def modify_def return_def)
  moreover have "same_store (store_task (touch (now e) g) w) (snd (tail (touch (now e) g) (store_task (touch (now e) g) w)))"
    using assms by (simp add: keeps_def)
  ultimately show ?thesis by (simp add: same_store_def)
qed

lemma rest_preamble:
  assumes "may_access e w pid u p" and "\<not> p_is_locked p" and "editable e w pid tid t"
  shows "bindP (get_editable_task e pid tid u) f w = f (p, t) w"
  using assms
  by (simp add: get_editable_task_def check_project_access_def valid_object_id_def project_get_def task_get_def check_not_locked_def
      in_project_def bindP_def guard_def return_def raise_def gets_def may_access_def editable_def)

lemma tool_preamble:
  assumes "authenticate e rq w = (Inr ki, w1)" and "pid \<in> writable e w ki" and "editable e w pid tid t"
  shows "bindP (tool_task e rq tid) f w = f (ki, t) w1"
proof -
  have s: "same_store w w1" using authenticate_quiet [of e rq] assms(1) by (metis keeps_def snd_conv)
  have "t_project_id t = pid" using assms(3) by (simp add: editable_def)
  moreover have "coll_get t_id (w_tasks w1) (oid_canon e tid) = Some t" "oid_valid e tid" "\<not> t_is_deleted t"
    using assms(3) s by (simp_all add: editable_def same_store_def)
  moreover have "may_use e w1 ki pid" "unlocked e w1 pid" using assms(2) s by (simp_all add: writable_def same_store_access)
  ultimately show ?thesis
    using assms(1)
    by (auto simp: tool_task_def get_task_or_raise_def task_get_def mcp_check_project_access_def check_project_not_locked_def
        project_get_def not_deleted_def may_use_def unlocked_def bindP_def guard_def return_def raise_def gets_def some_or_def)
qed

text \<open>
  C6. Reopening, archiving and unarchiving a task over REST and over MCP is the same change of the
  stored tasks, up to the activity log that names the actor, for a task and callers that may edit
  it on both sides; and so is completing a task that is not done yet, with a report of at most
  10000 characters or none. Completing a task that is done already differs: REST stamps it again,
  MCP does not.
\<close>

theorem rest_mcp_agree:
  assumes "may_access e w pid u p" and "\<not> p_is_locked p" and "editable e w pid tid t"
    and "authenticate e rq w = (Inr ki, w1)" and "pid \<in> writable e w ki" and "\<forall>r. report = Some r \<longrightarrow> length r \<le> 10000"
  shows "(t_status t \<noteq> Done \<longrightarrow>
      unlogged (snd (mcp_complete_task e rq tid report w)) = unlogged (snd (complete_task e pid tid report u w))) \<and>
    unlogged (snd (mcp_reopen_task e rq tid w)) = unlogged (snd (reopen_task e pid tid u w)) \<and>
    unlogged (snd (mcp_archive_task e rq tid w)) = unlogged (snd (archive_task e pid tid u w)) \<and>
    unlogged (snd (mcp_unarchive_task e rq tid w)) = unlogged (snd (unarchive_task e pid tid u w))"
proof -
  note pre = rest_preamble [OF assms(1-3)] tool_preamble [OF assms(4,5,3)]
  have w1: "w_tasks w1 = w_tasks w" using authenticate_quiet [of e rq] assms(4) by (metis keeps_def same_store_def snd_conv)
  have "at_most 10000 report k = return ()" for k
    using assms(6) by (cases report) (auto simp: at_most_def guard_def)
  then have skip: "bindP (at_most 10000 report k) f = f ()" for k and f :: "unit \<Rightarrow> (world, json) prog"
    by (simp add: bindP_return)
  have "unlogged (snd (mcp_complete_task e rq tid report w)) = unlogged (snd (complete_task e pid tid report u w))"
    if "t_status t \<noteq> Done"
    using that unfolding mcp_complete_task_def complete_task_def skip pre Let_def unlogged_def resolve_linked_issues_def
    by (simp split del: if_split) (subst stored_by, intro quiet_intros, subst stored_by, intro quiet_intros,
      simp add: w1, rule unlogged_save;
      simp add: task_simps complete_document_def set_report_def record_change_def touch_def split: option.split)
  moreover have "unlogged (snd (mcp_reopen_task e rq tid w)) = unlogged (snd (reopen_task e pid tid u w))"
    unfolding mcp_reopen_task_def reopen_task_def pre Let_def unlogged_def prod.case
    by (subst stored_by, intro quiet_intros, subst stored_by, intro quiet_intros, simp add: w1, rule unlogged_save;
        simp add: task_simps record_change_def touch_def)
  moreover have "unlogged (snd (mcp_archive_task e rq tid w)) = unlogged (snd (archive_task e pid tid u w))"
    "unlogged (snd (mcp_unarchive_task e rq tid w)) = unlogged (snd (unarchive_task e pid tid u w))"
    unfolding mcp_archive_task_def archive_task_def mcp_unarchive_task_def unarchive_task_def pre unlogged_def prod.case ignore_linked_issues_def
    by (subst stored_by, intro quiet_intros, subst stored_by, intro quiet_intros, simp add: w1)+
  ultimately show ?thesis by blast
qed

theorem rest_mcp_agree_witness:
  "unlogged (snd (mcp_complete_task plain_env demo_request ''c'' None demo_mcp_world)) =
   unlogged (snd (complete_task plain_env ''p'' ''c'' None demo_user demo_mcp_world))"
proof -
  obtain w1 where a: "authenticate plain_env demo_request demo_mcp_world = (Inr demo_caller, w1)" using demo_authenticates by blast
  then have "''p'' \<in> writable plain_env demo_mcp_world demo_caller" using demo_writes by (auto simp: caller_writes_def)
  from rest_mcp_agree [OF _ _ _ a this, of demo_user demo_project "''c''" "demo_task ''c'' [] []" None]
  show ?thesis by (simp add: may_access_def editable_def)
qed

section \<open>Reachable states\<close>













section \<open>Two corners of the tools\<close>

text \<open>An update that sets both review flags ends with neither, and still cascades.\<close>

lemma both_flags_cancel:
  assumes "F_needs_detail True \<in> set fs" and "F_approved True \<in> set fs"
  shows "\<not> t_approved (settle_flags fs t) \<and> \<not> t_needs_detail (settle_flags fs t)"
  using assms by (simp add: settle_flags_def Let_def)

text \<open>
  At noon of 15 June 2025, \<open>this_month\<close> denotes one second before noon of 1 July: a due date in
  the morning of the next month passes the filter.
\<close>

lemma june_2025: "next_month_start (ordinal 1749988800000000) = 739433" "ordinal 1751371199000000 = 739433"
  by code_simp+

lemma this_month_reaches_into_next:
  "parse_date_filter (plain_env\<lparr>now := 1749988800000000\<rparr>) ''this_month'' = return 1751371199000000"
  "ordinal 1751371199000000 = next_month_start (ordinal 1749988800000000)"
  by (simp_all add: parse_date_filter_def june_2025 day_us_def epoch_ordinal_def)

end
