(* ===== verification/Error_Store.thy ===== *)
theory Error_Store
  imports Error_Jobs Mcp_Behaviour
begin

text \<open>
  The invariant of what the error tracker stores: one issue per project and fingerprint, events
  that belong to an issue and hold no secrets, one event per identifier and day, counters that
  belong to issues, and a queue in order; and that handling an entry twice stores nothing twice.
\<close>

section \<open>The invariant\<close>

definition issue_key :: "error_issue \<Rightarrow> string \<times> string \<times> string" where
  "issue_key i = (i_id i, i_project_id i, i_fingerprint i)"

definition issue_keys :: "et_state \<Rightarrow> (string \<times> string \<times> string) list" where
  "issue_keys s = map issue_key (w_issues (et_app s))"

definition event_ok :: "(string \<times> string \<times> string) set \<Rightarrow> string \<Rightarrow> error_event \<Rightarrow> bool" where
  "event_ok issues day d \<longleftrightarrow> (ee_issue_id d, ee_project_id d, ee_fingerprint d) \<in> issues \<and>
     list_all (\<lambda>(k, v). clean v) (ee_payload d) \<and> day = collection_name_for (ee_received_at d)"

definition event_key :: "error_event \<Rightarrow> string \<times> string" where
  "event_key d = (ee_project_id d, ee_event_id d)"

definition has_event :: "string \<Rightarrow> string \<times> string \<Rightarrow> et_state \<Rightarrow> bool" where
  "has_event day k s \<longleftrightarrow> (\<exists>c \<in> set (et_events s). fst c = day \<and> k \<in> event_key ` set (snd c))"

definition events_ok :: "(string \<times> string \<times> string) set \<Rightarrow> (string \<times> error_event list) list \<Rightarrow> bool" where
  "events_ok issues cs \<longleftrightarrow> distinct (map fst cs) \<and>
     (\<forall>(day, ds) \<in> set cs. distinct (map event_key ds) \<and> (\<forall>d \<in> set ds. event_ok issues day d))"

definition issues_ok :: "env \<Rightarrow> et_state \<Rightarrow> bool" where
  "issues_ok b s \<longleftrightarrow> distinct (map fst (issue_keys s)) \<and> distinct (map snd (issue_keys s)) \<and>
     (\<forall>k \<in> set (issue_keys s). canonical b (fst k))"

definition store_ok :: "env \<Rightarrow> et_state \<Rightarrow> bool" where
  "store_ok b s \<longleftrightarrow> issues_ok b s \<and> events_ok (set (issue_keys s)) (et_events s) \<and>
     counters_ok (oid_valid b) (oid_canon b) s \<and> tasks_ok b (et_app s)"

definition queue_ok :: "et_state \<Rightarrow> bool" where
  "queue_ok s \<longleftrightarrow> pending_sorted s \<and> (\<forall>p \<in> set (rs_pending s). case rs_group s of None \<Rightarrow> False | Some g \<Rightarrow> fst p < g) \<and>
     (case rs_group s of None \<Rightarrow> True | Some g \<Rightarrow> g \<le> rs_next_id s) \<and>
     sorted_wrt (<) (map fst (rs_stream s)) \<and> (\<forall>x \<in> set (rs_stream s). fst x < rs_next_id s)"

text \<open>The identifiers the database gives to a new issue and a new task are fresh.\<close>

definition et_fresh :: "env \<Rightarrow> et_env \<Rightarrow> et_state \<Rightarrow> bool" where
  "et_fresh b e s \<longleftrightarrow> oid_valid (et_base e) = oid_valid b \<and> oid_canon (et_base e) = oid_canon b \<and>
     canonical b (new_oid (et_base e) 0) \<and> new_oid (et_base e) 0 \<notin> fst ` set (issue_keys s) \<and>
     fresh_oid b (et_app s) (new_oid (et_base e) 1)"

lemma known_keys: "issues_ok b s \<Longrightarrow> known_issues (oid_valid b) (oid_canon b) s = fst ` set (issue_keys s)"
  by (force simp: issues_ok_def known_issues_def issue_keys_def issue_key_def canonical_def)

lemma known_same: "issue_keys s' = issue_keys s \<Longrightarrow> known_issues valid canon s' = known_issues valid canon s"
proof -
  have "i_id ` set (w_issues (et_app s)) = fst ` set (issue_keys s)" for s by (simp add: issue_keys_def issue_key_def image_image)
  then show "issue_keys s' = issue_keys s \<Longrightarrow> known_issues valid canon s' = known_issues valid canon s"
    by (simp add: known_issues_def)
qed

text \<open>The invariant depends on the keys of the issues, the events, the open counters and the tasks.\<close>

lemma store_ok_same:
  assumes "issue_keys s' = issue_keys s" and "et_events s' = et_events s" and "rs_evt s' = rs_evt s" and "rs_dirty s' = rs_dirty s"
    and "w_tasks (et_app s') = w_tasks (et_app s)"
  shows "store_ok b s' \<longleftrightarrow> store_ok b s"
  using assms known_same [OF assms(1)] by (simp add: store_ok_def issues_ok_def counters_ok_def tasks_ok_def)

section \<open>The parts of the handler\<close>

lemma issue_keys_app:
  "issue_keys (s\<lparr>et_app := w\<rparr>) = map issue_key (w_issues w)"
  by (simp add: issue_keys_def)

lemma upsert_ok:
  assumes "store_ok b s" and "et_fresh b e s" and "i_id i = new_oid (et_base e) 0" and taken: "issue_upsert_error e i = None"
  obtains j new s' where "upsert_issue e i s = (Inr (j, new), s')" and "store_ok b s'" and "issue_key j \<in> set (issue_keys s')"
    and "i_project_id j = i_project_id i" and "i_fingerprint j = i_fingerprint i"
    and "w_tasks (et_app s') = w_tasks (et_app s)" and "et_events s' = et_events s"
proof (cases "find (same_group (i_project_id i) (i_fingerprint i)) (w_issues (et_app s))")
  case None
  let ?s = "s\<lparr>et_app := (et_app s)\<lparr>w_issues := coll_insert i (w_issues (et_app s))\<rparr>\<rparr>"
  have keys: "issue_keys ?s = issue_keys s @ [issue_key i]" by (simp add: issue_keys_def coll_insert_def)
  have new: "i_id i \<notin> fst ` set (issue_keys s)" and canon: "canonical b (i_id i)" using assms by (simp_all add: et_fresh_def)
  have "(i_project_id i, i_fingerprint i) \<notin> snd ` set (issue_keys s)"
    using None by (auto simp: find_None_iff same_group_def issue_keys_def issue_key_def)
  then have "issues_ok b ?s" using assms(1) new canon unfolding issues_ok_def keys store_ok_def by (simp add: issue_key_def)
  moreover have "events_ok (set (issue_keys ?s)) (et_events ?s)"
    using assms(1) unfolding keys store_ok_def by (auto simp: events_ok_def event_ok_def)
  moreover have "counters_ok (oid_valid b) (oid_canon b) ?s"
    using assms(1) by (force simp: store_ok_def counters_ok_def known_issues_def coll_insert_def)
  ultimately have "store_ok b ?s" using assms(1) by (simp add: store_ok_def tasks_ok_def)
  then show thesis
    using None keys that [of i True ?s] by (simp add: upsert_issue_def taken bindP_def gets_def modify_def return_def)
next
  case (Some j)
  then have "j \<in> set (w_issues (et_app s))" "same_group (i_project_id i) (i_fingerprint i) j" by (auto simp: find_Some_iff)
  then show thesis
    using Some assms(1) that [of j False s]
    by (simp add: upsert_issue_def taken bindP_def gets_def modify_def return_def issue_keys_def same_group_def)
qed

lemma seen_ok:
  assumes "store_ok b s" and "i \<in> fst ` set (issue_keys s)" and "s' = snd (record_event_seen e i u t s)"
  shows "store_ok b s'" and "issue_keys s' = issue_keys s" and "w_tasks (et_app s') = w_tasks (et_app s)" and "et_events s' = et_events s"
proof -
  have s': "s' = seen_step (e, u, t) i s" using assms(3) by (simp add: seen_step_def)
  have app: "et_app s' = et_app s \<and> et_events s' = et_events s" unfolding s' seen_step_cases by simp
  moreover have "counters_ok (oid_valid b) (oid_canon b) s'"
    unfolding s' using assms(1,2) known_keys [of b s] by (intro seen_counters_ok) (simp_all add: store_ok_def)
  ultimately show "store_ok b s'" using assms(1) by (simp add: store_ok_def issues_ok_def issue_keys_def tasks_ok_def)
  show "issue_keys s' = issue_keys s" "w_tasks (et_app s') = w_tasks (et_app s)" "et_events s' = et_events s"
    using app by (simp_all add: issue_keys_def)
qed

lemma ensure_collection_ok:
  assumes "store_ok b s" and "s' = snd (ensure_event_collection t s)"
  shows "store_ok b s'" and "issue_keys s' = issue_keys s" and "w_tasks (et_app s') = w_tasks (et_app s)"
    and "fst (ensure_event_collection t s) = Inr (collection_name_for t)" and "collection_name_for t \<in> fst ` set (et_events s')"
proof -
  have s': "s' = (if \<exists>c \<in> set (et_events s). fst c = collection_name_for t then s
      else s\<lparr>et_events := et_events s @ [(collection_name_for t, [])]\<rparr>)"
    using assms(2) by (simp add: ensure_event_collection_def bindP_def modify_def return_def)
  show keys: "issue_keys s' = issue_keys s" "w_tasks (et_app s') = w_tasks (et_app s)" using s' by (simp_all add: issue_keys_def)
  have "events_ok (set (issue_keys s)) (et_events s')"
    using assms(1) s' by (auto simp: store_ok_def events_ok_def)
  then show "store_ok b s'"
    using assms(1) s' known_same [OF keys(1)] keys by (simp add: store_ok_def issues_ok_def counters_ok_def tasks_ok_def)
  show "collection_name_for t \<in> fst ` set (et_events s')" using s' by (cases "\<exists>c \<in> set (et_events s). fst c = collection_name_for t") force+
  show "fst (ensure_event_collection t s) = Inr (collection_name_for t)"
    by (simp add: ensure_event_collection_def bindP_def modify_def return_def)
qed

lemma insert_event_ok:
  assumes "store_ok b s" and "event_ok (set (issue_keys s)) day d" and "s' = snd (insert_event e day d s)"
  shows "store_ok b s'" and "issue_keys s' = issue_keys s" and "w_tasks (et_app s') = w_tasks (et_app s)"
    and "day \<in> fst ` set (et_events s) \<Longrightarrow> event_insert_error e = None \<Longrightarrow> has_event day (event_key d) s' \<and> (\<exists>r. fst (insert_event e day d s) = Inr r)"
proof -
  define es where "es = map (\<lambda>(n, ds). (n, if n = day then ds @ [d] else ds)) (et_events s)"
  have cases: "s' = s \<or> s' = s\<lparr>et_events := es\<rparr> \<and> \<not> (\<exists>c \<in> set (et_events s). fst c = day \<and> (\<exists>x \<in> set (snd c). same_event d x))"
    using assms(3) by (auto simp: insert_event_def es_def bindP_def gets_def modify_def return_def raise_def split: option.splits if_splits)
  then show keys: "issue_keys s' = issue_keys s" "w_tasks (et_app s') = w_tasks (et_app s)" by (auto simp: issue_keys_def)
  have "events_ok (set (issue_keys s)) es"
    if no: "\<not> (\<exists>c \<in> set (et_events s). fst c = day \<and> (\<exists>x \<in> set (snd c). same_event d x))"
  proof -
    have "map fst es = map fst (et_events s)" by (simp add: es_def case_prod_unfold)
    moreover have "distinct (map event_key ds) \<and> (\<forall>d \<in> set ds. event_ok (set (issue_keys s)) n d)" if mem: "(n, ds) \<in> set es" for n ds
    proof -
      obtain ds0 where old: "(n, ds0) \<in> set (et_events s)" "ds = (if n = day then ds0 @ [d] else ds0)"
        using mem by (auto simp: es_def)
      have "event_key d \<notin> event_key ` set ds0" if "n = day"
        using no old(1) that by (force simp: same_event_def event_key_def)
      with old assms(1,2) show ?thesis by (auto simp: store_ok_def events_ok_def)
    qed
    ultimately show ?thesis using assms(1) by (auto simp: store_ok_def events_ok_def)
  qed
  with cases show "store_ok b s'"
    using assms(1) known_same [OF keys(1)] keys by (auto simp: store_ok_def issues_ok_def counters_ok_def tasks_ok_def)
  show "has_event day (event_key d) s' \<and> (\<exists>r. fst (insert_event e day d s) = Inr r)"
    if "day \<in> fst ` set (et_events s)" and "event_insert_error e = None"
    using that assms(3)
    by (auto simp: insert_event_def has_event_def same_event_def event_key_def image_iff bindP_def gets_def modify_def return_def
        case_prod_unfold split: if_splits)
qed

lemma counts_ok: "store_ok b (s\<lparr>rs_counts := c\<rparr>) \<longleftrightarrow> store_ok b s"
  by (rule store_ok_same) (simp_all add: issue_keys_def)

text \<open>The task of a new issue and its link, in any state that holds the issue.\<close>

lemma save_issue_keys:
  assumes "distinct (map i_id is)" and "coll_get i_id is k = Some i" and "issue_key i' = issue_key i"
  shows "map issue_key (coll_save i_id i' is) = map issue_key is"
proof -
  have i: "i \<in> set is" "i_id i = k" "i_id i' = k" using assms(2,3) by (auto simp: issue_key_def dest: coll_get_in)
  have "x = i" if "x \<in> set is" "i_id x = k" for x using assms(1) i that by (auto simp: distinct_map dest: inj_onD)
  then have "map issue_key (map (\<lambda>x. if i_id x = i_id i' then i' else x) is) = map issue_key is"
    using i(3) assms(3) by auto
  then show ?thesis using coll_save_eq_map [of i_id "is" i' i] assms(2) i(3) by simp
qed

lemma link_ok:
  assumes "store_ok b s" and "oid_canon (et_base e) = oid_canon b" and "fresh_oid b (et_app s) (new_oid (et_base e) 1)"
  defines "post \<equiv> \<lambda>s'. store_ok b s' \<and> issue_keys s' = issue_keys s \<and> et_events s' = et_events s"
  shows "wp (link_new_issue e c iid) (\<lambda>_. post) (\<lambda>_. post) s"
proof -
  have ids: "distinct (map i_id (w_issues (et_app s)))"
    using assms(1) by (simp add: store_ok_def issues_ok_def issue_keys_def issue_key_def comp_def)
  have insert: "post (s\<lparr>rs_counts := rc, et_app := (et_app s)\<lparr>w_tasks := coll_insert (auto_task e c i) (w_tasks (et_app s)),
      w_issues := coll_save i_id i' (w_issues (et_app s))\<rparr>\<rparr>)"
    if "coll_get i_id (w_issues (et_app s)) k = Some i" "issue_key i' = issue_key i" for rc i i' k
  proof -
    let ?s = "s\<lparr>rs_counts := rc, et_app := (et_app s)\<lparr>w_tasks := coll_insert (auto_task e c i) (w_tasks (et_app s)),
      w_issues := coll_save i_id i' (w_issues (et_app s))\<rparr>\<rparr>"
    have "tasks_ok b ((et_app s)\<lparr>w_tasks := coll_insert (auto_task e c i) (w_tasks (et_app s))\<rparr>)"
      using safe_insert [of b "et_app s" "auto_task e c i" "ec_project_id c"] assms(1,3)
      by (simp add: safe_step_def store_ok_def auto_task_def new_task_def task_ok_def)
    moreover have keys: "issue_keys ?s = issue_keys s" using save_issue_keys [OF ids that] by (simp add: issue_keys_def)
    ultimately show ?thesis
      using assms(1) known_same [OF keys] by (simp add: post_def store_ok_def issues_ok_def counters_ok_def tasks_ok_def)
  qed
  have quiet: "post s" "post (s\<lparr>rs_counts := rc\<rparr>)" for rc using assms(1) by (simp_all add: post_def counts_ok issue_keys_def)
  show ?thesis
    unfolding link_new_issue_def issue_get_def create_task_for_new_issue_def burst_window_ok_def incr_expire_def Let_def
    using quiet insert by (simp add: wp_simps issue_key_def split: option.splits)
qed

text \<open>The document of an event is in order when its issue is stored.\<close>

lemma event_doc_ok:
  assumes "issue_key j \<in> issues" and "i_project_id j = se_project_id x" and "i_fingerprint j = fp"
    and "scrubbed = scrub_event ip raw"
  shows "event_ok issues (collection_name_for t) (event_doc e x scrubbed j fp t)"
proof -
  have "clean (dict_get k JNull scrubbed)" for k
    using clean_member [of scrubbed k] clean_scrub_event [of ip raw] assms(4)
    by (cases "map_of scrubbed k") (simp_all add: dict_get_def)
  then show ?thesis using assms by (simp add: event_ok_def event_doc_def issue_key_def Let_def)
qed

lemma wp_state: "m s = (r, s') \<Longrightarrow> (\<And>x. r = Inr x \<Longrightarrow> Q x s') \<Longrightarrow> (\<And>x. r = Inl x \<Longrightarrow> E x s') \<Longrightarrow> wp m Q E s"
  by (cases r) (simp_all add: wp_def)

lemma wp_run: "m s = (Inr x, s') \<Longrightarrow> wp m Q E s = Q x s'"
  by (simp add: wp_def)

lemma liftE_simps: "liftE (Inl x) = raise x" "liftE (Inr y) = return y"
  by (simp_all add: liftE_def)

lemma store_event_ok:
  fixes t :: time
  assumes "store_ok b s" and "oid_canon (et_base e) = oid_canon b" and "fresh_oid b (et_app s) (new_oid (et_base e) 1)"
    and "issue_key j \<in> set (issue_keys s)" and "i_project_id j = se_project_id x" and "i_fingerprint j = fp"
    and "scrubbed = scrub_event ip raw"
  defines "post \<equiv> \<lambda>s'. store_ok b s' \<and> issue_keys s' = issue_keys s \<and>
      (event_insert_error e = None \<longrightarrow> has_event (collection_name_for t) (se_project_id x, se_event_id x) s')"
  shows "wp (bindP (catchP (record_event_seen e (i_id j) u t) (\<lambda>_. return ())) (\<lambda>_.
      bindP (ensure_event_collection t) (\<lambda>day.
      bindP (insert_event e day (event_doc e x scrubbed j fp t)) (\<lambda>stored.
      if \<not> stored then return () else whenP new (link_new_issue e c (i_id j))))))
    (\<lambda>_. post) (\<lambda>_. post) s"
proof -
  let ?doc = "event_doc e x scrubbed j fp t" and ?day = "collection_name_for t"
  define s1 where "s1 = snd (record_event_seen e (i_id j) u t s)"
  define s2 where "s2 = snd (ensure_event_collection t s1)"
  define s3 where "s3 = snd (insert_event e ?day ?doc s2)"
  have "i_id j \<in> fst ` set (issue_keys s)" using assms(4) by (force simp: issue_key_def)
  note seen = seen_ok [OF assms(1) this s1_def]
  note coll = ensure_collection_ok [OF seen(1) s2_def]
  have "event_ok (set (issue_keys s2)) ?day ?doc"
    using assms(4-7) seen(2) coll(2) by (intro event_doc_ok) simp_all
  note insert = insert_event_ok [OF coll(1) this s3_def]
  have "event_key ?doc = (se_project_id x, se_event_id x)" by (simp add: event_key_def event_doc_def Let_def)
  then have stored: "post s3" using insert coll(2,5) seen(2) by (simp add: post_def)
  have "fresh_oid b (et_app s3) (new_oid (et_base e) 1)"
    using assms(3) seen(3) coll(3) insert(3) by (simp add: fresh_oid_def)
  note link = link_ok [OF insert(1) assms(2) this, of c "i_id j"]
  have "wp (if \<not> r then return () else whenP new (link_new_issue e c (i_id j))) (\<lambda>_. post) (\<lambda>_. post) s3" for r
    using stored wp_mono [OF link, of "\<lambda>_. post" "\<lambda>_. post"] by (simp add: wp_simps post_def has_event_def)
  then have "wp (insert_event e ?day ?doc) (\<lambda>stored. wp (if \<not> stored then return () else whenP new (link_new_issue e c (i_id j)))
      (\<lambda>_. post) (\<lambda>_. post)) (\<lambda>_. post) s2"
    using stored by - (rule wp_state [OF surjective_pairing], simp_all add: s3_def [symmetric])
  then have "wp (ensure_event_collection t) (\<lambda>day. wp (insert_event e day ?doc) (\<lambda>stored.
      wp (if \<not> stored then return () else whenP new (link_new_issue e c (i_id j))) (\<lambda>_. post) (\<lambda>_. post)) (\<lambda>_. post)) (\<lambda>_. post) s1"
    using coll(4) by - (rule wp_state [OF surjective_pairing], simp_all add: s2_def [symmetric])
  then show ?thesis
    unfolding wp_bindP wp_catchP wp_return_fn
    by - (rule wp_state [OF surjective_pairing], simp_all add: s1_def [symmetric])
qed

text \<open>What the handler reads of an entry, and what is stored once it has run.\<close>

definition entry_time :: "et_env \<Rightarrow> stream_entry \<Rightarrow> time" where
  "entry_time e x = parse_iso_or_now e (Some (se_received_at x))"

definition entry_scrubbed :: "et_env \<Rightarrow> error_tracking_config \<Rightarrow> stream_entry \<Rightarrow> jdict" where
  "entry_scrubbed e c x = scrub_event (ec_scrub_ip c) (payload_dict e (se_payload x))"

definition entry_stored :: "et_env \<Rightarrow> error_tracking_config \<Rightarrow> stream_entry \<Rightarrow> et_state \<Rightarrow> bool" where
  "entry_stored e c x s \<longleftrightarrow> (\<forall>fp. compute_fingerprint e (entry_scrubbed e c x) = Inr fp \<longrightarrow>
     issue_upsert_error e (new_issue e x (entry_scrubbed e c x) fp (entry_time e x)) = None \<longrightarrow>
     (se_project_id x, fst fp) \<in> snd ` set (issue_keys s) \<and>
     (\<forall>u. user_key_of e (entry_scrubbed e c x) (truthy (se_client_ip x)) = Inr u \<longrightarrow> event_insert_error e = None \<longrightarrow>
        has_event (collection_name_for (entry_time e x)) (se_project_id x, se_event_id x) s))"

lemma grouped_ok:
  assumes "store_ok b s" and "et_fresh b e s" and fp: "compute_fingerprint e (entry_scrubbed e c x) = Inr (fp, tc)"
  defines "post \<equiv> \<lambda>s'. store_ok b s' \<and> entry_stored e c x s'" and "t \<equiv> entry_time e x"
  shows "wp (upsert_issue e (new_issue e x (entry_scrubbed e c x) (fp, tc) t)) (\<lambda>r.
      wp (case r of (issue, is_new) \<Rightarrow> bindP (liftE (user_key_of e (entry_scrubbed e c x) (truthy (se_client_ip x)))) (\<lambda>user_key.
        bindP (catchP (record_event_seen e (i_id issue) user_key t) (\<lambda>_. return ())) (\<lambda>_.
        bindP (ensure_event_collection t) (\<lambda>day.
        bindP (insert_event e day (event_doc e x (entry_scrubbed e c x) issue fp t)) (\<lambda>stored.
        if \<not> stored then return () else whenP (is_new \<and> auto) (link_new_issue e c (i_id issue)))))))
      (\<lambda>_. post) (\<lambda>_. post)) (\<lambda>_. post) s"
proof (cases "issue_upsert_error e (new_issue e x (entry_scrubbed e c x) (fp, tc) t)")
  case (Some msg)
  then show ?thesis using assms(1) by (simp add: upsert_issue_def wp_bindP wp_raise post_def entry_stored_def fp t_def)
next
  case None
  show ?thesis
  proof (rule upsert_ok [OF assms(1,2) _ None])
    show "i_id (new_issue e x (entry_scrubbed e c x) (fp, tc) t) = new_oid (et_base e) 0" by (simp add: new_issue_def case_prod_unfold)
  next
    fix j new s'
    assume run: "upsert_issue e (new_issue e x (entry_scrubbed e c x) (fp, tc) t) s = (Inr (j, new), s')" and s': "store_ok b s'"
      "issue_key j \<in> set (issue_keys s')" "i_project_id j = i_project_id (new_issue e x (entry_scrubbed e c x) (fp, tc) t)"
      "i_fingerprint j = i_fingerprint (new_issue e x (entry_scrubbed e c x) (fp, tc) t)" "w_tasks (et_app s') = w_tasks (et_app s)"
    have fresh: "fresh_oid b (et_app s') (new_oid (et_base e) 1)" "oid_canon (et_base e) = oid_canon b"
      using assms(2) s'(5) by (simp_all add: et_fresh_def fresh_oid_def)
    have j: "i_project_id j = se_project_id x" "i_fingerprint j = fp" using s'(3,4) by (simp_all add: new_issue_def case_prod_unfold)
    then have group: "(se_project_id x, fp) \<in> snd ` set (issue_keys s')" using s'(2) by (force simp: issue_key_def)
    note event = store_event_ok [OF s'(1) fresh(2,1) s'(2) j entry_scrubbed_def [of e c x], where t = t and new = "new \<and> auto" and c = c]
    show ?thesis
      by (subst wp_run, rule run, simp only: prod.case, subst wp_bindP,
          cases "user_key_of e (entry_scrubbed e c x) (truthy (se_client_ip x))",
          simp add: liftE_simps wp_raise post_def entry_stored_def fp s'(1) group,
          simp only: liftE_simps wp_return, rule wp_mono [OF event])
        (simp_all add: post_def entry_stored_def fp group t_def)
  qed
qed

definition config_of :: "et_env \<Rightarrow> stream_entry \<Rightarrow> et_state \<Rightarrow> error_tracking_config option" where
  "config_of e x s = (if se_error_project_id x = [] \<or> \<not> oid_valid (et_base e) (se_error_project_id x) then None
     else coll_get ec_id (et_configs s) (oid_canon (et_base e) (se_error_project_id x)))"

lemma wp_config_get:
  "(config_of e x s = None \<Longrightarrow> Q None s \<and> (\<forall>y. E y s)) \<Longrightarrow> (\<And>c. config_of e x s = Some c \<Longrightarrow> Q (Some c) s) \<Longrightarrow>
   wp (config_get e (se_error_project_id x)) Q E s"
  by (cases "config_of e x s") (auto simp: config_get_def config_of_def wp_simps split: if_splits)

lemma handle_ok:
  fixes x :: stream_entry
  assumes "store_ok b s" and "et_fresh b e s"
  defines "post \<equiv> \<lambda>s'. store_ok b s' \<and> (se_item_type x = ''event'' \<longrightarrow> (\<forall>c. config_of e x s = Some c \<longrightarrow> entry_stored e c x s'))"
  shows "wp (handle_event_entry e x) (\<lambda>_. post) (\<lambda>_. post) s"
proof (cases "se_item_type x = ''event''")
  case False
  then show ?thesis using assms(1) by (simp add: handle_event_entry_def wp_simps post_def)
next
  case True
  show ?thesis
    unfolding handle_event_entry_def Let_def entry_time_def [symmetric] entry_scrubbed_def [symmetric]
    apply (simp only: True simp_thms if_False, subst wp_bindP, rule wp_config_get, simp add: wp_simps post_def assms(1))
    apply (simp only: option.case, subst wp_bindP)
    subgoal for c
      apply (cases "compute_fingerprint e (entry_scrubbed e c x)", simp add: liftE_simps wp_raise post_def assms(1) entry_stored_def)
      subgoal for fp
        by (cases fp, simp only: liftE_simps wp_return fst_conv, subst wp_bindP,
            rule wp_mono [OF grouped_ok [OF assms(1,2), where auto = "ec_auto_create_task_on_new_issue c"]], assumption,
            rule wp_mono, assumption)
          (simp_all add: post_def)
      done
    done
qed

section \<open>The other steps\<close>

lemma flush_one_keys: "issue_keys (flush_one e i s) = issue_keys s"
  by (simp add: flush_one_def Let_def issue_keys_def map_issue_def issue_key_def count_issue_def comp_def)

lemma flush_one_store_ok: "store_ok b s \<Longrightarrow> store_ok b (flush_one e i s)"
proof -
  have "et_events (flush_one e i s) = et_events s" "w_tasks (et_app (flush_one e i s)) = w_tasks (et_app s)"
    by (simp_all add: flush_one_def Let_def map_issue_def)
  then show "store_ok b s \<Longrightarrow> store_ok b (flush_one e i s)"
    by (simp add: store_ok_def issues_ok_def flush_one_keys flush_one_ok tasks_ok_def)
qed

lemma flusher_store_ok: "store_ok b s \<Longrightarrow> store_ok b (snd (flusher_turn e s))"
proof -
  have "snd (flusher_turn e s) = flush_step e s"
    by (cases "flush_once e s"; cases "fst (flush_once e s)") (auto simp: flusher_turn_def flush_step_def catchP_def bindP_def return_def)
  moreover have "store_ok b s \<Longrightarrow> store_ok b (fold (flush_one e) ids s)" for ids
    by (induction ids arbitrary: s) (auto intro: flush_one_store_ok)
  ultimately show "store_ok b s \<Longrightarrow> store_ok b (snd (flusher_turn e s))" by (simp add: flush_step_fold)
qed

lemma rotation_step:
  "\<exists>P. snd (drop_expired_event_collections e at k s) = s\<lparr>et_events := filter P (et_events s)\<rparr>"
proof -
  have "\<exists>P. s = s\<lparr>et_events := filter P (et_events s)\<rparr>" by (rule exI [of _ "\<lambda>_. True"]) simp
  then show ?thesis
    by (auto simp: drop_expired_event_collections_def bindP_def gets_def guard_def raise_def return_def drop_fold Let_def)
qed

lemma filter_store_ok: "store_ok b s \<Longrightarrow> store_ok b (s\<lparr>et_events := filter P (et_events s)\<rparr>)"
proof -
  assume ok: "store_ok b s"
  then have "events_ok (set (issue_keys s)) (filter P (et_events s))"
    by (auto simp: store_ok_def events_ok_def distinct_map_filter)
  then show ?thesis
    using ok known_same [of "s\<lparr>et_events := filter P (et_events s)\<rparr>" s]
    by (simp add: store_ok_def issues_ok_def counters_ok_def tasks_ok_def issue_keys_def)
qed

text \<open>Steps that only touch the queue and the expiring counters.\<close>

definition queue_step :: "et_state \<Rightarrow> et_state \<Rightarrow> bool" where
  "queue_step s s' \<longleftrightarrow> et_app s' = et_app s \<and> et_events s' = et_events s \<and> rs_evt s' = rs_evt s \<and> rs_dirty s' = rs_dirty s \<and>
     (queue_ok s \<longrightarrow> queue_ok s')"

interpretation queueing: frame queue_step
  by unfold_locales (auto simp: queue_step_def)

lemma queue_step_store_ok: "queue_step s s' \<Longrightarrow> store_ok b s' \<longleftrightarrow> store_ok b s"
  by (rule store_ok_same) (simp_all add: queue_step_def issue_keys_def)

lemma queue_step_counts: "queue_step s (s\<lparr>rs_counts := c\<rparr>)"
  by (simp add: queue_step_def queue_ok_def pending_sorted_def split: option.splits)

lemma sorted_drop: "sorted_wrt R (map f xs) \<Longrightarrow> sorted_wrt R (map f (drop n xs))"
  by (simp add: drop_map [symmetric] sorted_wrt_drop)

lemma enqueue_queue_step: "keeps queue_step (enqueue_event e x)"
  unfolding enqueue_event_def Let_def
  by (intro queueing.keeps_intros queueing.keeps_modify)
    (auto simp: queue_step_def queue_ok_def pending_sorted_def sorted_wrt_append less_Suc_eq intro!: sorted_drop
      dest!: in_set_dropD split: option.splits)

lemma keeps_case_auth:
  "(\<And>err msg st. keeps R (f err msg st)) \<Longrightarrow> (\<And>c. keeps R (g c)) \<Longrightarrow>
   keeps R (case x of Inl (AuthError err msg st) \<Rightarrow> f err msg st | Inr c \<Rightarrow> g c)"
  by (auto split: sum.splits auth_error.splits)

lemma keeps_case_parsed:
  "frame R \<Longrightarrow> (\<And>msg. keeps R (f msg)) \<Longrightarrow> (\<And>env. keeps R (g env)) \<Longrightarrow>
   keeps R (case y of Inl (ValueError msg) \<Rightarrow> f msg | Inl z \<Rightarrow> raise z | Inr env \<Rightarrow> g env)"
  by (auto simp: frame.keeps_raise split: sum.splits exn.splits)

lemma ingest_queue_step: "keeps queue_step (envelope_ingest e pid r)"
  unfolding envelope_ingest_def ingest_authed_def ingest_item_def rate_check_def incr_expire_def Let_def
  by (intro queueing.keeps_intros queueing.keeps_modify keeps_liftE keeps_foldP enqueue_queue_step queueing.frame_axioms
      queue_step_counts keeps_case_auth keeps_case_parsed)

lemma sorted_last: "sorted_wrt (<) (map f xs) \<Longrightarrow> x \<in> set xs \<Longrightarrow> f x \<le> f (last xs)" for f :: "'x \<Rightarrow> nat"
  by (induction xs) (auto intro: less_imp_le)

lemma queue_ok_read:
  assumes "queue_ok s" and "rs_group s = Some g" and "es = take n (filter (\<lambda>(i, _). g \<le> i) (rs_stream s))" and "es \<noteq> []"
  shows "queue_ok (s\<lparr>rs_group := Some (Suc (fst (last es))), rs_pending := rs_pending s @ map (\<lambda>(i, _). (i, t)) es\<rparr>)"
proof -
  have mem: "fst x < rs_next_id s \<and> g \<le> fst x" if "x \<in> set es" for x
    using that assms(1,3) by (auto simp: queue_ok_def dest!: in_set_takeD)
  have sorted: "sorted_wrt (<) (map fst es)"
    using assms(1,3) by (simp add: queue_ok_def take_map [symmetric] sorted_wrt_map sorted_wrt_take sorted_wrt_filter)
  note top = sorted_last [OF sorted]
  have old: "fst p < g" if "p \<in> set (rs_pending s)" for p using that assms(1,2) by (simp add: queue_ok_def)
  let ?new = "rs_pending s @ map (\<lambda>(i, _). (i, t)) es"
  have ids: "map fst ?new = map fst (rs_pending s) @ map fst es" by (simp add: comp_def case_prod_unfold)
  have "sorted_wrt (<) (map fst ?new)"
    unfolding ids sorted_wrt_append using assms(1) sorted old mem by (force simp: queue_ok_def pending_sorted_def)
  moreover have "\<forall>q \<in> set ?new. fst q < Suc (fst (last es))"
  proof
    fix q assume "q \<in> set ?new"
    then consider "q \<in> set (rs_pending s)" | x where "x \<in> set es" "fst q = fst x" by auto
    then show "fst q < Suc (fst (last es))"
    proof cases
      case 1
      then show ?thesis using old [of q] mem [OF last_in_set [OF assms(4)]] by simp
    next
      case 2
      then show ?thesis using top [of x] by simp
    qed
  qed
  moreover have "Suc (fst (last es)) \<le> rs_next_id s" using mem last_in_set [OF assms(4)] by (simp add: Suc_le_eq)
  ultimately show ?thesis using assms(1) by (simp add: queue_ok_def pending_sorted_def)
qed

lemma read_queue_step: "keeps queue_step (read_group e)"
proof -
  have "queue_step s (snd (read_group e s))" for s
  proof -
    define es where "es = (case rs_group s of None \<Rightarrow> [] | Some g \<Rightarrow> take (worker_batch e) (filter (\<lambda>(i, _). g \<le> i) (rs_stream s)))"
    have run: "snd (read_group e s) = (if redis_up (et_base e) \<and> 0 < worker_batch e
        then s\<lparr>rs_group := (if es = [] then rs_group s else Some (Suc (fst (last es)))),
               rs_pending := rs_pending s @ map (\<lambda>(i, _). (i, now (et_base e))) es\<rparr> else s)"
      by (simp add: read_group_def es_def bindP_def guard_def gets_def modify_def return_def raise_def)
    show ?thesis
    proof (cases "es = []")
      case True
      have "s\<lparr>rs_group := rs_group s, rs_pending := rs_pending s\<rparr> = s" by simp
      then show ?thesis using run True queueing.refl by simp
    next
      case False
      then obtain g where "rs_group s = Some g" by (auto simp: es_def split: option.splits)
      then show ?thesis using run False queue_ok_read [of s g es "worker_batch e" "now (et_base e)"] by (simp add: queue_step_def es_def)
    qed
  qed
  then show ?thesis by (simp add: keeps_def)
qed

lemma group_queue_step: "keeps queue_step (ensure_group e)"
  unfolding ensure_group_def
  by (intro queueing.keeps_intros queueing.keeps_modify)
    (auto simp: queue_step_def queue_ok_def pending_sorted_def split: option.splits)

lemma claim_queue_step:
  assumes "claim_answer e start s nxt cl s'"
  shows "queue_step s s'"
proof -
  have same: "et_app s' = et_app s \<and> et_events s' = et_events s \<and> rs_evt s' = rs_evt s \<and> rs_dirty s' = rs_dirty s \<and>
      rs_group s' = rs_group s \<and> rs_next_id s' = rs_next_id s \<and> rs_stream s' = rs_stream s"
    using assms by (auto simp: claim_answer_def Let_def)
  moreover have "queue_ok s'" if "queue_ok s"
    using that same claim_keeps(1,2) [OF _ assms] unfolding queue_ok_def by (fastforce split: option.splits)
  ultimately show ?thesis by (simp add: queue_step_def)
qed

lemma queue_ok_same: "same_queue s s' \<Longrightarrow> queue_ok s' \<longleftrightarrow> queue_ok s"
  by (simp add: same_queue_def queue_ok_def pending_sorted_def cong: option.case_cong)

lemma queue_ok_filter: "queue_ok s \<Longrightarrow> queue_ok (s\<lparr>rs_pending := filter P (rs_pending s)\<rparr>)"
  by (auto simp: queue_ok_def pending_sorted_def sorted_wrt_map sorted_wrt_filter split: option.splits)

lemma dispatch_state:
  "\<exists>P. snd (dispatch e handler x s) = (snd (handler e (snd x) s))\<lparr>rs_pending := filter P (rs_pending (snd (handler e (snd x) s)))\<rparr>"
proof -
  obtain r s1 where run: "handler e (snd x) s = (r, s1)" by fastforce
  have "\<exists>P. s1 = s1\<lparr>rs_pending := filter P (rs_pending s1)\<rparr>" by (rule exI [of _ "\<lambda>_. True"]) simp
  then show ?thesis using run by (cases r) (auto simp: dispatch_def catchP_def bindP_def return_def whenP_def modify_def)
qed

lemma dispatch_ok:
  assumes "store_ok b s" and "queue_ok s" and "et_fresh b e s"
  shows "store_ok b (snd (dispatch e handle_event_entry x s)) \<and> queue_ok (snd (dispatch e handle_event_entry x s))"
proof -
  define s1 where "s1 = snd (handle_event_entry e (snd x) s)"
  obtain P where s2: "snd (dispatch e handle_event_entry x s) = s1\<lparr>rs_pending := filter P (rs_pending s1)\<rparr>"
    using dispatch_state [of e handle_event_entry x s] by (auto simp: s1_def)
  have "store_ok b s1"
    using wp_mono [OF handle_ok [OF assms(1,3), of "snd x"], of "\<lambda>_. store_ok b" "\<lambda>_. store_ok b"] by (simp add: wp_snd s1_def)
  then have "store_ok b (s1\<lparr>rs_pending := filter P (rs_pending s1)\<rparr>)"
    by (subst store_ok_same [of _ s1]) (simp_all add: issue_keys_def)
  moreover have "same_queue s s1" using handle_same_queue [of e "snd x"] by (simp add: keeps_def s1_def)
  then have "queue_ok (s1\<lparr>rs_pending := filter P (rs_pending s1)\<rparr>)"
    using assms(2) by (simp add: queue_ok_same queue_ok_filter)
  ultimately show ?thesis by (simp add: s2)
qed

section \<open>Reachable states\<close>

text \<open>
  Any interleaving of requests, turns of the workers (reading, claiming as Redis documents it, and
  handling single entries), flushes and rotations, and of steps of the rest of the application, which keep the
  stored tasks in order and change no key of an issue.
\<close>

inductive et_reachable :: "env \<Rightarrow> et_state \<Rightarrow> bool" for b where
  init: "tasks_ok b (et_app s) \<Longrightarrow> w_issues (et_app s) = [] \<Longrightarrow> et_events s = [] \<Longrightarrow> rs_evt s = (\<lambda>_. None) \<Longrightarrow> rs_stream s = [] \<Longrightarrow>
    rs_pending s = [] \<Longrightarrow> rs_group s = None \<Longrightarrow> et_reachable b s"
| ingest: "et_reachable b s \<Longrightarrow> et_reachable b (snd (envelope_ingest e pid r s))"
| group: "et_reachable b s \<Longrightarrow> et_reachable b (snd (ensure_group e s))"
| read: "et_reachable b s \<Longrightarrow> et_reachable b (snd (read_group e s))"
| claim: "et_reachable b s \<Longrightarrow> claim_answer e start s nxt cl s' \<Longrightarrow> et_reachable b s'"
| handle: "et_reachable b s \<Longrightarrow> et_fresh b e s \<Longrightarrow> et_reachable b (snd (dispatch e handle_event_entry x s))"
| flush: "et_reachable b s \<Longrightarrow> et_reachable b (snd (flusher_turn e s))"
| rotate: "et_reachable b s \<Longrightarrow> et_reachable b (snd (drop_expired_event_collections e at k s))"
| app: "et_reachable b s \<Longrightarrow> tasks_ok b w \<Longrightarrow> map issue_key (w_issues w) = issue_keys s \<Longrightarrow> et_reachable b (s\<lparr>et_app := w\<rparr>)"

inductive_cases et_reachable_elim: "et_reachable b s"

lemma queue_step_ok: "keeps queue_step m \<Longrightarrow> store_ok b s \<and> queue_ok s \<Longrightarrow> store_ok b (snd (m s)) \<and> queue_ok (snd (m s))"
  using queue_step_store_ok by (auto simp: keeps_def queue_step_def)

lemma flusher_queue: "queue_ok s \<Longrightarrow> queue_ok (snd (flusher_turn e s))"
proof -
  have "keeps same_queue (flusher_turn e)"
    unfolding flusher_turn_def flush_once_def flush_issue_def Let_def
    by (intro queue_intros keeps_foldP queue.frame_axioms) (simp_all add: map_issue_def)
  then show "queue_ok s \<Longrightarrow> queue_ok (snd (flusher_turn e s))" using queue_ok_same by (auto simp: keeps_def)
qed

text \<open>
  C34. In every reachable state of the error tracker, every pair of project and fingerprint has
  at most one issue, and issues have different identifiers; every stored event belongs to a stored
  issue of its project and fingerprint and lies in the collection of the day it was received; the
  eight fields it takes from the payload hold no value below a key that names a secret (the
  headers and words listed with \<open>secret_name\<close>) and no local variables, which says nothing of secrets
  in free text; no daily collection holds two events of one project with one identifier, which
  does not exclude the same event in the collections of two days; Redis counts only events of
  stored issues, and marks them for the flush; the pending entries of the worker are sorted, and
  were read from the stream; and the tasks, those made for new issues included, are in order. The
  identifiers the database gives out are assumed to be fresh.
\<close>

theorem et_reachable_ok:
  assumes "et_reachable b s"
  shows "store_ok b s \<and> queue_ok s"
  using assms
proof (induction rule: et_reachable.induct)
  case (init s)
  then show ?case
    by (simp add: store_ok_def issues_ok_def events_ok_def counters_ok_def issue_keys_def queue_ok_def pending_sorted_def)
next
  case (ingest s e pid r)
  show ?case by (rule queue_step_ok [OF ingest_queue_step ingest.IH])
next
  case (group s e)
  show ?case by (rule queue_step_ok [OF group_queue_step group.IH])
next
  case (read s e)
  show ?case by (rule queue_step_ok [OF read_queue_step read.IH])
next
  case (claim s e start nxt cl s')
  then show ?case using claim_queue_step [OF claim.hyps(2)] queue_step_store_ok by (auto simp: queue_step_def)
next
  case (handle s e x)
  then show ?case by (intro dispatch_ok) simp_all
next
  case (flush s e)
  then show ?case by (simp add: flusher_store_ok flusher_queue)
next
  case (rotate s e at k)
  obtain P where "snd (drop_expired_event_collections e at k s) = s\<lparr>et_events := filter P (et_events s)\<rparr>" using rotation_step by blast
  moreover have "same_queue s (s\<lparr>et_events := filter P (et_events s)\<rparr>)" by (simp add: same_queue_def)
  ultimately show ?case using rotate.IH by (simp add: filter_store_ok queue_ok_same)
next
  case (app s w)
  let ?s = "s\<lparr>et_app := w\<rparr>"
  have keys: "issue_keys ?s = issue_keys s" using app.hyps by (simp add: issue_keys_def)
  have "same_queue s ?s" by (simp add: same_queue_def)
  then show ?case using app known_same [OF keys] keys by (simp add: store_ok_def issues_ok_def counters_ok_def queue_ok_same)
qed

section \<open>Replays\<close>

definition same_docs :: "et_state \<Rightarrow> et_state \<Rightarrow> bool" where
  "same_docs s s' \<longleftrightarrow> et_app s' = et_app s \<and> et_events s' = et_events s"

interpretation docs: frame same_docs
  by unfold_locales (auto simp: same_docs_def)

definition same_configs :: "et_state \<Rightarrow> et_state \<Rightarrow> bool" where
  "same_configs s s' \<longleftrightarrow> et_configs s' = et_configs s"

interpretation configs: frame same_configs
  by unfold_locales (auto simp: same_configs_def)

lemma handle_same_configs: "keeps same_configs (handle_event_entry e x)"
  unfolding handle_event_entry_def config_get_def upsert_issue_def record_event_seen_def ensure_event_collection_def
    insert_event_def link_new_issue_def issue_get_def create_task_for_new_issue_def burst_window_ok_def incr_expire_def Let_def
  by (intro configs.keeps_intros keeps_liftE configs.frame_axioms configs.keeps_modify) (simp_all add: same_configs_def)

text \<open>The environments of two attempts at an entry read it in the same way.\<close>

definition same_reading :: "et_env \<Rightarrow> et_env \<Rightarrow> stream_entry \<Rightarrow> bool" where
  "same_reading e e' x \<longleftrightarrow> oid_valid (et_base e') = oid_valid (et_base e) \<and> oid_canon (et_base e') = oid_canon (et_base e) \<and>
     sha256_hex e' = sha256_hex e \<and> orjson_loads e' = orjson_loads e \<and> entry_time e' x = entry_time e x"

lemma same_reading_eqs:
  assumes "same_reading e e' x"
  shows "compute_fingerprint e' = compute_fingerprint e" and "user_key_of e' = user_key_of e"
    and "entry_scrubbed e' c x = entry_scrubbed e c x" and "config_of e' x = config_of e x"
proof -
  have sha: "sha256_hex e' = sha256_hex e" using assms by (simp add: same_reading_def)
  then have "fp_hash e' = fp_hash e" by (intro ext) (simp add: fp_hash_def)
  then show "compute_fingerprint e' = compute_fingerprint e" by (intro ext) (simp only: compute_fingerprint_def)
  show "user_key_of e' = user_key_of e" by (intro ext) (simp only: user_key_of_def sha)
  show "entry_scrubbed e' c x = entry_scrubbed e c x" "config_of e' x = config_of e x"
    using assms by (auto simp: same_reading_def entry_scrubbed_def payload_dict_def config_of_def)
qed

lemma stored_quiet:
  assumes "has_event (collection_name_for t) (se_project_id x, se_event_id x) s"
  shows "wp (bindP (catchP (record_event_seen e (i_id j) u t) (\<lambda>_. return ())) (\<lambda>_.
      bindP (ensure_event_collection t) (\<lambda>day.
      bindP (insert_event e day (event_doc e x scrubbed j fp t)) (\<lambda>stored.
      if \<not> stored then return () else whenP new (link_new_issue e c (i_id j))))))
    (\<lambda>_. same_docs s) (\<lambda>_. same_docs s) s"
proof -
  have quiet: "keeps same_docs (catchP (record_event_seen e (i_id j) u t) (\<lambda>_. return ()))"
    unfolding record_event_seen_def by (intro docs.keeps_intros docs.keeps_modify) (simp_all add: same_docs_def)
  have rest: "wp (bindP (ensure_event_collection t) (\<lambda>day. bindP (insert_event e day (event_doc e x scrubbed j fp t)) (\<lambda>stored.
      if \<not> stored then return () else whenP new (link_new_issue e c (i_id j))))) (\<lambda>_. same_docs s) (\<lambda>_. same_docs s) s1"
    if "same_docs s s1" for s1
  proof -
    have "has_event (collection_name_for t) (se_project_id x, se_event_id x) s1" using that assms by (simp add: has_event_def same_docs_def)
    then have "\<exists>c \<in> set (et_events s1). fst c = collection_name_for t"
      and "\<exists>c \<in> set (et_events s1). fst c = collection_name_for t \<and> (\<exists>d \<in> set (snd c). same_event (event_doc e x scrubbed j fp t) d)"
      by (auto simp: has_event_def same_event_def event_doc_def Let_def event_key_def)
    then show ?thesis
      using that by (simp add: ensure_event_collection_def insert_event_def wp_simps)
  qed
  show ?thesis unfolding wp_bindP [of "catchP _ _"] by (rule wp_keeps [OF quiet]) (rule rest, assumption)+
qed

lemma handled_quiet:
  assumes "se_item_type x = ''event'' \<longrightarrow> (\<forall>c. config_of e x s = Some c \<longrightarrow> entry_stored e c x s)" and "event_insert_error e = None"
    and "same_reading e e' x" and "issue_upsert_error e = (\<lambda>_. None)"
  shows "wp (handle_event_entry e' x) (\<lambda>_. same_docs s) (\<lambda>_. same_docs s) s"
proof (cases "se_item_type x = ''event''")
  case False
  then show ?thesis by (simp add: handle_event_entry_def wp_simps docs.refl)
next
  case True
  note same = same_reading_eqs [OF assms(3)] assms(3) [unfolded same_reading_def]
  have known: "(\<exists>j. upsert_issue e' (new_issue e' x scrubbed (fp, tc) t) s = (Inr (j, False), s)) \<or>
      (\<exists>y. upsert_issue e' (new_issue e' x scrubbed (fp, tc) t) s = (Inl y, s))"
    if group: "(se_project_id x, fp) \<in> snd ` set (issue_keys s)" for scrubbed fp tc t
  proof -
    have "find (same_group (se_project_id x) fp) (w_issues (et_app s)) \<noteq> None"
      using group by (auto simp: find_None_iff same_group_def issue_keys_def issue_key_def)
    then show ?thesis
      by (auto simp: upsert_issue_def bindP_def gets_def return_def raise_def new_issue_def case_prod_unfold split: option.splits)
  qed
  have event: "wp (bindP (liftE (compute_fingerprint e (entry_scrubbed e c x))) (\<lambda>fp.
      bindP (upsert_issue e' (new_issue e' x (entry_scrubbed e c x) fp (entry_time e x))) (\<lambda>(issue, is_new).
      bindP (liftE (user_key_of e (entry_scrubbed e c x) (truthy (se_client_ip x)))) (\<lambda>user_key.
      bindP (catchP (record_event_seen e' (i_id issue) user_key (entry_time e x)) (\<lambda>_. return ())) (\<lambda>_.
      bindP (ensure_event_collection (entry_time e x)) (\<lambda>day.
      bindP (insert_event e' day (event_doc e' x (entry_scrubbed e c x) issue (fst fp) (entry_time e x))) (\<lambda>stored.
      if \<not> stored then return () else whenP (is_new \<and> ec_auto_create_task_on_new_issue c) (link_new_issue e' c (i_id issue)))))))))
      (\<lambda>_. same_docs s) (\<lambda>_. same_docs s) s" if stored: "entry_stored e c x s" for c
  proof (cases "compute_fingerprint e (entry_scrubbed e c x)")
    case (Inl y)
    then show ?thesis by (simp add: liftE_simps wp_simps docs.refl)
  next
    case (Inr fp)
    obtain fp1 tc where fp: "fp = (fp1, tc)" by (rule prod.exhaust)
    have group: "(se_project_id x, fp1) \<in> snd ` set (issue_keys s)"
      using stored Inr fp assms(4) by (simp add: entry_stored_def)
    show ?thesis
    proof (cases "\<exists>y. upsert_issue e' (new_issue e' x (entry_scrubbed e c x) (fp1, tc) (entry_time e x)) s = (Inl y, s)")
      case True
      then obtain y where "upsert_issue e' (new_issue e' x (entry_scrubbed e c x) (fp1, tc) (entry_time e x)) s = (Inl y, s)" by blast
      then show ?thesis
        unfolding Inr fp liftE_simps wp_bindP [of "return _"] wp_return wp_bindP [of "upsert_issue _ _"]
        by (simp add: wp_def [of "upsert_issue _ _"] docs.refl)
    next
      case False
      then obtain j where run: "upsert_issue e' (new_issue e' x (entry_scrubbed e c x) (fp1, tc) (entry_time e x)) s = (Inr (j, False), s)"
        using known [OF group] by blast
      show ?thesis
        unfolding Inr fp liftE_simps wp_bindP [of "return _"] wp_return wp_bindP [of "upsert_issue _ _"]
        by (subst wp_run, rule run, simp only: prod.case fst_conv, subst wp_bindP,
            cases "user_key_of e (entry_scrubbed e c x) (truthy (se_client_ip x))", simp add: liftE_simps wp_simps docs.refl,
            simp only: liftE_simps wp_return, rule stored_quiet)
          (use stored assms(2,4) Inr fp in \<open>simp add: entry_stored_def\<close>)
    qed
  qed
  show ?thesis
    unfolding handle_event_entry_def Let_def entry_time_def [symmetric] entry_scrubbed_def [symmetric]
    by (simp only: True simp_thms if_False, subst wp_bindP, rule wp_config_get, simp add: wp_simps docs.refl,
        simp only: option.case same, rule event) (use assms(1) True in simp)
qed

text \<open>
  C35. A replay stores nothing. The first attempt at an entry may fail wherever it likes, except that
  the database must not have refused its issue or its event; then a second attempt that reads the
  entry in the same way (the same parsers and digest, and the same day if the entry has no time of
  its own) adds and changes no task, no issue and no event, whatever the database or Redis do to
  it. After a refused write the second attempt does store the event, as it should.
\<close>

theorem replay_stores_nothing:
  assumes "store_ok b s" and "et_fresh b e s" and "issue_upsert_error e = (\<lambda>_. None)" and "event_insert_error e = None"
    and "same_reading e e' x" and "s1 = snd (handle_event_entry e x s)" and "s2 = snd (handle_event_entry e' x s1)"
  shows "et_app s2 = et_app s1 \<and> et_events s2 = et_events s1"
proof -
  have "et_configs s1 = et_configs s"
    using handle_same_configs [of e x] by (simp add: keeps_def same_configs_def assms(6))
  then have "config_of e x s1 = config_of e x s" by (simp add: config_of_def)
  moreover have "se_item_type x = ''event'' \<longrightarrow> (\<forall>c. config_of e x s = Some c \<longrightarrow> entry_stored e c x s1)"
    using handle_ok [OF assms(1,2), of x] unfolding wp_snd assms(6) by simp
  ultimately have "same_docs s1 s2"
    using handled_quiet [OF _ assms(4,5,3), of s1] unfolding wp_snd assms(7) by simp
  then show ?thesis by (simp add: same_docs_def)
qed

section \<open>The theorems at work\<close>

definition event_entry :: stream_entry where
  "event_entry = demo_entry\<lparr>se_item_type := ''event''\<rparr>"

lemma demo_store: "et_reachable plain_env demo_et_state"
  by (rule et_reachable.init) (use demo_tasks_ok in \<open>simp_all add: demo_et_state_def demo_world_def empty_world_def\<close>)

lemma demo_et_fresh: "et_fresh plain_env demo_et_env demo_et_state"
  by (auto simp: et_fresh_def demo_et_env_def demo_et_state_def plain_env_def canonical_def issue_keys_def fresh_oid_def
      demo_world_def empty_world_def demo_tasks_def demo_task_def new_task_def)

theorem et_reachable_ok_witness:
  "store_ok plain_env (snd (dispatch demo_et_env handle_event_entry (0, event_entry) demo_et_state)) \<and>
   queue_ok (snd (dispatch demo_et_env handle_event_entry (0, event_entry) demo_et_state))"
  by (rule et_reachable_ok [OF et_reachable.handle [OF demo_store demo_et_fresh]])

theorem replay_stores_nothing_witness:
  "et_events (snd (handle_event_entry demo_et_env event_entry (snd (handle_event_entry demo_et_env event_entry demo_et_state)))) =
   et_events (snd (handle_event_entry demo_et_env event_entry demo_et_state))"
proof -
  have "store_ok plain_env demo_et_state"
    using demo_tasks_ok
    by (simp add: store_ok_def issues_ok_def events_ok_def counters_ok_def issue_keys_def demo_et_state_def demo_world_def empty_world_def)
  moreover have "issue_upsert_error demo_et_env = (\<lambda>_. None)" "event_insert_error demo_et_env = None" "same_reading demo_et_env demo_et_env event_entry"
    by (simp_all add: demo_et_env_def same_reading_def)
  ultimately show ?thesis
    using replay_stores_nothing [OF _ demo_et_fresh _ _ _ refl refl, of demo_et_env event_entry] by blast
qed

end
