(* ===== verification/Auth_State.thy ===== *)
theory Auth_State
  imports Mcp_Auth Py_Regex
begin

text \<open>
  What the login of people (core/security.py, core/deps.py, api/v1/endpoints/auth) and the OAuth
  provider of the MCP server (mcp/oauth, mcp/oauth_consent.py) share: the environment of a request,
  the state, and Redis keys that expire. Every prefix of Redis keys is a map of its own; a value
  is stored with the instant from which on Redis no longer returns it.

  \<open>auth_env\<close> holds what a request sees of foreign code and of the deployment: PyJWT (\<open>jwt_decode\<close>
  gives nothing for a token that is not valid at the instant), passlib, the random values the
  request draws, Google's answers, pydantic's \<open>AnyUrl\<close>, and the settings that come from the
  environment.
\<close>

section \<open>Environment and state\<close>

type_synonym 'v expiring = "string \<rightharpoonup> 'v \<times> time"

record google_info =
  gi_email :: "string option"
  gi_name :: "string option"
  gi_sub :: "string option"
  gi_picture :: "string option"

datatype google_answer = Token_failed | Info_failed | Info google_info

record auth_env =
  ae_base :: env
  jwt_encode :: "string \<Rightarrow> jdict \<Rightarrow> string"
  jwt_decode :: "string \<Rightarrow> time \<Rightarrow> string \<Rightarrow> jdict option"
  verify_password :: "string \<Rightarrow> string \<Rightarrow> bool"
  secret_key :: string
  refresh_secret_key :: string
  frontend_url :: string
  base_url :: string
  valid_scopes :: "string list option"
  uuid4_hex :: string
  random_token :: "nat \<Rightarrow> string"
  google_fetch :: "string \<Rightarrow> google_answer"
  google_url :: "string \<Rightarrow> string"
  user_insert_dup :: bool
  any_url :: "string \<Rightarrow> string option"

text \<open>The documents of the OAuth provider, as they are serialised into Redis.\<close>

record oauth_client =
  oc_client_id :: "string option"
  oc_client_name :: "string option"
  oc_scope :: "string option"
  oc_data :: jdict

record pending_auth =
  pa_client_id :: "string option"
  pa_redirect_uri :: string
  pa_redirect_uri_provided_explicitly :: bool
  pa_state :: "string option"
  pa_scopes :: "string list"
  pa_code_challenge :: string
  pa_resource :: "string option"

record auth_code =
  cd_code :: string
  cd_client_id :: "string option"
  cd_redirect_uri :: string
  cd_redirect_uri_provided_explicitly :: bool
  cd_scopes :: "string list"
  cd_expires_at :: time
  cd_code_challenge :: string
  cd_resource :: "string option"
  cd_user_id :: "string option" \<comment> \<open>only of a \<open>TodoAuthorizationCode\<close>\<close>

record access_token =
  at_token :: string
  at_client_id :: string
  at_scopes :: "string list"
  at_expires_at :: "time option"
  at_user_id :: "string option" \<comment> \<open>the claim\<close>

record refresh_token =
  rt_token :: string
  rt_client_id :: string
  rt_scopes :: "string list"
  rt_expires_at :: "time option"

record auth_state =
  as_app :: world
  as_allowed_emails :: "string list"
  as_refresh_jti :: "unit expiring"
  as_login_attempts :: "nat expiring"
  as_google_state :: "unit expiring"
  os_clients :: "oauth_client expiring"
  os_pending :: "pending_auth expiring"
  os_consent :: "string expiring"
  os_codes :: "auth_code expiring"
  os_access :: "access_token expiring"
  os_refresh :: "refresh_token expiring"
  os_a2r :: "string expiring"
  os_r2a :: "string expiring"

section \<open>Redis\<close>

definition alive :: "time \<Rightarrow> 'v expiring \<Rightarrow> string \<Rightarrow> 'v option" where
  "alive t m k = (case m k of None \<Rightarrow> None | Some (v, x) \<Rightarrow> if t < x then Some v else None)"

definition redis_get :: "auth_env \<Rightarrow> (auth_state \<Rightarrow> 'v expiring) \<Rightarrow> string \<Rightarrow> (auth_state, 'v option) prog" where
  "redis_get e sel k =
     bindP (guard (redis_up (ae_base e)) RedisError) (\<lambda>_. gets (\<lambda>s. alive (now (ae_base e)) (sel s) k))"

definition redis_set ::
  "auth_env \<Rightarrow> (('v expiring \<Rightarrow> 'v expiring) \<Rightarrow> auth_state \<Rightarrow> auth_state) \<Rightarrow> string \<Rightarrow> 'v \<Rightarrow> int \<Rightarrow> (auth_state, unit) prog" where
  "redis_set e put k v ttl =
     bindP (guard (redis_up (ae_base e)) RedisError) (\<lambda>_. modify (put (\<lambda>m. m(k \<mapsto> (v, now (ae_base e) + ttl * 1000000)))))"

definition redis_del ::
  "auth_env \<Rightarrow> (('v expiring \<Rightarrow> 'v expiring) \<Rightarrow> auth_state \<Rightarrow> auth_state) \<Rightarrow> string \<Rightarrow> (auth_state, unit) prog" where
  "redis_del e put k =
     bindP (guard (redis_up (ae_base e)) RedisError) (\<lambda>_. modify (put (\<lambda>m. m(k := None))))"

text \<open>\<open>GETDEL\<close>: read and delete at once. \<open>DELETE\<close> tells whether there was a value.\<close>

definition redis_getdel ::
  "auth_env \<Rightarrow> (auth_state \<Rightarrow> 'v expiring) \<Rightarrow> (('v expiring \<Rightarrow> 'v expiring) \<Rightarrow> auth_state \<Rightarrow> auth_state) \<Rightarrow> string \<Rightarrow>
   (auth_state, 'v option) prog" where
  "redis_getdel e sel put k =
     bindP (redis_get e sel k) (\<lambda>v. bindP (redis_del e put k) (\<lambda>_. return v))"

text \<open>A program on the documents of the application.\<close>

definition in_app :: "(world, 'a) prog \<Rightarrow> (auth_state, 'a) prog" where
  "in_app m = (\<lambda>s. case m (as_app s) of (r, w) \<Rightarrow> (r, s\<lparr>as_app := w\<rparr>))"

section \<open>URLs\<close>

text \<open>\<open>quote(s, safe='')\<close> and \<open>urlencode\<close> of strings.\<close>

definition unreserved :: "char \<Rightarrow> bool" where
  "unreserved c = (let n = (of_char c :: nat) in
     48 \<le> n \<and> n \<le> 57 \<or> 65 \<le> n \<and> n \<le> 90 \<or> 97 \<le> n \<and> n \<le> 122 \<or> c \<in> set ''_.-~'')"

definition upper_hex :: "nat \<Rightarrow> char" where
  "upper_hex n = ''0123456789ABCDEF'' ! (n mod 16)"

definition quote_char :: "char \<Rightarrow> string" where
  "quote_char c = (if unreserved c then [c] else [CHR ''%'', upper_hex (of_char c div 16), upper_hex (of_char c)])"

definition quote :: "string \<Rightarrow> string" where
  "quote s = concat (map quote_char s)"

definition quote_plus :: "string \<Rightarrow> string" where
  "quote_plus s = concat (map (\<lambda>c. if c = CHR '' '' then ''+'' else quote_char c) s)"

definition urlencode :: "(string \<times> string) list \<Rightarrow> string" where
  "urlencode kvs = join_with ''&'' (map (\<lambda>(k, v). quote_plus k @ ''='' @ quote_plus v) kvs)"

end
