(* ===== verification/Rest_Auth.thy ===== *)
theory Rest_Auth
  imports Auth_State
begin

text \<open>
  The login of people: tokens and cookies (core/security.py), the user of a request (core/deps.py),
  the throttle and the one-time refresh tokens (api/v1/endpoints/auth/_shared.py), and the endpoints
  for passwords (auth/jwt.py) and for Google (auth/google.py).
\<close>

section \<open>Settings\<close>

definition access_token_expire_minutes :: int where "access_token_expire_minutes = 60"

definition refresh_token_expire_days :: int where "refresh_token_expire_days = 7"

definition login_max_attempts :: nat where "login_max_attempts = 20"

definition login_lockout_seconds :: int where "login_lockout_seconds = 300"

definition oauth_state_ttl :: int where "oauth_state_ttl = 600"

definition refresh_jti_ttl :: int where "refresh_jti_ttl = refresh_token_expire_days * 86400"

section \<open>Tokens\<close>

text \<open>PyJWT stores \<open>exp\<close> in whole seconds.\<close>

definition exp_claim :: "time \<Rightarrow> json" where
  "exp_claim t = JInt (t div 1000000)"

definition create_access_token :: "auth_env \<Rightarrow> string \<Rightarrow> string" where
  "create_access_token e subject =
     jwt_encode e (secret_key e) [(''sub'', JStr subject),
       (''exp'', exp_claim (now (ae_base e) + access_token_expire_minutes * 60 * 1000000)), (''type'', JStr ''access'')]"

definition create_refresh_token :: "auth_env \<Rightarrow> string \<Rightarrow> string \<times> string" where
  "create_refresh_token e subject =
     (let jti = uuid4_hex e in
      (jwt_encode e (refresh_secret_key e) [(''sub'', JStr subject),
        (''exp'', exp_claim (now (ae_base e) + refresh_token_expire_days * 86400 * 1000000)), (''type'', JStr ''refresh''), (''jti'', JStr jti)], jti))"

definition decode_token :: "auth_env \<Rightarrow> string \<Rightarrow> string \<Rightarrow> string \<Rightarrow> jdict option" where
  "decode_token e key kind token =
     (case jwt_decode e key (now (ae_base e)) token of
        None \<Rightarrow> None
      | Some payload \<Rightarrow> if dict_get ''type'' JNull payload \<noteq> JStr kind then None else Some payload)"

definition decode_access_token :: "auth_env \<Rightarrow> string \<Rightarrow> jdict option" where
  "decode_access_token e = decode_token e (secret_key e) ''access''"

definition decode_refresh_token :: "auth_env \<Rightarrow> string \<Rightarrow> jdict option" where
  "decode_refresh_token e = decode_token e (refresh_secret_key e) ''refresh''"

section \<open>Cookies\<close>

text \<open>What a response does to the cookies of the browser: a cookie is identified by name, path and domain.\<close>

record cookie =
  ck_key :: string
  ck_path :: string
  ck_domain :: "string option"
  ck_value :: "string option" \<comment> \<open>\<open>None\<close>: deleted\<close>
  ck_max_age :: int
  ck_httponly :: bool
  ck_secure :: bool
  ck_samesite :: string

definition refresh_cookie_path :: string where "refresh_cookie_path = ''/api/v1/auth''"

definition cookie_path :: string where "cookie_path = ''/''"

definition cookie_secure :: "auth_env \<Rightarrow> bool" where
  "cookie_secure e = is_prefix ''https://'' (frontend_url e)"

definition set_cookie :: "auth_env \<Rightarrow> string \<Rightarrow> string \<Rightarrow> string \<Rightarrow> int \<Rightarrow> cookie" where
  "set_cookie e key v path max_age =
     \<lparr>ck_key = key, ck_path = path, ck_domain = None, ck_value = Some v, ck_max_age = max_age, ck_httponly = True,
      ck_secure = cookie_secure e, ck_samesite = ''lax''\<rparr>"

definition delete_cookie :: "string \<Rightarrow> string \<Rightarrow> cookie" where
  "delete_cookie key path =
     \<lparr>ck_key = key, ck_path = path, ck_domain = None, ck_value = None, ck_max_age = 0, ck_httponly = False,
      ck_secure = False, ck_samesite = ''lax''\<rparr>"

definition set_auth_cookies :: "auth_env \<Rightarrow> string \<Rightarrow> string \<Rightarrow> cookie list" where
  "set_auth_cookies e access refresh =
     [set_cookie e ''access_token'' access cookie_path (access_token_expire_minutes * 60),
      set_cookie e ''refresh_token'' refresh refresh_cookie_path (refresh_token_expire_days * 86400)]"

definition clear_auth_cookies :: "cookie list" where
  "clear_auth_cookies = [delete_cookie ''access_token'' cookie_path, delete_cookie ''refresh_token'' refresh_cookie_path]"

section \<open>The user of a request\<close>

record credentials =
  cr_bearer :: "string option"
  cr_cookie :: "string option"
  cr_api_key :: "string option"

definition http_exn :: "nat \<Rightarrow> string \<Rightarrow> exn" where
  "http_exn status detail = HTTPException status (JStr detail)"

text \<open>\<open>User.get(payload["sub"])\<close>.\<close>

definition subject_user :: "auth_env \<Rightarrow> jdict \<Rightarrow> (auth_state, user option) prog" where
  "subject_user e payload =
     (case map_of payload ''sub'' of
        None \<Rightarrow> raise (KeyError ''sub'')
      | Some (JStr uid) \<Rightarrow> in_app (user_get (ae_base e) uid)
      | Some _ \<Rightarrow> raise (ValidationError ''sub''))"

definition request_token :: "credentials \<Rightarrow> string option" where
  "request_token cr = (case truthy (cr_bearer cr) of Some t \<Rightarrow> Some t | None \<Rightarrow> truthy (cr_cookie cr))"

definition active_user :: "user option \<Rightarrow> user option" where
  "active_user u = (case u of Some x \<Rightarrow> if u_is_active x then Some x else None | None \<Rightarrow> None)"

definition get_current_user :: "auth_env \<Rightarrow> credentials \<Rightarrow> (auth_state, user) prog" where
  "get_current_user e cr =
     bindP (some_or (request_token cr) (http_exn 401 ''Not authenticated'')) (\<lambda>token.
     bindP (some_or (decode_access_token e token) (http_exn 401 ''Invalid token'')) (\<lambda>payload.
     bindP (subject_user e payload) (\<lambda>u.
     some_or (active_user u) (http_exn 401 ''User not found or inactive''))))"

definition resolve_user_from_api_key :: "auth_env \<Rightarrow> string \<Rightarrow> (auth_state, user option) prog" where
  "resolve_user_from_api_key e api_key =
     (if api_key = [] then return None
      else bindP (gets (\<lambda>s. List.find (\<lambda>k. ak_key_hash k = hash_api_key (ae_base e) api_key \<and> ak_is_active k) (w_api_keys (as_app s)))) (\<lambda>doc0.
        case doc0 of
          None \<Rightarrow> return None
        | Some doc \<Rightarrow>
            (case ak_created_by doc of
               None \<Rightarrow> return None
             | Some uid \<Rightarrow>
                 bindP (gets (\<lambda>s. coll_get u_id (w_users (as_app s)) uid)) (\<lambda>owner0.
                 case active_user owner0 of
                   None \<Rightarrow> return None
                 | Some owner \<Rightarrow> bindP (in_app (touch_key (ae_base e) doc)) (\<lambda>_. return (Some owner))))))"

definition get_current_user_flexible :: "auth_env \<Rightarrow> credentials \<Rightarrow> (auth_state, user) prog" where
  "get_current_user_flexible e cr =
     bindP (case request_token cr of
              None \<Rightarrow> return None
            | Some token \<Rightarrow>
                (case decode_access_token e token of
                   None \<Rightarrow> return None
                 | Some payload \<Rightarrow> bindP (subject_user e payload) (\<lambda>u. return (active_user u)))) (\<lambda>u0.
     case u0 of
       Some u \<Rightarrow> return u
     | None \<Rightarrow>
         bindP (case truthy (cr_api_key cr) of None \<Rightarrow> return None | Some k \<Rightarrow> resolve_user_from_api_key e k) (\<lambda>u1.
         some_or u1 (http_exn 401 ''Not authenticated'')))"

definition require_admin :: "user \<Rightarrow> (auth_state, user) prog" where
  "require_admin u = bindP (guard (u_is_admin u) (http_exn 403 ''Admin required'')) (\<lambda>_. return u)"

definition get_admin_user :: "auth_env \<Rightarrow> credentials \<Rightarrow> (auth_state, user) prog" where
  "get_admin_user e cr = bindP (get_current_user e cr) require_admin"

definition get_admin_user_flexible :: "auth_env \<Rightarrow> credentials \<Rightarrow> (auth_state, user) prog" where
  "get_admin_user_flexible e cr = bindP (get_current_user_flexible e cr) require_admin"

section \<open>Throttle and refresh tokens\<close>

definition store_refresh_jti :: "auth_env \<Rightarrow> string \<Rightarrow> (auth_state, unit) prog" where
  "store_refresh_jti e jti = redis_set e as_refresh_jti_update jti () refresh_jti_ttl"

definition validate_and_revoke_jti :: "auth_env \<Rightarrow> string option \<Rightarrow> (auth_state, bool) prog" where
  "validate_and_revoke_jti e jti =
     (case jti of
        None \<Rightarrow> return False
      | Some j \<Rightarrow> bindP (redis_getdel e as_refresh_jti as_refresh_jti_update j) (\<lambda>v. return (v \<noteq> None)))"

definition create_and_store_refresh_token :: "auth_env \<Rightarrow> string \<Rightarrow> (auth_state, string) prog" where
  "create_and_store_refresh_token e subject =
     (let (token, jti) = create_refresh_token e subject in
      bindP (store_refresh_jti e jti) (\<lambda>_. return token))"

definition check_rate_limit :: "auth_env \<Rightarrow> string \<Rightarrow> (auth_state, unit) prog" where
  "check_rate_limit e email =
     bindP (redis_get e as_login_attempts email) (\<lambda>attempts.
     guard (case attempts of None \<Rightarrow> True | Some n \<Rightarrow> n < login_max_attempts)
       (http_exn 429 ''Too many login attempts. Try again later.''))"

definition record_failed_login :: "auth_env \<Rightarrow> string \<Rightarrow> (auth_state, unit) prog" where
  "record_failed_login e email =
     bindP (redis_get e as_login_attempts email) (\<lambda>n.
     redis_set e as_login_attempts_update email ((case n of None \<Rightarrow> 0 | Some k \<Rightarrow> k) + 1) login_lockout_seconds)"

definition clear_login_attempts :: "auth_env \<Rightarrow> string \<Rightarrow> (auth_state, unit) prog" where
  "clear_login_attempts e email = redis_del e as_login_attempts_update email"

section \<open>Endpoints\<close>

record session_response =
  sr_access_token :: string
  sr_refresh_token :: string
  sr_cookies :: "cookie list"

definition start_session :: "auth_env \<Rightarrow> user \<Rightarrow> (auth_state, session_response) prog" where
  "start_session e u =
     (let access = create_access_token e (u_id u) in
      bindP (create_and_store_refresh_token e (u_id u)) (\<lambda>refresh.
      return \<lparr>sr_access_token = access, sr_refresh_token = refresh, sr_cookies = set_auth_cookies e access refresh\<rparr>))"

definition login :: "auth_env \<Rightarrow> string \<Rightarrow> string \<Rightarrow> (auth_state, session_response) prog" where
  "login e username password =
     bindP (check_rate_limit e username) (\<lambda>_.
     bindP (gets (\<lambda>s. List.find (\<lambda>u. u_email u = username \<and> u_auth_type u = Admin_auth) (w_users (as_app s)))) (\<lambda>user0.
     case (case user0 of
             None \<Rightarrow> None
           | Some u \<Rightarrow> (case truthy (u_password_hash u) of
               None \<Rightarrow> None
             | Some h \<Rightarrow> if verify_password e password h then Some u else None)) of
       None \<Rightarrow> bindP (record_failed_login e username) (\<lambda>_. raise (http_exn 401 ''Invalid credentials''))
     | Some u \<Rightarrow>
         bindP (guard (u_is_active u) (http_exn 403 ''Account disabled'')) (\<lambda>_.
         bindP (guard (\<not> u_password_disabled u) (http_exn 403 ''Password login is disabled. Use passkey instead.'')) (\<lambda>_.
         bindP (clear_login_attempts e username) (\<lambda>_.
         start_session e u)))))"

text \<open>\<open>payload.get("jti")\<close>; a claim that is no string names no key that was ever written.\<close>

definition jti_of :: "jdict \<Rightarrow> string option" where
  "jti_of payload = (case dict_get ''jti'' JNull payload of JNull \<Rightarrow> None | j \<Rightarrow> Some (jstr j))"

definition refresh :: "auth_env \<Rightarrow> string option \<Rightarrow> (auth_state, session_response) prog" where
  "refresh e token =
     bindP (some_or (truthy token) (http_exn 401 ''Missing refresh token'')) (\<lambda>t.
     bindP (some_or (decode_refresh_token e t) (http_exn 401 ''Invalid refresh token'')) (\<lambda>payload.
     bindP (validate_and_revoke_jti e (jti_of payload)) (\<lambda>ok.
     bindP (guard ok (http_exn 401 ''Refresh token already used'')) (\<lambda>_.
     bindP (subject_user e payload) (\<lambda>u.
     bindP (some_or (active_user u) (http_exn 401 ''User not found'')) (\<lambda>u.
     start_session e u))))))"

primrec auth_type_name :: "auth_type \<Rightarrow> string" where
  "auth_type_name Admin_auth = ''admin''"
| "auth_type_name Google_auth = ''google''"

definition me :: "auth_env \<Rightarrow> credentials \<Rightarrow> (auth_state, jdict) prog" where
  "me e cr =
     bindP (get_current_user e cr) (\<lambda>u.
     return [(''id'', JStr (u_id u)), (''email'', JStr (u_email u)), (''name'', JStr (u_name u)), (''is_admin'', JBool (u_is_admin u)),
       (''picture_url'', jopt JStr (u_picture_url u)), (''auth_type'', JStr (auth_type_name (u_auth_type u))),
       (''has_passkeys'', JBool (u_webauthn_credentials u \<noteq> [])), (''password_disabled'', JBool (u_password_disabled u))])"

definition logout :: "(auth_state, cookie list) prog" where
  "logout = return clear_auth_cookies"

definition google_cookie_path :: string where "google_cookie_path = ''/api/v1/auth/google''"

definition google_login :: "auth_env \<Rightarrow> (auth_state, string \<times> cookie) prog" where
  "google_login e =
     (let state = random_token e 0 in
      bindP (redis_set e as_google_state_update state () oauth_state_ttl) (\<lambda>_.
      return (google_url e state, set_cookie e ''oauth_state'' state google_cookie_path oauth_state_ttl)))"

definition google_user :: "auth_env \<Rightarrow> string \<Rightarrow> google_info \<Rightarrow> user" where
  "google_user e email info =
     \<lparr>u_id = new_oid (ae_base e) 0, u_email = email, u_name = (case gi_name info of None \<Rightarrow> email | Some n \<Rightarrow> n),
      u_auth_type = Google_auth, u_google_id = gi_sub info, u_password_hash = None, u_is_active = True, u_status = User_active,
      u_is_admin = False, u_picture_url = gi_picture info, u_password_disabled = False, u_webauthn_credentials = [],
      u_last_active_at = None, u_created_at = now (ae_base e), u_updated_at = now (ae_base e)\<rparr>"

definition find_user_by_email :: "string \<Rightarrow> (auth_state, user option) prog" where
  "find_user_by_email email = gets (\<lambda>s. List.find (\<lambda>u. u_email u = email) (w_users (as_app s)))"

text \<open>The account of an address: created, or brought up to date.\<close>

definition google_account :: "auth_env \<Rightarrow> string \<Rightarrow> google_info \<Rightarrow> (auth_state, user) prog" where
  "google_account e email info =
     bindP (find_user_by_email email) (\<lambda>user0.
     case user0 of
       None \<Rightarrow>
         if user_insert_dup e then
           bindP (find_user_by_email email) (\<lambda>u. some_or u (http_exn 409 ''Email already registered''))
         else
           let u = google_user e email info in
           bindP (in_app (modify (\<lambda>w. w\<lparr>w_users := coll_insert u (w_users w)\<rparr>))) (\<lambda>_. return u)
     | Some u \<Rightarrow>
         let u' = u\<lparr>u_name := (case gi_name info of None \<Rightarrow> u_name u | Some n \<Rightarrow> n),
               u_picture_url := (case gi_picture info of None \<Rightarrow> u_picture_url u | Some p \<Rightarrow> Some p),
               u_google_id := (case gi_sub info of None \<Rightarrow> u_google_id u | Some g \<Rightarrow> Some g),
               u_updated_at := now (ae_base e)\<rparr>
         in bindP (in_app (modify (\<lambda>w. w\<lparr>w_users := coll_save u_id u' (w_users w)\<rparr>))) (\<lambda>_. return u'))"

definition compare_digest :: "string \<Rightarrow> string \<Rightarrow> (auth_state, bool) prog" where
  "compare_digest a b =
     bindP (guard (list_all (\<lambda>c. code c < 128) (a @ b)) (TypeError ''comparing strings with non-ASCII characters is not supported'')) (\<lambda>_.
     return (a = b))"

text \<open>The state cookie is cleared on the response; when an exception is raised, FastAPI drops that response.\<close>

definition google_callback :: "auth_env \<Rightarrow> string \<Rightarrow> string \<Rightarrow> string option \<Rightarrow> (auth_state, session_response) prog" where
  "google_callback e grant state oauth_state =
     bindP (some_or (truthy oauth_state) (http_exn 400 ''Invalid state'')) (\<lambda>c.
     bindP (compare_digest c state) (\<lambda>same.
     bindP (guard same (http_exn 400 ''Invalid state'')) (\<lambda>_.
     bindP (redis_get e as_google_state state) (\<lambda>v.
     bindP (guard (v \<noteq> None) (http_exn 400 ''Invalid state'')) (\<lambda>_.
     bindP (redis_del e as_google_state_update state) (\<lambda>_.
     case google_fetch e grant of
       Token_failed \<Rightarrow> raise (http_exn 502 ''Google authentication failed'')
     | Info_failed \<Rightarrow> raise (http_exn 502 ''Failed to fetch user info from Google'')
     | Info info \<Rightarrow>
         bindP (some_or (truthy (gi_email info)) (http_exn 400 ''No email from Google'')) (\<lambda>email.
         bindP (gets (\<lambda>s. email \<in> set (as_allowed_emails s))) (\<lambda>allowed.
         bindP (guard allowed (http_exn 403 ''Email not allowed'')) (\<lambda>_.
         bindP (google_account e email info) (\<lambda>u.
         bindP (guard (u_is_active u) (http_exn 403 ''Account disabled'')) (\<lambda>_.
         bindP (start_session e u) (\<lambda>r.
         return (r\<lparr>sr_cookies := delete_cookie ''oauth_state'' google_cookie_path # sr_cookies r\<rparr>)))))))))))))"

end
