(* ===== verification/Oauth_Provider.thy ===== *)
theory Oauth_Provider
  imports Rest_Auth
begin

text \<open>
  The OAuth provider of the MCP server: registration of clients (mcp/oauth/_clients.py), the
  authorisation request (mcp/oauth/_authorization.py), the consent screen (mcp/oauth_consent.py), and
  codes, access and refresh tokens (mcp/oauth/_tokens.py) over Redis (_base.py, _redis.py). The
  token endpoint of the MCP SDK loads a code or a refresh token and passes the object it got to the
  exchange; several requests may hold such objects at the same time.
\<close>

section \<open>Settings and time\<close>

definition pending_auth_ttl :: int where "pending_auth_ttl = 600"

definition consent_token_ttl :: int where "consent_token_ttl = 600"

definition default_access_token_expiry :: int where "default_access_token_expiry = 7 * 24 * 60 * 60"

definition default_refresh_token_expiry :: "int option" where "default_refresh_token_expiry = None"

definition fallback_ttl :: int where "fallback_ttl = 30 * 24 * 60 * 60"

text \<open>Seconds from now until an instant, at least one.\<close>

definition ttl_from_expires :: "auth_env \<Rightarrow> time option \<Rightarrow> int option" where
  "ttl_from_expires e expires_at = map_option (\<lambda>x. max ((x - now (ae_base e)) div 1000000) 1) expires_at"

definition redis_set_ttl ::
  "auth_env \<Rightarrow> (('v expiring \<Rightarrow> 'v expiring) \<Rightarrow> auth_state \<Rightarrow> auth_state) \<Rightarrow> string \<Rightarrow> 'v \<Rightarrow> int option \<Rightarrow> (auth_state, unit) prog" where
  "redis_set_ttl e put k v ttl =
     redis_set e put k v (case ttl of Some n \<Rightarrow> if 0 < n then n else fallback_ttl | None \<Rightarrow> fallback_ttl)"

text \<open>\<open>int(time.time() + seconds)\<close>.\<close>

definition whole_second :: "time \<Rightarrow> time" where
  "whole_second t = t div 1000000 * 1000000"

definition access_expiry :: "auth_env \<Rightarrow> time" where
  "access_expiry e = whole_second (now (ae_base e) + default_access_token_expiry * 1000000)"

definition refresh_expiry :: "auth_env \<Rightarrow> time option" where
  "refresh_expiry e = map_option (\<lambda>n. whole_second (now (ae_base e) + n * 1000000)) default_refresh_token_expiry"

definition str_of :: "string option \<Rightarrow> string" where
  "str_of x = (case x of None \<Rightarrow> [] | Some s \<Rightarrow> s)"

section \<open>Clients\<close>

definition get_client :: "auth_env \<Rightarrow> string \<Rightarrow> (auth_state, oauth_client option) prog" where
  "get_client e client_id = redis_get e os_clients client_id"

text \<open>\<open>scope.split()\<close>.\<close>

fun words_from :: "string \<Rightarrow> string \<Rightarrow> string list" where
  "words_from w [] = (if w = [] then [] else [rev w])"
| "words_from w (c # s) = (if py_space c then (if w = [] then words_from [] s else rev w # words_from [] s) else words_from (c # w) s)"

definition register_client :: "auth_env \<Rightarrow> oauth_client \<Rightarrow> (auth_state, unit) prog" where
  "register_client e info =
     bindP (case (oc_scope info, valid_scopes e) of
              (Some scope, Some valid) \<Rightarrow>
                (let invalid = filter (\<lambda>x. x \<notin> set valid) (words_from [] scope) in
                 guard (invalid = []) (ValueError (''Requested scopes are not valid: '' @ join_with '', '' (remdups invalid))))
            | _ \<Rightarrow> return ()) (\<lambda>_.
     bindP (some_or (oc_client_id info) (ValueError ''client_id is required for client registration'')) (\<lambda>cid.
     redis_set_ttl e os_clients_update cid info None))"

section \<open>Authorisation and consent\<close>

record authorization_params =
  ap_redirect_uri :: string
  ap_redirect_uri_provided_explicitly :: bool
  ap_state :: "string option"
  ap_scopes :: "string list option"
  ap_code_challenge :: string
  ap_resource :: "string option"

definition mount_prefix :: string where "mount_prefix = ''/mcp''"

text \<open>\<open>str(self.base_url).rstrip("/")\<close>.\<close>

definition metadata_base :: "auth_env \<Rightarrow> string" where
  "metadata_base e = rev (dropWhile (\<lambda>c. c = CHR ''/'') (rev (base_url e)))"

definition host_url :: "auth_env \<Rightarrow> string" where
  "host_url e =
     (let base = metadata_base e in
      if is_prefix (rev mount_prefix) (rev base) then take (length base - length mount_prefix) base else base)"

definition authorize :: "auth_env \<Rightarrow> oauth_client \<Rightarrow> authorization_params \<Rightarrow> (auth_state, string) prog" where
  "authorize e client params =
     bindP (get_client e (str_of (oc_client_id client))) (\<lambda>stored.
     bindP (guard (stored \<noteq> None) (OAuthError ''unauthorized_client''
       (''Client '' @ quoted (case oc_client_id client of None \<Rightarrow> ''None'' | Some c \<Rightarrow> c) @ '' not registered.''))) (\<lambda>_.
     let pending_id = random_token e 0 in
     bindP (redis_set e os_pending_update pending_id
       \<lparr>pa_client_id = oc_client_id client, pa_redirect_uri = ap_redirect_uri params,
        pa_redirect_uri_provided_explicitly = ap_redirect_uri_provided_explicitly params, pa_state = ap_state params,
        pa_scopes = (case ap_scopes params of None \<Rightarrow> [] | Some xs \<Rightarrow> xs), pa_code_challenge = ap_code_challenge params,
        pa_resource = ap_resource params\<rparr> pending_auth_ttl) (\<lambda>_.
     return (host_url e @ ''/api/v1/mcp/oauth/consent?pending='' @ pending_id))))"

definition store_authorization_code :: "auth_env \<Rightarrow> auth_code \<Rightarrow> (auth_state, unit) prog" where
  "store_authorization_code e c = redis_set_ttl e os_codes_update (cd_code c) c (ttl_from_expires e (Some (cd_expires_at c)))"

definition load_authorization_code :: "auth_env \<Rightarrow> oauth_client \<Rightarrow> string \<Rightarrow> (auth_state, auth_code option) prog" where
  "load_authorization_code e client k =
     bindP (redis_get e os_codes k) (\<lambda>raw.
     case raw of
       None \<Rightarrow> return None
     | Some c \<Rightarrow>
         if cd_client_id c \<noteq> oc_client_id client then return None
         else if cd_expires_at c < now (ae_base e) then bindP (redis_del e os_codes_update k) (\<lambda>_. return None)
         else return (Some c))"

text \<open>The user behind the session cookie or the \<open>Authorization\<close> header.\<close>

definition jwt_user :: "auth_env \<Rightarrow> string option \<Rightarrow> string option \<Rightarrow> (auth_state, user option) prog" where
  "jwt_user e cookie_token auth_header =
     (case (case truthy cookie_token of
              Some t \<Rightarrow> Some t
            | None \<Rightarrow> if is_prefix ''Bearer '' (str_of auth_header) then truthy (Some (drop 7 (str_of auth_header))) else None) of
        None \<Rightarrow> return None
      | Some token \<Rightarrow>
          (case decode_access_token e token of
             None \<Rightarrow> return None
           | Some payload \<Rightarrow>
               if \<not> jtruthy (dict_get ''sub'' JNull payload) then return None
               else bindP (subject_user e payload) (\<lambda>u. return (active_user u))))"

datatype consent_response =
    Consent_error nat
  | Login_redirect string
  | Consent_form string string string string \<comment> \<open>client, user, pending, consent token\<close>
  | Callback string

definition consent_page :: "auth_env \<Rightarrow> string option \<Rightarrow> string option \<Rightarrow> string \<Rightarrow> (auth_state, consent_response) prog" where
  "consent_page e cookie_token auth_header pending =
     bindP (redis_get e os_pending pending) (\<lambda>raw.
     case raw of
       None \<Rightarrow> return (Consent_error 400)
     | Some params \<Rightarrow>
         bindP (jwt_user e cookie_token auth_header) (\<lambda>user0.
         case user0 of
           None \<Rightarrow> return (Login_redirect (''/login?returnTo='' @ quote (''/api/v1/mcp/oauth/consent?pending='' @ pending)))
         | Some u \<Rightarrow>
             let consent_token = random_token e 0 in
             bindP (redis_set e os_consent_update consent_token pending consent_token_ttl) (\<lambda>_.
             return (Consent_form (str_of (pa_client_id params)) (if u_name u = [] then u_email u else u_name u) pending consent_token))))"

definition consent_code :: "auth_env \<Rightarrow> pending_auth \<Rightarrow> string \<Rightarrow> string \<Rightarrow> auth_code" where
  "consent_code e params uri user_id =
     \<lparr>cd_code = ''todo_auth_'' @ random_token e 0, cd_client_id = pa_client_id params, cd_redirect_uri = uri,
      cd_redirect_uri_provided_explicitly = pa_redirect_uri_provided_explicitly params, cd_scopes = pa_scopes params,
      cd_expires_at = now (ae_base e) + 300 * 1000000, cd_code_challenge = pa_code_challenge params,
      cd_resource = pa_resource params, cd_user_id = Some user_id\<rparr>"

text \<open>What an approval does once the pending request is consumed; a refusal only leads back to the client.\<close>

definition consent_decide :: "auth_env \<Rightarrow> user \<Rightarrow> pending_auth \<Rightarrow> string \<Rightarrow> (auth_state, consent_response) prog" where
  "consent_decide e u params action =
     (if action = ''deny'' then
        return (Callback (pa_redirect_uri params @ ''?'' @ urlencode [(''error'', ''access_denied''), (''state'', str_of (pa_state params))]))
      else
        bindP (some_or (any_url e (pa_redirect_uri params)) (ValidationError (pa_redirect_uri params))) (\<lambda>uri.
        bindP (guard (pa_client_id params \<noteq> None) (ValidationError ''TodoAuthorizationCode'')) (\<lambda>_.
        let c = consent_code e params uri (u_id u) in
        bindP (store_authorization_code e c) (\<lambda>_.
        return (Callback (pa_redirect_uri params @ ''?'' @ urlencode [(''code'', cd_code c), (''state'', str_of (pa_state params))]))))))"

definition consent_submit ::
  "auth_env \<Rightarrow> string option \<Rightarrow> string option \<Rightarrow> string \<Rightarrow> string \<Rightarrow> string \<Rightarrow> (auth_state, consent_response) prog" where
  "consent_submit e cookie_token auth_header pending_id consent_token action =
     bindP (jwt_user e cookie_token auth_header) (\<lambda>user0.
     case user0 of
       None \<Rightarrow> return (Consent_error 401)
     | Some u \<Rightarrow>
         bindP (redis_getdel e os_consent os_consent_update consent_token) (\<lambda>stored_pending.
         if truthy stored_pending \<noteq> Some pending_id then return (Consent_error 400)
         else bindP (redis_getdel e os_pending os_pending_update pending_id) (\<lambda>raw.
           case raw of
             None \<Rightarrow> return (Consent_error 400)
           | Some params \<Rightarrow> consent_decide e u params action)))"

section \<open>Tokens\<close>

record oauth_tokens =
  ot_access_token :: string
  ot_refresh_token :: string
  ot_expires_in :: int
  ot_scope :: "string option"

definition new_access :: "auth_env \<Rightarrow> string \<Rightarrow> string list \<Rightarrow> string option \<Rightarrow> access_token" where
  "new_access e client_id scopes user_id =
     \<lparr>at_token = ''todo_at_'' @ random_token e 0, at_client_id = client_id, at_scopes = scopes,
      at_expires_at = Some (access_expiry e), at_user_id = truthy user_id\<rparr>"

definition new_refresh :: "auth_env \<Rightarrow> string \<Rightarrow> string list \<Rightarrow> refresh_token" where
  "new_refresh e client_id scopes =
     \<lparr>rt_token = ''todo_rt_'' @ random_token e 1, rt_client_id = client_id, rt_scopes = scopes, rt_expires_at = refresh_expiry e\<rparr>"

text \<open>The pipeline that stores a pair of tokens and the two links between them.\<close>

definition store_tokens :: "auth_env \<Rightarrow> access_token \<Rightarrow> refresh_token \<Rightarrow> (auth_state, oauth_tokens) prog" where
  "store_tokens e a r =
     (let at_ttl = ttl_from_expires e (at_expires_at a); rt_ttl = ttl_from_expires e (rt_expires_at r) in
      bindP (redis_set_ttl e os_access_update (at_token a) a at_ttl) (\<lambda>_.
      bindP (redis_set_ttl e os_refresh_update (rt_token r) r rt_ttl) (\<lambda>_.
      bindP (redis_set_ttl e os_a2r_update (at_token a) (rt_token r) rt_ttl) (\<lambda>_.
      bindP (redis_set_ttl e os_r2a_update (rt_token r) (at_token a) at_ttl) (\<lambda>_.
      return \<lparr>ot_access_token = at_token a, ot_refresh_token = rt_token r, ot_expires_in = default_access_token_expiry,
        ot_scope = truthy (Some (join_with '' '' (at_scopes a)))\<rparr>)))))"

definition client_required :: exn where
  "client_required = OAuthError ''invalid_client'' ''Client ID is required''"

definition exchange_authorization_code :: "auth_env \<Rightarrow> oauth_client \<Rightarrow> auth_code \<Rightarrow> (auth_state, oauth_tokens) prog" where
  "exchange_authorization_code e client c =
     bindP (redis_getdel e os_codes os_codes_update (cd_code c)) (\<lambda>raw.
     bindP (guard (raw \<noteq> None) (OAuthError ''invalid_grant'' ''Authorization code not found or already used.'')) (\<lambda>_.
     bindP (some_or (oc_client_id client) client_required) (\<lambda>cid.
     store_tokens e (new_access e cid (cd_scopes c) (cd_user_id c)) (new_refresh e cid (cd_scopes c)))))"

text \<open>\<open>_revoke_internal\<close>, for a token and the one it is linked to.\<close>

definition revoke_access :: "auth_env \<Rightarrow> string \<Rightarrow> (auth_state, unit) prog" where
  "revoke_access e k =
     (if k = [] then return ()
      else bindP (redis_get e os_a2r k) (\<lambda>assoc.
        bindP (redis_del e os_access_update k) (\<lambda>_.
        bindP (redis_del e os_a2r_update k) (\<lambda>_.
        case truthy assoc of
          None \<Rightarrow> return ()
        | Some r \<Rightarrow> bindP (redis_del e os_refresh_update r) (\<lambda>_. redis_del e os_r2a_update r)))))"

definition revoke_refresh :: "auth_env \<Rightarrow> string \<Rightarrow> (auth_state, unit) prog" where
  "revoke_refresh e k =
     (if k = [] then return ()
      else bindP (redis_get e os_r2a k) (\<lambda>assoc.
        bindP (redis_del e os_refresh_update k) (\<lambda>_.
        bindP (redis_del e os_r2a_update k) (\<lambda>_.
        case truthy assoc of
          None \<Rightarrow> return ()
        | Some a \<Rightarrow> bindP (redis_del e os_access_update a) (\<lambda>_. redis_del e os_a2r_update a)))))"

definition expired_at :: "auth_env \<Rightarrow> time option \<Rightarrow> bool" where
  "expired_at e x = (case x of None \<Rightarrow> False | Some t \<Rightarrow> t < now (ae_base e))"

definition load_access_token :: "auth_env \<Rightarrow> string \<Rightarrow> (auth_state, access_token option) prog" where
  "load_access_token e k =
     bindP (redis_get e os_access k) (\<lambda>raw.
     case raw of
       None \<Rightarrow> return None
     | Some a \<Rightarrow> if expired_at e (at_expires_at a) then bindP (revoke_access e k) (\<lambda>_. return None) else return (Some a))"

definition load_refresh_token :: "auth_env \<Rightarrow> oauth_client \<Rightarrow> string \<Rightarrow> (auth_state, refresh_token option) prog" where
  "load_refresh_token e client k =
     bindP (redis_get e os_refresh k) (\<lambda>raw.
     case raw of
       None \<Rightarrow> return None
     | Some r \<Rightarrow>
         if Some (rt_client_id r) \<noteq> oc_client_id client then return None
         else if expired_at e (rt_expires_at r) then bindP (revoke_refresh e (rt_token r)) (\<lambda>_. return None)
         else return (Some r))"

text \<open>The user of the access token that belongs to a refresh token, as long as Redis knows both.\<close>

definition refresh_user :: "auth_env \<Rightarrow> string \<Rightarrow> (auth_state, string option) prog" where
  "refresh_user e k =
     bindP (redis_get e os_r2a k) (\<lambda>old.
     case truthy old of
       None \<Rightarrow> return None
     | Some a \<Rightarrow> bindP (redis_get e os_access a) (\<lambda>raw. return (case raw of None \<Rightarrow> None | Some x \<Rightarrow> at_user_id x)))"

definition exchange_refresh_token :: "auth_env \<Rightarrow> oauth_client \<Rightarrow> refresh_token \<Rightarrow> string list \<Rightarrow> (auth_state, oauth_tokens) prog" where
  "exchange_refresh_token e client r scopes =
     bindP (guard (set scopes \<subseteq> set (rt_scopes r))
       (OAuthError ''invalid_scope'' ''Requested scopes exceed those authorized by the refresh token.'')) (\<lambda>_.
     bindP (refresh_user e (rt_token r)) (\<lambda>old_user_id.
     bindP (revoke_refresh e (rt_token r)) (\<lambda>_.
     bindP (case truthy old_user_id of
              None \<Rightarrow> return ()
            | Some uid \<Rightarrow>
                bindP (in_app (user_get (ae_base e) uid)) (\<lambda>u.
                guard (active_user u \<noteq> None) (OAuthError ''invalid_grant'' ''User is disabled''))) (\<lambda>_.
     bindP (some_or (oc_client_id client) client_required) (\<lambda>cid.
     store_tokens e (new_access e cid scopes old_user_id) (new_refresh e cid scopes))))))"

datatype any_token = Access access_token | Refresh refresh_token

definition revoke_token :: "auth_env \<Rightarrow> any_token \<Rightarrow> (auth_state, unit) prog" where
  "revoke_token e t = (case t of Access a \<Rightarrow> revoke_access e (at_token a) | Refresh r \<Rightarrow> revoke_refresh e (rt_token r))"

section \<open>Transport\<close>

text \<open>
  \<open>DualAuthBackend\<close>: what the bearer backend of the SDK returns goes first; an API key that resolves
  lets the request pass with a placeholder token, and the tools authenticate it themselves.
\<close>

definition api_key_placeholder_token :: access_token where
  "api_key_placeholder_token =
     \<lparr>at_token = ''__api_key_passthrough__'', at_client_id = ''api-key-client'', at_scopes = [], at_expires_at = None, at_user_id = None\<rparr>"

definition dual_authenticate ::
  "auth_env \<Rightarrow> (auth_state, access_token option) prog \<Rightarrow> string option \<Rightarrow> (auth_state, access_token option) prog" where
  "dual_authenticate e bearer api_key =
     bindP bearer (\<lambda>result.
     case result of
       Some a \<Rightarrow> return (Some a)
     | None \<Rightarrow>
         (case truthy api_key of
            None \<Rightarrow> return None
          | Some k \<Rightarrow>
              if py_strip k = [] then return None
              else catchP (bindP (in_app (resolve_api_key_user (ae_base e) k)) (\<lambda>_. return (Some api_key_placeholder_token)))
                (\<lambda>x. case x of McpAuthError _ \<Rightarrow> return None | _ \<Rightarrow> raise x)))"

text \<open>
  The routes the SDK builds, as path and endpoint: the metadata documents are replaced by the
  provider's own, and every well-known document is served at the root as well.
\<close>

datatype endpoint = Sdk_endpoint string | As_metadata jdict | Prm_metadata jdict

record route_entry =
  re_path :: string
  re_endpoint :: endpoint
  re_methods :: "string list"

definition jstrs :: "string list \<Rightarrow> json" where
  "jstrs xs = JList (map JStr xs)"

definition as_metadata :: "auth_env \<Rightarrow> jdict" where
  "as_metadata e =
     (let base = metadata_base e in
      [(''issuer'', JStr (base @ ''/'')), (''authorization_endpoint'', JStr (base @ ''/authorize'')),
       (''token_endpoint'', JStr (base @ ''/token'')), (''registration_endpoint'', JStr (base @ ''/register'')),
       (''response_types_supported'', jstrs [''code'']), (''grant_types_supported'', jstrs [''authorization_code'', ''refresh_token'']),
       (''token_endpoint_auth_methods_supported'', jstrs [''none'']), (''code_challenge_methods_supported'', jstrs [''S256''])])"

definition prm_metadata :: "auth_env \<Rightarrow> jdict" where
  "prm_metadata e =
     (let base = metadata_base e in
      [(''resource'', JStr (base @ ''/'')), (''authorization_servers'', jstrs [base @ ''/'']), (''bearer_methods_supported'', jstrs [''header''])])"

definition patch_route :: "auth_env \<Rightarrow> route_entry \<Rightarrow> route_entry" where
  "patch_route e r =
     (if is_infix ''oauth-authorization-server'' (re_path r) then r\<lparr>re_endpoint := As_metadata (as_metadata e)\<rparr>
      else if is_infix ''oauth-protected-resource'' (re_path r) then r\<lparr>re_endpoint := Prm_metadata (prm_metadata e)\<rparr>
      else r)"

definition get_routes :: "auth_env \<Rightarrow> route_entry list \<Rightarrow> route_entry list" where
  "get_routes e sdk_routes = map (patch_route e) sdk_routes"

text \<open>The paths a route is to be served at besides its own, in the order of the two nested loops.\<close>

definition root_paths :: "route_entry \<Rightarrow> string list" where
  "root_paths r = concat (map (\<lambda>wk. if is_infix wk (re_path r) then [''/.well-known/'' @ wk, ''/.well-known/'' @ wk @ ''/''] else [])
     [''oauth-authorization-server'', ''oauth-protected-resource''])"

definition add_route :: "route_entry \<Rightarrow> string \<Rightarrow> route_entry list \<Rightarrow> route_entry list" where
  "add_route r path routes = (if path \<in> set (map re_path routes) then routes else routes @ [r\<lparr>re_path := path\<rparr>])"

definition get_well_known_routes :: "route_entry list \<Rightarrow> route_entry list" where
  "get_well_known_routes sdk_routes = fold (\<lambda>r. fold (add_route r) (root_paths r)) sdk_routes sdk_routes"

end
