(* ===== verification/Auth_Flow.thy ===== *)
theory Auth_Flow
  imports Oauth_Provider
begin

text \<open>
  Sequences of requests to the login endpoints and to the OAuth provider: what one request may
  change, and that codes, pending requests and refresh tokens of a session serve once.
\<close>

section \<open>Requests\<close>

datatype auth_op =
    Login string string
  | Session_refresh "string option"
  | Google_login
  | Google_callback string string "string option"
  | Register_client oauth_client
  | Authorize oauth_client authorization_params
  | Consent_page "string option" "string option" string
  | Consent_submit "string option" "string option" string string string
  | Load_code oauth_client string
  | Exchange_code oauth_client auth_code
  | Load_access string
  | Load_refresh oauth_client string
  | Exchange_refresh oauth_client refresh_token "string list"
  | Revoke any_token

datatype auth_answer =
    Session session_response
  | Google_redirect "string \<times> cookie"
  | Done unit
  | Location string
  | Consent consent_response
  | Loaded_code "auth_code option"
  | Loaded_access "access_token option"
  | Loaded_refresh "refresh_token option"
  | Tokens oauth_tokens

definition answer :: "('a \<Rightarrow> auth_answer) \<Rightarrow> (auth_state, 'a) prog \<Rightarrow> (auth_state, auth_answer) prog" where
  "answer f m = bindP m (\<lambda>x. return (f x))"

primrec serve :: "auth_env \<Rightarrow> auth_op \<Rightarrow> (auth_state, auth_answer) prog" where
  "serve e (Login username password) = answer Session (login e username password)"
| "serve e (Session_refresh token) = answer Session (refresh e token)"
| "serve e Google_login = answer Google_redirect (google_login e)"
| "serve e (Google_callback grant state oauth_state) = answer Session (google_callback e grant state oauth_state)"
| "serve e (Register_client info) = answer Done (register_client e info)"
| "serve e (Authorize client params) = answer Location (authorize e client params)"
| "serve e (Consent_page cookie_token auth_header pending) = answer Consent (consent_page e cookie_token auth_header pending)"
| "serve e (Consent_submit cookie_token auth_header pending consent_token action) =
     answer Consent (consent_submit e cookie_token auth_header pending consent_token action)"
| "serve e (Load_code client k) = answer Loaded_code (load_authorization_code e client k)"
| "serve e (Exchange_code client c) = answer Tokens (exchange_authorization_code e client c)"
| "serve e (Load_access k) = answer Loaded_access (load_access_token e k)"
| "serve e (Load_refresh client k) = answer Loaded_refresh (load_refresh_token e client k)"
| "serve e (Exchange_refresh client r scopes) = answer Tokens (exchange_refresh_token e client r scopes)"
| "serve e (Revoke t) = answer Done (revoke_token e t)"

definition auth_step :: "auth_env \<times> auth_op \<Rightarrow> auth_state \<Rightarrow> auth_state" where
  "auth_step q s = snd (serve (fst q) (snd q) s)"

section \<open>Weakest preconditions\<close>

lemma wp_redis_get [wp_simps]:
  "wp (redis_get e sel k) Q E s = (if redis_up (ae_base e) then Q (alive (now (ae_base e)) (sel s) k) s else E RedisError s)"
  by (simp add: redis_get_def wp_simps)

lemma wp_redis_set [wp_simps]:
  "wp (redis_set e put k v ttl) Q E s =
   (if redis_up (ae_base e) then Q () (put (\<lambda>m. m(k \<mapsto> (v, now (ae_base e) + ttl * 1000000))) s) else E RedisError s)"
  by (simp add: redis_set_def wp_simps)

lemma wp_redis_del [wp_simps]:
  "wp (redis_del e put k) Q E s = (if redis_up (ae_base e) then Q () (put (\<lambda>m. m(k := None)) s) else E RedisError s)"
  by (simp add: redis_del_def wp_simps)

lemma wp_redis_getdel [wp_simps]:
  "wp (redis_getdel e sel put k) Q E s =
   (if redis_up (ae_base e) then Q (alive (now (ae_base e)) (sel s) k) (put (\<lambda>m. m(k := None)) s) else E RedisError s)"
  by (simp add: redis_getdel_def wp_simps)

lemma wp_in_app [wp_simps]:
  "wp (in_app m) Q E s = wp m (\<lambda>x w. Q x (s\<lparr>as_app := w\<rparr>)) (\<lambda>x w. E x (s\<lparr>as_app := w\<rparr>)) (as_app s)"
  by (simp add: in_app_def wp_def split: prod.splits sum.splits)

lemma wp_answer [wp_simps]: "wp (answer f m) Q E s = wp m (\<lambda>x. Q (f x)) E s"
  by (simp add: answer_def wp_simps wp_return_fn)

lemma alive_Some: "alive t m k = Some v \<Longrightarrow> \<exists>x. m k = Some (v, x)"
  by (auto simp: alive_def split: option.splits if_splits)

section \<open>Frames\<close>

text \<open>
  A part of the state that a request does not write stays as it is. The rules below say so for
  every operation, given that the part does not depend on the fields the operation writes.
\<close>

lemma keeps_redis_frame:
  assumes "frame R"
  shows "keeps R (redis_get e sel' k)"
    and "(\<And>s. R s (put (\<lambda>m. m(k \<mapsto> (v, now (ae_base e) + ttl * 1000000))) s)) \<Longrightarrow> keeps R (redis_set e put k v ttl)"
    and "(\<And>s. R s (put (\<lambda>m. m(k := None)) s)) \<Longrightarrow> keeps R (redis_del e put k)"
    and "(\<And>s. R s (put (\<lambda>m. m(k := None)) s)) \<Longrightarrow> keeps R (redis_getdel e sel' put k)"
    and "(\<And>s w. R s (s\<lparr>as_app := w\<rparr>)) \<Longrightarrow> keeps R (in_app m)"
    and "keeps R n \<Longrightarrow> keeps R (answer f n)"
  using frame.refl [OF assms]
  by (simp_all add: keeps_wp wp_simps wp_True)

lemma keeps_redis:
  "keeps (same sel) (redis_get e sel' k)"
  "apart sel put \<Longrightarrow> keeps (same sel) (redis_set e put k v ttl)"
  "apart sel put \<Longrightarrow> keeps (same sel) (redis_del e put k)"
  "apart sel put \<Longrightarrow> keeps (same sel) (redis_getdel e sel' put k)"
  "apart sel as_app_update \<Longrightarrow> keeps (same sel) (in_app m)"
  "keeps (same sel) n \<Longrightarrow> keeps (same sel) (answer f n)"
  by (simp_all add: keeps_redis_frame part.frame_axioms apart_def same_def)

lemmas keeps_auth = part.keeps_intros keeps_redis

lemma keeps_subject_user: "apart sel as_app_update \<Longrightarrow> keeps (same sel) (subject_user e p)"
  unfolding subject_user_def by (auto intro!: keeps_auth split: option.split json.split)

lemma keeps_start_session: "apart sel as_refresh_jti_update \<Longrightarrow> keeps (same sel) (start_session e u)"
  unfolding start_session_def create_and_store_refresh_token_def create_refresh_token_def store_refresh_jti_def Let_def
  by (simp, intro keeps_auth)

lemma keeps_login:
  assumes "apart sel as_refresh_jti_update" and "apart sel as_login_attempts_update"
  shows "keeps (same sel) (login e u p)"
  unfolding login_def check_rate_limit_def record_failed_login_def clear_login_attempts_def
  by (intro keeps_auth keeps_start_session assms)

lemma keeps_refresh:
  assumes "apart sel as_refresh_jti_update" and "apart sel as_app_update"
  shows "keeps (same sel) (refresh e t)"
  unfolding refresh_def validate_and_revoke_jti_def
  by (intro keeps_auth keeps_start_session keeps_subject_user assms)

lemma keeps_google_callback:
  assumes "apart sel as_refresh_jti_update" and "apart sel as_app_update" and "apart sel as_google_state_update"
  shows "keeps (same sel) (google_callback e g st c)"
proof -
  have answer: "keeps (same sel) (case r of Token_failed \<Rightarrow> raise x | Info_failed \<Rightarrow> raise y | Info i \<Rightarrow> f i)"
    if "\<And>i. keeps (same sel) (f i)" for r x y and f :: "google_info \<Rightarrow> (auth_state, session_response) prog"
    using that by (cases r) (simp_all add: part.keeps_raise)
  show ?thesis
    unfolding google_callback_def compare_digest_def google_account_def find_user_by_email_def
    by (intro keeps_auth answer keeps_start_session assms)
qed

lemma keeps_authorize: "apart sel os_pending_update \<Longrightarrow> keeps (same sel) (authorize e cl p)"
  unfolding authorize_def get_client_def by (intro keeps_auth)

lemma keeps_jwt_user: "apart sel as_app_update \<Longrightarrow> keeps (same sel) (jwt_user e ct h)"
  unfolding jwt_user_def by (intro keeps_auth keeps_subject_user)

lemma keeps_consent_page: "apart sel as_app_update \<Longrightarrow> apart sel os_consent_update \<Longrightarrow> keeps (same sel) (consent_page e ct h p)"
  unfolding consent_page_def by (intro keeps_auth keeps_jwt_user)

lemma keeps_consent_submit:
  assumes "apart sel as_app_update" and "apart sel os_consent_update" and "apart sel os_pending_update" and "apart sel os_codes_update"
  shows "keeps (same sel) (consent_submit e ct h p tok action)"
  unfolding consent_submit_def consent_decide_def store_authorization_code_def redis_set_ttl_def
  by (intro keeps_auth keeps_jwt_user assms)

lemma keeps_load_code: "apart sel os_codes_update \<Longrightarrow> keeps (same sel) (load_authorization_code e cl k)"
  unfolding load_authorization_code_def by (intro keeps_auth)

lemma keeps_store_tokens:
  assumes "apart sel os_access_update" and "apart sel os_refresh_update" and "apart sel os_a2r_update" and "apart sel os_r2a_update"
  shows "keeps (same sel) (store_tokens e a r)"
  unfolding store_tokens_def redis_set_ttl_def by (intro keeps_auth assms)

lemma keeps_revoke:
  assumes "apart sel os_access_update" and "apart sel os_refresh_update" and "apart sel os_a2r_update" and "apart sel os_r2a_update"
  shows "keeps (same sel) (revoke_access e k)" "keeps (same sel) (revoke_refresh e k)"
  unfolding revoke_access_def revoke_refresh_def by (intro keeps_auth assms)+

lemma keeps_exchange_code:
  assumes "apart sel os_codes_update" and "apart sel os_access_update" and "apart sel os_refresh_update"
    and "apart sel os_a2r_update" and "apart sel os_r2a_update"
  shows "keeps (same sel) (exchange_authorization_code e cl c)"
  unfolding exchange_authorization_code_def by (intro keeps_auth keeps_store_tokens assms)

lemma keeps_tokens:
  assumes "apart sel os_access_update" and "apart sel os_refresh_update" and "apart sel os_a2r_update" and "apart sel os_r2a_update"
  shows "keeps (same sel) (load_access_token e k)" "keeps (same sel) (load_refresh_token e cl k)" "keeps (same sel) (revoke_token e t)"
  unfolding load_access_token_def load_refresh_token_def revoke_token_def
  by (intro keeps_auth keeps_revoke assms)+ (cases t; simp add: keeps_revoke assms)

lemma keeps_exchange_refresh:
  assumes "apart sel as_app_update" and "apart sel os_access_update" and "apart sel os_refresh_update"
    and "apart sel os_a2r_update" and "apart sel os_r2a_update"
  shows "keeps (same sel) (exchange_refresh_token e cl r scopes)"
  unfolding exchange_refresh_token_def refresh_user_def
  by (intro keeps_auth keeps_revoke keeps_store_tokens assms)

lemma keeps_register: "apart sel os_clients_update \<Longrightarrow> keeps (same sel) (register_client e info)"
proof -
  assume "apart sel os_clients_update"
  then have "keeps (same sel) (redis_set_ttl e os_clients_update k v t)" for k v t
    unfolding redis_set_ttl_def by (intro keeps_auth)
  then show ?thesis unfolding register_client_def by (intro keeps_auth)
qed

lemma keeps_google_login: "apart sel as_google_state_update \<Longrightarrow> keeps (same sel) (google_login e)"
  unfolding google_login_def by (intro keeps_auth)

lemmas keeps_op = keeps_redis(6) keeps_login keeps_refresh keeps_google_login keeps_google_callback keeps_register keeps_authorize
  keeps_consent_page keeps_consent_submit keeps_load_code keeps_exchange_code keeps_tokens keeps_exchange_refresh

lemma serve_keeps_jti:
  assumes "\<forall>u p. q \<noteq> Login u p" and "\<forall>t. q \<noteq> Session_refresh t" and "\<forall>g st c. q \<noteq> Google_callback g st c"
  shows "keeps (same as_refresh_jti) (serve e q)"
  using assms by (cases q) (simp_all add: keeps_op apart_def)

lemma serve_keeps_attempts: "\<forall>u p. q \<noteq> Login u p \<Longrightarrow> keeps (same as_login_attempts) (serve e q)"
  by (cases q) (simp_all add: keeps_op apart_def)

lemma serve_keeps_codes:
  assumes "\<forall>ct h p tok a. q \<noteq> Consent_submit ct h p tok a" and "\<forall>cl k. q \<noteq> Load_code cl k" and "\<forall>cl c. q \<noteq> Exchange_code cl c"
  shows "keeps (same os_codes) (serve e q)"
  using assms by (cases q) (simp_all add: keeps_op apart_def)

lemma serve_keeps_pending:
  assumes "\<forall>ct h p tok a. q \<noteq> Consent_submit ct h p tok a" and "\<forall>cl ps. q \<noteq> Authorize cl ps"
  shows "keeps (same os_pending) (serve e q)"
  using assms by (cases q) (simp_all add: keeps_op apart_def)

section \<open>Values that serve once\<close>

text \<open>A sum over the requests of a sequence, served one after the other, and how many of them use a value.\<close>

primrec tally :: "('q \<Rightarrow> 's \<Rightarrow> 's) \<Rightarrow> ('q \<Rightarrow> 's \<Rightarrow> nat) \<Rightarrow> 'q list \<Rightarrow> 's \<Rightarrow> nat" where
  "tally step f [] s = 0"
| "tally step f (q # qs) s = f q s + tally step f qs (step q s)"

definition count_uses :: "('q \<Rightarrow> 's \<Rightarrow> 's) \<Rightarrow> ('q \<Rightarrow> 's \<Rightarrow> bool) \<Rightarrow> 'q list \<Rightarrow> 's \<Rightarrow> nat" where
  "count_uses step uses = tally step (\<lambda>q s. of_bool (uses q s))"

text \<open>
  The contract of a metered use: the state has a budget, a use spends one unit, and some requests
  earn units. Then there are never more uses than the budget and what was earned.
\<close>

locale metered =
  fixes step :: "'q \<Rightarrow> 's \<Rightarrow> 's" and admits :: "'q \<Rightarrow> bool" and uses :: "'q \<Rightarrow> 's \<Rightarrow> bool"
    and budget :: "'s \<Rightarrow> nat" and earns :: "'q \<Rightarrow> 's \<Rightarrow> nat"
  assumes spent: "admits q \<Longrightarrow> of_bool (uses q s) + budget (step q s) \<le> budget s + earns q s"
begin

lemma uses_within_budget: "list_all admits qs \<Longrightarrow> count_uses step uses qs s \<le> budget s + tally step earns qs s"
proof (induction qs arbitrary: s)
  case Nil
  then show ?case by (simp add: count_uses_def)
next
  case (Cons q qs)
  then have "count_uses step uses qs (step q s) \<le> budget (step q s) + tally step earns qs (step q s)" by simp
  then show ?case using spent [of q s] Cons.prems by (simp add: count_uses_def)
qed

end

text \<open>
  The contract of a value that is stored to be used once: a request that uses it finds it stored
  and leaves it gone, and only requests that issue it store it. It is metered by its presence.
\<close>

locale one_time =
  fixes step :: "'q \<Rightarrow> 's \<Rightarrow> 's" and uses :: "'q \<Rightarrow> 's \<Rightarrow> bool" and present :: "'s \<Rightarrow> bool" and issues :: "'q \<Rightarrow> bool"
  assumes consumed: "of_bool (uses q s) + of_bool (present (step q s)) \<le> (of_bool (present s) + of_bool (issues q) :: nat)"

sublocale one_time \<subseteq> metered step "\<lambda>_. True" uses "\<lambda>s. of_bool (present s)" "\<lambda>q _. of_bool (issues q)"
  by unfold_locales (rule consumed)

lemma tally_stateless: "tally step (\<lambda>q _. of_bool (P q)) qs s = length (filter P qs)"
  by (induction qs arbitrary: s) simp_all

context one_time
begin

lemma uses_bounded: "count_uses step uses qs s \<le> of_bool (present s) + length (filter issues qs)"
  using uses_within_budget [of qs s] by (simp add: tally_stateless list_all_iff)

end

text \<open>
  The contract for a key of Redis: a request adds at most the key it drew, and one that uses
  the key finds it and leaves it gone.
\<close>

definition adds :: "(auth_state \<Rightarrow> 'v expiring) \<Rightarrow> string \<Rightarrow> auth_state \<Rightarrow> auth_state \<Rightarrow> bool" where
  "adds sel k s s' \<longleftrightarrow> dom (sel s') \<subseteq> insert k (dom (sel s))"

interpretation adding: frame "adds sel k" for sel k
  unfolding adds_def by unfold_locales blast+

lemmas keeps_adding = adding.keeps_intros keeps_redis_frame [OF adding.frame_axioms]

lemma keeps_adds_same: "keeps (same sel) m \<Longrightarrow> keeps (adds sel k) m"
  by (simp add: keeps_def same_def adds_def subset_insertI)

lemma one_timeI:
  assumes "\<And>e q. keeps (adds sel (drawn e)) (serve e q)"
    and "\<And>q s. uses q s \<Longrightarrow> k \<in> dom (sel s) \<and> (k \<noteq> drawn (fst q) \<longrightarrow> k \<notin> dom (sel (auth_step q s)))"
  shows "one_time auth_step uses (\<lambda>s. k \<in> dom (sel s)) (\<lambda>q. drawn (fst q) = k)"
proof
  fix q s
  have "k \<in> dom (sel (auth_step q s)) \<Longrightarrow> k \<in> dom (sel s) \<or> drawn (fst q) = k"
    using assms(1) [of "fst q" "snd q"] unfolding keeps_def adds_def auth_step_def by blast
  then show "of_bool (uses q s) + of_bool (k \<in> dom (sel (auth_step q s))) \<le> (of_bool (k \<in> dom (sel s)) + of_bool (drawn (fst q) = k) :: nat)"
    using assms(2) [of q s] by auto
qed

lemma not_isl: "\<not> isl r \<longleftrightarrow> (\<exists>x. r = Inr x)"
  by (cases r) simp_all

text \<open>A request that ends well: its answer and its state.\<close>

lemma serve_answer:
  assumes "fst (serve e q s) = Inr x" and "serve e q = answer f m"
  obtains y where "m s = (Inr y, snd (serve e q s))" and "x = f y"
  using assms that by (auto simp: answer_def bindP_def return_def split: prod.splits sum.splits)

subsection \<open>Refresh tokens of a session\<close>

text \<open>The request presents a refresh token that carries the identifier, and a session is started.\<close>

definition refresh_accepted :: "string \<Rightarrow> auth_env \<times> auth_op \<Rightarrow> auth_state \<Rightarrow> bool" where
  "refresh_accepted jti q s \<longleftrightarrow> (case snd q of
     Session_refresh (Some t) \<Rightarrow> map_option jti_of (decode_refresh_token (fst q) t) = Some (Some jti) \<and> \<not> isl (fst (serve (fst q) (snd q) s))
   | _ \<Rightarrow> False)"

lemma wp_start_session [wp_simps]:
  "wp (start_session e u) Q E s =
   (if redis_up (ae_base e)
    then Q \<lparr>sr_access_token = create_access_token e (u_id u), sr_refresh_token = fst (create_refresh_token e (u_id u)),
           sr_cookies = set_auth_cookies e (create_access_token e (u_id u)) (fst (create_refresh_token e (u_id u)))\<rparr>
         (as_refresh_jti_update (\<lambda>m. m(uuid4_hex e \<mapsto> ((), now (ae_base e) + refresh_jti_ttl * 1000000))) s)
    else E RedisError s)"
  by (simp add: start_session_def create_and_store_refresh_token_def store_refresh_jti_def create_refresh_token_def wp_simps Let_def)

lemma serve_adds_jti: "keeps (adds as_refresh_jti (uuid4_hex e)) (serve e q)"
proof -
  let ?R = "adds as_refresh_jti (uuid4_hex e)"
  have session: "keeps ?R (start_session e u)" for u by (auto simp: keeps_wp wp_simps adds_def)
  have subject: "keeps ?R (subject_user e p)" for p by (rule keeps_adds_same [OF keeps_subject_user]) (simp add: apart_def)
  have google: "keeps ?R (google_callback e g st c)" for g st c
    by (cases "google_fetch e g")
      (unfold google_callback_def compare_digest_def google_account_def find_user_by_email_def, simp_all,
        (intro keeps_adding session; auto simp: adds_def)+)
  have login: "keeps ?R (login e u p)" for u p
    unfolding login_def check_rate_limit_def record_failed_login_def clear_login_attempts_def
    by (intro keeps_adding session; auto simp: adds_def)
  have refresh: "keeps ?R (refresh e t)" for t
    unfolding refresh_def validate_and_revoke_jti_def by (intro keeps_adding session subject; auto simp: adds_def)
  show ?thesis
    by (cases q) (auto intro!: keeps_adds_same serve_keeps_jti simp: keeps_adding login refresh google simp del: serve.simps(3,5-14))
qed

lemma refresh_consumes:
  assumes "refresh e (Some t) s = (Inr r, s')" and "decode_refresh_token e t = Some payload" and "jti_of payload = Some j"
  shows "as_refresh_jti s j \<noteq> None" and "j \<noteq> uuid4_hex e \<Longrightarrow> as_refresh_jti s' j = None"
proof -
  define Q where "Q s' \<longleftrightarrow> as_refresh_jti s j \<noteq> None \<and> (j \<noteq> uuid4_hex e \<longrightarrow> as_refresh_jti s' j = None)" for s' :: auth_state
  have "wp (bindP (subject_user e payload) (\<lambda>u. bindP (some_or (active_user u) x) (start_session e))) (\<lambda>_ s'. as_refresh_jti s j \<noteq> None \<longrightarrow> Q s')
      (\<lambda>_ _. True) (as_refresh_jti_update (\<lambda>m. m(j := None)) s)" for x
    by (subst wp_bindP, rule wp_keeps [OF keeps_subject_user [of as_refresh_jti]])
      (simp_all add: apart_def same_def wp_simps Q_def split: option.split)
  then have "wp (refresh e (Some t)) (\<lambda>_. Q) (\<lambda>_ _. True) s"
    using assms(2,3)
    by (auto simp: refresh_def validate_and_revoke_jti_def wp_simps truthy_def alive_def split: option.split list.split)
  from wp_value [OF this assms(1)] show "as_refresh_jti s j \<noteq> None" "j \<noteq> uuid4_hex e \<Longrightarrow> as_refresh_jti s' j = None"
    by (simp_all add: Q_def)
qed

interpretation session: one_time auth_step "refresh_accepted j" "\<lambda>s. j \<in> dom (as_refresh_jti s)" "\<lambda>q. uuid4_hex (fst q) = j" for j
proof (rule one_timeI [where sel = as_refresh_jti and drawn = uuid4_hex])
  show "keeps (adds as_refresh_jti (uuid4_hex e)) (serve e q)" for e q by (rule serve_adds_jti)
  fix q s
  assume "refresh_accepted j q s"
  then obtain t payload x where q: "snd q = Session_refresh (Some t)" "decode_refresh_token (fst q) t = Some payload" "jti_of payload = Some j"
    and x: "fst (serve (fst q) (snd q) s) = Inr x"
    by (auto simp: refresh_accepted_def not_isl split: auth_op.splits option.splits sum.splits)
  from serve_answer [OF x, of Session "refresh (fst q) (Some t)"] q(1) obtain r
    where "refresh (fst q) (Some t) s = (Inr r, auth_step q s)" by (auto simp: auth_step_def)
  from refresh_consumes [OF this q(2,3)] show "j \<in> dom (as_refresh_jti s) \<and> (j \<noteq> uuid4_hex (fst q) \<longrightarrow> j \<notin> dom (as_refresh_jti (auth_step q s)))"
    by (simp add: domIff)
qed

subsection \<open>Authorization codes and pending requests\<close>

definition code_exchanged :: "string \<Rightarrow> auth_env \<times> auth_op \<Rightarrow> auth_state \<Rightarrow> bool" where
  "code_exchanged k q s \<longleftrightarrow> (case snd q of Exchange_code client c \<Rightarrow> cd_code c = k \<and> \<not> isl (fst (serve (fst q) (snd q) s)) | _ \<Rightarrow> False)"

text \<open>The answer of a consent form leads back to the client, with a code or with a refusal.\<close>

fun is_callback :: "exn + auth_answer \<Rightarrow> bool" where
  "is_callback (Inr (Consent (Callback _))) = True"
| "is_callback _ = False"

definition request_decided :: "string \<Rightarrow> auth_env \<times> auth_op \<Rightarrow> auth_state \<Rightarrow> bool" where
  "request_decided p q s \<longleftrightarrow> (case snd q of
     Consent_submit cookie_token auth_header pending consent_token action \<Rightarrow> pending = p \<and> is_callback (fst (serve (fst q) (snd q) s)) | _ \<Rightarrow> False)"

lemma serve_adds_codes: "keeps (adds os_codes (''todo_auth_'' @ random_token e 0)) (serve e q)"
proof -
  let ?R = "adds os_codes (''todo_auth_'' @ random_token e 0)"
  have user: "keeps ?R (jwt_user e ct h)" for ct h by (rule keeps_adds_same [OF keeps_jwt_user]) (simp add: apart_def)
  have "keeps ?R (consent_submit e ct h p tok a)" for ct h p tok a
    unfolding consent_submit_def consent_decide_def store_authorization_code_def redis_set_ttl_def Let_def
    by (intro keeps_adding user; auto simp: adds_def consent_code_def)
  moreover have "keeps ?R (load_authorization_code e cl k)" for cl k
    unfolding load_authorization_code_def by (intro keeps_adding; auto simp: adds_def)
  moreover have "keeps ?R (exchange_authorization_code e cl c)" for cl c
    unfolding exchange_authorization_code_def
    by (intro keeps_adding keeps_adds_same [OF keeps_store_tokens]; auto simp: adds_def apart_def)
  ultimately show ?thesis
    by (cases q) (auto intro!: keeps_adds_same serve_keeps_codes simp: keeps_adding simp del: serve.simps(1-7,11-14))
qed

lemma serve_adds_pending: "keeps (adds os_pending (random_token e 0)) (serve e q)"
proof -
  let ?R = "adds os_pending (random_token e 0)"
  have user: "keeps ?R (jwt_user e ct h)" for ct h by (rule keeps_adds_same [OF keeps_jwt_user]) (simp add: apart_def)
  have "keeps ?R (consent_submit e ct h p tok a)" for ct h p tok a
    unfolding consent_submit_def consent_decide_def store_authorization_code_def redis_set_ttl_def Let_def
    by (intro keeps_adding user; auto simp: adds_def)
  moreover have "keeps ?R (authorize e cl ps)" for cl ps
    unfolding authorize_def get_client_def Let_def by (intro keeps_adding; auto simp: adds_def)
  ultimately show ?thesis
    by (cases q) (auto intro!: keeps_adds_same serve_keeps_pending simp: keeps_adding simp del: serve.simps(1-5,7,9-14))
qed

lemma exchange_consumes:
  assumes "exchange_authorization_code e cl c s = (Inr r, s')"
  shows "cd_code c \<in> dom (os_codes s) \<and> cd_code c \<notin> dom (os_codes s')"
proof -
  define Q where "Q s' \<longleftrightarrow> cd_code c \<in> dom (os_codes s) \<and> cd_code c \<notin> dom (os_codes s')" for s' :: auth_state
  have "wp (store_tokens e a t) (\<lambda>_. Q) (\<lambda>_ _. True) (os_codes_update (\<lambda>m. m(cd_code c := None)) s)"
    if "os_codes s (cd_code c) = Some x" for a t x
    using that by (intro wp_keeps [OF keeps_store_tokens [of os_codes]]) (auto simp: apart_def same_def Q_def)
  then have "wp (exchange_authorization_code e cl c) (\<lambda>_. Q) (\<lambda>_ _. True) s"
    by (auto simp: exchange_authorization_code_def wp_simps alive_def split: option.split)
  from wp_value [OF this assms] show ?thesis by (simp add: Q_def)
qed

lemma consent_consumes:
  assumes "consent_submit e ct h p tok a s = (Inr (Callback u), s')"
  shows "p \<in> dom (os_pending s) \<and> p \<notin> dom (os_pending s')"
proof -
  let ?Q = "\<lambda>x s'. \<forall>u. x = Callback u \<longrightarrow> p \<in> dom (os_pending s) \<and> p \<notin> dom (os_pending s')"
  have "wp (consent_submit e ct h p tok a) ?Q (\<lambda>_ _. True) s"
    unfolding consent_submit_def
  proof (subst wp_bindP, rule wp_keeps [OF keeps_jwt_user [of os_pending]])
    show "wp (case x of None \<Rightarrow> return (Consent_error 401)
      | Some u \<Rightarrow> bindP (redis_getdel e os_consent os_consent_update tok) (\<lambda>stored.
          if truthy stored \<noteq> Some p then return (Consent_error 400)
          else bindP (redis_getdel e os_pending os_pending_update p) (\<lambda>raw.
            case raw of None \<Rightarrow> return (Consent_error 400) | Some params \<Rightarrow> consent_decide e u params a))) ?Q (\<lambda>_ _. True) s1"
      if "same os_pending s s1" for x s1
      using that
      by (auto simp: wp_simps same_def consent_decide_def store_authorization_code_def redis_set_ttl_def Let_def alive_def
          split: option.splits)
  qed (simp_all add: apart_def)
  from wp_value [OF this assms] show ?thesis by simp
qed

interpretation codes: one_time auth_step "code_exchanged k" "\<lambda>s. k \<in> dom (os_codes s)" "\<lambda>q. ''todo_auth_'' @ random_token (fst q) 0 = k" for k
proof (rule one_timeI [where sel = os_codes and drawn = "\<lambda>e. ''todo_auth_'' @ random_token e 0"])
  show "keeps (adds os_codes (''todo_auth_'' @ random_token e 0)) (serve e q)" for e q by (rule serve_adds_codes)
  fix q s
  assume "code_exchanged k q s"
  then obtain cl c x where q: "snd q = Exchange_code cl c" "cd_code c = k" and x: "fst (serve (fst q) (snd q) s) = Inr x"
    by (auto simp: code_exchanged_def not_isl simp del: serve.simps split: auth_op.splits)
  from serve_answer [OF x, of Tokens "exchange_authorization_code (fst q) cl c"] q(1) obtain r
    where "exchange_authorization_code (fst q) cl c s = (Inr r, auth_step q s)" by (auto simp: auth_step_def)
  from exchange_consumes [OF this] show "k \<in> dom (os_codes s) \<and> (k \<noteq> ''todo_auth_'' @ random_token (fst q) 0 \<longrightarrow> k \<notin> dom (os_codes (auth_step q s)))"
    using q(2) by blast
qed

interpretation consent: one_time auth_step "request_decided p" "\<lambda>s. p \<in> dom (os_pending s)" "\<lambda>q. random_token (fst q) 0 = p" for p
proof (rule one_timeI [where sel = os_pending and drawn = "\<lambda>e. random_token e 0"])
  show "keeps (adds os_pending (random_token e 0)) (serve e q)" for e q by (rule serve_adds_pending)
  fix q s
  assume "request_decided p q s"
  then obtain ct h tok a x where q: "snd q = Consent_submit ct h p tok a" and x: "fst (serve (fst q) (snd q) s) = Inr x" "is_callback (Inr x)"
    by (cases "fst (serve (fst q) (snd q) s)") (auto simp: request_decided_def simp del: serve.simps split: auth_op.splits)
  from serve_answer [OF x(1), of Consent "consent_submit (fst q) ct h p tok a"] q obtain y
    where y: "consent_submit (fst q) ct h p tok a s = (Inr y, auth_step q s)" "x = Consent y" by (auto simp: auth_step_def)
  then obtain u where "consent_submit (fst q) ct h p tok a s = (Inr (Callback u), auth_step q s)"
    using x(2) by (cases y) simp_all
  from consent_consumes [OF this] show "p \<in> dom (os_pending s) \<and> (p \<noteq> random_token (fst q) 0 \<longrightarrow> p \<notin> dom (os_pending (auth_step q s)))"
    by blast
qed

section \<open>Lockout\<close>

text \<open>A login is rejected for its credentials, or it starts a session.\<close>

definition login_rejected :: "string \<Rightarrow> auth_env \<times> auth_op \<Rightarrow> auth_state \<Rightarrow> bool" where
  "login_rejected name q s \<longleftrightarrow> (case snd q of
     Login username password \<Rightarrow> username = name \<and> fst (serve (fst q) (snd q) s) = Inl (http_exn 401 ''Invalid credentials'') | _ \<Rightarrow> False)"

definition login_accepted :: "string \<Rightarrow> auth_env \<times> auth_op \<Rightarrow> auth_state \<Rightarrow> bool" where
  "login_accepted name q s \<longleftrightarrow> (case snd q of
     Login username password \<Rightarrow> username = name \<and> \<not> isl (fst (serve (fst q) (snd q) s)) | _ \<Rightarrow> False)"

text \<open>The attempts left for a user name in a period of the length of the lockout that starts at an instant.\<close>

definition attempts_left :: "time \<Rightarrow> string \<Rightarrow> auth_state \<Rightarrow> nat" where
  "attempts_left t name s = (case as_login_attempts s name of
     Some (n, x) \<Rightarrow> if t + login_lockout_seconds * 1000000 \<le> x then login_max_attempts - n else login_max_attempts
   | None \<Rightarrow> login_max_attempts)"

definition within_lockout :: "time \<Rightarrow> auth_env \<times> auth_op \<Rightarrow> bool" where
  "within_lockout t q \<longleftrightarrow> t \<le> now (ae_base (fst q)) \<and> now (ae_base (fst q)) < t + login_lockout_seconds * 1000000"

lemma login_meter:
  assumes "t \<le> now (ae_base e)" and "now (ae_base e) < t + login_lockout_seconds * 1000000"
  shows "wp (login e username password)
    (\<lambda>_ s'. attempts_left t name s' \<le> attempts_left t name s + login_max_attempts * of_bool (username = name))
    (\<lambda>x s'. of_bool (username = name \<and> x = http_exn 401 ''Invalid credentials'') + attempts_left t name s' \<le> attempts_left t name s) s"
  using assms
  by (auto simp: login_def check_rate_limit_def record_failed_login_def clear_login_attempts_def wp_simps attempts_left_def alive_def
      http_exn_def login_max_attempts_def split: option.splits if_splits)

interpretation lockout: metered auth_step "within_lockout t" "login_rejected name" "attempts_left t name"
  "\<lambda>q s. login_max_attempts * of_bool (login_accepted name q s)" for t name
proof
  fix q s
  assume window: "within_lockout t q"
  show "of_bool (login_rejected name q s) + attempts_left t name (auth_step q s) \<le>
      attempts_left t name s + login_max_attempts * of_bool (login_accepted name q s)"
  proof (cases "\<exists>u p. snd q = Login u p")
    case True
    then obtain u p where q: "snd q = Login u p" by blast
    have "wp (login (fst q) u p)
      (\<lambda>_ s'. attempts_left t name s' \<le> attempts_left t name s + login_max_attempts * of_bool (u = name))
      (\<lambda>x s'. of_bool (u = name \<and> x = http_exn 401 ''Invalid credentials'') + attempts_left t name s' \<le> attempts_left t name s) s"
      using window by (intro login_meter) (simp_all add: within_lockout_def)
    moreover obtain r s' where "login (fst q) u p s = (r, s')" by (rule prod.exhaust)
    ultimately show ?thesis
      using q by (cases r; cases "u = name") (auto simp: wp_def login_rejected_def login_accepted_def auth_step_def answer_def bindP_def return_def)
  next
    case False
    then have "as_login_attempts (auth_step q s) = as_login_attempts s"
      using serve_keeps_attempts [of "snd q" "fst q"] by (auto simp: keeps_def same_def auth_step_def)
    moreover have "\<not> login_rejected name q s" using False by (auto simp: login_rejected_def split: auth_op.splits)
    ultimately show ?thesis by (simp add: attempts_left_def)
  qed
qed

end
