(* ===== verification/Oauth_Grants.thy ===== *)
theory Oauth_Grants
  imports Auth_Flow
begin

text \<open>
  What a token of the OAuth provider stands for: in every state the provider can reach, an access
  token that names a user was preceded by the consent of this user, given in a session of the user
  to the client the token belongs to, for at least the scopes of the token.
\<close>

section \<open>Histories\<close>

text \<open>
  A history records what happened so far: the random values that were drawn, the codes and refresh
  tokens that requests in flight have loaded (the token endpoint of the SDK loads them, and
  then passes the object and the same client to the exchange), and the consents given.
\<close>

record oauth_history =
  oh_drawn :: "string set"
  oh_codes :: "(oauth_client \<times> auth_code) set"
  oh_refresh :: "(oauth_client \<times> refresh_token) set"
  oh_grants :: "(string \<times> string \<times> string list) set" \<comment> \<open>user, client, scopes\<close>

text \<open>
  The consent a request gives: the form is posted in the session of a user, not to deny, with the
  one-time token that belongs to the pending request.
\<close>

definition consents :: "auth_env \<Rightarrow> auth_op \<Rightarrow> auth_state \<Rightarrow> (string \<times> string \<times> string list) set" where
  "consents e q s = (case q of
     Consent_submit cookie_token auth_header pending consent_token action \<Rightarrow>
       (case (fst (jwt_user e cookie_token auth_header s), alive (now (ae_base e)) (os_pending s) pending) of
          (Inr (Some u), Some p) \<Rightarrow>
            (if alive (now (ae_base e)) (os_consent s) consent_token = Some pending \<and> action \<noteq> ''deny''
             then {(u_id u, client, pa_scopes p) | client. pa_client_id p = Some client} else {})
        | _ \<Rightarrow> {})
   | _ \<Rightarrow> {})"

definition loaded_codes :: "auth_op \<Rightarrow> exn + auth_answer \<Rightarrow> (oauth_client \<times> auth_code) set" where
  "loaded_codes q r = {(client, c) | client c k. q = Load_code client k \<and> r = Inr (Loaded_code (Some c))}"

definition loaded_refresh :: "auth_op \<Rightarrow> exn + auth_answer \<Rightarrow> (oauth_client \<times> refresh_token) set" where
  "loaded_refresh q r = {(client, t) | client t k. q = Load_refresh client k \<and> r = Inr (Loaded_refresh (Some t))}"

definition history_after :: "auth_env \<Rightarrow> auth_op \<Rightarrow> auth_state \<Rightarrow> oauth_history \<Rightarrow> oauth_history" where
  "history_after e q s h =
     \<lparr>oh_drawn = oh_drawn h \<union> {random_token e 0, random_token e 1},
      oh_codes = oh_codes h \<union> loaded_codes q (fst (serve e q s)),
      oh_refresh = oh_refresh h \<union> loaded_refresh q (fst (serve e q s)),
      oh_grants = oh_grants h \<union> consents e q s\<rparr>"

definition in_flight :: "oauth_history \<Rightarrow> auth_op \<Rightarrow> bool" where
  "in_flight h q = (case q of
     Exchange_code client c \<Rightarrow> (client, c) \<in> oh_codes h
   | Exchange_refresh client t scopes \<Rightarrow> (client, t) \<in> oh_refresh h
   | _ \<Rightarrow> True)"

text \<open>
  The reachable states: Redis starts without codes, tokens and links, requests are served one after
  the other in environments that draw new random values, and the application changes its documents.
\<close>

inductive oauth_reachable :: "auth_state \<Rightarrow> oauth_history \<Rightarrow> bool" where
  start: "os_codes s = Map.empty \<Longrightarrow> os_access s = Map.empty \<Longrightarrow> os_refresh s = Map.empty \<Longrightarrow> os_r2a s = Map.empty \<Longrightarrow>
    oauth_reachable s \<lparr>oh_drawn = {}, oh_codes = {}, oh_refresh = {}, oh_grants = {}\<rparr>"
| request: "oauth_reachable s h \<Longrightarrow> random_token e 0 \<notin> oh_drawn h \<Longrightarrow> random_token e 1 \<notin> oh_drawn h \<Longrightarrow> in_flight h q \<Longrightarrow>
    oauth_reachable (auth_step (e, q) s) (history_after e q s h)"
| app: "oauth_reachable s h \<Longrightarrow> oauth_reachable (s\<lparr>as_app := w, as_allowed_emails := allowed\<rparr>) h"

section \<open>The invariant\<close>

definition granted :: "oauth_history \<Rightarrow> string \<Rightarrow> string \<Rightarrow> string list \<Rightarrow> bool" where
  "granted h user client scopes \<longleftrightarrow> (\<exists>given. (user, client, given) \<in> oh_grants h \<and> set scopes \<subseteq> set given)"

definition code_ok :: "oauth_history \<Rightarrow> auth_code \<Rightarrow> bool" where
  "code_ok h c \<longleftrightarrow> (\<forall>u client. cd_user_id c = Some u \<longrightarrow> cd_client_id c = Some client \<longrightarrow> granted h u client (cd_scopes c))"

definition access_ok :: "oauth_history \<Rightarrow> access_token \<Rightarrow> bool" where
  "access_ok h a \<longleftrightarrow> (\<forall>u. at_user_id a = Some u \<longrightarrow> granted h u (at_client_id a) (at_scopes a))"

text \<open>The access token a refresh token leads to is of the same client and has the same scopes.\<close>

definition refresh_ok :: "auth_state \<Rightarrow> refresh_token \<Rightarrow> bool" where
  "refresh_ok s t \<longleftrightarrow> (\<forall>k x a y. os_r2a s (rt_token t) = Some (k, x) \<longrightarrow> os_access s k = Some (a, y) \<longrightarrow>
     at_client_id a = rt_client_id t \<and> at_scopes a = rt_scopes t)"

definition at_key :: "string \<Rightarrow> string" where "at_key r = ''todo_at_'' @ r"

definition rt_key :: "string \<Rightarrow> string" where "rt_key r = ''todo_rt_'' @ r"

definition held_refresh :: "auth_state \<Rightarrow> oauth_history \<Rightarrow> refresh_token set" where
  "held_refresh s h = {t. \<exists>k x. os_refresh s k = Some (t, x)} \<union> snd ` oh_refresh h"

definition grants_ok :: "auth_state \<Rightarrow> oauth_history \<Rightarrow> bool" where
  "grants_ok s h \<longleftrightarrow>
     (\<forall>k c x. os_codes s k = Some (c, x) \<longrightarrow> code_ok h c) \<and>
     (\<forall>client c. (client, c) \<in> oh_codes h \<longrightarrow> code_ok h c \<and> cd_client_id c = oc_client_id client) \<and>
     (\<forall>k a x. os_access s k = Some (a, x) \<longrightarrow> access_ok h a \<and> k \<in> at_key ` oh_drawn h) \<and>
     (\<forall>t \<in> held_refresh s h. refresh_ok s t \<and> rt_token t \<in> rt_key ` oh_drawn h) \<and>
     (\<forall>client t. (client, t) \<in> oh_refresh h \<longrightarrow> oc_client_id client = Some (rt_client_id t)) \<and>
     (\<forall>k v x. os_r2a s k = Some (v, x) \<longrightarrow> v \<in> at_key ` oh_drawn h)"

text \<open>A state with fewer codes, tokens and links, and a history that knows more.\<close>

definition shrinks :: "auth_state \<Rightarrow> auth_state \<Rightarrow> bool" where
  "shrinks s s' \<longleftrightarrow> os_codes s' \<subseteq>\<^sub>m os_codes s \<and> os_access s' \<subseteq>\<^sub>m os_access s \<and> os_refresh s' \<subseteq>\<^sub>m os_refresh s \<and> os_r2a s' \<subseteq>\<^sub>m os_r2a s"

interpretation shrinking: frame shrinks
  by unfold_locales (auto simp: shrinks_def intro: map_le_trans)

lemmas keeps_shrinking = shrinking.keeps_intros keeps_redis_frame [OF shrinking.frame_axioms]

lemma map_le_Some: "m \<subseteq>\<^sub>m n \<Longrightarrow> m k = Some v \<Longrightarrow> n k = Some v"
  unfolding map_le_def by (metis domI)

lemma map_le_del: "m(k := None) \<subseteq>\<^sub>m m"
  by (auto simp: map_le_def)

lemma granted_more: "granted h u client scopes \<Longrightarrow> oh_grants h \<subseteq> oh_grants h' \<Longrightarrow> granted h' u client scopes"
  by (auto simp: granted_def)

lemma ok_more:
  assumes "oh_grants h \<subseteq> oh_grants h'"
  shows "code_ok h c \<Longrightarrow> code_ok h' c" and "access_ok h a \<Longrightarrow> access_ok h' a"
  using assms by (auto simp: code_ok_def access_ok_def intro: granted_more)

lemma refresh_ok_shrinks: "refresh_ok s t \<Longrightarrow> shrinks s s' \<Longrightarrow> refresh_ok s' t"
  unfolding refresh_ok_def shrinks_def by (meson map_le_Some)

lemma grants_okD:
  assumes "grants_ok s h"
  shows "os_codes s k = Some (c, x) \<Longrightarrow> code_ok h c"
    and "(client, c) \<in> oh_codes h \<Longrightarrow> code_ok h c \<and> cd_client_id c = oc_client_id client"
    and "os_access s k = Some (a, x) \<Longrightarrow> access_ok h a \<and> k \<in> at_key ` oh_drawn h"
    and "t \<in> held_refresh s h \<Longrightarrow> refresh_ok s t \<and> rt_token t \<in> rt_key ` oh_drawn h"
    and "(client, t) \<in> oh_refresh h \<Longrightarrow> oc_client_id client = Some (rt_client_id t)"
    and "os_r2a s k = Some (v, x) \<Longrightarrow> v \<in> at_key ` oh_drawn h"
  using assms unfolding grants_ok_def by blast+

lemma grants_okI:
  assumes "\<And>k c x. os_codes s k = Some (c, x) \<Longrightarrow> code_ok h c"
    and "\<And>client c. (client, c) \<in> oh_codes h \<Longrightarrow> code_ok h c \<and> cd_client_id c = oc_client_id client"
    and "\<And>k a x. os_access s k = Some (a, x) \<Longrightarrow> access_ok h a \<and> k \<in> at_key ` oh_drawn h"
    and "\<And>t. t \<in> held_refresh s h \<Longrightarrow> refresh_ok s t \<and> rt_token t \<in> rt_key ` oh_drawn h"
    and "\<And>client t. (client, t) \<in> oh_refresh h \<Longrightarrow> oc_client_id client = Some (rt_client_id t)"
    and "\<And>k v x. os_r2a s k = Some (v, x) \<Longrightarrow> v \<in> at_key ` oh_drawn h"
  shows "grants_ok s h"
  using assms unfolding grants_ok_def by simp

lemma grants_ok_shrinks:
  assumes ok: "grants_ok s h" and sub: "shrinks s s'"
    and more: "oh_drawn h \<subseteq> oh_drawn h'" "oh_grants h \<subseteq> oh_grants h'"
    and codes: "\<And>client c. (client, c) \<in> oh_codes h' \<Longrightarrow> (client, c) \<in> oh_codes h \<or> (\<exists>k x. os_codes s k = Some (c, x)) \<and> cd_client_id c = oc_client_id client"
    and tokens: "\<And>client t. (client, t) \<in> oh_refresh h' \<Longrightarrow>
      (client, t) \<in> oh_refresh h \<or> (\<exists>k x. os_refresh s k = Some (t, x)) \<and> oc_client_id client = Some (rt_client_id t)"
  shows "grants_ok s' h'"
proof (rule grants_okI)
  note old = grants_okD [OF ok]
  have keys: "k \<in> at_key ` oh_drawn h \<Longrightarrow> k \<in> at_key ` oh_drawn h'" "k \<in> rt_key ` oh_drawn h \<Longrightarrow> k \<in> rt_key ` oh_drawn h'" for k
    using more(1) by blast+
  have sub': "os_codes s' k = Some c \<Longrightarrow> os_codes s k = Some c" "os_access s' k = Some a \<Longrightarrow> os_access s k = Some a"
    "os_refresh s' k = Some r \<Longrightarrow> os_refresh s k = Some r" "os_r2a s' k = Some v \<Longrightarrow> os_r2a s k = Some v" for k c a r v
    using sub unfolding shrinks_def by (blast intro: map_le_Some)+
  have "t \<in> held_refresh s h" if new: "t \<in> held_refresh s' h'" for t
  proof (cases "\<exists>k x. os_refresh s' k = Some (t, x)")
    case True
    then show ?thesis using sub'(3) unfolding held_refresh_def by blast
  next
    case False
    then obtain client where "(client, t) \<in> oh_refresh h'" using new by (auto simp: held_refresh_def)
    from tokens [OF this] show ?thesis unfolding held_refresh_def by (auto intro: image_eqI [of _ snd "(client, t)"])
  qed
  then have held: "held_refresh s' h' \<subseteq> held_refresh s h" by blast
  show "code_ok h' c" if "os_codes s' k = Some (c, x)" for k c x
    using ok_more(1) [OF more(2) old(1) [OF sub'(1) [OF that]]] .
  show "access_ok h' a \<and> k \<in> at_key ` oh_drawn h'" if "os_access s' k = Some (a, x)" for k a x
    using ok_more(2) [OF more(2)] keys(1) old(3) [OF sub'(2) [OF that]] by simp
  show "v \<in> at_key ` oh_drawn h'" if "os_r2a s' k = Some (v, x)" for k v x
    using keys(1) [OF old(6) [OF sub'(4) [OF that]]] .
  show "code_ok h' c \<and> cd_client_id c = oc_client_id client" if "(client, c) \<in> oh_codes h'" for client c
    using codes [OF that] old(1,2) ok_more(1) [OF more(2)] by blast
  show "oc_client_id client = Some (rt_client_id t)" if "(client, t) \<in> oh_refresh h'" for client t
    using tokens [OF that] old(5) by blast
  show "refresh_ok s' t \<and> rt_token t \<in> rt_key ` oh_drawn h'" if "t \<in> held_refresh s' h'" for t
    using old(4) [OF subsetD [OF held that]] keys(2) refresh_ok_shrinks [OF _ sub] by blast
qed

section \<open>The operations\<close>

text \<open>The state with a pair of tokens and their links stored.\<close>

definition key_expiry :: "auth_env \<Rightarrow> time option \<Rightarrow> time" where
  "key_expiry e x = now (ae_base e) + (case ttl_from_expires e x of Some n \<Rightarrow> if 0 < n then n else fallback_ttl | None \<Rightarrow> fallback_ttl) * 1000000"

definition with_tokens :: "auth_env \<Rightarrow> access_token \<Rightarrow> refresh_token \<Rightarrow> auth_state \<Rightarrow> auth_state" where
  "with_tokens e a t s =
     os_r2a_update (\<lambda>m. m(rt_token t \<mapsto> (at_token a, key_expiry e (at_expires_at a))))
      (os_a2r_update (\<lambda>m. m(at_token a \<mapsto> (rt_token t, key_expiry e (rt_expires_at t))))
      (os_refresh_update (\<lambda>m. m(rt_token t \<mapsto> (t, key_expiry e (rt_expires_at t))))
      (os_access_update (\<lambda>m. m(at_token a \<mapsto> (a, key_expiry e (at_expires_at a)))) s)))"

lemma wp_store_tokens:
  "wp (store_tokens e a t) Q E s =
   (if redis_up (ae_base e) then Q \<lparr>ot_access_token = at_token a, ot_refresh_token = rt_token t, ot_expires_in = default_access_token_expiry,
        ot_scope = truthy (Some (join_with '' '' (at_scopes a)))\<rparr> (with_tokens e a t s)
    else E RedisError s)"
  by (simp add: store_tokens_def redis_set_ttl_def wp_simps with_tokens_def key_expiry_def Let_def)

lemma grants_ok_store:
  assumes ok: "grants_ok s h" and a: "at_token a = at_key d" "d \<notin> oh_drawn h" "access_ok h a"
    and t: "rt_token t = rt_key d'" "d' \<notin> oh_drawn h" "at_client_id a = rt_client_id t" "at_scopes a = rt_scopes t"
  shows "grants_ok (with_tokens e a t s) (h\<lparr>oh_drawn := oh_drawn h \<union> {d, d'}\<rparr>)" (is "grants_ok ?s ?h")
proof (rule grants_okI)
  note old = grants_okD [OF ok]
  have more: "oh_grants h \<subseteq> oh_grants ?h" by simp
  have at_new: "at_token a \<notin> at_key ` oh_drawn h" using a by (auto simp: at_key_def)
  have rt_new: "rt_token t \<notin> rt_key ` oh_drawn h" using t by (auto simp: rt_key_def)
  show "code_ok ?h c" if "os_codes ?s k = Some (c, z)" for k c z
    using ok_more(1) [OF more] old(1) that by (simp add: with_tokens_def)
  show "code_ok ?h c \<and> cd_client_id c = oc_client_id client" if "(client, c) \<in> oh_codes ?h" for client c
    using ok_more(1) [OF more] old(2) that by simp
  show "oc_client_id client = Some (rt_client_id r)" if "(client, r) \<in> oh_refresh ?h" for client r using old(5) that by simp
  show "access_ok ?h b \<and> k \<in> at_key ` oh_drawn ?h" if "os_access ?s k = Some (b, z)" for k b z
    using that ok_more(2) [OF more] old(3) [of k b z] a by (auto simp: with_tokens_def split: if_splits)
  show "v \<in> at_key ` oh_drawn ?h" if "os_r2a ?s k = Some (v, z)" for k v z
    using that old(6) [of k v z] a by (auto simp: with_tokens_def split: if_splits)
  show "refresh_ok ?s r \<and> rt_token r \<in> rt_key ` oh_drawn ?h" if "r \<in> held_refresh ?s ?h" for r
  proof (cases "r = t")
    case True
    then show ?thesis using t by (auto simp: refresh_ok_def with_tokens_def)
  next
    case False
    then have held: "r \<in> held_refresh s h" using that by (auto simp: held_refresh_def with_tokens_def split: if_splits)
    then have "rt_token r \<noteq> rt_token t" using old(4) [OF held] rt_new by metis
    moreover have "v \<noteq> at_token a" if "os_r2a s (rt_token r) = Some (v, z)" for v z using old(6) [OF that] at_new by metis
    ultimately show ?thesis using old(4) [OF held] by (fastforce simp: refresh_ok_def with_tokens_def)
  qed
qed

lemma shrinks_simps:
  "shrinks s (os_codes_update (\<lambda>m. m(k := None)) s)" "shrinks s (os_access_update (\<lambda>m. m(k := None)) s)"
  "shrinks s (os_refresh_update (\<lambda>m. m(k := None)) s)" "shrinks s (os_r2a_update (\<lambda>m. m(k := None)) s)"
  "shrinks s (os_a2r_update f s)" "shrinks s (os_consent_update f' s)" "shrinks s (os_pending_update f'' s)" "shrinks s (as_app_update g s)"
  by (simp_all add: shrinks_def map_le_del)

lemma keeps_shrinks_same:
  assumes "keeps (same os_codes) m" and "keeps (same os_access) m" and "keeps (same os_refresh) m" and "keeps (same os_r2a) m"
  shows "keeps shrinks m"
  using assms by (simp add: keeps_def same_def shrinks_def)

lemma keeps_shrinks_revoke: "keeps shrinks (revoke_access e k)" "keeps shrinks (revoke_refresh e k)"
  unfolding revoke_access_def revoke_refresh_def by (intro keeps_shrinking; simp add: shrinks_simps)+

lemma serve_shrinks:
  assumes "\<forall>ct h p tok a. q \<noteq> Consent_submit ct h p tok a" and "\<forall>cl c. q \<noteq> Exchange_code cl c" and "\<forall>cl t sc. q \<noteq> Exchange_refresh cl t sc"
  shows "keeps shrinks (serve e q)"
proof -
  have "keeps shrinks (load_authorization_code e cl k)" for cl k
    unfolding load_authorization_code_def by (intro keeps_shrinking; simp add: shrinks_simps)
  moreover have "keeps shrinks (load_access_token e k)" for k
    unfolding load_access_token_def by (intro keeps_shrinking keeps_shrinks_revoke)
  moreover have "keeps shrinks (load_refresh_token e cl k)" for cl k
    unfolding load_refresh_token_def by (intro keeps_shrinking keeps_shrinks_revoke)
  moreover have "keeps shrinks (revoke_token e t)" for t
    unfolding revoke_token_def by (cases t) (simp_all add: keeps_shrinks_revoke)
  moreover have "keeps shrinks (register_client e i)" for i
    by (intro keeps_shrinks_same keeps_register) (simp_all add: apart_def)
  ultimately show ?thesis
    using assms by (cases q) (simp_all add: keeps_shrinking keeps_shrinks_same keeps_op apart_def)
qed

text \<open>What an exchange may do: drop something, and then store a new pair of tokens that is granted.\<close>

definition exchanged :: "auth_env \<Rightarrow> oauth_history \<Rightarrow> auth_state \<Rightarrow> auth_state \<Rightarrow> bool" where
  "exchanged e h s s' \<longleftrightarrow> shrinks s s' \<or> (\<exists>s1 a t. shrinks s s1 \<and> s' = with_tokens e a t s1 \<and> access_ok h a \<and>
     at_token a = at_key (random_token e 0) \<and> rt_token t = rt_key (random_token e 1) \<and>
     at_client_id a = rt_client_id t \<and> at_scopes a = rt_scopes t)"

lemma exchanged_store:
  assumes "shrinks s s1" and "\<And>u. truthy user = Some u \<Longrightarrow> granted h u client scopes"
  shows "exchanged e h s (with_tokens e (new_access e client scopes user) (new_refresh e client scopes) s1)"
proof -
  let ?a = "new_access e client scopes user" and ?t = "new_refresh e client scopes"
  have "access_ok h ?a" using assms(2) by (simp add: access_ok_def new_access_def)
  moreover have "at_token ?a = at_key (random_token e 0)" "rt_token ?t = rt_key (random_token e 1)"
    "at_client_id ?a = rt_client_id ?t" "at_scopes ?a = rt_scopes ?t"
    by (simp_all add: new_access_def new_refresh_def at_key_def rt_key_def)
  ultimately show ?thesis using assms(1) unfolding exchanged_def by blast
qed

lemma exchange_code_grants:
  assumes "grants_ok s h" and "(client, c) \<in> oh_codes h"
  shows "wp (exchange_authorization_code e client c) (\<lambda>_. exchanged e h s) (\<lambda>_. exchanged e h s) s"
proof -
  have c: "code_ok h c" "cd_client_id c = oc_client_id client" using grants_okD(2) [OF assms] by simp_all
  have "exchanged e h s (with_tokens e (new_access e cid (cd_scopes c) (cd_user_id c)) (new_refresh e cid (cd_scopes c))
      (os_codes_update (\<lambda>m. m(cd_code c := None)) s))" if "oc_client_id client = Some cid" for cid
    using c that by (intro exchanged_store shrinks_simps) (auto simp: code_ok_def truthy_def split: option.splits list.splits)
  moreover have "exchanged e h s s" "exchanged e h s (os_codes_update (\<lambda>m. m(cd_code c := None)) s)"
    by (simp_all add: exchanged_def shrinking.refl shrinks_simps)
  ultimately show ?thesis
    by (auto simp: exchange_authorization_code_def client_required_def wp_simps wp_store_tokens split: option.split)
qed

lemma refresh_user_granted:
  assumes "grants_ok s h" and "(client, t) \<in> oh_refresh h" and "set scopes \<subseteq> set (rt_scopes t)" and "oc_client_id client = Some cid"
  shows "wp (refresh_user e (rt_token t)) (\<lambda>user s'. s' = s \<and> (\<forall>u. truthy user = Some u \<longrightarrow> granted h u cid scopes)) (\<lambda>_ s'. s' = s) s"
proof -
  note ok = grants_okD [OF assms(1)]
  have "t \<in> held_refresh s h" using assms(2) by (force simp: held_refresh_def)
  then have t: "refresh_ok s t" "rt_client_id t = cid" using ok(4,5) assms(2,4) by auto
  have "granted h u cid scopes"
    if link: "os_r2a s (rt_token t) = Some (k, x)" and a: "os_access s k = Some (a, y)" and u: "at_user_id a = Some u" for k x a y u
  proof -
    have "at_client_id a = cid" "at_scopes a = rt_scopes t" using t link a by (auto simp: refresh_ok_def)
    moreover have "granted h u (at_client_id a) (at_scopes a)" using ok(3) [OF a] u by (auto simp: access_ok_def)
    ultimately show ?thesis using assms(3) by (auto simp: granted_def)
  qed
  then show ?thesis
    by (auto simp: refresh_user_def wp_simps truthy_def alive_def split: option.splits list.splits if_splits)
qed

lemma exchange_refresh_grants:
  assumes "grants_ok s h" and "(client, t) \<in> oh_refresh h"
  shows "wp (exchange_refresh_token e client t scopes) (\<lambda>_. exchanged e h s) (\<lambda>_. exchanged e h s) s"
proof -
  obtain cid where cid: "oc_client_id client = Some cid" using grants_okD(5) [OF assms] by simp
  have less: "exchanged e h s s'" if "shrinks s s'" for s' using that by (simp add: exchanged_def)
  have rest: "wp (bindP (revoke_refresh e (rt_token t)) (\<lambda>_.
      bindP (case truthy user of None \<Rightarrow> return () | Some uid \<Rightarrow>
        bindP (in_app (user_get (ae_base e) uid)) (\<lambda>u. guard (active_user u \<noteq> None) (OAuthError ''invalid_grant'' ''User is disabled''))) (\<lambda>_.
      bindP (some_or (oc_client_id client) client_required) (\<lambda>cid.
      store_tokens e (new_access e cid scopes user) (new_refresh e cid scopes))))) (\<lambda>_. exchanged e h s) (\<lambda>_. exchanged e h s) s"
    if granted: "\<And>u. truthy user = Some u \<Longrightarrow> granted h u cid scopes" for user
  proof (subst wp_bindP, rule wp_keeps [OF keeps_shrinks_revoke(2)])
    have store: "exchanged e h s (with_tokens e (new_access e cid scopes user) (new_refresh e cid scopes) s2)" if "shrinks s s2" for s2
      using that granted by (rule exchanged_store)
    fix s1 assume "shrinks s s1"
    moreover have "shrinks s (s1\<lparr>as_app := w\<rparr>)" for w using \<open>shrinks s s1\<close> by (simp add: shrinks_def)
    ultimately show "wp (bindP (case truthy user of None \<Rightarrow> return () | Some uid \<Rightarrow>
        bindP (in_app (user_get (ae_base e) uid)) (\<lambda>u. guard (active_user u \<noteq> None) (OAuthError ''invalid_grant'' ''User is disabled''))) (\<lambda>_.
      bindP (some_or (oc_client_id client) client_required) (\<lambda>cid.
      store_tokens e (new_access e cid scopes user) (new_refresh e cid scopes)))) (\<lambda>_. exchanged e h s) (\<lambda>_. exchanged e h s) s1"
      using store less by (auto simp: wp_simps wp_store_tokens cid split: option.splits)
  qed (rule less)
  show ?thesis
  proof (cases "set scopes \<subseteq> set (rt_scopes t)")
    case True
    show ?thesis
      unfolding exchange_refresh_token_def
      by (simp only: True wp_bindP wp_guard if_True, rule wp_mono [OF refresh_user_granted [OF assms True cid]])
        (use rest less in \<open>auto simp: wp_bindP [symmetric] shrinking.refl\<close>)
  next
    case False
    then show ?thesis by (simp add: exchange_refresh_token_def wp_simps less shrinking.refl)
  qed
qed

text \<open>What a consent form may do: drop something, and then store a code that the request grants.\<close>

definition consented :: "auth_env \<Rightarrow> auth_op \<Rightarrow> auth_state \<Rightarrow> auth_state \<Rightarrow> bool" where
  "consented e q s s' \<longleftrightarrow> shrinks s s' \<or> (\<exists>s1 k c x u client. shrinks s s1 \<and> s' = os_codes_update (\<lambda>m. m(k \<mapsto> (c, x))) s1 \<and>
     cd_user_id c = Some u \<and> cd_client_id c = Some client \<and> (u, client, cd_scopes c) \<in> consents e q s)"

lemma decide_grants:
  assumes "shrinks s s1" and "\<And>client. pa_client_id p = Some client \<Longrightarrow> a \<noteq> ''deny'' \<Longrightarrow> (u_id u, client, pa_scopes p) \<in> consents e q s"
  shows "wp (consent_decide e u p a) (\<lambda>_. consented e q s) (\<lambda>_. consented e q s) s1"
proof -
  have less: "consented e q s s1" using assms(1) by (simp add: consented_def)
  have "consented e q s (os_codes_update (\<lambda>m. m(k \<mapsto> (consent_code e p uri (u_id u), x))) s1)"
    if "pa_client_id p = Some client" "a \<noteq> ''deny''" for k x uri client
  proof -
    have "cd_user_id (consent_code e p uri (u_id u)) = Some (u_id u)" "cd_client_id (consent_code e p uri (u_id u)) = Some client"
      "cd_scopes (consent_code e p uri (u_id u)) = pa_scopes p" using that by (simp_all add: consent_code_def)
    with assms that show ?thesis unfolding consented_def by metis
  qed
  with less show ?thesis
    by (auto simp: consent_decide_def store_authorization_code_def redis_set_ttl_def wp_simps Let_def split: option.split)
qed

lemma consent_grants:
  "wp (consent_submit e ct hdr p tok a) (\<lambda>_. consented e (Consent_submit ct hdr p tok a) s)
     (\<lambda>_. consented e (Consent_submit ct hdr p tok a) s) s"
proof -
  let ?q = "Consent_submit ct hdr p tok a"
  let ?sel = "\<lambda>s. (os_codes s, os_access s, os_refresh s, os_r2a s, os_pending s, os_consent s)"
  have run: "?sel (snd (jwt_user e ct hdr s)) = ?sel s"
    using keeps_jwt_user [of ?sel e ct hdr] by (simp add: apart_def keeps_def same_def)
  have quiet: "shrinks s s1" if "?sel s1 = ?sel s" for s1 using that by (simp add: shrinks_def)
  have less: "consented e ?q s s1" if "shrinks s s1" for s1 using that by (simp add: consented_def)
  show ?thesis
    unfolding consent_submit_def
  proof (subst wp_bindP, rule wpI)
    fix x s1 assume user: "jwt_user e ct hdr s = (Inr x, s1)"
    then have s1: "?sel s1 = ?sel s" using run by simp
    have shrunk: "shrinks s s1" "shrinks s (os_consent_update f s1)" "shrinks s (os_pending_update g (os_consent_update f s1))" for f g
      using s1 by (simp_all add: quiet) (simp_all add: shrinks_def)
    have "(u_id u, client, pa_scopes pa) \<in> consents e ?q s"
      if "x = Some u" "alive (now (ae_base e)) (os_consent s) tok = Some p" "alive (now (ae_base e)) (os_pending s) p = Some pa"
        "pa_client_id pa = Some client" "a \<noteq> ''deny''" for u pa client
      using that user by (simp add: consents_def)
    then show "wp (case x of None \<Rightarrow> return (Consent_error 401) | Some u \<Rightarrow>
        bindP (redis_getdel e os_consent os_consent_update tok) (\<lambda>stored_pending.
        if truthy stored_pending \<noteq> Some p then return (Consent_error 400)
        else bindP (redis_getdel e os_pending os_pending_update p) (\<lambda>raw.
          case raw of None \<Rightarrow> return (Consent_error 400) | Some params \<Rightarrow> consent_decide e u params a)))
        (\<lambda>_. consented e ?q s) (\<lambda>_. consented e ?q s) s1"
      using s1 shrunk less by (auto simp: wp_simps truthy_def intro!: decide_grants split: option.splits list.splits)
  next
    fix x s1 assume "jwt_user e ct hdr s = (Inl x, s1)"
    then show "consented e ?q s s1" using run quiet less by simp
  qed
qed

section \<open>The theorem\<close>

lemma history_after_facts:
  "oh_drawn h \<subseteq> oh_drawn (history_after e q s h)" "oh_grants h \<subseteq> oh_grants (history_after e q s h)"
  by (auto simp: history_after_def)

lemma load_facts:
  "fst (load_authorization_code e client k s) = Inr (Some c) \<Longrightarrow> (\<exists>x. os_codes s k = Some (c, x)) \<and> cd_client_id c = oc_client_id client"
  "fst (load_refresh_token e client k s) = Inr (Some t) \<Longrightarrow> (\<exists>x. os_refresh s k = Some (t, x)) \<and> oc_client_id client = Some (rt_client_id t)"
proof -
  have "wp (load_authorization_code e client k) (\<lambda>r _. \<forall>c. r = Some c \<longrightarrow> (\<exists>x. os_codes s k = Some (c, x)) \<and> cd_client_id c = oc_client_id client) (\<lambda>_ _. True) s"
    by (auto simp: load_authorization_code_def wp_simps dest: alive_Some split: option.split)
  then show "fst (load_authorization_code e client k s) = Inr (Some c) \<Longrightarrow> (\<exists>x. os_codes s k = Some (c, x)) \<and> cd_client_id c = oc_client_id client"
    by (auto simp: wp_def split: prod.splits)
  have "wp (load_refresh_token e client k) (\<lambda>r _. \<forall>t. r = Some t \<longrightarrow> (\<exists>x. os_refresh s k = Some (t, x)) \<and> oc_client_id client = Some (rt_client_id t)) (\<lambda>_ _. True) s"
    by (auto simp: load_refresh_token_def wp_simps wp_return_fn wp_True dest: alive_Some split: option.split)
  then show "fst (load_refresh_token e client k s) = Inr (Some t) \<Longrightarrow> (\<exists>x. os_refresh s k = Some (t, x)) \<and> oc_client_id client = Some (rt_client_id t)"
    by (auto simp: wp_def split: prod.splits)
qed

lemma step_shrinks:
  assumes "grants_ok s h" and "shrinks s (auth_step (e, q) s)"
  shows "grants_ok (auth_step (e, q) s) (history_after e q s h)"
proof (rule grants_ok_shrinks [OF assms history_after_facts])
  show "(client, c) \<in> oh_codes h \<or> (\<exists>k x. os_codes s k = Some (c, x)) \<and> cd_client_id c = oc_client_id client"
    if new: "(client, c) \<in> oh_codes (history_after e q s h)" for client c
  proof (cases "(client, c) \<in> oh_codes h")
    case False
    then obtain k where "q = Load_code client k" "fst (serve e q s) = Inr (Loaded_code (Some c))"
      using new by (auto simp: history_after_def loaded_codes_def)
    then have "fst (load_authorization_code e client k s) = Inr (Some c)"
      by (auto simp: answer_def bindP_def return_def split: prod.splits sum.splits)
    from load_facts(1) [OF this] show ?thesis by blast
  qed simp
  show "(client, t) \<in> oh_refresh h \<or> (\<exists>k x. os_refresh s k = Some (t, x)) \<and> oc_client_id client = Some (rt_client_id t)"
    if new: "(client, t) \<in> oh_refresh (history_after e q s h)" for client t
  proof (cases "(client, t) \<in> oh_refresh h")
    case False
    then obtain k where "q = Load_refresh client k" "fst (serve e q s) = Inr (Loaded_refresh (Some t))"
      using new by (auto simp: history_after_def loaded_refresh_def)
    then have "fst (load_refresh_token e client k s) = Inr (Some t)"
      by (auto simp: answer_def bindP_def return_def split: prod.splits sum.splits)
    from load_facts(2) [OF this] show ?thesis by blast
  qed simp
qed

text \<open>A step that stores tokens or a code loads nothing.\<close>

lemma step_exchanged:
  assumes ok: "grants_ok s h" and post: "exchanged e h s (auth_step (e, q) s)"
    and new: "random_token e 0 \<notin> oh_drawn h" "random_token e 1 \<notin> oh_drawn h"
    and q: "\<forall>client k. q \<noteq> Load_code client k" "\<forall>client k. q \<noteq> Load_refresh client k" "consents e q s = {}"
  shows "grants_ok (auth_step (e, q) s) (history_after e q s h)"
proof (cases "shrinks s (auth_step (e, q) s)")
  case True
  with ok show ?thesis by (rule step_shrinks)
next
  case False
  then obtain s1 a t where s1: "shrinks s s1" and s': "auth_step (e, q) s = with_tokens e a t s1" and a: "access_ok h a"
    and keys: "at_token a = at_key (random_token e 0)" "rt_token t = rt_key (random_token e 1)"
    and same: "at_client_id a = rt_client_id t" "at_scopes a = rt_scopes t"
    using post unfolding exchanged_def by blast
  have "grants_ok s1 h" by (rule grants_ok_shrinks [OF ok s1]) simp_all
  from grants_ok_store [OF this keys(1) new(1) a keys(2) new(2) same]
  have "grants_ok (auth_step (e, q) s) (h\<lparr>oh_drawn := oh_drawn h \<union> {random_token e 0, random_token e 1}\<rparr>)" unfolding s' .
  moreover have "h\<lparr>oh_drawn := oh_drawn h \<union> {random_token e 0, random_token e 1}\<rparr> = history_after e q s h"
    using q by (simp add: history_after_def loaded_codes_def loaded_refresh_def)
  ultimately show ?thesis by simp
qed

lemma step_consented:
  assumes ok: "grants_ok s h" and post: "consented e q s (auth_step (e, q) s)"
    and q: "\<forall>client k. q \<noteq> Load_code client k" "\<forall>client k. q \<noteq> Load_refresh client k"
  shows "grants_ok (auth_step (e, q) s) (history_after e q s h)"
proof (cases "shrinks s (auth_step (e, q) s)")
  case True
  with ok show ?thesis by (rule step_shrinks)
next
  case False
  then obtain s1 k c x u client where s1: "shrinks s s1" and s': "auth_step (e, q) s = os_codes_update (\<lambda>m. m(k \<mapsto> (c, x))) s1"
    and c: "cd_user_id c = Some u" "cd_client_id c = Some client" "(u, client, cd_scopes c) \<in> consents e q s"
    using post unfolding consented_def by blast
  let ?h = "history_after e q s h"
  have "grants_ok s1 ?h"
    by (rule grants_ok_shrinks [OF ok s1 history_after_facts]) (use q in \<open>simp_all add: history_after_def loaded_codes_def loaded_refresh_def\<close>)
  note old = grants_okD [OF this]
  have "code_ok ?h c" using c by (auto simp: code_ok_def granted_def history_after_def)
  moreover have "held_refresh (auth_step (e, q) s) ?h = held_refresh s1 ?h" "refresh_ok (auth_step (e, q) s) = refresh_ok s1"
    by (simp_all add: s' held_refresh_def refresh_ok_def fun_eq_iff)
  moreover have "os_codes (auth_step (e, q) s) = (os_codes s1)(k \<mapsto> (c, x))" "os_access (auth_step (e, q) s) = os_access s1"
    "os_r2a (auth_step (e, q) s) = os_r2a s1" by (simp_all add: s')
  ultimately show ?thesis
    using \<open>grants_ok s1 ?h\<close> unfolding grants_ok_def by simp
qed

lemma snd_answer: "snd (answer f m s) = snd (m s)"
  by (simp add: answer_def bindP_def return_def split: prod.split sum.split)

lemma oauth_reachable_ok: "oauth_reachable s h \<Longrightarrow> grants_ok s h"
proof (induction rule: oauth_reachable.induct)
  case (start s)
  then show ?case by (simp add: grants_ok_def held_refresh_def)
next
  case (app s h w allowed)
  show ?case by (rule grants_ok_shrinks [OF app.IH]) (simp_all add: shrinks_def)
next
  case (request s h e q)
  note ok = request.IH and flight = request.hyps(4)
  show ?case
  proof (cases "(\<exists>ct hdr p tok a. q = Consent_submit ct hdr p tok a) \<or> (\<exists>cl c. q = Exchange_code cl c) \<or> (\<exists>cl t sc. q = Exchange_refresh cl t sc)")
    case False
    then have "keeps shrinks (serve e q)" by (intro serve_shrinks) auto
    then have "shrinks s (auth_step (e, q) s)" by (simp add: keeps_def auth_step_def)
    with ok show ?thesis by (rule step_shrinks)
  next
    case True
    then consider (consent) ct hdr p tok a where "q = Consent_submit ct hdr p tok a" | (exchange) "exchanged e h s (auth_step (e, q) s)"
        "\<forall>client k. q \<noteq> Load_code client k" "\<forall>client k. q \<noteq> Load_refresh client k" "consents e q s = {}"
      using exchange_code_grants [OF ok] exchange_refresh_grants [OF ok] flight
      by (auto simp: in_flight_def consents_def auth_step_def wp_snd snd_answer)
    then show ?thesis
    proof cases
      case consent
      have "consented e q s (auth_step (e, q) s)"
        using consent_grants [of e ct hdr p tok a s] consent
        by (simp add: auth_step_def wp_snd snd_answer)
      then show ?thesis using ok consent by (intro step_consented) simp_all
    next
      case exchange
      then show ?thesis using ok request.hyps(2,3) by (intro step_exchanged)
    qed
  qed
qed

text \<open>
  C17. A token stands for a consent: in every reachable state, whatever requests were served and
  whichever of them are still in flight, an access token the provider accepts and that names a
  user was preceded by a consent that this user gave, in a session of the user, to the client
  the token belongs to, and the consent covers the scopes of the token.
\<close>

theorem access_token_has_consent:
  assumes "oauth_reachable s h" and "load_access_token e k s = (Inr (Some a), s')" and "at_user_id a = Some u"
  shows "\<exists>given. (u, at_client_id a, given) \<in> oh_grants h \<and> set (at_scopes a) \<subseteq> set given"
proof -
  have "wp (load_access_token e k) (\<lambda>r _. \<forall>a. r = Some a \<longrightarrow> (\<exists>x. os_access s k = Some (a, x))) (\<lambda>_ _. True) s"
    by (auto simp: load_access_token_def wp_simps wp_return_fn wp_True dest: alive_Some split: option.split)
  from wp_value [OF this assms(2)] obtain x where "os_access s k = Some (a, x)" by blast
  from grants_okD(3) [OF oauth_reachable_ok [OF assms(1)] this] assms(3) show ?thesis
    by (simp add: access_ok_def granted_def)
qed

end
