(* ===== verification/Auth_Behaviour.thy ===== *)
theory Auth_Behaviour
  imports Oauth_Grants "HOL-Library.Countable"
begin

text \<open>
  The properties of the login endpoints and of the OAuth provider that the frames and contracts of
  the previous theories give, and concrete runs.
\<close>

section \<open>Values that serve once\<close>

text \<open>
  C18. Codes, pending requests and refresh tokens of a session serve once: in any sequence of
  requests a code is exchanged, a pending authorization request is decided, and a refresh token
  of a session is accepted at most as often as the value was stored at the start or drawn by one
  of the requests; so at most once when random values do not repeat, however the requests of
  different clients alternate.
\<close>

theorem one_time_values:
  "count_uses auth_step (code_exchanged k) qs s \<le>
     of_bool (k \<in> dom (os_codes s)) + length (filter (\<lambda>q. ''todo_auth_'' @ random_token (fst q) 0 = k) qs) \<and>
   count_uses auth_step (request_decided k) qs s \<le>
     of_bool (k \<in> dom (os_pending s)) + length (filter (\<lambda>q. random_token (fst q) 0 = k) qs) \<and>
   count_uses auth_step (refresh_accepted k) qs s \<le>
     of_bool (k \<in> dom (as_refresh_jti s)) + length (filter (\<lambda>q. uuid4_hex (fst q) = k) qs)"
  by (intro conjI codes.uses_bounded consent.uses_bounded session.uses_bounded)

section \<open>Lockout\<close>

lemma tally_scaled: "tally step (\<lambda>q s. n * of_bool (P q s)) qs s = n * count_uses step P qs s"
  unfolding count_uses_def by (induction qs arbitrary: s) (simp_all add: distrib_left)

text \<open>
  C19. The lockout bounds guessing: among requests served one after the other within five minutes,
  at most twenty passwords are rejected for a user name, and twenty more for each login with this
  name that succeeds in between.
\<close>

theorem lockout_bounds_guessing:
  assumes "list_all (within_lockout t) qs"
  shows "count_uses auth_step (login_rejected name) qs s \<le>
    login_max_attempts * (1 + count_uses auth_step (login_accepted name) qs s)"
proof -
  have "attempts_left t name s \<le> login_max_attempts" by (simp add: attempts_left_def split: option.split)
  then show ?thesis using lockout.uses_within_budget [OF assms, of name s] by (simp add: tally_scaled)
qed

section \<open>Sessions\<close>

text \<open>
  The payloads the code signs: a subject and a kind as text, an expiry in seconds, and for a refresh
  token its identifier as text. They have none of the claims with which PyJWT refuses a token
  before it expires (\<open>nbf\<close>, \<open>iat\<close>, \<open>aud\<close>, or a subject or identifier that is no text).
\<close>

definition issued_claims :: "jdict \<Rightarrow> bool" where
  "issued_claims payload \<longleftrightarrow> (\<exists>subject x kind.
     payload = [(''sub'', JStr subject), (''exp'', JInt x), (''type'', JStr kind)] \<or>
     (\<exists>jti. payload = [(''sub'', JStr subject), (''exp'', JInt x), (''type'', JStr kind), (''jti'', JStr jti)]))"

text \<open>
  What PyJWT promises of such payloads to two requests of a deployment: a token decodes with the
  key that signed it until it expires, and no token decodes to anything but what was signed.
\<close>

definition jwt_sound :: "auth_env \<Rightarrow> auth_env \<Rightarrow> bool" where
  "jwt_sound e e' \<longleftrightarrow> secret_key e' = secret_key e \<and>
     (\<forall>key payload. issued_claims payload \<longrightarrow> jwt_encode e key payload \<noteq> [] \<and>
        (\<forall>key' t. jwt_decode e' key' t (jwt_encode e key payload) \<in> {None, Some payload}) \<and>
        (\<forall>x t. map_of payload ''exp'' = Some (JInt x) \<and> t < x * 1000000 \<longrightarrow> jwt_decode e' key t (jwt_encode e key payload) = Some payload))"

text \<open>A request with a token in the \<open>Authorization\<close> header.\<close>

definition bearer :: "string \<Rightarrow> credentials" where
  "bearer token = \<lparr>cr_bearer = Some token, cr_cookie = None, cr_api_key = None\<rparr>"

lemma find_in: "List.find P xs = Some x \<Longrightarrow> x \<in> set xs \<and> P x"
  by (auto simp: find_Some_iff)

lemma login_user:
  "wp (login e name password) (\<lambda>r s'. \<exists>u. u \<in> set (w_users (as_app s)) \<and> u_email u = name \<and> u_is_active u \<and>
     sr_access_token r = create_access_token e (u_id u) \<and> sr_refresh_token r = fst (create_refresh_token e (u_id u))) (\<lambda>_ _. True) s"
  by (auto simp: login_def check_rate_limit_def record_failed_login_def clear_login_attempts_def wp_simps dest!: find_in split: option.split)

lemma decode_own_token:
  assumes "jwt_sound e e'" and "now (ae_base e') < (now (ae_base e) + access_token_expire_minutes * 60 * 1000000) div 1000000 * 1000000"
  shows "\<exists>payload. decode_access_token e' (create_access_token e u) = Some payload \<and> map_of payload ''sub'' = Some (JStr u)"
    and "decode_access_token e' (fst (create_refresh_token e u)) = None"
proof -
  show "\<exists>payload. decode_access_token e' (create_access_token e u) = Some payload \<and> map_of payload ''sub'' = Some (JStr u)"
    using assms
    by (simp add: jwt_sound_def issued_claims_def decode_access_token_def decode_token_def create_access_token_def exp_claim_def dict_get_def)
  let ?p = "[(''sub'', JStr u), (''exp'', exp_claim (now (ae_base e) + refresh_token_expire_days * 86400 * 1000000)),
    (''type'', JStr ''refresh''), (''jti'', JStr (uuid4_hex e))]"
  have "jwt_decode e' (secret_key e') (now (ae_base e')) (jwt_encode e (refresh_secret_key e) ?p) \<in> {None, Some ?p}"
    using assms(1) unfolding jwt_sound_def issued_claims_def exp_claim_def by blast
  then show "decode_access_token e' (fst (create_refresh_token e u)) = None"
    by (auto simp: decode_access_token_def decode_token_def create_refresh_token_def Let_def dict_get_def)
qed

text \<open>
  C20. A session is the session of its user: after a login the access token authenticates a later
  request as an active user with the given name, and the refresh token of the session is refused
  as an access token. The later request comes before the access token expires, the stored users
  are those of the login (so the user is still active) with different and valid identifiers, and
  PyJWT keeps its promise for the two payloads of the session.
\<close>

theorem session_authenticates:
  assumes "login e name password s = (Inr r, s1)" and "jwt_sound e e'"
    and "now (ae_base e') < (now (ae_base e) + access_token_expire_minutes * 60 * 1000000) div 1000000 * 1000000"
    and "w_users (as_app s2) = w_users (as_app s)" and "keys_distinct u_id (w_users (as_app s))"
    and "\<forall>u \<in> set (w_users (as_app s)). oid_valid (ae_base e') (u_id u) \<and> oid_canon (ae_base e') (u_id u) = u_id u"
  shows "(\<exists>u. u_email u = name \<and> u_is_active u \<and> get_current_user e' (bearer (sr_access_token r)) s2 = (Inr u, s2)) \<and>
    get_current_user e' (bearer (sr_refresh_token r)) s2 = (Inl (http_exn 401 ''Invalid token''), s2)"
proof -
  obtain u where u: "u \<in> set (w_users (as_app s))" "u_email u = name" "u_is_active u"
    and access: "sr_access_token r = create_access_token e (u_id u)" and refresh: "sr_refresh_token r = fst (create_refresh_token e (u_id u))"
    using wp_value [OF login_user assms(1)] by blast
  have tokens: "create_access_token e (u_id u) \<noteq> []" "fst (create_refresh_token e (u_id u)) \<noteq> []"
    using assms(2)
    by (simp_all add: jwt_sound_def issued_claims_def create_access_token_def create_refresh_token_def exp_claim_def Let_def)
  obtain payload where payload: "decode_access_token e' (create_access_token e (u_id u)) = Some payload" "map_of payload ''sub'' = Some (JStr (u_id u))"
    using decode_own_token(1) [OF assms(2,3)] by blast
  have "coll_get u_id (w_users (as_app s2)) (u_id u) = Some u"
    using u assms(4,5) by (simp add: coll_get_Some)
  then have "get_current_user e' (bearer (sr_access_token r)) s2 = (Inr u, s2)"
    using u assms(6) tokens(1) payload
    by (simp add: get_current_user_def request_token_def bearer_def truthy_Some access subject_user_def in_app_def user_get_def
        valid_object_id_def active_user_def bindP_def some_or_def return_def guard_def gets_def)
  moreover have "get_current_user e' (bearer (sr_refresh_token r)) s2 = (Inl (http_exn 401 ''Invalid token''), s2)"
    using tokens(2) decode_own_token(2) [OF assms(2,3)]
    by (simp add: get_current_user_def request_token_def bearer_def truthy_Some refresh bindP_def some_or_def return_def raise_def)
  ultimately show ?thesis using u by blast
qed

section \<open>Refresh after the access token\<close>

text \<open>The lifetimes of what an exchange stores.\<close>

lemma key_expiry_refresh: "key_expiry e (refresh_expiry e) = now (ae_base e) + fallback_ttl * 1000000"
  by (simp add: key_expiry_def ttl_from_expires_def refresh_expiry_def default_refresh_token_expiry_def)

lemma key_expiry_access_bounds:
  "now (ae_base e) < key_expiry e (Some (access_expiry e))"
  "key_expiry e (Some (access_expiry e)) \<le> now (ae_base e) + default_access_token_expiry * 1000000"
  "now (ae_base e) < access_expiry e"
proof -
  define n where "n = now (ae_base e)"
  define x where "x = (n + 604800000000) div 1000000"
  have "x * 1000000 \<le> n + 604800000000" "n + 604800000000 < x * 1000000 + 1000000" unfolding x_def by linarith+
  moreover define y where "y = (x * 1000000 - n) div 1000000"
  ultimately have "y * 1000000 \<le> 604800000000" "0 < y" "n < x * 1000000" unfolding y_def by linarith+
  then show "now (ae_base e) < key_expiry e (Some (access_expiry e))"
    "key_expiry e (Some (access_expiry e)) \<le> now (ae_base e) + default_access_token_expiry * 1000000" "now (ae_base e) < access_expiry e"
    by (simp_all add: key_expiry_def ttl_from_expires_def access_expiry_def whole_second_def default_access_token_expiry_def
        n_def [symmetric] x_def [symmetric] y_def [symmetric])
qed

lemma wp_exchange_code:
  assumes "exchange_authorization_code e client c s = (Inr r, s')"
  obtains cid s1 where "oc_client_id client = Some cid" and "redis_up (ae_base e)"
    and "s' = with_tokens e (new_access e cid (cd_scopes c) (cd_user_id c)) (new_refresh e cid (cd_scopes c)) s1"
    and "ot_refresh_token r = rt_token (new_refresh e cid (cd_scopes c))"
proof -
  have "wp (exchange_authorization_code e client c) (\<lambda>r s'. \<exists>cid s1. oc_client_id client = Some cid \<and> redis_up (ae_base e) \<and>
      s' = with_tokens e (new_access e cid (cd_scopes c) (cd_user_id c)) (new_refresh e cid (cd_scopes c)) s1 \<and>
      ot_refresh_token r = rt_token (new_refresh e cid (cd_scopes c))) (\<lambda>_ _. True) s"
    by (auto simp: exchange_authorization_code_def wp_simps wp_store_tokens split: option.split)
  from wp_value [OF this assms] that show thesis by blast
qed

text \<open>A refresh token whose link is gone is exchanged for tokens that name no user.\<close>

lemma exchange_unlinked:
  assumes "alive (now (ae_base e)) (os_r2a s) (rt_token t) = None" and "redis_up (ae_base e)" and "oc_client_id client = Some cid"
    and "set scopes \<subseteq> set (rt_scopes t)"
  shows "wp (exchange_refresh_token e client t scopes) (\<lambda>r s'. ot_access_token r = at_token (new_access e cid scopes None) \<and>
    os_access s' (ot_access_token r) = Some (new_access e cid scopes None, key_expiry e (Some (access_expiry e)))) (\<lambda>_ _. False) s"
  using assms
  by (simp add: exchange_refresh_token_def refresh_user_def revoke_refresh_def truthy_def wp_simps wp_store_tokens with_tokens_def)
    (simp add: new_access_def)

lemma load_stored_access:
  assumes "os_access s k = Some (a, x)" and "now (ae_base e) < x" and "\<not> expired_at e (at_expires_at a)" and "redis_up (ae_base e)"
  shows "load_access_token e k s = (Inr (Some a), s)"
  using assms by (simp add: load_access_token_def redis_get_def alive_def bindP_def guard_def gets_def return_def)

text \<open>
  C21. A refresh that comes when the access token has expired yields tokens nobody can use: between
  seven and thirty days after an exchange the refresh token is still accepted and a new pair of
  tokens is issued, but the link to the old access token has expired with it, so that the new
  access token, which the provider accepts, names no user, and every tool call with it is refused.
\<close>

theorem late_refresh_names_no_user:
  assumes "exchange_authorization_code e0 client c s0 = (Inr r, s1)" and "redis_up (ae_base e)"
    and "now (ae_base e0) + default_access_token_expiry * 1000000 \<le> now (ae_base e)"
    and "now (ae_base e) < now (ae_base e0) + fallback_ttl * 1000000"
  shows "\<exists>t r2 s2 a msg. load_refresh_token e client (ot_refresh_token r) s1 = (Inr (Some t), s1) \<and>
    exchange_refresh_token e client t (rt_scopes t) s1 = (Inr r2, s2) \<and>
    load_access_token e (ot_access_token r2) s2 = (Inr (Some a), s2) \<and>
    authenticate (ae_base e) \<lparr>mr_http = True, mr_api_key = None, mr_token = Token (at_user_id a)\<rparr> (as_app s2) =
      (Inl (McpAuthError msg), as_app s2)"
proof -
  obtain cid s where cid: "oc_client_id client = Some cid"
    and s1: "s1 = with_tokens e0 (new_access e0 cid (cd_scopes c) (cd_user_id c)) (new_refresh e0 cid (cd_scopes c)) s"
    and r: "ot_refresh_token r = rt_token (new_refresh e0 cid (cd_scopes c))"
    by (rule wp_exchange_code [OF assms(1)])
  let ?t = "new_refresh e0 cid (cd_scopes c)"
  have load: "load_refresh_token e client (ot_refresh_token r) s1 = (Inr (Some ?t), s1)"
    using cid assms(2,4) unfolding r s1
    by (simp add: load_refresh_token_def redis_get_def alive_def bindP_def guard_def gets_def return_def with_tokens_def expired_at_def
        new_refresh_def key_expiry_refresh) (simp add: refresh_expiry_def default_refresh_token_expiry_def)
  have "alive (now (ae_base e)) (os_r2a s1) (rt_token ?t) = None"
    using assms(3) key_expiry_access_bounds(2) [of e0] unfolding s1 by (simp add: alive_def with_tokens_def new_access_def)
  from exchange_unlinked [OF this assms(2) cid order.refl] obtain r2 s2 where run: "exchange_refresh_token e client ?t (rt_scopes ?t) s1 = (Inr r2, s2)"
    and new: "os_access s2 (ot_access_token r2) = Some (new_access e cid (rt_scopes ?t) None, key_expiry e (Some (access_expiry e)))"
    by (auto simp: wp_total [symmetric])
  have "load_access_token e (ot_access_token r2) s2 = (Inr (Some (new_access e cid (rt_scopes ?t) None)), s2)"
    using key_expiry_access_bounds [of e] assms(2) by (intro load_stored_access [OF new]) (simp_all add: expired_at_def new_access_def)
  moreover have "\<exists>msg. authenticate (ae_base e) \<lparr>mr_http = True, mr_api_key = None, mr_token = Token (at_user_id (new_access e cid (rt_scopes ?t) None))\<rparr> (as_app s2) =
      (Inl (McpAuthError msg), as_app s2)"
    by (simp add: authenticate_def resolve_oauth_user_def new_access_def truthy_def bindP_def guard_def return_def raise_def)
  ultimately show ?thesis using load run by blast
qed

section \<open>The theorems at work\<close>

text \<open>A deployment with one user, whose session token is \<open>t\<close>; \<open>r\<close> and \<open>i\<close> are the values a request draws and its instant.\<close>

definition demo_auth :: "string \<Rightarrow> time \<Rightarrow> auth_env" where
  "demo_auth r i =
     \<lparr>ae_base = plain_env\<lparr>now := i\<rparr>,
      jwt_encode = (\<lambda>_ p. if map_of p ''type'' = Some (JStr ''access'') then ''t'' else ''f''),
      jwt_decode = (\<lambda>_ at tok. if tok = ''t'' \<and> at < 3600000000 then Some [(''sub'', JStr ''u''), (''exp'', JInt 3600), (''type'', JStr ''access'')] else None),
      verify_password = (=), secret_key = '''', refresh_secret_key = '''', frontend_url = '''', base_url = '''', valid_scopes = None,
      uuid4_hex = r, random_token = (\<lambda>_. r), google_fetch = (\<lambda>_. Token_failed), google_url = id, user_insert_dup = False, any_url = Some\<rparr>"

definition demo_auth_client :: oauth_client where
  "demo_auth_client = \<lparr>oc_client_id = Some ''c'', oc_client_name = None, oc_scope = None, oc_data = []\<rparr>"

definition demo_pending :: pending_auth where
  "demo_pending = \<lparr>pa_client_id = Some ''c'', pa_redirect_uri = ''r'', pa_redirect_uri_provided_explicitly = True, pa_state = None,
     pa_scopes = [''x''], pa_code_challenge = '''', pa_resource = None\<rparr>"

definition demo_auth_state :: auth_state where
  "demo_auth_state =
     \<lparr>as_app = demo_world, as_allowed_emails = [], as_refresh_jti = Map.empty, as_login_attempts = Map.empty, as_google_state = Map.empty,
      os_clients = Map.empty, os_pending = [''p'' \<mapsto> (demo_pending, 600000000)], os_consent = [''k'' \<mapsto> (''p'', 600000000)],
      os_codes = Map.empty, os_access = Map.empty, os_refresh = Map.empty, os_a2r = Map.empty, os_r2a = Map.empty\<rparr>"

definition demo_code :: auth_code where
  "demo_code = consent_code (demo_auth ''A'' 0) demo_pending ''r'' ''u''"

definition demo_approved :: auth_state where
  "demo_approved = demo_auth_state\<lparr>os_pending := Map.empty, os_consent := Map.empty, os_codes := [''todo_auth_A'' \<mapsto> (demo_code, 300000000)]\<rparr>"

lemmas demo_auth_defs = demo_auth_def demo_auth_client_def demo_pending_def demo_auth_state_def demo_code_def consent_code_def
  plain_env_def demo_world_def empty_world_def demo_user_def

lemma demo_jwt_user: "jwt_user (demo_auth r 0) (Some ''t'') None demo_auth_state = (Inr (Some demo_user), demo_auth_state)"
  by (simp add: jwt_user_def truthy_def decode_access_token_def decode_token_def dict_get_def subject_user_def in_app_def user_get_def
      valid_object_id_def coll_get_def active_user_def bindP_def return_def guard_def gets_def demo_auth_defs)

lemma demo_consent:
  "consent_submit (demo_auth ''A'' 0) (Some ''t'') None ''p'' ''k'' ''allow'' demo_auth_state =
   (Inr (Callback ''r?code=todo_auth_A&state=''), demo_approved)"
  unfolding consent_submit_def bindP_def [of "jwt_user _ _ _"] demo_jwt_user
  by (simp add: consent_decide_def store_authorization_code_def redis_set_ttl_def redis_set_def redis_getdel_def redis_get_def redis_del_def
      some_or_def ttl_from_expires_def alive_def truthy_def str_of_def urlencode_def quote_plus_def quote_char_def unreserved_def
      bindP_def return_def guard_def gets_def modify_def Let_def demo_approved_def demo_auth_defs)

definition demo_issued :: auth_state where
  "demo_issued = with_tokens (demo_auth ''C'' 0) (new_access (demo_auth ''C'' 0) ''c'' [''x''] (Some ''u'')) (new_refresh (demo_auth ''C'' 0) ''c'' [''x''])
     (demo_approved\<lparr>os_codes := Map.empty\<rparr>)"

lemma demo_load_code:
  "load_authorization_code (demo_auth ''B'' 0) demo_auth_client ''todo_auth_A'' demo_approved = (Inr (Some demo_code), demo_approved)"
  by (simp add: load_authorization_code_def redis_get_def alive_def bindP_def return_def guard_def gets_def demo_approved_def demo_auth_defs)

lemma demo_auth_fields:
  "now (ae_base (demo_auth r i)) = i" "redis_up (ae_base (demo_auth r i))" "oc_client_id demo_auth_client = Some ''c''"
  "cd_scopes demo_code = [''x'']" "cd_user_id demo_code = Some ''u''" "cd_code demo_code = ''todo_auth_A''"
  "os_codes demo_approved = [''todo_auth_A'' \<mapsto> (demo_code, 300000000)]"
  by (simp_all add: demo_approved_def demo_auth_defs)

lemma demo_exchange: "\<exists>r. exchange_authorization_code (demo_auth ''C'' 0) demo_auth_client demo_code demo_approved = (Inr r, demo_issued)"
proof -
  have gone: "os_codes_update (\<lambda>m. m(''todo_auth_A'' := None)) demo_approved = demo_approved\<lparr>os_codes := Map.empty\<rparr>"
    by (simp add: demo_approved_def)
  have "wp (exchange_authorization_code (demo_auth ''C'' 0) demo_auth_client demo_code) (\<lambda>_ s. s = demo_issued) (\<lambda>_ _. False) demo_approved"
    by (simp add: exchange_authorization_code_def wp_simps wp_store_tokens alive_def demo_issued_def demo_auth_fields gone)
  from this [folded wp_total] show ?thesis by auto
qed

lemma demo_reachable:
  "\<exists>h. oauth_reachable demo_issued h \<and> oh_grants h = {(''u'', ''c'', [''x''])}"
proof -
  let ?h0 = "\<lparr>oh_drawn = {}, oh_codes = {}, oh_refresh = {}, oh_grants = {}\<rparr>"
  let ?q1 = "Consent_submit (Some ''t'') None ''p'' ''k'' ''allow''" and ?q2 = "Load_code demo_auth_client ''todo_auth_A''"
    and ?q3 = "Exchange_code demo_auth_client demo_code"
  let ?h1 = "history_after (demo_auth ''A'' 0) ?q1 demo_auth_state ?h0"
  let ?h2 = "history_after (demo_auth ''B'' 0) ?q2 demo_approved ?h1"
  let ?h3 = "history_after (demo_auth ''C'' 0) ?q3 demo_approved ?h2"
  have steps: "auth_step (demo_auth ''A'' 0, ?q1) demo_auth_state = demo_approved" "auth_step (demo_auth ''B'' 0, ?q2) demo_approved = demo_approved"
    "auth_step (demo_auth ''C'' 0, ?q3) demo_approved = demo_issued"
    using demo_exchange by (auto simp: auth_step_def snd_answer demo_consent demo_load_code)
  have drawn: "random_token (demo_auth r i) n = r" for r i n by (simp add: demo_auth_def)
  have "oauth_reachable demo_auth_state ?h0" by (rule oauth_reachable.start) (simp_all add: demo_auth_state_def)
  from oauth_reachable.request [OF this, of "demo_auth ''A'' 0" ?q1] have "oauth_reachable demo_approved ?h1"
    by (simp add: steps in_flight_def)
  from oauth_reachable.request [OF this, of "demo_auth ''B'' 0" ?q2] have "oauth_reachable demo_approved ?h2"
    by (simp add: steps in_flight_def history_after_def drawn)
  from oauth_reachable.request [OF this, of "demo_auth ''C'' 0" ?q3] have "oauth_reachable demo_issued ?h3"
    by (simp add: steps in_flight_def history_after_def drawn loaded_codes_def answer_def bindP_def return_def demo_load_code)
  moreover have "oh_grants ?h3 = {(''u'', ''c'', [''x''])}"
    by (simp add: history_after_def consents_def demo_jwt_user) (simp add: alive_def demo_auth_defs)
  ultimately show ?thesis by blast
qed

theorem access_token_has_consent_witness:
  "at_user_id (new_access (demo_auth ''C'' 0) ''c'' [''x''] (Some ''u'')) = Some ''u'' \<and>
   (\<exists>h. oauth_reachable demo_issued h \<and> (\<exists>given. (''u'', ''c'', given) \<in> oh_grants h \<and> set [''x''] \<subseteq> set given))"
proof -
  let ?a = "new_access (demo_auth ''C'' 0) ''c'' [''x''] (Some ''u'')"
  obtain h where h: "oauth_reachable demo_issued h" using demo_reachable by blast
  have a: "at_user_id ?a = Some ''u''" "at_client_id ?a = ''c''" "at_scopes ?a = [''x'']" by (simp_all add: new_access_def truthy_def)
  have "load_access_token (demo_auth ''D'' 0) ''todo_at_C'' demo_issued = (Inr (Some ?a), demo_issued)"
    using key_expiry_access_bounds [of "demo_auth ''C'' 0"]
    by (intro load_stored_access [of _ _ _ "key_expiry (demo_auth ''C'' 0) (Some (access_expiry (demo_auth ''C'' 0)))"])
      (simp_all add: demo_issued_def with_tokens_def new_access_def expired_at_def demo_auth_defs)
  from access_token_has_consent [OF h this a(1)] a h show ?thesis by auto
qed

theorem lockout_bounds_guessing_witness:
  "count_uses auth_step (login_rejected ''m'') [(demo_auth ''A'' 0, Login ''m'' ''x''), (demo_auth ''B'' 1, Login ''m'' ''y'')] demo_auth_state \<le>
   login_max_attempts * (1 + count_uses auth_step (login_accepted ''m'') [(demo_auth ''A'' 0, Login ''m'' ''x''), (demo_auth ''B'' 1, Login ''m'' ''y'')] demo_auth_state)"
  by (rule lockout_bounds_guessing [of 0]) (simp add: within_lockout_def login_lockout_seconds_def demo_auth_defs)

definition demo_late :: auth_env where
  "demo_late = demo_auth ''D'' (default_access_token_expiry * 1000000)"

theorem late_refresh_names_no_user_witness:
  "\<exists>t r2 s2 a msg. load_refresh_token demo_late demo_auth_client ''todo_rt_C'' demo_issued = (Inr (Some t), demo_issued) \<and>
     exchange_refresh_token demo_late demo_auth_client t (rt_scopes t) demo_issued = (Inr r2, s2) \<and>
     load_access_token demo_late (ot_access_token r2) s2 = (Inr (Some a), s2) \<and>
     authenticate (ae_base demo_late) \<lparr>mr_http = True, mr_api_key = None, mr_token = Token (at_user_id a)\<rparr> (as_app s2) =
       (Inl (McpAuthError msg), as_app s2)"
proof -
  obtain r where run: "exchange_authorization_code (demo_auth ''C'' 0) demo_auth_client demo_code demo_approved = (Inr r, demo_issued)"
    using demo_exchange by blast
  have r: "ot_refresh_token r = ''todo_rt_C''"
    by (rule wp_exchange_code [OF run]) (simp add: new_refresh_def demo_auth_def)
  have "redis_up (ae_base demo_late)" "now (ae_base (demo_auth ''C'' 0)) + default_access_token_expiry * 1000000 \<le> now (ae_base demo_late)"
    "now (ae_base demo_late) < now (ae_base (demo_auth ''C'' 0)) + fallback_ttl * 1000000"
    by (simp_all add: demo_late_def demo_auth_def fallback_ttl_def default_access_token_expiry_def)
  from late_refresh_names_no_user [OF run this] show ?thesis unfolding r .
qed

text \<open>A token library that keeps its promises: payloads are numbered, and a token is as long as its number.\<close>

instance json :: countable
  by countable_datatype

definition numbered_jwt :: "time \<Rightarrow> auth_env" where
  "numbered_jwt i = (demo_auth ''A'' i)
     \<lparr>jwt_encode := (\<lambda>_ p. replicate (Suc (to_nat p)) (CHR ''x'')),
      jwt_decode := (\<lambda>_ at tok. case length tok of 0 \<Rightarrow> None | Suc n \<Rightarrow>
        (case map_of (from_nat n) ''exp'' of Some (JInt x) \<Rightarrow> if at < x * 1000000 then Some (from_nat n) else None | _ \<Rightarrow> None))\<rparr>"

definition demo_login_user :: user where
  "demo_login_user = demo_user\<lparr>u_email := ''m'', u_password_hash := Some ''h''\<rparr>"

definition demo_login_state :: auth_state where
  "demo_login_state = demo_auth_state\<lparr>as_app := demo_world\<lparr>w_users := [demo_login_user]\<rparr>\<rparr>"

lemma numbered_jwt_sound: "jwt_sound (numbered_jwt 0) (numbered_jwt 1)"
  by (auto simp: jwt_sound_def numbered_jwt_def demo_auth_def split: option.split json.split)

theorem session_authenticates_witness:
  "\<exists>r s1. login (numbered_jwt 0) ''m'' ''h'' demo_login_state = (Inr r, s1) \<and>
    (\<exists>u. u_email u = ''m'' \<and> u_is_active u \<and> get_current_user (numbered_jwt 1) (bearer (sr_access_token r)) s1 = (Inr u, s1)) \<and>
    get_current_user (numbered_jwt 1) (bearer (sr_refresh_token r)) s1 = (Inl (http_exn 401 ''Invalid token''), s1)"
proof -
  have "wp (login (numbered_jwt 0) ''m'' ''h'') (\<lambda>_ s. as_app s = as_app demo_login_state) (\<lambda>_ _. False) demo_login_state"
    by (simp add: login_def check_rate_limit_def record_failed_login_def clear_login_attempts_def wp_simps alive_def truthy_def
        numbered_jwt_def demo_login_state_def demo_login_user_def demo_auth_defs)
  from this [folded wp_total] obtain r s1 where run: "login (numbered_jwt 0) ''m'' ''h'' demo_login_state = (Inr r, s1)"
    and app: "as_app s1 = as_app demo_login_state" by auto
  have "now (ae_base (numbered_jwt 1)) < (now (ae_base (numbered_jwt 0)) + access_token_expire_minutes * 60 * 1000000) div 1000000 * 1000000"
    by (simp add: numbered_jwt_def demo_auth_fields access_token_expire_minutes_def)
  moreover have "w_users (as_app s1) = w_users (as_app demo_login_state)" by (simp add: app)
  moreover have "keys_distinct u_id (w_users (as_app demo_login_state))"
    "\<forall>u \<in> set (w_users (as_app demo_login_state)). oid_valid (ae_base (numbered_jwt 1)) (u_id u) \<and> oid_canon (ae_base (numbered_jwt 1)) (u_id u) = u_id u"
    by (simp_all add: keys_distinct_def numbered_jwt_def demo_login_state_def demo_auth_def plain_env_def)
  ultimately show ?thesis using session_authenticates [OF run numbered_jwt_sound] run by blast
qed

end
