(* ===== verification/Content_State.thy ===== *)
theory Content_State
  imports Mcp_Task_Write Auth_State
begin

text \<open>
  What documents, knowledge entries, secrets and the lookup of URLs share: the stored documents
  (models/document.py, knowledge.py, secret.py, bookmark.py, docsite.py, url_lookup_audit.py), the
  state, and the notifications of their search indexes (services/document_search.py and
  knowledge_search.py). Requests of the REST endpoints are what pydantic has validated.
\<close>

section \<open>Documents\<close>

datatype document_category = Cat_spec | Cat_design | Cat_api | Cat_guide | Cat_notes

primrec document_category_str :: "document_category \<Rightarrow> string" where
  "document_category_str Cat_spec = ''spec''"
| "document_category_str Cat_design = ''design''"
| "document_category_str Cat_api = ''api''"
| "document_category_str Cat_guide = ''guide''"
| "document_category_str Cat_notes = ''notes''"

definition document_categories :: "document_category list" where
  "document_categories = [Cat_spec, Cat_design, Cat_api, Cat_guide, Cat_notes]"

definition parse_document_category :: "string \<Rightarrow> document_category option" where
  "parse_document_category s = List.find (\<lambda>c. document_category_str c = s) document_categories"

record project_document =
  d_id :: string
  d_project_id :: string
  d_title :: string
  d_content :: string
  d_tags :: "string list"
  d_category :: document_category
  d_version :: nat
  d_sort_order :: nat
  d_created_by :: string
  d_is_deleted :: bool
  d_created_at :: time
  d_updated_at :: time

record document_version =
  v_id :: string
  v_document_id :: string
  v_version :: nat
  v_title :: string
  v_content :: string
  v_tags :: "string list"
  v_category :: document_category
  v_changed_by :: string
  v_task_id :: "string option"
  v_change_summary :: "string option"
  v_created_at :: time

datatype knowledge_category = Cat_recipe | Cat_reference | Cat_tip | Cat_troubleshooting | Cat_architecture

primrec knowledge_category_str :: "knowledge_category \<Rightarrow> string" where
  "knowledge_category_str Cat_recipe = ''recipe''"
| "knowledge_category_str Cat_reference = ''reference''"
| "knowledge_category_str Cat_tip = ''tip''"
| "knowledge_category_str Cat_troubleshooting = ''troubleshooting''"
| "knowledge_category_str Cat_architecture = ''architecture''"

definition knowledge_categories :: "knowledge_category list" where
  "knowledge_categories = [Cat_recipe, Cat_reference, Cat_tip, Cat_troubleshooting, Cat_architecture]"

definition parse_knowledge_category :: "string \<Rightarrow> knowledge_category option" where
  "parse_knowledge_category s = List.find (\<lambda>c. knowledge_category_str c = s) knowledge_categories"

record knowledge =
  k_id :: string
  k_title :: string
  k_content :: string
  k_tags :: "string list"
  k_category :: knowledge_category
  k_source :: "string option"
  k_created_by :: string
  k_is_deleted :: bool
  k_created_at :: time
  k_updated_at :: time

record project_secret =
  s_id :: string
  s_project_id :: string
  s_key :: string
  s_value :: string
  s_description :: string
  s_created_by :: string
  s_updated_by :: string
  s_created_at :: time
  s_updated_at :: time

record secret_access_log =
  sl_project_id :: string
  sl_secret_key :: string
  sl_operation :: string
  sl_user_id :: string
  sl_auth_kind :: string
  sl_created_at :: time

datatype clip_status = Clip_pending | Clip_processing | Clip_done | Clip_failed

record bookmark_metadata =
  bm_meta_title :: string
  bm_meta_description :: string
  bm_favicon_url :: string
  bm_og_image_url :: string
  bm_site_name :: string
  bm_author :: string
  bm_published_date :: "string option"

record bookmark =
  b_id :: string
  b_project_id :: string
  b_url :: string
  b_title :: string
  b_description :: string
  b_tags :: "string list"
  b_collection_id :: "string option"
  b_metadata :: bookmark_metadata
  b_clip_status :: clip_status
  b_clip_content :: string
  b_clip_markdown :: string
  b_clip_error :: string
  b_thumbnail_path :: string
  b_local_images :: "(string \<times> string) list"
  b_is_starred :: bool
  b_sort_order :: int
  b_created_by :: string
  b_is_deleted :: bool
  b_created_at :: time
  b_updated_at :: time

record doc_page =
  dp_id :: string
  dp_site_id :: string
  dp_path :: string
  dp_title :: string
  dp_content :: string
  dp_sort_order :: int
  dp_created_at :: time

record url_lookup_audit_log =
  ul_user_id :: string
  ul_url :: string
  ul_kind :: string
  ul_project_id :: "string option"
  ul_success :: bool
  ul_auth_kind :: string
  ul_message :: string
  ul_created_at :: time

section \<open>State and environment\<close>

text \<open>An entry of a search index is written, or removed, by the indexer of this process.\<close>

datatype content_note = Upserted string string | Removed string string

record content =
  cs_app :: world
  cs_documents :: "project_document list"
  cs_versions :: "document_version list"
  cs_knowledge :: "knowledge list"
  cs_secrets :: "project_secret list"
  cs_secret_log :: "secret_access_log list"
  cs_bookmarks :: "bookmark list"
  cs_pages :: "doc_page list"
  cs_url_log :: "url_lookup_audit_log list"
  cs_url_counts :: "nat expiring"
  cs_index :: "content_note list"

text \<open>
  The search services answer a query with identifiers and scores, or fail; \<open>audit_ok\<close> tells
  whether the database takes an entry of the audit log of URLs.
\<close>

record content_env =
  ce_base :: env
  document_indexer :: bool
  knowledge_indexer :: bool
  document_search :: "(string \<Rightarrow> string \<Rightarrow> string option \<Rightarrow> nat \<Rightarrow> (string \<times> json) list option) option"
  knowledge_search :: "(string \<Rightarrow> string option \<Rightarrow> nat \<Rightarrow> (string \<times> json) list option) option"
  audit_ok :: bool
  invalid_host :: "string \<Rightarrow> string option"

definition on_app :: "(world, 'a) prog \<Rightarrow> (content, 'a) prog" where
  "on_app m = (\<lambda>s. case m (cs_app s) of (r, w) \<Rightarrow> (r, s\<lparr>cs_app := w\<rparr>))"

definition index_entity :: "content_env \<Rightarrow> bool \<Rightarrow> string \<Rightarrow> string \<Rightarrow> (content, unit) prog" where
  "index_entity e indexer kind i =
     (if indexer then modify (\<lambda>s. s\<lparr>cs_index := cs_index s @ [Upserted kind i]\<rparr>)
      else whenP (\<not> enable_indexers (ce_base e)) (whenP (i \<noteq> []) (on_app (publish_note (ce_base e) kind i ''upsert''))))"

definition deindex_entity :: "content_env \<Rightarrow> bool \<Rightarrow> string \<Rightarrow> string \<Rightarrow> (content, unit) prog" where
  "deindex_entity e indexer kind i =
     (if indexer then modify (\<lambda>s. s\<lparr>cs_index := cs_index s @ [Removed kind i]\<rparr>)
      else whenP (\<not> enable_indexers (ce_base e)) (whenP (i \<noteq> []) (on_app (publish_note (ce_base e) kind i ''delete''))))"

definition index_document :: "content_env \<Rightarrow> project_document \<Rightarrow> (content, unit) prog" where
  "index_document e d = index_entity e (document_indexer e) ''document'' (d_id d)"

definition deindex_document :: "content_env \<Rightarrow> string \<Rightarrow> (content, unit) prog" where
  "deindex_document e i = deindex_entity e (document_indexer e) ''document'' i"

definition index_knowledge :: "content_env \<Rightarrow> knowledge \<Rightarrow> (content, unit) prog" where
  "index_knowledge e k = index_entity e (knowledge_indexer e) ''knowledge'' (k_id k)"

definition deindex_knowledge :: "content_env \<Rightarrow> string \<Rightarrow> (content, unit) prog" where
  "deindex_knowledge e i = deindex_entity e (knowledge_indexer e) ''knowledge'' i"

text \<open>\<open>Document.get\<close> on these collections.\<close>

definition content_get :: "content_env \<Rightarrow> ('d \<Rightarrow> string) \<Rightarrow> (content \<Rightarrow> 'd list) \<Rightarrow> string \<Rightarrow> (content, 'd option) prog" where
  "content_get e key docs i =
     (if oid_valid (ce_base e) i then gets (\<lambda>s. coll_get key (docs s) (oid_canon (ce_base e) i)) else raise (ValidationError i))"

section \<open>Text\<close>

definition py_lower :: "string \<Rightarrow> string" where
  "py_lower s = map fold_case s"

definition normalize_tags :: "string list \<Rightarrow> string list" where
  "normalize_tags ts = map (\<lambda>t. py_lower (py_strip t)) (filter (\<lambda>t. py_strip t \<noteq> []) ts)"

definition not_longer :: "string option \<Rightarrow> nat \<Rightarrow> bool" where
  "not_longer x n = (case x of None \<Rightarrow> True | Some s \<Rightarrow> length s \<le> n)"

text \<open>The pages of the list tools and endpoints.\<close>

definition content_page :: "('d \<Rightarrow> json) \<Rightarrow> nat \<Rightarrow> nat \<Rightarrow> 'd list \<Rightarrow> 'd list \<Rightarrow> jdict" where
  "content_page f limit skip found sorted_docs =
     [(''items'', JList (map f (mongo_page skip limit sorted_docs))), (''total'', JInt (int (length found))),
      (''limit'', JInt (int limit)), (''skip'', JInt (int skip))]"

text \<open>The filters on title, content and tags that an escaped pattern gives.\<close>

definition matches_text :: "string \<Rightarrow> string \<Rightarrow> string \<Rightarrow> string list \<Rightarrow> bool" where
  "matches_text q title content tags \<longleftrightarrow> contains_folded q title \<or> contains_folded q content \<or> (\<exists>t \<in> set tags. contains_folded q t)"

definition tag_filter :: "string option \<Rightarrow> string list \<Rightarrow> bool" where
  "tag_filter tag tags = (case truthy tag of None \<Rightarrow> True | Some t \<Rightarrow> py_lower t \<in> set tags)"

section \<open>Steps that keep a part of the state\<close>

lemma quiet_on_app: "apart sel cs_app_update \<Longrightarrow> keeps (same sel) (on_app m)"
  by (simp add: keeps_def same_def apart_def on_app_def case_prod_unfold)

lemma quiet_content_get: "keeps (same sel) (content_get e key docs i)"
  by (simp add: content_get_def part.keeps_gets part.keeps_raise)

lemma quiet_index_entity:
  assumes "apart sel cs_app_update" and "apart sel cs_index_update"
  shows "keeps (same sel) (index_entity e b kind i)" and "keeps (same sel) (deindex_entity e b kind i)"
  using assms unfolding index_entity_def deindex_entity_def
  by (auto intro!: part.keeps_intros part.keeps_modify quiet_on_app simp: same_def apart_def)

end
