(* ===== verification/Documents.thy ===== *)
theory Documents
  imports Content_State
begin

text \<open>
  Project documents with their versions: the MCP tools (mcp/tools/documents.py) and the REST
  endpoints (api/v1/endpoints/documents.py). Every update stores the previous state as a version.
\<close>

section \<open>Serialisation\<close>

definition document_to_dict :: "project_document \<Rightarrow> jdict" where
  "document_to_dict d =
     [(''id'', JStr (d_id d)), (''project_id'', JStr (d_project_id d)), (''title'', JStr (d_title d)), (''content'', JStr (d_content d)),
      (''tags'', JList (map JStr (d_tags d))), (''category'', JStr (document_category_str (d_category d))),
      (''version'', JInt (int (d_version d))), (''sort_order'', JInt (int (d_sort_order d))), (''created_by'', JStr (d_created_by d)),
      (''created_at'', JTime (d_created_at d)), (''updated_at'', JTime (d_updated_at d))]"

definition document_version_to_dict :: "document_version \<Rightarrow> jdict" where
  "document_version_to_dict v =
     [(''id'', JStr (v_id v)), (''document_id'', JStr (v_document_id v)), (''version'', JInt (int (v_version v))),
      (''title'', JStr (v_title v)), (''content'', JStr (v_content v)), (''tags'', JList (map JStr (v_tags v))),
      (''category'', JStr (document_category_str (v_category v))), (''changed_by'', JStr (v_changed_by v)),
      (''task_id'', jopt JStr (v_task_id v)), (''change_summary'', jopt JStr (v_change_summary v)), (''created_at'', JTime (v_created_at v))]"

definition document_version_summary :: "document_version \<Rightarrow> jdict" where
  "document_version_summary v =
     [(''id'', JStr (v_id v)), (''document_id'', JStr (v_document_id v)), (''version'', JInt (int (v_version v))),
      (''title'', JStr (v_title v)), (''changed_by'', JStr (v_changed_by v)), (''task_id'', jopt JStr (v_task_id v)),
      (''change_summary'', jopt JStr (v_change_summary v)), (''created_at'', JTime (v_created_at v))]"

section \<open>The document and its versions\<close>

definition new_document ::
  "content_env \<Rightarrow> string \<Rightarrow> string \<Rightarrow> string \<Rightarrow> string list \<Rightarrow> document_category \<Rightarrow> string \<Rightarrow> string \<Rightarrow> project_document" where
  "new_document e i project_id title tags category content creator =
     \<lparr>d_id = i, d_project_id = project_id, d_title = title, d_content = content, d_tags = tags, d_category = category,
      d_version = 1, d_sort_order = 0, d_created_by = creator, d_is_deleted = False, d_created_at = now (ce_base e), d_updated_at = now (ce_base e)\<rparr>"

definition insert_document :: "content_env \<Rightarrow> project_document \<Rightarrow> (content, project_document) prog" where
  "insert_document e d =
     bindP (modify (\<lambda>s. s\<lparr>cs_documents := coll_insert d (cs_documents s)\<rparr>)) (\<lambda>_.
     bindP (index_document e d) (\<lambda>_. return d))"

definition save_document :: "content_env \<Rightarrow> project_document \<Rightarrow> (content, project_document) prog" where
  "save_document e d =
     (let d' = d\<lparr>d_updated_at := now (ce_base e)\<rparr> in
      bindP (modify (\<lambda>s. s\<lparr>cs_documents := coll_save d_id d' (cs_documents s)\<rparr>)) (\<lambda>_. return d'))"

record document_changes =
  dc_title :: "string option"
  dc_content :: "string option"
  dc_tags :: "string list option"
  dc_category :: "string option"
  dc_task_id :: "string option"
  dc_change_summary :: "string option"

definition snapshot :: "content_env \<Rightarrow> string \<Rightarrow> document_changes \<Rightarrow> project_document \<Rightarrow> document_version" where
  "snapshot e changer c d =
     \<lparr>v_id = new_oid (ce_base e) 0, v_document_id = d_id d, v_version = d_version d, v_title = d_title d, v_content = d_content d,
      v_tags = d_tags d, v_category = d_category d, v_changed_by = changer, v_task_id = dc_task_id c,
      v_change_summary = dc_change_summary c, v_created_at = now (ce_base e)\<rparr>"

definition apply_changes :: "document_changes \<Rightarrow> project_document \<Rightarrow> project_document" where
  "apply_changes c d =
     d\<lparr>d_title := (case dc_title c of None \<Rightarrow> d_title d | Some t \<Rightarrow> py_strip t),
       d_content := (case dc_content c of None \<Rightarrow> d_content d | Some x \<Rightarrow> x),
       d_tags := (case dc_tags c of None \<Rightarrow> d_tags d | Some ts \<Rightarrow> normalize_tags ts),
       d_category := (case dc_category c of None \<Rightarrow> d_category d | Some x \<Rightarrow>
         (case parse_document_category x of None \<Rightarrow> d_category d | Some k \<Rightarrow> k)),
       d_version := d_version d + 1\<rparr>"

text \<open>Both interfaces update in this way, once they have checked the category.\<close>

definition revise_document :: "content_env \<Rightarrow> string \<Rightarrow> document_changes \<Rightarrow> project_document \<Rightarrow> (content, project_document) prog" where
  "revise_document e changer c d =
     bindP (modify (\<lambda>s. s\<lparr>cs_versions := coll_insert (snapshot e changer c d) (cs_versions s)\<rparr>)) (\<lambda>_.
     bindP (save_document e (apply_changes c d)) (\<lambda>d'.
     bindP (index_document e d') (\<lambda>_. return d')))"

definition remove_document :: "content_env \<Rightarrow> string \<Rightarrow> project_document \<Rightarrow> (content, unit) prog" where
  "remove_document e i d =
     bindP (save_document e (d\<lparr>d_is_deleted := True\<rparr>)) (\<lambda>_. deindex_document e i)"

definition versions_of :: "string \<Rightarrow> (content, document_version list) prog" where
  "versions_of i = gets (\<lambda>s. filter (\<lambda>v. v_document_id v = i) (cs_versions s))"

definition find_version :: "string \<Rightarrow> int \<Rightarrow> (content, document_version option) prog" where
  "find_version i n = gets (\<lambda>s. List.find (\<lambda>v. v_document_id v = i \<and> int (v_version v) = n) (cs_versions s))"

section \<open>MCP tools\<close>

definition invalid_category :: "string \<Rightarrow> exn" where
  "invalid_category c = ToolError (''Invalid category '' @ quoted c @ ''. Valid: api, design, guide, notes, spec'')"

definition tool_document :: "content_env \<Rightarrow> key_info \<Rightarrow> string \<Rightarrow> (content, project_document) prog" where
  "tool_document e ki document_id =
     bindP (content_get e d_id cs_documents document_id) (\<lambda>d0.
     case d0 of
       None \<Rightarrow> raise (ToolError (''Document not found: '' @ document_id))
     | Some d \<Rightarrow>
         bindP (guard (\<not> d_is_deleted d) (ToolError (''Document not found: '' @ document_id))) (\<lambda>_.
         bindP (on_app (mcp_check_project_access (ce_base e) (d_project_id d) ki)) (\<lambda>_.
         return d)))"

definition mcp_create_document ::
  "content_env \<Rightarrow> mcp_request \<Rightarrow> string \<Rightarrow> string \<Rightarrow> string \<Rightarrow> string list option \<Rightarrow> string \<Rightarrow> (content, jdict) prog" where
  "mcp_create_document e rq project title content tags category =
     bindP (guard (py_strip title \<noteq> []) (ToolError ''Title is required'')) (\<lambda>_.
     bindP (guard (length title \<le> 255) (ToolError ''Title exceeds maximum length of 255 characters'')) (\<lambda>_.
     bindP (guard (length content \<le> 100000) (ToolError ''Content exceeds maximum length of 100000 characters'')) (\<lambda>_.
     bindP (some_or (parse_document_category category) (invalid_category category)) (\<lambda>cat.
     bindP (on_app (authenticate (ce_base e) rq)) (\<lambda>ki.
     bindP (on_app (tool_project (ce_base e) ki project)) (\<lambda>project_id.
     bindP (on_app (check_project_not_locked (ce_base e) project_id)) (\<lambda>_.
     bindP (insert_document e (new_document e (new_oid (ce_base e) 0) project_id (py_strip title)
       (normalize_tags (case tags of None \<Rightarrow> [] | Some ts \<Rightarrow> ts)) cat content (mcp_actor ki))) (\<lambda>d.
     return (document_to_dict d)))))))))"

definition mcp_get_document :: "content_env \<Rightarrow> mcp_request \<Rightarrow> string \<Rightarrow> (content, jdict) prog" where
  "mcp_get_document e rq document_id =
     bindP (on_app (authenticate (ce_base e) rq)) (\<lambda>ki.
     bindP (tool_document e ki document_id) (\<lambda>d.
     return (document_to_dict d)))"

definition mcp_update_document :: "content_env \<Rightarrow> mcp_request \<Rightarrow> string \<Rightarrow> document_changes \<Rightarrow> (content, jdict) prog" where
  "mcp_update_document e rq document_id c =
     bindP (guard (not_longer (dc_title c) 255) (ToolError ''Title exceeds maximum length of 255 characters'')) (\<lambda>_.
     bindP (guard (not_longer (dc_content c) 100000) (ToolError ''Content exceeds maximum length of 100000 characters'')) (\<lambda>_.
     bindP (case dc_category c of None \<Rightarrow> return () | Some x \<Rightarrow> guard (parse_document_category x \<noteq> None) (invalid_category x)) (\<lambda>_.
     bindP (on_app (authenticate (ce_base e) rq)) (\<lambda>ki.
     bindP (tool_document e ki document_id) (\<lambda>d.
     bindP (on_app (check_project_not_locked (ce_base e) (d_project_id d))) (\<lambda>_.
     bindP (revise_document e (mcp_actor ki) c d) (\<lambda>d'.
     return (document_to_dict d'))))))))"

definition mcp_delete_document :: "content_env \<Rightarrow> mcp_request \<Rightarrow> string \<Rightarrow> (content, jdict) prog" where
  "mcp_delete_document e rq document_id =
     bindP (on_app (authenticate (ce_base e) rq)) (\<lambda>ki.
     bindP (tool_document e ki document_id) (\<lambda>d.
     bindP (on_app (check_project_not_locked (ce_base e) (d_project_id d))) (\<lambda>_.
     bindP (remove_document e (d_id d) d) (\<lambda>_.
     return [(''success'', JBool True), (''document_id'', JStr (d_id d))]))))"

definition category_filter :: "string option \<Rightarrow> project_document \<Rightarrow> bool" where
  "category_filter category d = (case truthy category of None \<Rightarrow> True | Some c \<Rightarrow> document_category_str (d_category d) = c)"

definition live_document :: "string \<Rightarrow> string option \<Rightarrow> string option \<Rightarrow> project_document \<Rightarrow> bool" where
  "live_document project_id category tag d \<longleftrightarrow>
     d_project_id d = project_id \<and> \<not> d_is_deleted d \<and> category_filter category d \<and> tag_filter tag (d_tags d)"

definition check_category_filter :: "string option \<Rightarrow> (content, unit) prog" where
  "check_category_filter category =
     (case truthy category of None \<Rightarrow> return () | Some c \<Rightarrow> guard (parse_document_category c \<noteq> None) (invalid_category c))"

definition mcp_list_documents ::
  "content_env \<Rightarrow> mcp_request \<Rightarrow> string \<Rightarrow> string option \<Rightarrow> string option \<Rightarrow> nat \<Rightarrow> int \<Rightarrow> (content, jdict) prog" where
  "mcp_list_documents e rq project category tag limit skip =
     bindP (check_category_filter category) (\<lambda>_.
     bindP (on_app (authenticate (ce_base e) rq)) (\<lambda>ki.
     bindP (on_app (tool_project (ce_base e) ki project)) (\<lambda>project_id.
     bindP (gets (\<lambda>s. filter (live_document project_id category tag) (cs_documents s))) (\<lambda>found.
     return (content_page (JObj \<circ> document_to_dict) limit (nat (max 0 skip)) found (mongo_sort (ce_base e) d_id (\<lambda>d. - d_updated_at d) found))))))"

text \<open>The index finds identifiers; documents that are gone, or of another tag, are left out.\<close>

definition ranked_documents :: "content_env \<Rightarrow> string \<Rightarrow> string option \<Rightarrow> (string \<times> json) list \<Rightarrow> (content, jdict list option) prog" where
  "ranked_documents e project_id tag results =
     (if \<not> list_all (oid_valid (ce_base e)) (map fst results) then return None
      else bindP (gets (\<lambda>s. filter (\<lambda>d. d_id d \<in> oid_canon (ce_base e) ` set (map fst results) \<and> \<not> d_is_deleted d \<and> d_project_id d = project_id)
          (cs_documents s))) (\<lambda>entries.
        return (Some (List.map_filter (\<lambda>(i, score). case coll_get d_id entries i of
          None \<Rightarrow> None
        | Some d \<Rightarrow> if tag_filter tag (d_tags d) then Some (document_to_dict d @ [(''_score'', score)]) else None) results))))"

definition mcp_search_documents ::
  "content_env \<Rightarrow> mcp_request \<Rightarrow> string \<Rightarrow> string \<Rightarrow> string option \<Rightarrow> string option \<Rightarrow> nat \<Rightarrow> int \<Rightarrow> (content, jdict) prog" where
  "mcp_search_documents e rq query project category tag limit skip0 =
     (let skip = nat (max 0 skip0); q = py_strip query in
      bindP (guard (q \<noteq> []) (ToolError ''Query is required'')) (\<lambda>_.
      bindP (check_category_filter category) (\<lambda>_.
      bindP (on_app (authenticate (ce_base e) rq)) (\<lambda>ki.
      bindP (on_app (tool_project (ce_base e) ki project)) (\<lambda>project_id.
      bindP (case document_search e of
          None \<Rightarrow> return None
        | Some svc \<Rightarrow>
            (case svc q project_id category (limit + skip) of
               None \<Rightarrow> return None
             | Some results \<Rightarrow> if results = [] then return None else ranked_documents e project_id tag results)) (\<lambda>ranked.
      case ranked of
        Some items \<Rightarrow> return
          [(''items'', JList (map JObj (take limit (drop skip items)))), (''total'', JInt (int (length items))), (''limit'', JInt (int limit)),
           (''skip'', JInt (int skip)), (''_meta'', JObj [(''search_engine'', JStr ''tantivy'')])]
      | None \<Rightarrow>
          bindP (gets (\<lambda>s. filter (\<lambda>d. live_document project_id category tag d \<and> matches_text q (d_title d) (d_content d) (d_tags d))
            (cs_documents s))) (\<lambda>found.
          return (content_page (JObj \<circ> document_to_dict) limit skip found (mongo_sort (ce_base e) d_id (\<lambda>d. - d_updated_at d) found) @
            [(''_meta'', JObj [(''search_engine'', JStr ''regex'')])]))))))))"

text \<open>The history, newest version first.\<close>

definition history_page :: "content_env \<Rightarrow> project_document \<Rightarrow> document_version list \<Rightarrow> nat \<Rightarrow> nat \<Rightarrow> jdict" where
  "history_page e d vs limit skip =
     [(''document_id'', JStr (d_id d)), (''current_version'', JInt (int (d_version d))),
      (''items'', JList (map (JObj \<circ> document_version_summary) (mongo_page skip limit (mongo_sort (ce_base e) v_id (\<lambda>v. - int (v_version v)) vs)))),
      (''total'', JInt (int (length vs)))]"

definition mcp_get_document_history :: "content_env \<Rightarrow> mcp_request \<Rightarrow> string \<Rightarrow> nat \<Rightarrow> int \<Rightarrow> (content, jdict) prog" where
  "mcp_get_document_history e rq document_id limit skip0 =
     (let skip = nat (max 0 skip0) in
      bindP (on_app (authenticate (ce_base e) rq)) (\<lambda>ki.
      bindP (tool_document e ki document_id) (\<lambda>d.
      bindP (versions_of (d_id d)) (\<lambda>vs.
      return (history_page e d vs limit skip @ [(''limit'', JInt (int limit)), (''skip'', JInt (int skip))])))))"

definition mcp_get_document_version :: "content_env \<Rightarrow> mcp_request \<Rightarrow> string \<Rightarrow> int \<Rightarrow> (content, jdict) prog" where
  "mcp_get_document_version e rq document_id version =
     bindP (on_app (authenticate (ce_base e) rq)) (\<lambda>ki.
     bindP (tool_document e ki document_id) (\<lambda>d.
     bindP (find_version (d_id d) version) (\<lambda>v0.
     bindP (some_or v0 (ToolError (''Version '' @ str_int version @ '' not found for document '' @ document_id))) (\<lambda>v.
     return (document_version_to_dict v)))))"

section \<open>REST endpoints\<close>

definition not_found_doc :: exn where
  "not_found_doc = HTTPException 404 (JStr ''Document not found'')"

definition project_doc :: "content_env \<Rightarrow> string \<Rightarrow> string \<Rightarrow> (content, project_document) prog" where
  "project_doc e project_id document_id =
     bindP (content_get e d_id cs_documents document_id) (\<lambda>d0.
     case d0 of
       None \<Rightarrow> raise not_found_doc
     | Some d \<Rightarrow> bindP (guard (\<not> d_is_deleted d \<and> d_project_id d = project_id) not_found_doc) (\<lambda>_. return d))"

definition rest_project :: "content_env \<Rightarrow> string \<Rightarrow> user \<Rightarrow> (content, project) prog" where
  "rest_project e project_id u = on_app (check_project_access (ce_base e) project_id u)"

definition writable_project :: "content_env \<Rightarrow> string \<Rightarrow> user \<Rightarrow> (content, project) prog" where
  "writable_project e project_id u =
     bindP (rest_project e project_id u) (\<lambda>p. bindP (on_app (check_not_locked p)) (\<lambda>_. return p))"

definition bad_category :: "string \<Rightarrow> exn" where
  "bad_category c = HTTPException 400 (JStr (''Invalid category: '' @ c))"

record create_document_request =
  cdr_title :: string
  cdr_content :: string
  cdr_tags :: "string list"
  cdr_category :: string

definition rest_create_document :: "content_env \<Rightarrow> string \<Rightarrow> create_document_request \<Rightarrow> user \<Rightarrow> (content, jdict) prog" where
  "rest_create_document e project_id body u =
     bindP (writable_project e project_id u) (\<lambda>_.
     bindP (some_or (parse_document_category (cdr_category body)) (bad_category (cdr_category body))) (\<lambda>cat.
     bindP (insert_document e (new_document e (new_oid (ce_base e) 0) project_id (py_strip (cdr_title body))
       (normalize_tags (cdr_tags body)) cat (cdr_content body) (u_id u))) (\<lambda>d.
     return (document_to_dict d))))"

definition rest_get_document :: "content_env \<Rightarrow> string \<Rightarrow> string \<Rightarrow> user \<Rightarrow> (content, jdict) prog" where
  "rest_get_document e project_id document_id u =
     bindP (rest_project e project_id u) (\<lambda>_.
     bindP (project_doc e project_id document_id) (\<lambda>d. return (document_to_dict d)))"

definition rest_update_document :: "content_env \<Rightarrow> string \<Rightarrow> string \<Rightarrow> document_changes \<Rightarrow> user \<Rightarrow> (content, jdict) prog" where
  "rest_update_document e project_id document_id c u =
     bindP (writable_project e project_id u) (\<lambda>_.
     bindP (project_doc e project_id document_id) (\<lambda>d.
     bindP (case dc_category c of None \<Rightarrow> return () | Some x \<Rightarrow> guard (parse_document_category x \<noteq> None) (bad_category x)) (\<lambda>_.
     bindP (revise_document e (u_id u) c d) (\<lambda>d'.
     return (document_to_dict d')))))"

definition rest_delete_document :: "content_env \<Rightarrow> string \<Rightarrow> string \<Rightarrow> user \<Rightarrow> (content, unit) prog" where
  "rest_delete_document e project_id document_id u =
     bindP (writable_project e project_id u) (\<lambda>_.
     bindP (project_doc e project_id document_id) (\<lambda>d.
     remove_document e document_id d))"

definition rest_list_versions :: "content_env \<Rightarrow> string \<Rightarrow> string \<Rightarrow> nat \<Rightarrow> nat \<Rightarrow> user \<Rightarrow> (content, jdict) prog" where
  "rest_list_versions e project_id document_id limit skip u =
     bindP (rest_project e project_id u) (\<lambda>_.
     bindP (project_doc e project_id document_id) (\<lambda>d.
     bindP (versions_of (d_id d)) (\<lambda>vs. return (history_page e d vs limit skip))))"

definition rest_get_version :: "content_env \<Rightarrow> string \<Rightarrow> string \<Rightarrow> int \<Rightarrow> user \<Rightarrow> (content, jdict) prog" where
  "rest_get_version e project_id document_id n u =
     bindP (rest_project e project_id u) (\<lambda>_.
     bindP (project_doc e project_id document_id) (\<lambda>d.
     bindP (find_version (d_id d) n) (\<lambda>v0.
     bindP (some_or v0 (HTTPException 404 (JStr (''Version '' @ str_int n @ '' not found'')))) (\<lambda>v.
     return (document_version_to_dict v)))))"

definition rest_list_documents ::
  "content_env \<Rightarrow> string \<Rightarrow> string option \<Rightarrow> string option \<Rightarrow> string option \<Rightarrow> nat \<Rightarrow> nat \<Rightarrow> user \<Rightarrow> (content, jdict) prog" where
  "rest_list_documents e project_id category tag search limit skip u =
     bindP (rest_project e project_id u) (\<lambda>_.
     bindP (case truthy category of None \<Rightarrow> return () | Some c \<Rightarrow> guard (parse_document_category c \<noteq> None) (bad_category c)) (\<lambda>_.
     bindP (gets (\<lambda>s. filter (\<lambda>d. live_document project_id category tag d \<and>
       (case truthy search of None \<Rightarrow> True | Some q \<Rightarrow> matches_text (py_strip q) (d_title d) (d_content d) (d_tags d))) (cs_documents s))) (\<lambda>found.
     return (content_page (JObj \<circ> document_to_dict) limit skip found (mongo_sort (ce_base e) d_id (\<lambda>d. (int (d_sort_order d), - d_updated_at d)) found)))))"

text \<open>Renumbering: a document of the list that is not yet at its position is written.\<close>

fun reorder_documents_loop :: "nat \<Rightarrow> string list \<Rightarrow> project_document list \<Rightarrow> project_document list \<Rightarrow> project_document list \<times> nat" where
  "reorder_documents_loop i [] found docs = (docs, 0)"
| "reorder_documents_loop i (did # dids) found docs =
     (case coll_get d_id found did of
        None \<Rightarrow> reorder_documents_loop (i + 1) dids found docs
      | Some d \<Rightarrow>
          if d_sort_order d = i then reorder_documents_loop (i + 1) dids found docs
          else let d' = d\<lparr>d_sort_order := i\<rparr>;
                   (docs', n) = reorder_documents_loop (i + 1) dids (coll_save d_id d' found) (coll_save d_id d' docs)
               in (docs', n + 1))"

definition rest_reorder_documents :: "content_env \<Rightarrow> string \<Rightarrow> string list \<Rightarrow> user \<Rightarrow> (content, jdict) prog" where
  "rest_reorder_documents e project_id dids u =
     bindP (writable_project e project_id u) (\<lambda>_.
     bindP (guard (list_all (oid_valid (ce_base e)) dids) (HTTPException 400 (JStr ''Invalid document ID''))) (\<lambda>_.
     bindP (gets (\<lambda>s. reorder_documents_loop 0 dids
       (filter (\<lambda>d. d_id d \<in> oid_canon (ce_base e) ` set dids \<and> d_project_id d = project_id \<and> \<not> d_is_deleted d) (cs_documents s))
       (cs_documents s))) (\<lambda>(docs, n).
     bindP (modify (\<lambda>s. s\<lparr>cs_documents := docs\<rparr>)) (\<lambda>_.
     return [(''reordered'', JInt (int n))]))))"

section \<open>Requests\<close>

datatype document_op =
    Create_document mcp_request string string string "string list option" string
  | Get_document mcp_request string
  | Update_document mcp_request string document_changes
  | Delete_document mcp_request string
  | List_documents mcp_request string "string option" "string option" nat int
  | Search_documents mcp_request string string "string option" "string option" nat int
  | Document_history mcp_request string nat int
  | Document_version mcp_request string int
  | Post_document string create_document_request user
  | Read_document string string user
  | Patch_document string string document_changes user
  | Remove_document string string user
  | Read_documents string "string option" "string option" "string option" nat nat user
  | Read_versions string string nat nat user
  | Read_version string string int user
  | Reorder_documents string "string list" user

primrec serve_document :: "content_env \<Rightarrow> document_op \<Rightarrow> (content, jdict) prog" where
  "serve_document e (Create_document rq project title body tags category) = mcp_create_document e rq project title body tags category"
| "serve_document e (Get_document rq i) = mcp_get_document e rq i"
| "serve_document e (Update_document rq i c) = mcp_update_document e rq i c"
| "serve_document e (Delete_document rq i) = mcp_delete_document e rq i"
| "serve_document e (List_documents rq project category tag limit skip) = mcp_list_documents e rq project category tag limit skip"
| "serve_document e (Search_documents rq query project category tag limit skip) = mcp_search_documents e rq query project category tag limit skip"
| "serve_document e (Document_history rq i limit skip) = mcp_get_document_history e rq i limit skip"
| "serve_document e (Document_version rq i n) = mcp_get_document_version e rq i n"
| "serve_document e (Post_document p body u) = rest_create_document e p body u"
| "serve_document e (Read_document p i u) = rest_get_document e p i u"
| "serve_document e (Patch_document p i c u) = rest_update_document e p i c u"
| "serve_document e (Remove_document p i u) = bindP (rest_delete_document e p i u) (\<lambda>_. return [])"
| "serve_document e (Read_documents p category tag search limit skip u) = rest_list_documents e p category tag search limit skip u"
| "serve_document e (Read_versions p i limit skip u) = rest_list_versions e p i limit skip u"
| "serve_document e (Read_version p i n u) = rest_get_version e p i n u"
| "serve_document e (Reorder_documents p dids u) = rest_reorder_documents e p dids u"

end
