(* ===== verification/Markdown_Import.thy ===== *)
theory Markdown_Import
  imports Documents Task_Rest
begin

text \<open>
  Markdown files with a header of keys and values (services/markdown_import.py), and the import of
  such files as documents (api/v1/endpoints/documents.py). An uploaded file is its name, its size in
  bytes and its text, if the bytes are UTF-8. A file with a header, as its description shows one,
  gives back the title, tags, category and text it was written with.
\<close>

section \<open>Text\<close>

definition ends_with :: "string \<Rightarrow> string \<Rightarrow> bool" where
  "ends_with suf s = is_prefix (rev suf) (rev s)"

text \<open>\<open>str.splitlines\<close> on the first 256 code points; the pair of return and newline is one line end.\<close>

definition line_end :: "char \<Rightarrow> bool" where
  "line_end c = (let n = (of_char c :: nat) in (10 \<le> n \<and> n \<le> 13) \<or> (28 \<le> n \<and> n \<le> 30) \<or> n = 133)"

fun splitlines_from :: "string \<Rightarrow> string \<Rightarrow> string list" where
  "splitlines_from cur [] = (if cur = [] then [] else [rev cur])"
| "splitlines_from cur (c # s) =
     (if line_end c then rev cur # (if c = CHR 13 \<and> take 1 s = [CHR 10] then splitlines_from [] (drop 1 s) else splitlines_from [] s)
      else splitlines_from (c # cur) s)"

definition splitlines :: "string \<Rightarrow> string list" where
  "splitlines s = splitlines_from [] s"

definition strip_quotes :: "string \<Rightarrow> string" where
  "strip_quotes s =
     (let v = py_strip s in
      if 2 \<le> length v \<and> hd v = last v \<and> hd v \<in> {CHR 39, CHR 34} then butlast (tl v) else v)"

definition parse_inline_list :: "string \<Rightarrow> string list" where
  "parse_inline_list s =
     (let v = py_strip s in
      if take 1 v = ''['' \<and> ends_with '']'' v
      then map strip_quotes (filter (\<lambda>p. py_strip p \<noteq> []) (split_on CHR '','' (butlast (tl v))))
      else [])"

section \<open>The header\<close>

datatype meta_value = Scalar string | Items "string list"

text \<open>A line of a block list: white space, a dash, and at least one more character.\<close>

definition block_item :: "string \<Rightarrow> string option" where
  "block_item l =
     (let r = dropWhile py_space l in
      if take 1 l \<noteq> [] \<and> py_space (hd l) \<and> take 1 r = ''-'' \<and> tl r \<noteq> [] then Some (strip_quotes (tl r)) else None)"

fun block_items :: "string list \<Rightarrow> string list \<times> string list" where
  "block_items [] = ([], [])"
| "block_items (l # ls) =
     (if py_strip l = [] then block_items ls
      else case block_item l of
        None \<Rightarrow> ([], l # ls)
      | Some x \<Rightarrow> (case block_items ls of (xs, rest) \<Rightarrow> (x # xs, rest)))"

lemma block_items_shorter: "length (snd (block_items ls)) \<le> length ls"
  by (induction ls) (auto simp: case_prod_unfold split: option.split)

function parse_frontmatter_lines :: "string list \<Rightarrow> (string \<times> meta_value) list \<Rightarrow> (string \<times> meta_value) list" where
  "parse_frontmatter_lines [] out = out"
| "parse_frontmatter_lines (l # ls) out =
     (let stripped = py_strip l in
      if stripped = [] \<or> take 1 stripped = ''#'' \<or> CHR '':'' \<notin> set l then parse_frontmatter_lines ls out
      else let k = py_strip (takeWhile (\<lambda>c. c \<noteq> CHR '':'') l);
               v = py_strip (tl (dropWhile (\<lambda>c. c \<noteq> CHR '':'') l)) in
        if v \<noteq> [] then
          parse_frontmatter_lines ls
            ((k, if take 1 v = ''['' \<and> ends_with '']'' v then Items (parse_inline_list v) else Scalar (strip_quotes v)) # out)
        else let (items, rest) = block_items ls in
          parse_frontmatter_lines rest (if items \<noteq> [] then (k, Items items) # out else out))"
  by pat_completeness auto
termination
proof (relation "measure (length \<circ> fst)")
  fix l ls out stripped k v a items rest
  assume "a = block_items ls" and "(items, rest) = a"
  then have "rest = snd (block_items ls)" by (metis snd_conv)
  then show "((rest, if items \<noteq> [] then (k, Items items) # out else out), (l # ls, out)) \<in> measure (length \<circ> fst)"
    using block_items_shorter [of ls] by simp
qed simp_all

text \<open>The dictionary keeps the newest pair first, so that \<open>map_of\<close> reads the last one set.\<close>

definition parse_frontmatter :: "string \<Rightarrow> (string \<times> meta_value) list" where
  "parse_frontmatter s = parse_frontmatter_lines (splitlines s) []"

text \<open>
  The match of the header's pattern: three dashes, white space, a line end, the header, a line end,
  three dashes, white space and the body. The white space behind the first dashes takes as much as
  it can and gives back what a match needs, the header is as short as possible, and the white space
  behind the last dashes, line ends included, is skipped.
\<close>

fun split_header :: "string \<Rightarrow> string \<Rightarrow> (string \<times> string) option" where
  "split_header fm [] = None"
| "split_header fm (c # s) =
     (if is_prefix (CHR 13 # CHR 10 # ''---'') (c # s) then Some (rev fm, dropWhile py_space (drop 5 (c # s)))
      else if is_prefix (CHR 10 # ''---'') (c # s) then Some (rev fm, dropWhile py_space (drop 4 (c # s)))
      else split_header (c # fm) s)"

definition first_line_ends :: "string \<Rightarrow> nat \<Rightarrow> string list" where
  "first_line_ends s k =
     (let r = drop k s in
      (if is_prefix [CHR 13, CHR 10] r then [drop 2 r] else []) @ (if is_prefix [CHR 10] r then [drop 1 r] else []))"

fun first_some :: "('a \<Rightarrow> 'b option) \<Rightarrow> 'a list \<Rightarrow> 'b option" where
  "first_some f [] = None"
| "first_some f (x # xs) = (case f x of None \<Rightarrow> first_some f xs | Some y \<Rightarrow> Some y)"

definition frontmatter_match :: "string \<Rightarrow> (string \<times> string) option" where
  "frontmatter_match raw =
     (if \<not> is_prefix ''---'' raw then None
      else let s = drop 3 raw; run = length (takeWhile py_space s) in
        first_some (split_header []) (concat (map (first_line_ends s) (rev [0..<run + 1]))))"

section \<open>Files\<close>

record parsed_markdown =
  pm_title :: string
  pm_content :: string
  pm_tags :: "string list"
  pm_category :: "string option"

definition cut_suffix :: "string \<Rightarrow> string \<Rightarrow> string" where
  "cut_suffix suf s = (if ends_with suf (py_lower s) then take (length s - length suf) s else s)"

definition fallback_title :: "string \<Rightarrow> string" where
  "fallback_title filename =
     (let t = py_strip (cut_suffix ''.markdown'' (cut_suffix ''.md'' (path_name filename)))
      in if t = [] then ''Untitled'' else t)"

definition meta_title :: "string \<Rightarrow> meta_value option \<Rightarrow> string" where
  "meta_title fallback v = (case v of Some (Scalar t) \<Rightarrow> if py_strip t \<noteq> [] then py_strip t else fallback | _ \<Rightarrow> fallback)"

definition meta_tags :: "meta_value option \<Rightarrow> string list" where
  "meta_tags v = (case v of
     None \<Rightarrow> []
   | Some (Items ts) \<Rightarrow> normalize_tags ts
   | Some (Scalar t) \<Rightarrow> if py_strip t \<noteq> [] then normalize_tags (split_on CHR '','' t) else [])"

definition meta_category :: "meta_value option \<Rightarrow> string option" where
  "meta_category v = (case v of Some (Scalar t) \<Rightarrow> if py_strip t \<noteq> [] then Some (py_strip t) else None | _ \<Rightarrow> None)"

definition parse_markdown_file :: "string \<Rightarrow> string \<Rightarrow> parsed_markdown" where
  "parse_markdown_file filename raw =
     (case frontmatter_match raw of
        None \<Rightarrow> \<lparr>pm_title = fallback_title filename, pm_content = raw, pm_tags = [], pm_category = None\<rparr>
      | Some (fm, body) \<Rightarrow>
          let meta = map_of (parse_frontmatter fm) in
          \<lparr>pm_title = meta_title (fallback_title filename) (meta ''title''), pm_content = dropWhile (\<lambda>c. c = CHR 10) body,
           pm_tags = meta_tags (meta ''tags''), pm_category = meta_category (meta ''category'')\<rparr>)"

section \<open>Import of documents\<close>

record markdown_upload =
  mu_filename :: "string option"
  mu_bytes :: nat
  mu_text :: "string option"

definition upload_name :: "markdown_upload \<Rightarrow> string" where
  "upload_name f = (case truthy (mu_filename f) of None \<Rightarrow> ''untitled.md'' | Some n \<Rightarrow> n)"

definition import_error :: "string \<Rightarrow> string \<Rightarrow> json" where
  "import_error name msg = JObj [(''filename'', JStr name), (''error'', JStr msg)]"

text \<open>A file that is accepted gives a parsed file, another one the entry of the list of errors.\<close>

definition accept_upload :: "nat \<Rightarrow> markdown_upload \<Rightarrow> json + parsed_markdown" where
  "accept_upload max_bytes f =
     (let name = upload_name f; lower = py_lower name in
      if \<not> (ends_with ''.md'' lower \<or> ends_with ''.markdown'' lower) then Inl (import_error name ''Not a Markdown file'')
      else if mu_bytes f > max_bytes then Inl (import_error name ''File too large'')
      else case mu_text f of
        None \<Rightarrow> Inl (import_error name ''Not valid UTF-8'')
      | Some t \<Rightarrow> Inr (parse_markdown_file name t))"

definition import_max_files :: nat where
  "import_max_files = 50"

definition import_answer :: "json list \<times> json list \<Rightarrow> jdict" where
  "import_answer r = (case r of (created, errors) \<Rightarrow>
     [(''created'', JList created), (''errors'', JList errors), (''imported'', JInt (int (length created))),
      (''skipped'', JInt (int (length errors)))])"

definition imported_document :: "content_env \<Rightarrow> string \<Rightarrow> string \<Rightarrow> string \<Rightarrow> parsed_markdown \<Rightarrow> project_document" where
  "imported_document e i project_id creator p =
     new_document e i project_id (take 255 (pm_title p)) (pm_tags p)
       (case (case pm_category p of None \<Rightarrow> None | Some c \<Rightarrow> parse_document_category c) of None \<Rightarrow> Cat_spec | Some c \<Rightarrow> c)
       (take 100000 (pm_content p)) creator"

text \<open>The files in turn; \<open>n\<close> counts the documents created so far, each of which gets an identifier of its own.\<close>

primrec import_files :: "content_env \<Rightarrow> string \<Rightarrow> string \<Rightarrow> markdown_upload list \<Rightarrow> nat \<Rightarrow> (content, json list \<times> json list) prog" where
  "import_files e project_id creator [] n = return ([], [])"
| "import_files e project_id creator (f # fs) n =
     (case accept_upload 100000 f of
        Inl err \<Rightarrow> bindP (import_files e project_id creator fs n) (\<lambda>(created, errors). return (created, err # errors))
      | Inr p \<Rightarrow>
          bindP (insert_document e (imported_document e (new_oid (ce_base e) n) project_id creator p)) (\<lambda>d.
          bindP (import_files e project_id creator fs (n + 1)) (\<lambda>(created, errors).
          return (JObj (document_to_dict d) # created, errors))))"

definition import_documents :: "content_env \<Rightarrow> string \<Rightarrow> markdown_upload list \<Rightarrow> user \<Rightarrow> (content, jdict) prog" where
  "import_documents e project_id files u =
     bindP (writable_project e project_id u) (\<lambda>_.
     bindP (guard (length files \<le> import_max_files) (HTTPException 400 (JStr ''Too many files (max 50)''))) (\<lambda>_.
     bindP (import_files e project_id (u_id u) files 0) (\<lambda>r.
     return (import_answer r))))"

end
