(* ===== verification/Document_History.thy ===== *)
theory Document_History
  imports Markdown_Import
begin

text \<open>
  Documents as append-only histories: what is stored of a document and its versions amounts to the
  list of all its revisions, every request adds at most one revision to one of these lists, and
  each earlier revision can be read back under its number.
\<close>

section \<open>The abstraction\<close>

interpretation document_store: doc_store d_id "coll_get d_id" "coll_save d_id" coll_insert set "keys_distinct d_id"
  by (rule coll_doc_store)

type_synonym revision = "string \<times> string \<times> string list \<times> document_category"

definition revision_of :: "project_document \<Rightarrow> revision" where
  "revision_of d = (d_title d, d_content d, d_tags d, d_category d)"

definition revision_at :: "document_version \<Rightarrow> revision" where
  "revision_at v = (v_title v, v_content v, v_tags v, v_category v)"

type_synonym documents = "project_document list \<times> document_version list"

definition doc_part :: "content \<Rightarrow> documents" where
  "doc_part s = (cs_documents s, cs_versions s)"

definition versions_for :: "string \<Rightarrow> documents \<Rightarrow> document_version list" where
  "versions_for i p = filter (\<lambda>v. v_document_id v = i) (snd p)"

text \<open>The revisions of a document, oldest first; the last one is the document itself.\<close>

definition history :: "documents \<Rightarrow> string \<rightharpoonup> revision list" where
  "history p i = map_option (\<lambda>d. map revision_at (versions_for i p) @ [revision_of d]) (coll_get d_id (fst p) i)"

text \<open>Identifiers are unique, and the versions of a document are numbered from one, without gaps, up to its own number.\<close>

definition docs_ok :: "documents \<Rightarrow> bool" where
  "docs_ok p \<longleftrightarrow> keys_distinct d_id (fst p) \<and>
     (\<forall>d \<in> set (fst p). 1 \<le> d_version d \<and> map v_version (versions_for (d_id d) p) = [1..<d_version d]) \<and>
     (\<forall>v \<in> set (snd p). v_document_id v \<in> d_id ` set (fst p))"

text \<open>The abstract system: nothing happens, a history starts, or a revision is appended to one.\<close>

inductive history_step :: "(string \<rightharpoonup> revision list) \<Rightarrow> (string \<rightharpoonup> revision list) \<Rightarrow> bool" where
  stay: "history_step h h"
| new: "h i = None \<Longrightarrow> history_step h (h(i \<mapsto> [r]))"
| append: "h i = Some rs \<Longrightarrow> history_step h (h(i \<mapsto> rs @ [r]))"

definition refines :: "documents \<Rightarrow> documents \<Rightarrow> bool" where
  "refines p p' \<longleftrightarrow> docs_ok p' \<and> history_step (history p) (history p')"

lemma refines_refl: "docs_ok p \<Longrightarrow> refines p p"
  by (simp add: refines_def history_step.stay)

section \<open>Writes\<close>

lemma refines_insert:
  assumes ok: "docs_ok (ds, vs)" and new: "d_id d \<notin> d_id ` set ds" and one: "d_version d = 1"
  shows "refines (ds, vs) (coll_insert d ds, vs)"
proof -
  have none: "versions_for (d_id d) (ds, vs) = []"
    using ok new unfolding docs_ok_def versions_for_def filter_empty_conv fst_conv snd_conv by metis
  have vs: "versions_for i (coll_insert d ds, vs) = versions_for i (ds, vs)" for i by (simp add: versions_for_def)
  have keys: "keys_distinct d_id ds" using ok by (simp add: docs_ok_def)
  have free: "coll_get d_id ds (d_id d) = None" using new by (metis coll_get_None imageI)
  have "docs_ok (coll_insert d ds, vs)"
    using ok new one none vs by (auto simp: docs_ok_def keys_distinct_def coll_insert_def)
  moreover have "history (coll_insert d ds, vs) = (history (ds, vs))(d_id d \<mapsto> [revision_of d])"
    using document_store.get_insert [OF keys free] by (auto simp: history_def vs none fun_eq_iff)
  moreover have "history (ds, vs) (d_id d) = None" using free by (simp add: history_def)
  ultimately show ?thesis unfolding refines_def by (simp add: history_step.new)
qed

text \<open>A write to one document, whose identifier stays.\<close>

lemma saved_document:
  assumes keys: "keys_distinct d_id ds" and get: "coll_get d_id ds (d_id d) = Some d" and i: "d_id d' = d_id d"
  shows "coll_get d_id (coll_save d_id d' ds) j = (if j = d_id d then Some d' else coll_get d_id ds j)"
    and "keys_distinct d_id (coll_save d_id d' ds)"
    and "set (coll_save d_id d' ds) = {x \<in> set ds. d_id x \<noteq> d_id d} \<union> {d'}"
    and "d_id ` set (coll_save d_id d' ds) = d_id ` set ds"
proof -
  have g: "coll_get d_id ds (d_id d') = Some d" using get i by simp
  show "coll_get d_id (coll_save d_id d' ds) j = (if j = d_id d then Some d' else coll_get d_id ds j)"
    using document_store.get_save [OF keys g] i by simp
  show "keys_distinct d_id (coll_save d_id d' ds)" by (rule document_store.inv_save [OF keys g])
  show "set (coll_save d_id d' ds) = {x \<in> set ds. d_id x \<noteq> d_id d} \<union> {d'}"
    using document_store.docs_save [OF keys g] i by simp
  show "d_id ` set (coll_save d_id d' ds) = d_id ` set ds"
    using coll_save_keys [OF g] by (metis list.set_map)
qed

text \<open>A write that changes neither the revision nor its number.\<close>

lemma unrevised_save:
  assumes ok: "docs_ok (ds, vs)" and get: "coll_get d_id ds (d_id d) = Some d"
    and same: "d_id d' = d_id d" "d_version d' = d_version d" "revision_of d' = revision_of d"
  shows "docs_ok (coll_save d_id d' ds, vs) \<and> history (coll_save d_id d' ds, vs) = history (ds, vs)"
proof -
  have keys: "keys_distinct d_id ds" using ok by (simp add: docs_ok_def)
  note saved = saved_document [OF keys get same(1)]
  have vs: "versions_for i (coll_save d_id d' ds, vs) = versions_for i (ds, vs)" for i by (simp add: versions_for_def)
  have d: "d \<in> set ds" using get by (auto dest: coll_get_in)
  have "docs_ok (coll_save d_id d' ds, vs)"
    using ok d same saved(2,4) unfolding docs_ok_def vs fst_conv snd_conv saved(3) by auto
  moreover have "history (coll_save d_id d' ds, vs) = history (ds, vs)"
    using get saved(1) same vs by (auto simp: history_def fun_eq_iff)
  ultimately show ?thesis by simp
qed

text \<open>A write that stores the old revision as a version and raises the number.\<close>

lemma refines_revise:
  assumes ok: "docs_ok (ds, vs)" and get: "coll_get d_id ds (d_id d) = Some d"
    and new: "d_id d' = d_id d" "d_version d' = d_version d + 1"
    and v: "v_document_id v = d_id d" "v_version v = d_version d" "revision_at v = revision_of d"
  shows "refines (ds, vs) (coll_save d_id d' ds, coll_insert v vs)"
proof -
  let ?p' = "(coll_save d_id d' ds, coll_insert v vs)"
  have keys: "keys_distinct d_id ds" using ok by (simp add: docs_ok_def)
  note saved = saved_document [OF keys get new(1)]
  have vs: "versions_for i ?p' = versions_for i (ds, vs) @ (if i = d_id d then [v] else [])" for i
    using v by (simp add: versions_for_def coll_insert_def)
  have d: "d \<in> set ds" using get by (auto dest: coll_get_in)
  have "docs_ok ?p'"
    using ok d new v saved(2,4) unfolding docs_ok_def vs fst_conv snd_conv saved(3) by (auto simp: coll_insert_def)
  moreover have "history ?p' = (history (ds, vs))(d_id d \<mapsto> (map revision_at (versions_for (d_id d) (ds, vs)) @ [revision_of d]) @ [revision_of d'])"
    using get saved(1) v vs by (auto simp: history_def fun_eq_iff)
  moreover have "history (ds, vs) (d_id d) = Some (map revision_at (versions_for (d_id d) (ds, vs)) @ [revision_of d])"
    using get by (simp add: history_def)
  ultimately show ?thesis unfolding refines_def by (metis history_step.append)
qed

text \<open>Renumbering the positions of documents.\<close>

lemma reorder_keeps_history:
  assumes "docs_ok (docs, vs)" and "keys_distinct d_id found" and "\<forall>d \<in> set found. coll_get d_id docs (d_id d) = Some d"
  shows "docs_ok (fst (reorder_documents_loop n dids found docs), vs) \<and>
    history (fst (reorder_documents_loop n dids found docs), vs) = history (docs, vs)"
  using assms
proof (induction n dids found docs rule: reorder_documents_loop.induct)
  case (2 n did dids found docs)
  show ?case
  proof (cases "coll_get d_id found did")
    case None
    with 2 show ?thesis by simp
  next
    case (Some d)
    let ?d = "d\<lparr>d_sort_order := n\<rparr>"
    have d: "d \<in> set found" "d_id d = did" using coll_get_in [OF Some] by auto
    have get: "coll_get d_id found (d_id d) = Some d" "coll_get d_id docs (d_id d) = Some d"
      using Some d "2.prems"(3) by auto
    have keys: "keys_distinct d_id docs" using "2.prems"(1) by (simp add: docs_ok_def)
    have step: "docs_ok (coll_save d_id ?d docs, vs) \<and> history (coll_save d_id ?d docs, vs) = history (docs, vs)"
      by (rule unrevised_save [OF "2.prems"(1) get(2)]) (simp_all add: revision_of_def)
    have next_found: "\<forall>x \<in> set (coll_save d_id ?d found). coll_get d_id (coll_save d_id ?d docs) (d_id x) = Some x"
      using "2.prems"(3) saved_document(3) [OF "2.prems"(2) get(1), of ?d] saved_document(1) [OF keys get(2), of ?d] by auto
    have next_keys: "keys_distinct d_id (coll_save d_id ?d found)"
      by (rule saved_document(2) [OF "2.prems"(2) get(1)]) simp
    show ?thesis
    proof (cases "d_sort_order d = n")
      case True
      with 2 Some show ?thesis by simp
    next
      case False
      with "2.IH"(3) [OF Some False refl] step next_found next_keys Some show ?thesis
        by (simp add: case_prod_unfold Let_def)
    qed
  qed
qed simp

section \<open>Requests\<close>

definition fresh_for :: "content_env \<Rightarrow> documents \<Rightarrow> bool" where
  "fresh_for e p \<longleftrightarrow> docs_ok p \<and> new_oid (ce_base e) 0 \<notin> d_id ` set (fst p)"

lemma doc_part_apart: "apart doc_part cs_app_update" "apart doc_part cs_index_update"
  by (simp_all add: apart_def doc_part_def)

lemmas quiet_index = quiet_index_entity [OF doc_part_apart]

lemma quiet_document_index: "keeps (same doc_part) (index_document e d)" "keeps (same doc_part) (deindex_document e i)"
  by (simp_all add: index_document_def deindex_document_def quiet_index)

lemma quiet_tool_document: "keeps (same doc_part) (tool_document e ki i)"
  unfolding tool_document_def by (intro part.keeps_intros quiet_content_get quiet_on_app doc_part_apart)

lemma quiet_project_doc: "keeps (same doc_part) (project_doc e p i)"
  unfolding project_doc_def by (intro part.keeps_intros quiet_content_get)

lemma quiet_rest_project: "keeps (same doc_part) (rest_project e p u)" "keeps (same doc_part) (writable_project e p u)"
  unfolding writable_project_def rest_project_def by (intro part.keeps_intros quiet_on_app doc_part_apart)+

lemma quiet_versions: "keeps (same doc_part) (versions_of i)" "keeps (same doc_part) (find_version i n)"
  by (simp_all add: versions_of_def find_version_def part.keeps_gets)

lemma quiet_ranked: "keeps (same doc_part) (ranked_documents e p tag rs)"
  unfolding ranked_documents_def by (intro part.keeps_intros)

lemma quiet_category: "keeps (same doc_part) (check_category_filter c)"
  unfolding check_category_filter_def by (intro part.keeps_intros)

lemmas quiet_intros = part.keeps_intros quiet_on_app [OF doc_part_apart(1)] quiet_document_index quiet_tool_document
  quiet_project_doc quiet_rest_project quiet_versions quiet_ranked quiet_category

text \<open>The document a request works on is the stored one.\<close>

definition stored :: "project_document \<Rightarrow> documents \<Rightarrow> bool" where
  "stored d p \<longleftrightarrow> coll_get d_id (fst p) (d_id d) = Some d"

lemma content_get_stored:
  "wp (content_get e d_id cs_documents i) (\<lambda>x s'. \<forall>d. x = Some d \<longrightarrow> stored d (doc_part s')) (\<lambda>_ _. True) s"
  using coll_get_in [of d_id "cs_documents s" "oid_canon (ce_base e) i"]
  by (auto simp: content_get_def wp_simps stored_def doc_part_def)

lemma tool_document_stored: "wp (tool_document e ki i) (\<lambda>d s'. stored d (doc_part s')) (\<lambda>_ _. True) s"
proof -
  have "wp (on_app m) (\<lambda>_ s'. stored d (doc_part s')) (\<lambda>_ _. True) s" if "stored d (doc_part s)" for m :: "(world, 'a) prog" and d s
    by (rule wp_keeps [OF quiet_on_app [OF doc_part_apart(1)]]) (use that in \<open>simp_all add: same_def\<close>)
  then show ?thesis
    unfolding tool_document_def wp_bindP
    by (intro wp_mono [OF content_get_stored]) (auto simp: wp_simps wp_return_fn split: option.split)
qed

lemma project_doc_stored: "wp (project_doc e p i) (\<lambda>d s'. stored d (doc_part s')) (\<lambda>_ _. True) s"
  unfolding project_doc_def wp_bindP
  by (intro wp_mono [OF content_get_stored]) (auto simp: wp_simps split: option.split)

text \<open>The writes as transactions.\<close>

abbreviation document_transaction :: "content_env \<Rightarrow> (documents \<Rightarrow> bool) \<Rightarrow> (content, 'a) prog \<Rightarrow> bool" where
  "document_transaction e Q m \<equiv> transacts doc_part (\<lambda>p. fresh_for e p \<and> Q p) refines m"

lemma fresh_refl: "fresh_for e p \<and> Q p \<Longrightarrow> refines p p"
  by (simp add: fresh_for_def refines_refl)

lemma insert_transaction:
  assumes "d_id d = new_oid (ce_base e) 0" and "d_version d = 1"
  shows "document_transaction e Q (insert_document e d)"
  unfolding insert_document_def
proof (rule transacts_after)
  show "document_transaction e Q (modify (\<lambda>s. s\<lparr>cs_documents := coll_insert d (cs_documents s)\<rparr>))"
    using refines_insert [of _ _ d] assms by (simp add: transacts_wp wp_simps doc_part_def fresh_for_def)
qed (intro quiet_intros)

lemma revise_transaction: "document_transaction e (stored d) (revise_document e u c d)"
  unfolding transacts_wp
proof (intro allI impI)
  fix s
  assume ok: "fresh_for e (doc_part s) \<and> stored d (doc_part s)"
  let ?p = "(coll_save d_id (apply_changes c d\<lparr>d_updated_at := now (ce_base e)\<rparr>) (cs_documents s), coll_insert (snapshot e u c d) (cs_versions s))"
  have "refines (doc_part s) ?p"
    using ok unfolding doc_part_def
    by (intro refines_revise) (auto simp: fresh_for_def stored_def apply_changes_def snapshot_def revision_at_def revision_of_def)
  then show "wp (revise_document e u c d) (\<lambda>_ s'. refines (doc_part s) (doc_part s')) (\<lambda>_ s'. refines (doc_part s) (doc_part s')) s"
    unfolding revise_document_def save_document_def Let_def
    by (simp only: wp_simps) (rule wp_keeps [OF quiet_document_index(1)], simp_all add: wp_simps same_def doc_part_def)
qed

lemma remove_transaction: "document_transaction e (stored d) (remove_document e i d)"
  unfolding remove_document_def save_document_def Let_def
proof (rule transacts_after)
  let ?d = "d\<lparr>d_is_deleted := True, d_updated_at := now (ce_base e)\<rparr>"
  have "refines (ds, vs) (coll_save d_id ?d ds, vs)" if "docs_ok (ds, vs)" "coll_get d_id ds (d_id d) = Some d" for ds vs
    using unrevised_save [OF that, of ?d] history_step.stay by (auto simp: refines_def revision_of_def)
  then show "document_transaction e (stored d) (bindP (modify (\<lambda>s. s\<lparr>cs_documents := coll_save d_id ?d (cs_documents s)\<rparr>)) (\<lambda>_. return ?d))"
    by (simp add: transacts_wp wp_simps doc_part_def fresh_for_def stored_def)
qed (intro quiet_intros)

lemma reorder_transaction:
  "document_transaction e Q (bindP (gets (\<lambda>s. reorder_documents_loop n dids (filter F (cs_documents s)) (cs_documents s)))
     (\<lambda>(docs, k). bindP (modify (\<lambda>s. s\<lparr>cs_documents := docs\<rparr>)) (\<lambda>_. return (r k))))"
proof -
  have "refines (ds, vs) (fst (reorder_documents_loop n dids (filter F ds) ds), vs)" if ok: "docs_ok (ds, vs)" for ds vs
  proof -
    have keys: "keys_distinct d_id ds" using ok by (simp add: docs_ok_def)
    have "docs_ok (fst (reorder_documents_loop n dids (filter F ds) ds), vs) \<and>
        history (fst (reorder_documents_loop n dids (filter F ds) ds), vs) = history (ds, vs)"
      by (rule reorder_keeps_history [OF ok])
         (use keys in \<open>auto simp: keys_distinct_def distinct_map_filter coll_get_Some [OF keys]\<close>)
    then show ?thesis using history_step.stay by (auto simp: refines_def)
  qed
  then show ?thesis
    by (simp add: transacts_wp wp_simps doc_part_def fresh_for_def case_prod_unfold)
qed

text \<open>Every request refines a step of the abstract system.\<close>

lemma fetch_tool_document:
  assumes "\<And>d. document_transaction e (stored d) (f d)"
  shows "document_transaction e Q (bindP (tool_document e ki i) f)"
  by (rule transacts_fetch [where T = refines, OF quiet_tool_document fresh_refl tool_document_stored])
     (auto intro: transacts_weaken [OF assms])

lemma fetch_project_doc:
  assumes "\<And>d. document_transaction e (stored d) (f d)"
  shows "document_transaction e Q (bindP (project_doc e p i) f)"
  by (rule transacts_fetch [where T = refines, OF quiet_project_doc fresh_refl project_doc_stored])
     (auto intro: transacts_weaken [OF assms])

lemmas transaction_intros = fetch_tool_document fetch_project_doc transacts_guard [where T = refines, OF fresh_refl]
  transacts_before [where T = refines, OF part.keeps_some_or fresh_refl] transacts_before [where T = refines, OF part.keeps_case_option fresh_refl]
  transacts_before [where T = refines, OF quiet_on_app [OF doc_part_apart(1)] fresh_refl]
  transacts_before [where T = refines, OF quiet_rest_project(1) fresh_refl] transacts_before [where T = refines, OF quiet_rest_project(2) fresh_refl]
  reorder_transaction remove_transaction transacts_after [OF insert_transaction]
  transacts_after [OF revise_transaction] transacts_after [OF remove_transaction]

lemma quiet_transaction: "keeps (same doc_part) m \<Longrightarrow> document_transaction e Q m"
  by (rule transacts_quiet) (auto simp: fresh_for_def refines_refl)

text \<open>Every request refines a step of the abstract system.\<close>

lemma serve_transaction: "document_transaction e (\<lambda>_. True) (serve_document e op)"
proof (cases op)
  case Create_document
  then show ?thesis
    by (simp only: serve_document.simps mcp_create_document_def)
       (intro transaction_intros quiet_intros; simp add: new_document_def)
next
  case Post_document
  then show ?thesis
    by (simp only: serve_document.simps rest_create_document_def)
       (intro transaction_intros quiet_intros; simp add: new_document_def)
next
  case Update_document
  then show ?thesis by (simp only: serve_document.simps mcp_update_document_def) (intro transaction_intros quiet_intros)
next
  case Patch_document
  then show ?thesis by (simp only: serve_document.simps rest_update_document_def) (intro transaction_intros quiet_intros)
next
  case Delete_document
  then show ?thesis by (simp only: serve_document.simps mcp_delete_document_def) (intro transaction_intros quiet_intros)
next
  case (Remove_document project i u)
  have "document_transaction e (\<lambda>_. True) (rest_delete_document e project i u)"
    unfolding rest_delete_document_def by (intro transaction_intros)
  then show ?thesis unfolding Remove_document serve_document.simps by (rule transacts_after) (rule quiet_intros)
next
  case Reorder_documents
  then show ?thesis by (simp only: serve_document.simps rest_reorder_documents_def) (intro transaction_intros)
next
  case Get_document
  then show ?thesis by (simp only: serve_document.simps mcp_get_document_def) (intro quiet_transaction quiet_intros)
next
  case List_documents
  then show ?thesis by (simp only: serve_document.simps mcp_list_documents_def) (intro quiet_transaction quiet_intros)
next
  case Search_documents
  then show ?thesis by (simp only: serve_document.simps mcp_search_documents_def) (intro quiet_transaction quiet_intros)
next
  case Document_history
  then show ?thesis by (simp only: serve_document.simps mcp_get_document_history_def) (intro quiet_transaction quiet_intros)
next
  case Document_version
  then show ?thesis by (simp only: serve_document.simps mcp_get_document_version_def) (intro quiet_transaction quiet_intros)
next
  case Read_document
  then show ?thesis by (simp only: serve_document.simps rest_get_document_def) (intro quiet_transaction quiet_intros)
next
  case Read_documents
  then show ?thesis by (simp only: serve_document.simps rest_list_documents_def) (intro quiet_transaction quiet_intros)
next
  case Read_versions
  then show ?thesis by (simp only: serve_document.simps rest_list_versions_def) (intro quiet_transaction quiet_intros)
next
  case Read_version
  then show ?thesis by (simp only: serve_document.simps rest_get_version_def) (intro quiet_transaction quiet_intros)
qed

text \<open>An import starts one history after the other.\<close>

lemma insert_part:
  "wp (insert_document e d) (\<lambda>_ s'. doc_part s' = (coll_insert d (cs_documents s), cs_versions s))
     (\<lambda>_ s'. doc_part s' = (coll_insert d (cs_documents s), cs_versions s)) s"
  unfolding insert_document_def
  by (simp only: wp_simps) (rule wp_keeps [OF quiet_document_index(1)], simp_all add: wp_simps same_def doc_part_def)

definition grown :: "documents \<Rightarrow> documents \<Rightarrow> bool" where
  "grown p p' \<longleftrightarrow> docs_ok p' \<and> history_step\<^sup>*\<^sup>* (history p) (history p')"

lemma grown_refl: "docs_ok p \<Longrightarrow> grown p p"
  by (simp add: grown_def)

lemma grown_trans: "refines p q \<Longrightarrow> grown q r \<Longrightarrow> grown p r"
  unfolding grown_def refines_def by (meson converse_rtranclp_into_rtranclp)

lemma import_files_grow:
  assumes "docs_ok (doc_part s)" and "inj (new_oid (ce_base e))" and "\<forall>k \<ge> n. new_oid (ce_base e) k \<notin> d_id ` set (cs_documents s)"
  shows "wp (import_files e pid c fs n) (\<lambda>_ s'. grown (doc_part s) (doc_part s')) (\<lambda>_ s'. grown (doc_part s) (doc_part s')) s"
  using assms(1,3)
proof (induction fs arbitrary: n s)
  case Nil
  then show ?case by (simp add: wp_simps grown_refl)
next
  case (Cons f fs)
  show ?case
  proof (cases "accept_upload 100000 f")
    case (Inl err)
    then show ?thesis
      using Cons.IH [OF Cons.prems] by (simp add: wp_bindP case_prod_unfold wp_return_fn)
  next
    case (Inr p)
    let ?d = "imported_document e (new_oid (ce_base e) n) pid c p"
    have d: "d_id ?d = new_oid (ce_base e) n" "d_version ?d = 1" by (simp_all add: imported_document_def new_document_def)
    have step: "refines (doc_part s) (coll_insert ?d (cs_documents s), cs_versions s)"
      using refines_insert [of "cs_documents s" "cs_versions s" ?d] Cons.prems d by (simp add: doc_part_def)
    have later: "wp (bindP (import_files e pid c fs (n + 1)) g) (\<lambda>_ s'. grown (doc_part s) (doc_part s')) (\<lambda>_ s'. grown (doc_part s) (doc_part s')) t"
      if t: "doc_part t = (coll_insert ?d (cs_documents s), cs_versions s)" and g: "\<And>x. \<exists>y. g x = return y"
      for t and g :: "json list \<times> json list \<Rightarrow> (content, json list \<times> json list) prog"
    proof -
      have ok: "docs_ok (doc_part t)" using step t by (simp add: refines_def)
      have docs: "cs_documents t = coll_insert ?d (cs_documents s)" using t by (simp add: doc_part_def)
      have "new_oid (ce_base e) k \<noteq> new_oid (ce_base e) n" if "n + 1 \<le> k" for k using assms(2) that by (auto dest: injD)
      then have "\<forall>k \<ge> n + 1. new_oid (ce_base e) k \<notin> d_id ` set (cs_documents t)"
        using Cons.prems(2) d by (auto simp: docs coll_insert_def)
      from Cons.IH [OF ok this] have "wp (import_files e pid c fs (n + 1)) (\<lambda>_ s'. grown (doc_part s) (doc_part s')) (\<lambda>_ s'. grown (doc_part s) (doc_part s')) t"
        by (rule wp_mono) (use step t in \<open>auto intro: grown_trans\<close>)
      then show ?thesis unfolding wp_bindP by (rule wp_mono) (use g in \<open>metis wp_return_fn\<close>)+
    qed
    show ?thesis
      unfolding import_files.simps Inr sum.case wp_bindP [of "insert_document _ _"]
      by (rule wp_mono [OF insert_part], rule later, assumption, simp only: case_prod_unfold, blast)
         (use step in \<open>auto simp: refines_def intro: grown_trans [OF step] grown_refl\<close>)
  qed
qed

lemma import_documents_grow:
  assumes "docs_ok (doc_part s)" and "inj (new_oid (ce_base e))" and "\<forall>k. new_oid (ce_base e) k \<notin> d_id ` set (cs_documents s)"
  shows "grown (doc_part s) (doc_part (snd (import_documents e pid files u s)))"
proof -
  have "wp (import_documents e pid files u) (\<lambda>_ s'. grown (doc_part s) (doc_part s')) (\<lambda>_ s'. grown (doc_part s) (doc_part s')) s"
    unfolding import_documents_def wp_bindP [of "writable_project _ _ _"]
  proof (rule wp_keeps [OF quiet_rest_project(2)])
    fix x t assume "same doc_part s t"
    then have t: "doc_part t = doc_part s" by (simp add: same_def)
    have files: "wp (import_files e pid (u_id u) files 0) (\<lambda>_ s'. grown (doc_part s) (doc_part s')) (\<lambda>_ s'. grown (doc_part s) (doc_part s')) t"
      using import_files_grow [of t e 0] assms t by (simp add: doc_part_def)
    show "wp (bindP (guard (length files \<le> import_max_files) (HTTPException 400 (JStr ''Too many files (max 50)'')))
        (\<lambda>_. bindP (import_files e pid (u_id u) files 0) (\<lambda>r. return (import_answer r))))
        (\<lambda>_ s'. grown (doc_part s) (doc_part s')) (\<lambda>_ s'. grown (doc_part s) (doc_part s')) t"
      by (rule wp_guard_then) (use files grown_refl [OF assms(1)] t in \<open>simp_all add: wp_bindP wp_return_fn\<close>)
  qed (simp add: same_def grown_refl [OF assms(1)])
  then show ?thesis by (simp add: wp_snd)
qed

section \<open>Earlier revisions\<close>

text \<open>Any requests, one after the other, each with an identifier that is not in use.\<close>

inductive document_run :: "content \<Rightarrow> content \<Rightarrow> bool" where
  start: "document_run s s"
| request: "document_run s s' \<Longrightarrow> new_oid (ce_base e) 0 \<notin> d_id ` set (cs_documents s') \<Longrightarrow>
    document_run s (snd (serve_document e op s'))"
| import_files: "document_run s s' \<Longrightarrow> inj (new_oid (ce_base e)) \<Longrightarrow> \<forall>k. new_oid (ce_base e) k \<notin> d_id ` set (cs_documents s') \<Longrightarrow>
    document_run s (snd (import_documents e p files u s'))"

inductive_cases history_stepE: "history_step h h'"

lemma history_step_grows: "history_step h h' \<Longrightarrow> h i = Some rs \<Longrightarrow> \<exists>rs'. h' i = Some (rs @ rs')"
  by (erule history_stepE) auto

lemma history_steps_grow: "history_step\<^sup>*\<^sup>* h h' \<Longrightarrow> h i = Some rs \<Longrightarrow> \<exists>rs'. h' i = Some (rs @ rs')"
proof (induction rule: rtranclp_induct)
  case (step h1 h2)
  then show ?case by (metis append.assoc history_step_grows)
qed simp

text \<open>What has been written stays at the start of the history.\<close>

lemma run_grown:
  assumes "document_run s s'" and "docs_ok (doc_part s)"
  shows "grown (doc_part s) (doc_part s')"
  using assms
proof (induction rule: document_run.induct)
  case (start s)
  then show ?case by (rule grown_refl)
next
  case (request s s' e op)
  then have "fresh_for e (doc_part s')" by (simp add: fresh_for_def doc_part_def grown_def)
  then have "refines (doc_part s') (doc_part (snd (serve_document e op s')))"
    using serve_transaction [of e op] by (simp add: transacts_def)
  with request show ?case unfolding grown_def refines_def by (meson rtranclp.rtrancl_into_rtrancl)
next
  case (import_files s s' e p files u)
  then have "grown (doc_part s') (doc_part (snd (import_documents e p files u s')))"
    by (intro import_documents_grow) (simp_all add: grown_def)
  with import_files show ?case unfolding grown_def by (meson rtranclp_trans)
qed

lemma run_grows:
  assumes "document_run s s'" and "docs_ok (doc_part s)"
  shows "docs_ok (doc_part s') \<and> (\<forall>i rs. history (doc_part s) i = Some rs \<longrightarrow> (\<exists>rs'. history (doc_part s') i = Some (rs @ rs')))"
  using run_grown [OF assms] history_steps_grow unfolding grown_def by blast

lemma history_length:
  assumes "docs_ok p" and "coll_get d_id (fst p) i = Some d"
  shows "history p i = Some (map revision_at (versions_for i p) @ [revision_of d])" and "length (versions_for i p) = d_version d - 1" and "1 \<le> d_version d"
proof -
  have d: "d \<in> set (fst p)" "d_id d = i" using coll_get_in [OF assms(2)] by auto
  then have "map v_version (versions_for i p) = [1..<d_version d]" and "1 \<le> d_version d" using assms(1) by (auto simp: docs_ok_def)
  then show "length (versions_for i p) = d_version d - 1" and "1 \<le> d_version d" by (metis length_map length_upt)+
  show "history p i = Some (map revision_at (versions_for i p) @ [revision_of d])" using assms(2) by (simp add: history_def)
qed

text \<open>An earlier revision is found under its number.\<close>

lemma found_version:
  assumes ok: "docs_ok p" and get: "coll_get d_id (fst p) i = Some d" and n: "1 \<le> n" "n < d_version d"
  shows "\<exists>v. List.find (\<lambda>v. v_document_id v = i \<and> int (v_version v) = int n) (snd p) = Some v \<and>
    v_document_id v = i \<and> v_version v = n \<and> v = versions_for i p ! (n - 1)"
proof -
  let ?vs = "versions_for i p"
  have "d \<in> set (fst p)" "d_id d = i" using coll_get_in [OF get] by auto
  then have numbers: "map v_version ?vs = [1..<d_version d]" using ok by (auto simp: docs_ok_def)
  then have len: "length ?vs = d_version d - 1" by (metis length_map length_upt)
  have at: "v_version (?vs ! k) = Suc k" if "k < length ?vs" for k
    using arg_cong [OF numbers, of "\<lambda>xs. xs ! k"] that len by simp
  have in_vs: "v \<in> set ?vs \<longleftrightarrow> v \<in> set (snd p) \<and> v_document_id v = i" for v by (auto simp: versions_for_def)
  have "?vs ! (n - 1) \<in> set ?vs" "v_version (?vs ! (n - 1)) = n" using n len at [of "n - 1"] by auto
  then obtain v where v: "List.find (\<lambda>v. v_document_id v = i \<and> int (v_version v) = int n) (snd p) = Some v"
    using in_vs by (metis (mono_tags, lifting) find_None_iff not_None_eq)
  then have "v \<in> set ?vs" "v_version v = n" using in_vs by (auto simp: find_Some_iff)
  then obtain k where k: "k < length ?vs" "v = ?vs ! k" "Suc k = n" using at by (metis in_set_conv_nth)
  then have "v = ?vs ! (n - 1)" by auto
  with v \<open>v \<in> set ?vs\<close> \<open>v_version v = n\<close> in_vs show ?thesis by auto
qed

lemma content_get_value: "wp (content_get e key docs i) (\<lambda>x s'. x = coll_get key (docs s') (oid_canon (ce_base e) i)) (\<lambda>_ _. True) s"
  by (simp add: content_get_def wp_simps)

lemma tool_document_get:
  "wp (tool_document e ki i) (\<lambda>d s'. coll_get d_id (cs_documents s') (oid_canon (ce_base e) i) = Some d) (\<lambda>_ _. True) s"
proof -
  have "wp (on_app m) (\<lambda>_ s'. coll_get d_id (cs_documents s') j = Some d) (\<lambda>_ _. True) t" if "coll_get d_id (cs_documents t) j = Some d" for m :: "(world, 'a) prog" and j d t
    using that by (auto simp: wp_def on_app_def split: prod.splits sum.splits)
  then show ?thesis
    unfolding tool_document_def wp_bindP
    by (intro wp_mono [OF content_get_value]) (auto simp: wp_simps wp_return_fn split: option.split)
qed

lemma get_document_value:
  assumes "mcp_get_document e rq i s = (Inr r, s')"
  shows "\<exists>d t. r = document_to_dict d \<and> coll_get d_id (cs_documents s) (oid_canon (ce_base e) i) = Some d \<and>
    doc_part t = doc_part s \<and> (\<forall>n. mcp_get_document_version e rq i n s =
      bindP (find_version (d_id d) n) (\<lambda>v0. bindP (some_or v0 (ToolError (''Version '' @ str_int n @ '' not found for document '' @ i)))
        (\<lambda>v. return (document_version_to_dict v))) t)"
proof -
  obtain ki t where ki: "on_app (authenticate (ce_base e) rq) s = (Inr ki, t)"
    and rest: "bindP (tool_document e ki i) (\<lambda>d. return (document_to_dict d)) t = (Inr r, s')"
    using bindP_value [OF assms [unfolded mcp_get_document_def]] by blast
  obtain d t' where d: "tool_document e ki i t = (Inr d, t')" and r: "r = document_to_dict d"
    using bindP_value [OF rest] by (auto simp: return_def)
  have parts: "doc_part t' = doc_part s"
    using keeps_same_value [OF quiet_on_app [OF doc_part_apart(1)] ki] keeps_same_value [OF quiet_tool_document d] by simp
  moreover have "coll_get d_id (cs_documents t') (oid_canon (ce_base e) i) = Some d"
    using wp_value [OF tool_document_get d] .
  ultimately show ?thesis
    using r ki d by (intro exI [of _ d] exI [of _ t']) (simp add: doc_part_def mcp_get_document_version_def bindP_def)
qed

end
