(* ===== verification/Knowledge.thy ===== *)
theory Knowledge
  imports Markdown_Import
begin

text \<open>
  Knowledge entries, which belong to no project: the MCP tools (mcp/tools/knowledge.py) and the REST
  endpoints (api/v1/endpoints/knowledge.py). Every authenticated caller may read and write them.
\<close>

section \<open>Entries\<close>

definition knowledge_to_dict :: "knowledge \<Rightarrow> jdict" where
  "knowledge_to_dict k =
     [(''id'', JStr (k_id k)), (''title'', JStr (k_title k)), (''content'', JStr (k_content k)), (''tags'', JList (map JStr (k_tags k))),
      (''category'', JStr (knowledge_category_str (k_category k))), (''source'', jopt JStr (k_source k)), (''created_by'', JStr (k_created_by k)),
      (''created_at'', JTime (k_created_at k)), (''updated_at'', JTime (k_updated_at k))]"

definition new_knowledge ::
  "content_env \<Rightarrow> string \<Rightarrow> string \<Rightarrow> string \<Rightarrow> string list \<Rightarrow> knowledge_category \<Rightarrow> string option \<Rightarrow> string \<Rightarrow> knowledge" where
  "new_knowledge e i title content tags category source creator =
     \<lparr>k_id = i, k_title = title, k_content = content, k_tags = tags, k_category = category, k_source = source,
      k_created_by = creator, k_is_deleted = False, k_created_at = now (ce_base e), k_updated_at = now (ce_base e)\<rparr>"

definition insert_knowledge :: "content_env \<Rightarrow> knowledge \<Rightarrow> (content, knowledge) prog" where
  "insert_knowledge e k =
     bindP (modify (\<lambda>s. s\<lparr>cs_knowledge := coll_insert k (cs_knowledge s)\<rparr>)) (\<lambda>_.
     bindP (index_knowledge e k) (\<lambda>_. return k))"

definition save_knowledge :: "content_env \<Rightarrow> knowledge \<Rightarrow> (content, knowledge) prog" where
  "save_knowledge e k =
     (let k' = k\<lparr>k_updated_at := now (ce_base e)\<rparr> in
      bindP (modify (\<lambda>s. s\<lparr>cs_knowledge := coll_save k_id k' (cs_knowledge s)\<rparr>)) (\<lambda>_. return k'))"

record knowledge_changes =
  kc_title :: "string option"
  kc_content :: "string option"
  kc_tags :: "string list option"
  kc_category :: "string option"
  kc_source :: "string option"

definition apply_knowledge_changes :: "knowledge_changes \<Rightarrow> knowledge \<Rightarrow> knowledge" where
  "apply_knowledge_changes c k =
     k\<lparr>k_title := (case kc_title c of None \<Rightarrow> k_title k | Some t \<Rightarrow> py_strip t),
       k_content := (case kc_content c of None \<Rightarrow> k_content k | Some x \<Rightarrow> x),
       k_tags := (case kc_tags c of None \<Rightarrow> k_tags k | Some ts \<Rightarrow> normalize_tags ts),
       k_category := (case kc_category c of None \<Rightarrow> k_category k | Some x \<Rightarrow>
         (case parse_knowledge_category x of None \<Rightarrow> k_category k | Some y \<Rightarrow> y)),
       k_source := (case kc_source c of None \<Rightarrow> k_source k | Some x \<Rightarrow> if x \<noteq> [] then Some x else None)\<rparr>"

definition revise_knowledge :: "content_env \<Rightarrow> knowledge_changes \<Rightarrow> knowledge \<Rightarrow> (content, knowledge) prog" where
  "revise_knowledge e c k =
     bindP (save_knowledge e (apply_knowledge_changes c k)) (\<lambda>k'.
     bindP (index_knowledge e k') (\<lambda>_. return k'))"

text \<open>The index is told the identifier as the caller wrote it.\<close>

definition remove_knowledge :: "content_env \<Rightarrow> string \<Rightarrow> knowledge \<Rightarrow> (content, unit) prog" where
  "remove_knowledge e i k =
     bindP (save_knowledge e (k\<lparr>k_is_deleted := True\<rparr>)) (\<lambda>_. deindex_knowledge e i)"

definition live_knowledge :: "content_env \<Rightarrow> exn \<Rightarrow> string \<Rightarrow> (content, knowledge) prog" where
  "live_knowledge e missing i =
     bindP (content_get e k_id cs_knowledge i) (\<lambda>k0.
     case k0 of
       None \<Rightarrow> raise missing
     | Some k \<Rightarrow> bindP (guard (\<not> k_is_deleted k) missing) (\<lambda>_. return k))"

definition knowledge_filter :: "string option \<Rightarrow> string option \<Rightarrow> knowledge \<Rightarrow> bool" where
  "knowledge_filter category tag k \<longleftrightarrow> \<not> k_is_deleted k \<and>
     (case truthy category of None \<Rightarrow> True | Some c \<Rightarrow> knowledge_category_str (k_category k) = c) \<and> tag_filter tag (k_tags k)"

definition knowledge_page :: "content_env \<Rightarrow> nat \<Rightarrow> nat \<Rightarrow> knowledge list \<Rightarrow> jdict" where
  "knowledge_page e limit skip found = content_page (JObj \<circ> knowledge_to_dict) limit skip found (mongo_sort (ce_base e) k_id (\<lambda>k. - k_updated_at k) found)"

section \<open>MCP tools\<close>

definition knowledge_bad_category :: "string \<Rightarrow> exn" where
  "knowledge_bad_category c =
     ToolError (''Invalid category '' @ quoted c @ ''. Valid: architecture, recipe, reference, tip, troubleshooting'')"

definition check_knowledge_category :: "string option \<Rightarrow> (content, unit) prog" where
  "check_knowledge_category category =
     (case truthy category of None \<Rightarrow> return () | Some c \<Rightarrow> guard (parse_knowledge_category c \<noteq> None) (knowledge_bad_category c))"

definition knowledge_missing :: "string \<Rightarrow> exn" where
  "knowledge_missing i = ToolError (''Knowledge entry not found: '' @ i)"

definition mcp_create_knowledge ::
  "content_env \<Rightarrow> mcp_request \<Rightarrow> string \<Rightarrow> string \<Rightarrow> string list option \<Rightarrow> string \<Rightarrow> string option \<Rightarrow> (content, jdict) prog" where
  "mcp_create_knowledge e rq title content tags category source =
     bindP (guard (py_strip title \<noteq> []) (ToolError ''Title is required'')) (\<lambda>_.
     bindP (guard (length title \<le> 255) (ToolError ''Title exceeds maximum length of 255 characters'')) (\<lambda>_.
     bindP (guard (length content \<le> 50000) (ToolError ''Content exceeds maximum length of 50000 characters'')) (\<lambda>_.
     bindP (some_or (parse_knowledge_category category) (knowledge_bad_category category)) (\<lambda>cat.
     bindP (on_app (authenticate (ce_base e) rq)) (\<lambda>ki.
     bindP (insert_knowledge e (new_knowledge e (new_oid (ce_base e) 0) (py_strip title) content
       (normalize_tags (case tags of None \<Rightarrow> [] | Some ts \<Rightarrow> ts)) cat source (mcp_actor ki))) (\<lambda>k.
     return (knowledge_to_dict k)))))))"

definition ranked_knowledge :: "content_env \<Rightarrow> string option \<Rightarrow> (string \<times> json) list \<Rightarrow> (content, jdict list option) prog" where
  "ranked_knowledge e tag results =
     (if \<not> list_all (oid_valid (ce_base e)) (map fst results) then return None
      else bindP (gets (\<lambda>s. filter (\<lambda>k. k_id k \<in> oid_canon (ce_base e) ` set (map fst results) \<and> \<not> k_is_deleted k) (cs_knowledge s))) (\<lambda>entries.
        return (Some (List.map_filter (\<lambda>(i, score). case coll_get k_id entries i of
          None \<Rightarrow> None
        | Some k \<Rightarrow> if tag_filter tag (k_tags k) then Some (knowledge_to_dict k @ [(''_score'', score)]) else None) results))))"

definition mcp_search_knowledge ::
  "content_env \<Rightarrow> mcp_request \<Rightarrow> string \<Rightarrow> string option \<Rightarrow> string option \<Rightarrow> nat \<Rightarrow> int \<Rightarrow> (content, jdict) prog" where
  "mcp_search_knowledge e rq query category tag limit skip0 =
     (let skip = nat (max 0 skip0); q = py_strip query in
      bindP (guard (q \<noteq> []) (ToolError ''Query is required'')) (\<lambda>_.
      bindP (check_knowledge_category category) (\<lambda>_.
      bindP (on_app (authenticate (ce_base e) rq)) (\<lambda>_.
      bindP (case knowledge_search e of
          None \<Rightarrow> return None
        | Some svc \<Rightarrow>
            (case svc q category (limit + skip) of
               None \<Rightarrow> return None
             | Some results \<Rightarrow> if results = [] then return None else ranked_knowledge e tag results)) (\<lambda>ranked.
      case ranked of
        Some items \<Rightarrow> return
          [(''items'', JList (map JObj (take limit (drop skip items)))), (''total'', JInt (int (length items))), (''limit'', JInt (int limit)),
           (''skip'', JInt (int skip)), (''_meta'', JObj [(''search_engine'', JStr ''tantivy'')])]
      | None \<Rightarrow>
          bindP (gets (\<lambda>s. filter (\<lambda>k. knowledge_filter category tag k \<and> matches_text q (k_title k) (k_content k) (k_tags k)) (cs_knowledge s))) (\<lambda>found.
          return (knowledge_page e limit skip found @ [(''_meta'', JObj [(''search_engine'', JStr ''regex'')])])))))))"

definition mcp_get_knowledge :: "content_env \<Rightarrow> mcp_request \<Rightarrow> string \<Rightarrow> (content, jdict) prog" where
  "mcp_get_knowledge e rq i =
     bindP (on_app (authenticate (ce_base e) rq)) (\<lambda>_.
     bindP (live_knowledge e (knowledge_missing i) i) (\<lambda>k. return (knowledge_to_dict k)))"

definition mcp_update_knowledge :: "content_env \<Rightarrow> mcp_request \<Rightarrow> string \<Rightarrow> knowledge_changes \<Rightarrow> (content, jdict) prog" where
  "mcp_update_knowledge e rq i c =
     bindP (guard (not_longer (kc_title c) 255) (ToolError ''Title exceeds maximum length of 255 characters'')) (\<lambda>_.
     bindP (guard (not_longer (kc_content c) 50000) (ToolError ''Content exceeds maximum length of 50000 characters'')) (\<lambda>_.
     bindP (case kc_category c of None \<Rightarrow> return () | Some x \<Rightarrow> guard (parse_knowledge_category x \<noteq> None) (knowledge_bad_category x)) (\<lambda>_.
     bindP (on_app (authenticate (ce_base e) rq)) (\<lambda>_.
     bindP (live_knowledge e (knowledge_missing i) i) (\<lambda>k.
     bindP (revise_knowledge e c k) (\<lambda>k'. return (knowledge_to_dict k')))))))"

definition mcp_delete_knowledge :: "content_env \<Rightarrow> mcp_request \<Rightarrow> string \<Rightarrow> (content, jdict) prog" where
  "mcp_delete_knowledge e rq i =
     bindP (on_app (authenticate (ce_base e) rq)) (\<lambda>_.
     bindP (live_knowledge e (knowledge_missing i) i) (\<lambda>k.
     bindP (remove_knowledge e i k) (\<lambda>_.
     return [(''success'', JBool True), (''knowledge_id'', JStr i)])))"

definition mcp_list_knowledge ::
  "content_env \<Rightarrow> mcp_request \<Rightarrow> string option \<Rightarrow> string option \<Rightarrow> nat \<Rightarrow> int \<Rightarrow> (content, jdict) prog" where
  "mcp_list_knowledge e rq category tag limit skip =
     bindP (check_knowledge_category category) (\<lambda>_.
     bindP (on_app (authenticate (ce_base e) rq)) (\<lambda>_.
     bindP (gets (\<lambda>s. filter (knowledge_filter category tag) (cs_knowledge s))) (\<lambda>found.
     return (knowledge_page e limit (nat (max 0 skip)) found))))"

section \<open>REST endpoints\<close>

definition rest_bad_category :: "string \<Rightarrow> exn" where
  "rest_bad_category c = HTTPException 400 (JStr (''Invalid category: '' @ c))"

definition rest_knowledge_missing :: exn where
  "rest_knowledge_missing = HTTPException 404 (JStr ''Knowledge entry not found'')"

record create_knowledge_request =
  ckr_title :: string
  ckr_content :: string
  ckr_tags :: "string list"
  ckr_category :: string
  ckr_source :: "string option"

definition rest_list_knowledge ::
  "content_env \<Rightarrow> string option \<Rightarrow> string option \<Rightarrow> string option \<Rightarrow> nat \<Rightarrow> nat \<Rightarrow> (content, jdict) prog" where
  "rest_list_knowledge e category tag search limit skip =
     bindP (case truthy category of None \<Rightarrow> return () | Some c \<Rightarrow> guard (parse_knowledge_category c \<noteq> None) (rest_bad_category c)) (\<lambda>_.
     bindP (gets (\<lambda>s. filter (\<lambda>k. knowledge_filter category tag k \<and>
       (case truthy search of None \<Rightarrow> True | Some q \<Rightarrow> matches_text (py_strip q) (k_title k) (k_content k) (k_tags k))) (cs_knowledge s))) (\<lambda>found.
     return (knowledge_page e limit skip found)))"

definition rest_create_knowledge :: "content_env \<Rightarrow> create_knowledge_request \<Rightarrow> user \<Rightarrow> (content, jdict) prog" where
  "rest_create_knowledge e body u =
     bindP (some_or (parse_knowledge_category (ckr_category body)) (rest_bad_category (ckr_category body))) (\<lambda>cat.
     bindP (insert_knowledge e (new_knowledge e (new_oid (ce_base e) 0) (py_strip (ckr_title body)) (ckr_content body)
       (normalize_tags (ckr_tags body)) cat (ckr_source body) (u_id u))) (\<lambda>k.
     return (knowledge_to_dict k)))"

definition rest_get_knowledge :: "content_env \<Rightarrow> string \<Rightarrow> (content, jdict) prog" where
  "rest_get_knowledge e i = bindP (live_knowledge e rest_knowledge_missing i) (\<lambda>k. return (knowledge_to_dict k))"

definition rest_update_knowledge :: "content_env \<Rightarrow> string \<Rightarrow> knowledge_changes \<Rightarrow> (content, jdict) prog" where
  "rest_update_knowledge e i c =
     bindP (live_knowledge e rest_knowledge_missing i) (\<lambda>k.
     bindP (case kc_category c of None \<Rightarrow> return () | Some x \<Rightarrow> guard (parse_knowledge_category x \<noteq> None) (rest_bad_category x)) (\<lambda>_.
     bindP (revise_knowledge e c k) (\<lambda>k'. return (knowledge_to_dict k'))))"

definition rest_delete_knowledge :: "content_env \<Rightarrow> string \<Rightarrow> (content, unit) prog" where
  "rest_delete_knowledge e i =
     bindP (live_knowledge e rest_knowledge_missing i) (\<lambda>k. remove_knowledge e i k)"

definition imported_knowledge :: "content_env \<Rightarrow> string \<Rightarrow> string \<Rightarrow> parsed_markdown \<Rightarrow> knowledge" where
  "imported_knowledge e i creator p =
     new_knowledge e i (take 255 (pm_title p)) (take 50000 (pm_content p)) (pm_tags p)
       (case (case pm_category p of None \<Rightarrow> None | Some c \<Rightarrow> parse_knowledge_category c) of None \<Rightarrow> Cat_reference | Some c \<Rightarrow> c) None creator"

primrec import_knowledge_files :: "content_env \<Rightarrow> string \<Rightarrow> markdown_upload list \<Rightarrow> nat \<Rightarrow> (content, json list \<times> json list) prog" where
  "import_knowledge_files e creator [] n = return ([], [])"
| "import_knowledge_files e creator (f # fs) n =
     (case accept_upload 50000 f of
        Inl err \<Rightarrow> bindP (import_knowledge_files e creator fs n) (\<lambda>(created, errors). return (created, err # errors))
      | Inr p \<Rightarrow>
          bindP (insert_knowledge e (imported_knowledge e (new_oid (ce_base e) n) creator p)) (\<lambda>k.
          bindP (import_knowledge_files e creator fs (n + 1)) (\<lambda>(created, errors).
          return (JObj (knowledge_to_dict k) # created, errors))))"

definition import_knowledge :: "content_env \<Rightarrow> markdown_upload list \<Rightarrow> user \<Rightarrow> (content, jdict) prog" where
  "import_knowledge e files u =
     bindP (guard (length files \<le> import_max_files) (HTTPException 400 (JStr ''Too many files (max 50)''))) (\<lambda>_.
     bindP (import_knowledge_files e (u_id u) files 0) (\<lambda>r.
     return (import_answer r)))"

section \<open>Requests\<close>

datatype knowledge_op =
    Create_knowledge mcp_request string string "string list option" string "string option"
  | Search_knowledge mcp_request string "string option" "string option" nat int
  | Get_knowledge mcp_request string
  | Update_knowledge mcp_request string knowledge_changes
  | Delete_knowledge mcp_request string
  | List_knowledge mcp_request "string option" "string option" nat int
  | Read_knowledges "string option" "string option" "string option" nat nat user
  | Post_knowledge create_knowledge_request user
  | Import_knowledge "markdown_upload list" user
  | Read_knowledge string user
  | Patch_knowledge string knowledge_changes user
  | Remove_knowledge string user

primrec serve_knowledge :: "content_env \<Rightarrow> knowledge_op \<Rightarrow> (content, jdict) prog" where
  "serve_knowledge e (Create_knowledge rq title body tags category source) = mcp_create_knowledge e rq title body tags category source"
| "serve_knowledge e (Search_knowledge rq query category tag limit skip) = mcp_search_knowledge e rq query category tag limit skip"
| "serve_knowledge e (Get_knowledge rq i) = mcp_get_knowledge e rq i"
| "serve_knowledge e (Update_knowledge rq i c) = mcp_update_knowledge e rq i c"
| "serve_knowledge e (Delete_knowledge rq i) = mcp_delete_knowledge e rq i"
| "serve_knowledge e (List_knowledge rq category tag limit skip) = mcp_list_knowledge e rq category tag limit skip"
| "serve_knowledge e (Read_knowledges category tag search limit skip u) = rest_list_knowledge e category tag search limit skip"
| "serve_knowledge e (Post_knowledge body u) = rest_create_knowledge e body u"
| "serve_knowledge e (Import_knowledge files u) = import_knowledge e files u"
| "serve_knowledge e (Read_knowledge i u) = rest_get_knowledge e i"
| "serve_knowledge e (Patch_knowledge i c u) = rest_update_knowledge e i c"
| "serve_knowledge e (Remove_knowledge i u) = bindP (rest_delete_knowledge e i) (\<lambda>_. return [])"

end
