(* ===== verification/Knowledge_Safety.thy ===== *)
theory Knowledge_Safety
  imports Knowledge
begin

text \<open>
  Deletion of knowledge entries is final: whatever is requested afterwards, a deleted entry stays as
  it is, nobody can read it under its identifier, and no other entry takes its identifier.
\<close>

interpretation knowledge_store: doc_store k_id "coll_get k_id" "coll_save k_id" coll_insert set "keys_distinct k_id"
  by (rule coll_doc_store)

definition unused_ids :: "content_env \<Rightarrow> nat \<Rightarrow> knowledge list \<Rightarrow> bool" where
  "unused_ids e n ks \<longleftrightarrow> keys_distinct k_id ks \<and> inj (new_oid (ce_base e)) \<and> (\<forall>i \<ge> n. new_oid (ce_base e) i \<notin> k_id ` set ks)"

definition buried :: "knowledge list \<Rightarrow> knowledge list \<Rightarrow> bool" where
  "buried ks ks' \<longleftrightarrow> keys_distinct k_id ks' \<and> (\<forall>k \<in> set ks. k_is_deleted k \<longrightarrow> k \<in> set ks')"

lemma buried_refl: "unused_ids e n ks \<Longrightarrow> buried ks ks"
  by (simp add: unused_ids_def buried_def)

lemma buried_trans: "buried ks ls \<Longrightarrow> buried ls ms \<Longrightarrow> buried ks ms"
  by (auto simp: buried_def)

section \<open>Writes\<close>

lemma buried_insert: "unused_ids e n ks \<Longrightarrow> k_id k = new_oid (ce_base e) n \<Longrightarrow> buried ks (coll_insert k ks) \<and> unused_ids e (n + 1) (coll_insert k ks)"
  by (auto simp: unused_ids_def buried_def coll_insert_def keys_distinct_def dest: injD)

definition found_live :: "knowledge \<Rightarrow> knowledge list \<Rightarrow> bool" where
  "found_live k ks \<longleftrightarrow> coll_get k_id ks (k_id k) = Some k \<and> \<not> k_is_deleted k"

lemma buried_save:
  assumes "unused_ids e n ks" and "found_live k ks" and "k_id k' = k_id k"
  shows "buried ks (coll_save k_id k' ks)"
proof -
  have keys: "keys_distinct k_id ks" and get: "coll_get k_id ks (k_id k') = Some k" and live: "\<not> k_is_deleted k"
    using assms by (simp_all add: unused_ids_def found_live_def)
  have "x \<in> set (coll_save k_id k' ks)" if x: "x \<in> set ks" "k_is_deleted x" for x
  proof -
    have "k_id x \<noteq> k_id k'" using x live get keys by (metis knowledge_store.get_iff option.inject)
    then show ?thesis using x knowledge_store.docs_save [OF keys get] by auto
  qed
  then show ?thesis using knowledge_store.inv_save [OF keys get] by (simp add: buried_def)
qed

section \<open>Requests\<close>

abbreviation keeps_buried :: "content_env \<Rightarrow> (knowledge list \<Rightarrow> bool) \<Rightarrow> (content, 'a) prog \<Rightarrow> bool" where
  "keeps_buried e Q m \<equiv> transacts cs_knowledge (\<lambda>ks. unused_ids e 0 ks \<and> Q ks) buried m"

lemma knowledge_apart: "apart cs_knowledge cs_app_update" "apart cs_knowledge cs_index_update"
  by (simp_all add: apart_def)

lemma quiet_knowledge_index: "keeps (same cs_knowledge) (index_knowledge e k)" "keeps (same cs_knowledge) (deindex_knowledge e i)"
  unfolding index_knowledge_def deindex_knowledge_def by (rule quiet_index_entity [OF knowledge_apart])+

lemma quiet_live_knowledge: "keeps (same cs_knowledge) (live_knowledge e x i)"
  unfolding live_knowledge_def by (intro part.keeps_intros quiet_content_get)

lemma quiet_ranked_knowledge: "keeps (same cs_knowledge) (ranked_knowledge e tag rs)" "keeps (same cs_knowledge) (check_knowledge_category c)"
  unfolding ranked_knowledge_def check_knowledge_category_def by (intro part.keeps_intros)+

lemma live_found: "wp (live_knowledge e x i) (\<lambda>k s'. found_live k (cs_knowledge s')) (\<lambda>_ _. True) s"
  using coll_get_in [of k_id "cs_knowledge s" "oid_canon (ce_base e) i"]
  by (auto simp: live_knowledge_def content_get_def wp_simps found_live_def split: option.split)

lemma insert_buries:
  assumes "k_id k = new_oid (ce_base e) 0"
  shows "keeps_buried e Q (insert_knowledge e k)"
  unfolding insert_knowledge_def
proof (rule transacts_after)
  show "keeps_buried e Q (modify (\<lambda>s. s\<lparr>cs_knowledge := coll_insert k (cs_knowledge s)\<rparr>))"
    using buried_insert [of e 0 _ k] assms by (simp add: transacts_wp wp_simps)
qed (intro part.keeps_intros quiet_knowledge_index)

lemma save_buries: "k_id k' = k_id k \<Longrightarrow> keeps_buried e (found_live k) (save_knowledge e k')"
  using buried_save [of e 0 _ k "k'\<lparr>k_updated_at := now (ce_base e)\<rparr>"]
  by (simp add: save_knowledge_def Let_def transacts_wp wp_simps)

lemma revise_buries: "keeps_buried e (found_live k) (revise_knowledge e c k)"
  unfolding revise_knowledge_def
  by (intro transacts_after save_buries part.keeps_intros quiet_knowledge_index) (simp add: apply_knowledge_changes_def)

lemma remove_buries: "keeps_buried e (found_live k) (remove_knowledge e i k)"
  unfolding remove_knowledge_def by (intro transacts_after save_buries quiet_knowledge_index) simp

lemma still_buried: "unused_ids e 0 ks \<and> Q ks \<Longrightarrow> buried ks ks"
  using buried_refl by blast

lemma fetch_live:
  assumes "\<And>k. keeps_buried e (found_live k) (f k)"
  shows "keeps_buried e Q (bindP (live_knowledge e x i) f)"
  by (rule transacts_fetch [where T = buried, OF quiet_live_knowledge still_buried live_found])
     (auto intro: transacts_weaken [OF assms])

lemmas burying = fetch_live transacts_guard [where T = buried, OF still_buried] remove_buries
  transacts_before [where T = buried, OF part.keeps_some_or still_buried]
  transacts_before [where T = buried, OF part.keeps_case_option still_buried]
  transacts_before [where T = buried, OF quiet_on_app [OF knowledge_apart(1)] still_buried]
  transacts_after [OF insert_buries] transacts_after [OF revise_buries] transacts_after [OF remove_buries]

lemmas reading = part.keeps_intros quiet_on_app [OF knowledge_apart(1)] quiet_live_knowledge quiet_ranked_knowledge

lemma reads_bury: "keeps (same cs_knowledge) m \<Longrightarrow> keeps_buried e Q m"
  by (rule transacts_quiet) (auto simp: buried_refl)

lemma import_buries:
  assumes "unused_ids e n (cs_knowledge s)"
  shows "wp (import_knowledge_files e c fs n) (\<lambda>_ s'. buried (cs_knowledge s) (cs_knowledge s')) (\<lambda>_ s'. buried (cs_knowledge s) (cs_knowledge s')) s"
  using assms
proof (induction fs arbitrary: n s)
  case Nil
  then show ?case by (simp add: wp_simps buried_refl)
next
  case (Cons f fs)
  show ?case
  proof (cases "accept_upload 50000 f")
    case (Inl err)
    then show ?thesis using Cons by (simp add: wp_bindP case_prod_unfold wp_return_fn)
  next
    case (Inr p)
    let ?k = "imported_knowledge e (new_oid (ce_base e) n) c p"
    have insert: "buried (cs_knowledge s) (coll_insert ?k (cs_knowledge s)) \<and> unused_ids e (n + 1) (coll_insert ?k (cs_knowledge s))"
      using buried_insert [OF Cons.prems] by (simp add: imported_knowledge_def new_knowledge_def)
    have "wp (insert_knowledge e ?k) (\<lambda>_ t. cs_knowledge t = coll_insert ?k (cs_knowledge s)) (\<lambda>_ t. cs_knowledge t = coll_insert ?k (cs_knowledge s)) s"
      unfolding insert_knowledge_def
      by (simp only: wp_simps) (rule wp_keeps [OF quiet_knowledge_index(1)], simp_all add: wp_simps same_def)
    moreover have "wp (import_knowledge_files e c fs (n + 1)) (\<lambda>_ s'. buried (cs_knowledge s) (cs_knowledge s')) (\<lambda>_ s'. buried (cs_knowledge s) (cs_knowledge s')) t"
      if "cs_knowledge t = coll_insert ?k (cs_knowledge s)" for t
      by (rule wp_mono [OF Cons.IH]) (use insert that in \<open>auto intro: buried_trans\<close>)
    ultimately show ?thesis
      using insert by (simp add: Inr wp_bindP case_prod_unfold wp_return_fn) (erule wp_mono, simp_all add: wp_bindP wp_return_fn)
  qed
qed

lemma serve_buries: "keeps_buried e (\<lambda>_. True) (serve_knowledge e op)"
proof (cases op)
  case Create_knowledge
  then show ?thesis by (simp only: serve_knowledge.simps mcp_create_knowledge_def) (intro burying reading; simp add: new_knowledge_def)
next
  case Post_knowledge
  then show ?thesis by (simp only: serve_knowledge.simps rest_create_knowledge_def) (intro burying reading; simp add: new_knowledge_def)
next
  case Update_knowledge
  then show ?thesis by (simp only: serve_knowledge.simps mcp_update_knowledge_def) (intro burying reading)
next
  case Patch_knowledge
  then show ?thesis by (simp only: serve_knowledge.simps rest_update_knowledge_def) (intro burying reading)
next
  case Delete_knowledge
  then show ?thesis by (simp only: serve_knowledge.simps mcp_delete_knowledge_def) (intro burying reading)
next
  case (Remove_knowledge i u)
  have "keeps_buried e (\<lambda>_. True) (rest_delete_knowledge e i)" unfolding rest_delete_knowledge_def by (intro burying)
  then show ?thesis unfolding Remove_knowledge serve_knowledge.simps by (rule transacts_after) (rule reading)
next
  case (Import_knowledge files u)
  show ?thesis
    unfolding Import_knowledge serve_knowledge.simps import_knowledge_def transacts_wp
    using import_buries [of e 0 _ "u_id u" files] by (auto simp: wp_simps wp_bindP wp_return_fn buried_refl)
next
  case Search_knowledge
  then show ?thesis by (simp only: serve_knowledge.simps mcp_search_knowledge_def) (intro reads_bury reading)
next
  case Get_knowledge
  then show ?thesis by (simp only: serve_knowledge.simps mcp_get_knowledge_def) (intro reads_bury reading)
next
  case List_knowledge
  then show ?thesis by (simp only: serve_knowledge.simps mcp_list_knowledge_def) (intro reads_bury reading)
next
  case Read_knowledges
  then show ?thesis by (simp only: serve_knowledge.simps rest_list_knowledge_def) (intro reads_bury reading)
next
  case Read_knowledge
  then show ?thesis by (simp only: serve_knowledge.simps rest_get_knowledge_def) (intro reads_bury reading)
qed

text \<open>A deleted entry cannot be read, changed or deleted again under its identifier.\<close>

lemma deleted_unreadable:
  assumes "keys_distinct k_id (cs_knowledge s)" and "k \<in> set (cs_knowledge s)" and "k_is_deleted k" and "oid_canon (ce_base e) i = k_id k"
  shows "\<exists>x. live_knowledge e missing i s = (Inl x, s)"
proof -
  have "coll_get k_id (cs_knowledge s) (k_id k) = Some k" using assms(1,2) by (simp add: coll_get_Some)
  then show ?thesis using assms(3,4) by (simp add: live_knowledge_def content_get_def bindP_def gets_def raise_def guard_def return_def)
qed

text \<open>The requests that name an entry by its identifier, in any spelling of it.\<close>

fun names_entry :: "content_env \<Rightarrow> string \<Rightarrow> knowledge_op \<Rightarrow> bool" where
  "names_entry e k (Get_knowledge rq i) = (oid_canon (ce_base e) i = k)"
| "names_entry e k (Update_knowledge rq i c) = (oid_canon (ce_base e) i = k)"
| "names_entry e k (Delete_knowledge rq i) = (oid_canon (ce_base e) i = k)"
| "names_entry e k (Read_knowledge i u) = (oid_canon (ce_base e) i = k)"
| "names_entry e k (Patch_knowledge i c u) = (oid_canon (ce_base e) i = k)"
| "names_entry e k (Remove_knowledge i u) = (oid_canon (ce_base e) i = k)"
| "names_entry e k _ = False"

text \<open>Reading a deleted entry fails, and so does what goes on to read one.\<close>

definition fails_on :: "knowledge list \<Rightarrow> (content, 'a) prog \<Rightarrow> bool" where
  "fails_on ks m \<longleftrightarrow> (\<forall>s. cs_knowledge s = ks \<longrightarrow> wp m (\<lambda>_ _. False) (\<lambda>_ _. True) s)"

lemma fails_read:
  assumes "keys_distinct k_id ks" and "k \<in> set ks" and "k_is_deleted k" and "oid_canon (ce_base e) i = k_id k"
  shows "fails_on ks (bindP (live_knowledge e missing i) f)"
  using deleted_unreadable [of _ k e i missing] assms by (force simp: fails_on_def wp_def bindP_def)

lemma fails_after: "keeps (same cs_knowledge) m \<Longrightarrow> (\<And>x. fails_on ks (f x)) \<Longrightarrow> fails_on ks (bindP m f)"
  unfolding fails_on_def wp_bindP by (intro allI impI, erule wp_keeps) (simp_all add: same_def)

lemma fails_then: "fails_on ks m \<Longrightarrow> fails_on ks (bindP m f)"
  unfolding fails_on_def wp_bindP by (auto intro: wp_mono)

lemma named_fails:
  assumes "keys_distinct k_id ks" and "k \<in> set ks" and "k_is_deleted k" and "names_entry e (k_id k) op"
  shows "fails_on ks (serve_knowledge e op)"
proof -
  note read = fails_read [OF assms(1-3)]
  have quiet: "keeps (same cs_knowledge) (on_app m)" for m :: "(world, 'x) prog"
    by (rule quiet_on_app) (simp add: apart_def)
  have check: "keeps (same cs_knowledge) (case c of None \<Rightarrow> return () | Some x \<Rightarrow> guard (P x) (g x))" for c :: "string option" and P g
    by (intro part.keeps_intros)
  show ?thesis
    using assms(4)
    by (cases op)
      (auto simp: mcp_get_knowledge_def mcp_update_knowledge_def mcp_delete_knowledge_def rest_get_knowledge_def rest_update_knowledge_def
        rest_delete_knowledge_def intro!: fails_then fails_after [OF quiet] fails_after [OF part.keeps_guard] fails_after [OF check] read)
qed

text \<open>Any sequence of requests, each of which draws identifiers that are not in use.\<close>

inductive knowledge_run :: "content \<Rightarrow> content \<Rightarrow> bool" where
  start: "knowledge_run s s"
| request: "knowledge_run s t \<Longrightarrow> unused_ids e 0 (cs_knowledge t) \<Longrightarrow> knowledge_run s (snd (serve_knowledge e op t))"

lemma run_buries: "knowledge_run s t \<Longrightarrow> keys_distinct k_id (cs_knowledge s) \<Longrightarrow> buried (cs_knowledge s) (cs_knowledge t)"
proof (induction rule: knowledge_run.induct)
  case (start s)
  then show ?case by (simp add: buried_def)
next
  case (request s t e op)
  have "buried (cs_knowledge t) (cs_knowledge (snd (serve_knowledge e op t)))"
    using serve_buries [of e op] request.hyps(2) by (simp add: transacts_def)
  with request.IH [OF request.prems] show ?case by (rule buried_trans)
qed

end
