(* ===== verification/Secrets.thy ===== *)
theory Secrets
  imports Content_State
begin

text \<open>
  Secrets of a project with the log of their accesses: the MCP tools (mcp/tools/secrets.py) and the
  REST endpoints (api/v1/endpoints/secrets.py).
\<close>

section \<open>Data\<close>

definition secret_to_dict :: "project_secret \<Rightarrow> jdict" where
  "secret_to_dict x =
     [(''id'', JStr (s_id x)), (''project_id'', JStr (s_project_id x)), (''key'', JStr (s_key x)),
      (''description'', JStr (s_description x)), (''created_by'', JStr (s_created_by x)), (''updated_by'', JStr (s_updated_by x)),
      (''created_at'', JTime (s_created_at x)), (''updated_at'', JTime (s_updated_at x))]"

text \<open>The pattern of key names, on a string without white space at its ends.\<close>

definition key_letter :: "char \<Rightarrow> bool" where
  "key_letter c = (let n = (of_char c :: nat) in (65 \<le> n \<and> n \<le> 90) \<or> (97 \<le> n \<and> n \<le> 122) \<or> n = 95)"

definition key_digit :: "char \<Rightarrow> bool" where
  "key_digit c = (let n = (of_char c :: nat) in 48 \<le> n \<and> n \<le> 57)"

definition key_re :: "string \<Rightarrow> bool" where
  "key_re k = (case k of [] \<Rightarrow> False | c # cs \<Rightarrow> key_letter c \<and> list_all (\<lambda>d. key_letter d \<or> key_digit d) cs)"

definition find_secret :: "string \<Rightarrow> string \<Rightarrow> (content, project_secret option) prog" where
  "find_secret project_id k = gets (\<lambda>s. List.find (\<lambda>x. s_project_id x = project_id \<and> s_key x = k) (cs_secrets s))"

definition insert_secret :: "project_secret \<Rightarrow> (content, unit) prog" where
  "insert_secret x = modify (\<lambda>s. s\<lparr>cs_secrets := coll_insert x (cs_secrets s)\<rparr>)"

definition save_secret :: "content_env \<Rightarrow> project_secret \<Rightarrow> (content, project_secret) prog" where
  "save_secret e x =
     (let x' = x\<lparr>s_updated_at := now (ce_base e)\<rparr> in
      bindP (modify (\<lambda>s. s\<lparr>cs_secrets := coll_save s_id x' (cs_secrets s)\<rparr>)) (\<lambda>_. return x'))"

definition drop_secret :: "project_secret \<Rightarrow> (content, unit) prog" where
  "drop_secret x = modify (\<lambda>s. s\<lparr>cs_secrets := filter (\<lambda>y. s_id y \<noteq> s_id x) (cs_secrets s)\<rparr>)"

definition log_secret :: "content_env \<Rightarrow> string \<Rightarrow> string \<Rightarrow> string \<Rightarrow> string \<Rightarrow> string \<Rightarrow> (content, unit) prog" where
  "log_secret e project_id k operation user_id auth_kind =
     modify (\<lambda>s. s\<lparr>cs_secret_log := coll_insert \<lparr>sl_project_id = project_id, sl_secret_key = k, sl_operation = operation,
       sl_user_id = user_id, sl_auth_kind = auth_kind, sl_created_at = now (ce_base e)\<rparr> (cs_secret_log s)\<rparr>)"

definition new_secret :: "content_env \<Rightarrow> string \<Rightarrow> string \<Rightarrow> string \<Rightarrow> string \<Rightarrow> string \<Rightarrow> project_secret" where
  "new_secret e project_id k v description creator =
     \<lparr>s_id = new_oid (ce_base e) 0, s_project_id = project_id, s_key = k, s_value = v, s_description = description,
      s_created_by = creator, s_updated_by = creator, s_created_at = now (ce_base e), s_updated_at = now (ce_base e)\<rparr>"

definition secrets_page :: "content_env \<Rightarrow> string \<Rightarrow> nat \<Rightarrow> nat \<Rightarrow> (content, jdict) prog" where
  "secrets_page e project_id limit skip =
     bindP (gets (\<lambda>s. filter (\<lambda>x. s_project_id x = project_id) (cs_secrets s))) (\<lambda>found.
     return (content_page (JObj \<circ> secret_to_dict) limit skip found (mongo_sort (ce_base e) s_id (\<lambda>x. - s_updated_at x) found)))"

section \<open>MCP tools\<close>

definition tool_owner :: "content_env \<Rightarrow> key_info \<Rightarrow> string \<Rightarrow> (content, string) prog" where
  "tool_owner e ki project =
     bindP (on_app (resolve_project_id (ce_base e) project)) (\<lambda>project_id.
     bindP (on_app (mcp_check_project_access (ce_base e) project_id ki)) (\<lambda>p.
     bindP (guard (ki_is_admin ki \<or> is_owner p (ki_user_id ki)) (ToolError ''Only project owners can modify secrets'')) (\<lambda>_.
     return project_id)))"

definition tool_key :: "string \<Rightarrow> (content, string) prog" where
  "tool_key k =
     bindP (guard (py_strip k \<noteq> []) (ToolError ''Secret key is required'')) (\<lambda>_.
     bindP (guard (length (py_strip k) \<le> 255) (ToolError ''Key exceeds maximum length of 255 characters'')) (\<lambda>_.
     bindP (guard (key_re (py_strip k)) (ToolError
       ''Key must be a valid environment variable name (letters, digits, underscores; must start with a letter or underscore)'')) (\<lambda>_.
     return (py_strip k))))"

definition tool_creator :: "key_info \<Rightarrow> string" where
  "tool_creator ki = (case truthy (ki_key_name ki) of None \<Rightarrow> ''user:'' @ ki_user_id ki | Some n \<Rightarrow> ''mcp:'' @ n)"

definition tool_log :: "content_env \<Rightarrow> string \<Rightarrow> string \<Rightarrow> string \<Rightarrow> key_info \<Rightarrow> (content, unit) prog" where
  "tool_log e project_id k operation ki = log_secret e project_id k operation (ki_user_id ki) (ki_auth_kind ki)"

definition mcp_list_secrets :: "content_env \<Rightarrow> mcp_request \<Rightarrow> string \<Rightarrow> nat \<Rightarrow> int \<Rightarrow> (content, jdict) prog" where
  "mcp_list_secrets e rq project limit skip =
     bindP (on_app (authenticate (ce_base e) rq)) (\<lambda>ki.
     bindP (on_app (tool_project (ce_base e) ki project)) (\<lambda>project_id.
     secrets_page e project_id limit (nat (max 0 skip))))"

definition mcp_set_secret ::
  "content_env \<Rightarrow> mcp_request \<Rightarrow> string \<Rightarrow> string \<Rightarrow> string \<Rightarrow> string option \<Rightarrow> (content, jdict) prog" where
  "mcp_set_secret e rq project key0 v description =
     bindP (on_app (authenticate (ce_base e) rq)) (\<lambda>ki.
     bindP (tool_owner e ki project) (\<lambda>project_id.
     bindP (tool_key key0) (\<lambda>k.
     bindP (guard (v \<noteq> []) (ToolError ''Secret value must not be empty'')) (\<lambda>_.
     bindP (guard (length v \<le> 10000) (ToolError ''Value exceeds maximum length of 10000 characters'')) (\<lambda>_.
     bindP (guard (not_longer description 1000) (ToolError ''Description exceeds maximum length of 1000 characters'')) (\<lambda>_.
     bindP (find_secret project_id k) (\<lambda>existing.
     case existing of
       Some x \<Rightarrow>
         bindP (save_secret e (x\<lparr>s_value := v, s_description := (case description of None \<Rightarrow> s_description x | Some d \<Rightarrow> d),
           s_updated_by := tool_creator ki\<rparr>)) (\<lambda>x'.
         bindP (tool_log e project_id k ''set'' ki) (\<lambda>_.
         return (secret_to_dict x' @ [(''_action'', JStr ''updated'')])))
     | None \<Rightarrow>
         let x = new_secret e project_id k v (case description of None \<Rightarrow> '''' | Some d \<Rightarrow> d) (tool_creator ki) in
         bindP (insert_secret x) (\<lambda>_.
         bindP (tool_log e project_id k ''set'' ki) (\<lambda>_.
         return (secret_to_dict x @ [(''_action'', JStr ''created'')]))))))))))"

definition mcp_get_secret :: "content_env \<Rightarrow> mcp_request \<Rightarrow> string \<Rightarrow> string \<Rightarrow> (content, jdict) prog" where
  "mcp_get_secret e rq project key0 =
     bindP (on_app (authenticate (ce_base e) rq)) (\<lambda>ki.
     bindP (on_app (tool_project (ce_base e) ki project)) (\<lambda>project_id.
     bindP (tool_key key0) (\<lambda>k.
     bindP (find_secret project_id k) (\<lambda>x0.
     bindP (some_or x0 (ToolError (''Secret not found: '' @ k))) (\<lambda>x.
     bindP (tool_log e project_id k ''get'' ki) (\<lambda>_.
     return [(''key'', JStr k), (''value'', JStr (s_value x)), (''description'', JStr (s_description x)),
       (''_warning'', JStr ''This secret value is now in the LLM context. Prefer inject_secrets on remote_exec for safer usage.'')]))))))"

definition mcp_delete_secret :: "content_env \<Rightarrow> mcp_request \<Rightarrow> string \<Rightarrow> string \<Rightarrow> (content, jdict) prog" where
  "mcp_delete_secret e rq project key0 =
     bindP (on_app (authenticate (ce_base e) rq)) (\<lambda>ki.
     bindP (tool_owner e ki project) (\<lambda>project_id.
     bindP (tool_key key0) (\<lambda>k.
     bindP (find_secret project_id k) (\<lambda>x0.
     bindP (some_or x0 (ToolError (''Secret not found: '' @ k))) (\<lambda>x.
     bindP (drop_secret x) (\<lambda>_.
     bindP (tool_log e project_id k ''delete'' ki) (\<lambda>_.
     return [(''success'', JBool True), (''key'', JStr k), (''project_id'', JStr project_id)])))))))"

section \<open>REST endpoints\<close>

definition secret_member :: "content_env \<Rightarrow> string \<Rightarrow> user \<Rightarrow> (content, project) prog" where
  "secret_member e project_id u = on_app (check_project_access (ce_base e) project_id u)"

definition secret_owner :: "content_env \<Rightarrow> string \<Rightarrow> user \<Rightarrow> (content, unit) prog" where
  "secret_owner e project_id u =
     bindP (secret_member e project_id u) (\<lambda>p.
     guard (u_is_admin u \<or> is_owner p (u_id u)) (HTTPException 403 (JStr ''Only project owners can modify secrets'')))"

definition rest_key :: "string \<Rightarrow> (content, string) prog" where
  "rest_key k =
     bindP (guard (key_re (py_strip k)) (HTTPException 400 (JStr ''Key must be a valid env var name (letters, digits, underscores)''))) (\<lambda>_.
     return (py_strip k))"

definition rest_log :: "content_env \<Rightarrow> string \<Rightarrow> string \<Rightarrow> string \<Rightarrow> user \<Rightarrow> (content, unit) prog" where
  "rest_log e project_id k operation u = log_secret e project_id k operation (u_id u) ''oauth''"

definition secret_missing :: "string \<Rightarrow> exn" where
  "secret_missing k = HTTPException 404 (JStr (''Secret not found: '' @ k))"

record create_secret_request =
  csr_key :: string
  csr_value :: string
  csr_description :: string

record update_secret_request =
  usr_value :: "string option"
  usr_description :: "string option"

definition rest_list_secrets :: "content_env \<Rightarrow> string \<Rightarrow> nat \<Rightarrow> nat \<Rightarrow> user \<Rightarrow> (content, jdict) prog" where
  "rest_list_secrets e project_id limit skip u =
     bindP (secret_member e project_id u) (\<lambda>_. secrets_page e project_id limit skip)"

definition rest_create_secret :: "content_env \<Rightarrow> string \<Rightarrow> create_secret_request \<Rightarrow> user \<Rightarrow> (content, jdict) prog" where
  "rest_create_secret e project_id body u =
     bindP (secret_owner e project_id u) (\<lambda>_.
     bindP (rest_key (csr_key body)) (\<lambda>k.
     bindP (find_secret project_id k) (\<lambda>existing.
     bindP (guard (existing = None) (HTTPException 409 (JStr (''Secret with key '' @ quoted k @ '' already exists. Use PUT to update.'')))) (\<lambda>_.
     let x = new_secret e project_id k (csr_value body) (csr_description body) (''user:'' @ u_id u) in
     bindP (insert_secret x) (\<lambda>_.
     bindP (rest_log e project_id k ''set'' u) (\<lambda>_.
     return (secret_to_dict x)))))))"

definition rest_update_secret :: "content_env \<Rightarrow> string \<Rightarrow> string \<Rightarrow> update_secret_request \<Rightarrow> user \<Rightarrow> (content, jdict) prog" where
  "rest_update_secret e project_id key0 body u =
     bindP (secret_owner e project_id u) (\<lambda>_.
     bindP (rest_key key0) (\<lambda>k.
     bindP (find_secret project_id k) (\<lambda>x0.
     bindP (some_or x0 (secret_missing k)) (\<lambda>x.
     bindP (save_secret e (x\<lparr>s_value := (case usr_value body of None \<Rightarrow> s_value x | Some v \<Rightarrow> v),
       s_description := (case usr_description body of None \<Rightarrow> s_description x | Some d \<Rightarrow> d), s_updated_by := ''user:'' @ u_id u\<rparr>)) (\<lambda>x'.
     bindP (rest_log e project_id k ''set'' u) (\<lambda>_.
     return (secret_to_dict x')))))))"

definition rest_delete_secret :: "content_env \<Rightarrow> string \<Rightarrow> string \<Rightarrow> user \<Rightarrow> (content, jdict) prog" where
  "rest_delete_secret e project_id key0 u =
     bindP (secret_owner e project_id u) (\<lambda>_.
     bindP (rest_key key0) (\<lambda>k.
     bindP (find_secret project_id k) (\<lambda>x0.
     bindP (some_or x0 (secret_missing k)) (\<lambda>x.
     bindP (drop_secret x) (\<lambda>_.
     bindP (rest_log e project_id k ''delete'' u) (\<lambda>_.
     return [(''success'', JBool True), (''key'', JStr k)]))))))"

definition get_secret_value :: "content_env \<Rightarrow> string \<Rightarrow> string \<Rightarrow> user \<Rightarrow> (content, jdict) prog" where
  "get_secret_value e project_id key0 u =
     bindP (secret_member e project_id u) (\<lambda>_.
     bindP (rest_key key0) (\<lambda>k.
     bindP (find_secret project_id k) (\<lambda>x0.
     bindP (some_or x0 (secret_missing k)) (\<lambda>x.
     bindP (rest_log e project_id k ''get'' u) (\<lambda>_.
     return [(''key'', JStr k), (''value'', JStr (s_value x))])))))"

section \<open>Requests\<close>

datatype secret_op =
    List_secrets mcp_request string nat int
  | Set_secret mcp_request string string string "string option"
  | Get_secret mcp_request string string
  | Delete_secret mcp_request string string
  | Read_secrets string nat nat user
  | Post_secret string create_secret_request user
  | Put_secret string string update_secret_request user
  | Remove_secret string string user
  | Read_secret_value string string user

primrec serve_secret :: "content_env \<Rightarrow> secret_op \<Rightarrow> (content, jdict) prog" where
  "serve_secret e (List_secrets rq project limit skip) = mcp_list_secrets e rq project limit skip"
| "serve_secret e (Set_secret rq project k v d) = mcp_set_secret e rq project k v d"
| "serve_secret e (Get_secret rq project k) = mcp_get_secret e rq project k"
| "serve_secret e (Delete_secret rq project k) = mcp_delete_secret e rq project k"
| "serve_secret e (Read_secrets p limit skip u) = rest_list_secrets e p limit skip u"
| "serve_secret e (Post_secret p body u) = rest_create_secret e p body u"
| "serve_secret e (Put_secret p k body u) = rest_update_secret e p k body u"
| "serve_secret e (Remove_secret p k u) = rest_delete_secret e p k u"
| "serve_secret e (Read_secret_value p k u) = get_secret_value e p k u"

end
