(* ===== verification/Secret_Safety.thy ===== *)
theory Secret_Safety
  imports Secrets Mcp_Safety
begin

text \<open>
  What the secrets component promises: values stay hidden from every request but the two that read
  one, accesses are logged and need the role the code asks for, and the index on project and key is
  never violated.
\<close>

section \<open>Hidden parts of the state\<close>

text \<open>
  Two programs are alike, seen through a view of the state, when from states of the same view they
  end alike: with related values or the same exception, in states of the same view.
\<close>

definition alike :: "('s \<Rightarrow> 'v) \<Rightarrow> ('a \<Rightarrow> 'b \<Rightarrow> bool) \<Rightarrow> ('s, 'a) prog \<Rightarrow> ('s, 'b) prog \<Rightarrow> bool" where
  "alike view A m n \<longleftrightarrow> (\<forall>s t. view s = view t \<longrightarrow> rel_sum (=) A (fst (m s)) (fst (n t)) \<and> view (snd (m s)) = view (snd (n t)))"

lemma alikeI:
  assumes "\<And>s t. view s = view t \<Longrightarrow> rel_sum (=) A (fst (m s)) (fst (n t)) \<and> view (snd (m s)) = view (snd (n t))"
  shows "alike view A m n"
  using assms unfolding alike_def by blast

lemma alike_bindP:
  assumes "alike view A m n" and "\<And>x y. A x y \<Longrightarrow> alike view B (f x) (g y)"
  shows "alike view B (bindP m f) (bindP n g)"
proof (rule alikeI)
  fix s t assume st: "view s = view t"
  obtain r s' r' t' where m: "m s = (r, s')" and n: "n t = (r', t')" by fastforce
  have rel: "rel_sum (=) A r r'" "view s' = view t'" using assms(1) st m n unfolding alike_def by fastforce+
  then show "rel_sum (=) B (fst (bindP m f s)) (fst (bindP n g t)) \<and> view (snd (bindP m f s)) = view (snd (bindP n g t))"
    using assms(2) m n unfolding alike_def
    by (cases r; cases r') (auto simp: bindP_def)
qed

lemma alike_mono:
  assumes "alike view A m n" and "\<And>x y. A x y \<Longrightarrow> B x y"
  shows "alike view B m n"
  using assms(1) sum.rel_mono [OF order_refl [of "(=)"] predicate2I [of A B, OF assms(2)]] unfolding alike_def by (auto simp: le_fun_def)

lemma alike_return: "A x y \<Longrightarrow> alike view A (return x) (return y)"
  by (simp add: alike_def return_def)

lemma alike_raise: "alike view A (raise x) (raise x)"
  by (simp add: alike_def raise_def)

lemma alike_guard: "alike view (=) (guard b x) (guard b x)"
  by (simp add: guard_def alike_return alike_raise)

lemma alike_gets: "(\<And>s t. view s = view t \<Longrightarrow> A (f s) (g t)) \<Longrightarrow> alike view A (gets f) (gets g)"
  by (simp add: alike_def gets_def)

lemma alike_modify: "(\<And>s t. view s = view t \<Longrightarrow> view (f s) = view (g t)) \<Longrightarrow> alike view (=) (modify f) (modify g)"
  by (simp add: alike_def modify_def)

lemma alike_some_or: "rel_option A x y \<Longrightarrow> alike view A (some_or x z) (some_or y z)"
  by (cases x; cases y) (simp_all add: some_or_def alike_return alike_raise)

lemma alike_option:
  "rel_option A x y \<Longrightarrow> alike view B m m' \<Longrightarrow> (\<And>v w. A v w \<Longrightarrow> alike view B (f v) (g w)) \<Longrightarrow>
   alike view B (case x of None \<Rightarrow> m | Some v \<Rightarrow> f v) (case y of None \<Rightarrow> m' | Some v \<Rightarrow> g v)"
  by (cases x; cases y) simp_all

text \<open>The view that hides the values of secrets.\<close>

definition hide_value :: "project_secret \<Rightarrow> project_secret" where
  "hide_value x = x\<lparr>s_value := ''''\<rparr>"

definition without_values :: "content \<Rightarrow> content" where
  "without_values s = s\<lparr>cs_secrets := map hide_value (cs_secrets s)\<rparr>"

abbreviation hidden :: "project_secret \<Rightarrow> project_secret \<Rightarrow> bool" where
  "hidden x y \<equiv> hide_value x = hide_value y"

lemma without_values_fields:
  assumes "without_values s = without_values t"
  shows "cs_app s = cs_app t" and "cs_secret_log s = cs_secret_log t" and "map hide_value (cs_secrets s) = map hide_value (cs_secrets t)"
  using arg_cong [OF assms, of cs_app] arg_cong [OF assms, of cs_secret_log] arg_cong [OF assms, of cs_secrets]
  by (simp_all add: without_values_def)

lemma without_values_update:
  "without_values (s\<lparr>cs_app := w\<rparr>) = (without_values s)\<lparr>cs_app := w\<rparr>"
  "without_values (s\<lparr>cs_secret_log := l\<rparr>) = (without_values s)\<lparr>cs_secret_log := l\<rparr>"
  "without_values (s\<lparr>cs_secrets := xs\<rparr>) = (without_values s)\<lparr>cs_secrets := map hide_value xs\<rparr>"
  by (simp_all add: without_values_def)

lemma hidden_fields:
  assumes "hidden x y"
  shows "s_id x = s_id y" "s_project_id x = s_project_id y" "s_key x = s_key y" "s_description x = s_description y"
    "s_updated_at x = s_updated_at y" "secret_to_dict x = secret_to_dict y"
  using assms by (cases x; cases y; simp add: hide_value_def secret_to_dict_def)+

lemma alike_on_app: "alike without_values (=) (on_app m) (on_app m)"
proof (rule alikeI)
  fix s t assume st: "without_values s = without_values t"
  then show "rel_sum (=) (=) (fst (on_app m s)) (fst (on_app m t)) \<and> without_values (snd (on_app m s)) = without_values (snd (on_app m t))"
    using without_values_fields(1) [OF st] by (simp add: on_app_def case_prod_unfold without_values_update sum.rel_eq)
qed

lemma alike_log: "alike without_values (=) (log_secret e p k op u a) (log_secret e p k op u a)"
  unfolding log_secret_def
proof (rule alike_modify)
  fix s t assume st: "without_values s = without_values t"
  show "without_values (s\<lparr>cs_secret_log := coll_insert l (cs_secret_log s)\<rparr>) = without_values (t\<lparr>cs_secret_log := coll_insert l (cs_secret_log t)\<rparr>)" for l
    unfolding without_values_update without_values_fields(2) [OF st] st ..
qed

lemma hide_value_fields [simp]:
  "s_id (hide_value x) = s_id x" "s_project_id (hide_value x) = s_project_id x" "s_key (hide_value x) = s_key x"
  by (simp_all add: hide_value_def)

lemma hide_find: "(\<And>x. P (hide_value x) = P x) \<Longrightarrow> List.find P (map hide_value xs) = map_option hide_value (List.find P xs)"
  by (induction xs) simp_all

lemma hide_filter: "(\<And>x. P (hide_value x) = P x) \<Longrightarrow> filter P (map hide_value xs) = map hide_value (filter P xs)"
  by (induction xs) simp_all

lemma hide_save: "coll_save s_id (hide_value x) (map hide_value xs) = map hide_value (coll_save s_id x xs)"
  by (simp add: coll_save_def coll_insert_def)

lemma rel_option_hidden: "map_option hide_value x = map_option hide_value y \<Longrightarrow> rel_option hidden x y"
  by (cases x; cases y) simp_all

lemma alike_find_secret: "alike without_values (rel_option hidden) (find_secret p k) (find_secret p k)"
  unfolding find_secret_def
proof (intro alike_gets rel_option_hidden)
  fix s t assume st: "without_values s = without_values t"
  show "map_option hide_value (List.find (\<lambda>x. s_project_id x = p \<and> s_key x = k) (cs_secrets s)) =
      map_option hide_value (List.find (\<lambda>x. s_project_id x = p \<and> s_key x = k) (cs_secrets t))"
    using arg_cong [OF without_values_fields(3) [OF st], of "List.find (\<lambda>x. s_project_id x = p \<and> s_key x = k)"]
    by (simp add: hide_find)
qed

lemma alike_put:
  assumes "\<And>xs. map hide_value (f xs) = F (map hide_value xs)" and "\<And>xs. map hide_value (g xs) = F (map hide_value xs)"
  shows "alike without_values (=) (modify (\<lambda>s. s\<lparr>cs_secrets := f (cs_secrets s)\<rparr>)) (modify (\<lambda>s. s\<lparr>cs_secrets := g (cs_secrets s)\<rparr>))"
proof (rule alike_modify)
  fix s t assume st: "without_values s = without_values t"
  show "without_values (s\<lparr>cs_secrets := f (cs_secrets s)\<rparr>) = without_values (t\<lparr>cs_secrets := g (cs_secrets t)\<rparr>)"
    unfolding without_values_update assms without_values_fields(3) [OF st] st ..
qed

lemma alike_insert: "hidden x y \<Longrightarrow> alike without_values (=) (insert_secret x) (insert_secret y)"
  unfolding insert_secret_def by (rule alike_put [where F = "\<lambda>xs. xs @ [hide_value y]"]) (simp_all add: coll_insert_def)

lemma alike_drop:
  assumes "hidden x y"
  shows "alike without_values (=) (drop_secret x) (drop_secret y)"
proof -
  have "s_id x = s_id y" using arg_cong [OF assms, of s_id] by simp
  then show ?thesis
    unfolding drop_secret_def by (intro alike_put [where F = "filter (\<lambda>z. s_id z \<noteq> s_id y)"]) (simp_all add: hide_filter)
qed

lemma alike_save:
  assumes "hidden x y"
  shows "alike without_values hidden (save_secret e x) (save_secret e y)"
proof -
  have same: "hidden (x\<lparr>s_updated_at := t\<rparr>) (y\<lparr>s_updated_at := t\<rparr>)" for t
    using assms by (cases x; cases y) (simp add: hide_value_def)
  show ?thesis
    unfolding save_secret_def Let_def
    by (rule alike_bindP [OF alike_put [where F = "coll_save s_id (hide_value (y\<lparr>s_updated_at := now (ce_base e)\<rparr>))"] alike_return])
       (use same [of "now (ce_base e)"] hide_save in metis)+
qed

lemma sort_key_map: "sort_key f (map g xs) = map g (sort_key (\<lambda>x. f (g x)) xs)"
proof -
  have "insort_key f (g x) (map g ys) = map g (insort_key (\<lambda>x. f (g x)) x ys)" for x ys by (induction ys) simp_all
  then show ?thesis by (induction xs) simp_all
qed

lemma mongo_page_map: "mongo_page skip limit (map g xs) = map g (mongo_page skip limit xs)"
  by (simp add: mongo_page_def drop_map take_map)

lemma alike_page: "alike without_values (=) (secrets_page e p limit skip) (secrets_page e p limit skip)"
proof -
  let ?page = "\<lambda>xs. content_page (JObj \<circ> secret_to_dict) limit skip xs (mongo_sort (ce_base e) s_id (\<lambda>x. - s_updated_at x) xs)"
  have dict: "secret_to_dict (hide_value x) = secret_to_dict x" and time: "s_updated_at (hide_value x) = s_updated_at x" "s_id (hide_value x) = s_id x" for x
    by (simp_all add: secret_to_dict_def hide_value_def)
  have page_hidden: "?page (map hide_value xs) = ?page xs" for xs
    by (simp add: content_page_def mongo_sort_def sort_key_map mongo_page_map time dict)
  have "alike without_values (\<lambda>xs ys. ?page xs = ?page ys) (gets (\<lambda>s. filter (\<lambda>x. s_project_id x = p) (cs_secrets s)))
      (gets (\<lambda>s. filter (\<lambda>x. s_project_id x = p) (cs_secrets s)))"
  proof (rule alike_gets)
    fix s t assume st: "without_values s = without_values t"
    have "map hide_value (filter (\<lambda>x. s_project_id x = p) (cs_secrets s)) = map hide_value (filter (\<lambda>x. s_project_id x = p) (cs_secrets t))"
      using arg_cong [OF without_values_fields(3) [OF st], of "filter (\<lambda>x. s_project_id x = p)"] by (simp add: hide_filter)
    then show "?page (filter (\<lambda>x. s_project_id x = p) (cs_secrets s)) = ?page (filter (\<lambda>x. s_project_id x = p) (cs_secrets t))"
      using page_hidden by metis
  qed
  then show ?thesis unfolding secrets_page_def by (rule alike_bindP) (simp add: alike_return)
qed

section \<open>Values stay hidden\<close>

text \<open>A step whose value is the same on both sides, and the two steps that fetch a secret.\<close>

lemma alike_then: "alike view (=) m m \<Longrightarrow> (\<And>x. alike view B (f x) (g x)) \<Longrightarrow> alike view B (bindP m f) (bindP m g)"
  by (rule alike_bindP [where A = "(=)"]) simp_all

lemma alike_keys: "alike without_values (=) (tool_key k) (tool_key k)" "alike without_values (=) (rest_key k) (rest_key k)"
  unfolding tool_key_def rest_key_def by (intro alike_then alike_guard alike_return refl)+

lemma alike_owners: "alike without_values (=) (tool_owner e ki p) (tool_owner e ki p)"
  "alike without_values (=) (secret_member e q u) (secret_member e q u)" "alike without_values (=) (secret_owner e q u) (secret_owner e q u)"
  unfolding tool_owner_def secret_owner_def secret_member_def by (intro alike_then alike_on_app alike_guard alike_return refl)+

lemma alike_logs: "alike without_values (=) (tool_log e p k op ki) (tool_log e p k op ki)" "alike without_values (=) (rest_log e p k op u) (rest_log e p k op u)"
  unfolding tool_log_def rest_log_def by (rule alike_log)+

lemma hidden_update:
  assumes "hidden x y"
  shows "hidden (x\<lparr>s_value := v, s_description := (case d of None \<Rightarrow> s_description x | Some d \<Rightarrow> d), s_updated_by := u\<rparr>)
    (y\<lparr>s_value := w, s_description := (case d of None \<Rightarrow> s_description y | Some d \<Rightarrow> d), s_updated_by := u\<rparr>)"
  using assms unfolding hidden_fields(4) [OF assms] by (cases x; cases y) (simp add: hide_value_def)

lemmas alike_steps = alike_then [OF alike_guard] alike_then [OF alike_on_app] alike_then [OF alike_keys(1)] alike_then [OF alike_keys(2)]
  alike_then [OF alike_owners(1)] alike_then [OF alike_owners(2)] alike_then [OF alike_owners(3)]
  alike_then [OF alike_logs(1)] alike_then [OF alike_logs(2)] alike_page

text \<open>Only two requests read a value.\<close>

fun reveals :: "secret_op \<Rightarrow> bool" where
  "reveals (Get_secret _ _ _) = True"
| "reveals (Read_secret_value _ _ _) = True"
| "reveals _ = False"

lemma alike_fetched:
  assumes "\<And>x y. hidden x y \<Longrightarrow> alike without_values B (f x) (f y)"
  shows "alike without_values B (bindP (find_secret p k) (\<lambda>x0. bindP (some_or x0 z) f)) (bindP (find_secret p k) (\<lambda>x0. bindP (some_or x0 z) f))"
  by (rule alike_bindP [OF alike_find_secret alike_bindP [OF alike_some_or [where A = hidden]]]) (simp_all add: assms)

lemma alike_changed:
  assumes "hidden x y" and "\<And>x y. hidden x y \<Longrightarrow> alike without_values B (f x) (f y)"
  shows "alike without_values B
    (bindP (save_secret e (x\<lparr>s_value := v, s_description := (case d of None \<Rightarrow> s_description x | Some d \<Rightarrow> d), s_updated_by := u\<rparr>)) f)
    (bindP (save_secret e (y\<lparr>s_value := w, s_description := (case d of None \<Rightarrow> s_description y | Some d \<Rightarrow> d), s_updated_by := u\<rparr>)) f)"
  by (rule alike_bindP [OF alike_save [OF hidden_update [OF assms(1)]]]) (rule assms(2))

lemma alike_answer: "hidden x y \<Longrightarrow> alike view (=) (return (secret_to_dict x)) (return (secret_to_dict y))"
  "hidden x y \<Longrightarrow> alike view (=) (return (secret_to_dict x @ r)) (return (secret_to_dict y @ r))"
  by (rule alike_return, drule hidden_fields(6), simp)+

lemma hidden_secret: "\<not> reveals op \<Longrightarrow> alike without_values (=) (serve_secret e op) (serve_secret e op)"
proof (cases op)
  case List_secrets
  then show ?thesis by (simp only: serve_secret.simps mcp_list_secrets_def) (intro alike_steps)
next
  case (Set_secret rq p k v d)
  show ?thesis
    unfolding Set_secret serve_secret.simps mcp_set_secret_def Let_def
    by (intro alike_steps, rule alike_bindP [OF alike_find_secret], erule alike_option,
        rule alike_then [OF alike_insert [OF refl]], (intro alike_steps alike_return refl)[1],
        erule alike_changed, (intro alike_steps alike_answer)[1], assumption)
next
  case Delete_secret
  then show ?thesis
    by (simp only: serve_secret.simps mcp_delete_secret_def)
       (intro alike_steps alike_fetched, rule alike_bindP [OF alike_drop], assumption, intro alike_steps alike_return refl)
next
  case Read_secrets
  then show ?thesis by (simp only: serve_secret.simps rest_list_secrets_def) (intro alike_steps)
next
  case (Post_secret p body u)
  have same: "alike without_values (\<lambda>x y. (x = None) = (y = None)) (find_secret q k) (find_secret q k)" for q k
    by (rule alike_mono [OF alike_find_secret]) (auto simp: option_rel_Some1 elim: option.rel_cases)
  show ?thesis
    unfolding Post_secret serve_secret.simps rest_create_secret_def Let_def
    by (intro alike_steps, rule alike_bindP [OF same], simp only: option.simps,
        (intro alike_steps alike_then [OF alike_insert [OF refl]] alike_return refl)[1])
next
  case Put_secret
  then show ?thesis
    by (simp only: serve_secret.simps rest_update_secret_def)
       (intro alike_steps alike_fetched, erule alike_changed, (intro alike_steps alike_answer)[1], assumption)
next
  case Remove_secret
  then show ?thesis
    by (simp only: serve_secret.simps rest_delete_secret_def)
       (intro alike_steps alike_fetched, rule alike_bindP [OF alike_drop], assumption, intro alike_steps alike_return refl)
qed auto

section \<open>Access and the log\<close>

text \<open>The projects, the secrets and the log; identifiers and pairs of project and key are unique.\<close>

type_synonym secrets_view = "project list \<times> project_secret list \<times> secret_access_log list"

definition secret_part :: "content \<Rightarrow> secrets_view" where
  "secret_part s = (w_projects (cs_app s), cs_secrets s, cs_secret_log s)"

definition secrets_ok :: "project_secret list \<Rightarrow> bool" where
  "secrets_ok xs \<longleftrightarrow> keys_distinct s_id xs \<and> distinct (map (\<lambda>x. (s_project_id x, s_key x)) xs)"

definition allowed :: "content_env \<Rightarrow> string \<Rightarrow> bool \<Rightarrow> (project \<Rightarrow> string \<Rightarrow> bool) \<Rightarrow> string \<Rightarrow> secrets_view \<Rightarrow> bool" where
  "allowed e uid adm role pid v \<longleftrightarrow> (\<exists>p. coll_get p_id (fst v) (oid_canon (ce_base e) pid) = Some p \<and> (adm \<or> role p uid))"

text \<open>
  What one request may do: nothing, or read with the role of a member, or change one secret with
  the role of an owner, and then it leaves an entry in the log.
\<close>

inductive secret_step :: "content_env \<Rightarrow> string \<Rightarrow> bool \<Rightarrow> secrets_view \<Rightarrow> secrets_view \<Rightarrow> bool"
  for e :: content_env and uid :: string and adm :: bool where
  nothing: "secret_step e uid adm v v"
| read: "allowed e uid adm has_member (sl_project_id l) (ps, xs, ls) \<Longrightarrow> sl_operation l = ''get'' \<Longrightarrow> sl_user_id l = uid \<Longrightarrow>
    secret_step e uid adm (ps, xs, ls) (ps, xs, ls @ [l])"
| change: "allowed e uid adm is_owner (sl_project_id l) (ps, xs, ls) \<Longrightarrow> sl_operation l \<in> {''set'', ''delete''} \<Longrightarrow> sl_user_id l = uid \<Longrightarrow>
    secrets_ok xs' \<Longrightarrow>
    filter (\<lambda>x. \<not> (s_project_id x = sl_project_id l \<and> s_key x = sl_secret_key l)) xs' =
    filter (\<lambda>x. \<not> (s_project_id x = sl_project_id l \<and> s_key x = sl_secret_key l)) xs \<Longrightarrow>
    secret_step e uid adm (ps, xs, ls) (ps, xs', ls @ [l])"

definition secrets_fresh :: "content_env \<Rightarrow> secrets_view \<Rightarrow> bool" where
  "secrets_fresh e v \<longleftrightarrow> secrets_ok (fst (snd v)) \<and> new_oid (ce_base e) 0 \<notin> s_id ` set (fst (snd v))"

text \<open>The three writes keep the uniqueness and touch one pair of project and key.\<close>

definition same_but :: "string \<Rightarrow> string \<Rightarrow> project_secret list \<Rightarrow> project_secret list \<Rightarrow> bool" where
  "same_but p k xs xs' \<longleftrightarrow> filter (\<lambda>x. \<not> (s_project_id x = p \<and> s_key x = k)) xs' = filter (\<lambda>x. \<not> (s_project_id x = p \<and> s_key x = k)) xs"

lemma secret_insert:
  assumes "secrets_ok xs" and "s_id x \<notin> s_id ` set xs" and "List.find (\<lambda>x. s_project_id x = p \<and> s_key x = k) xs = None"
    and "s_project_id x = p" and "s_key x = k"
  shows "secrets_ok (coll_insert x xs) \<and> same_but p k xs (coll_insert x xs)"
  using assms by (auto simp: secrets_ok_def keys_distinct_def coll_insert_def same_but_def find_None_iff)

lemma secret_drop:
  assumes "secrets_ok xs" and "x \<in> set xs" and "s_project_id x = p" and "s_key x = k"
  shows "secrets_ok (filter (\<lambda>y. s_id y \<noteq> s_id x) xs) \<and> same_but p k xs (filter (\<lambda>y. s_id y \<noteq> s_id x) xs)"
proof -
  have "s_id y = s_id x \<Longrightarrow> y \<in> set xs \<Longrightarrow> y = x" for y
    using assms(1,2) by (auto simp: secrets_ok_def keys_distinct_def distinct_map dest: inj_onD)
  then have "filter (\<lambda>y. \<not> (s_project_id y = p \<and> s_key y = k)) (filter (\<lambda>y. s_id y \<noteq> s_id x) xs) = filter (\<lambda>y. \<not> (s_project_id y = p \<and> s_key y = k)) xs"
    unfolding filter_filter by (intro filter_cong refl) (use assms(3,4) in auto)
  then show ?thesis using assms(1) by (auto simp: secrets_ok_def keys_distinct_def same_but_def distinct_map_filter)
qed

lemma secret_save:
  assumes ok: "secrets_ok xs" and x: "x \<in> set xs" "s_project_id x = p" "s_key x = k"
    and x': "s_id x' = s_id x" "s_project_id x' = p" "s_key x' = k"
  shows "secrets_ok (coll_save s_id x' xs) \<and> same_but p k xs (coll_save s_id x' xs)"
proof -
  have uniq: "s_id y = s_id x \<Longrightarrow> y \<in> set xs \<Longrightarrow> y = x" for y
    using ok x(1) by (auto simp: secrets_ok_def keys_distinct_def distinct_map dest: inj_onD)
  have save: "coll_save s_id x' xs = map (\<lambda>y. if s_id y = s_id x then x' else y) xs"
    using x(1) x'(1) by (auto simp: coll_save_def)
  have keys: "map s_id (coll_save s_id x' xs) = map s_id xs" "map (\<lambda>y. (s_project_id y, s_key y)) (coll_save s_id x' xs) = map (\<lambda>y. (s_project_id y, s_key y)) xs"
    unfolding save using uniq x x' by (auto intro!: map_cong)
  have "filter (\<lambda>y. \<not> (s_project_id y = p \<and> s_key y = k)) (map (\<lambda>y. if s_id y = s_id x then x' else y) ys) =
      filter (\<lambda>y. \<not> (s_project_id y = p \<and> s_key y = k)) ys" if "set ys \<subseteq> set xs" for ys
    using that by (induction ys) (use uniq x x' in auto)
  then show ?thesis using ok unfolding secrets_ok_def keys_distinct_def keys by (simp add: same_but_def save)
qed

text \<open>What the checks establish.\<close>

lemma quiet_app: "keeps same_store m \<Longrightarrow> keeps (same secret_part) (on_app m)"
  by (auto simp: keeps_def same_def same_store_def secret_part_def on_app_def case_prod_unfold)

lemma project_get_same: "keeps same_store (project_get e i)"
  unfolding project_get_def by (intro quiet.keeps_intros)

lemma quiet_checks: "keeps same_store (mcp_check_project_access e i ki)" "keeps same_store (check_project_access e i u)"
  unfolding mcp_check_project_access_def check_project_access_def valid_object_id_def
  by (intro quiet.keeps_intros project_get_same)+

lemma quiet_secret_checks:
  "keeps (same secret_part) (on_app (tool_project (ce_base e) ki project))" "keeps (same secret_part) (tool_owner e ki project)"
  "keeps (same secret_part) (secret_member e pid u)" "keeps (same secret_part) (secret_owner e pid u)"
  "keeps (same secret_part) (tool_key k)" "keeps (same secret_part) (rest_key k)" "keeps (same secret_part) (find_secret pid k)"
  unfolding tool_project_def tool_owner_def secret_owner_def secret_member_def tool_key_def rest_key_def find_secret_def
  by (intro part.keeps_intros quiet.keeps_intros quiet_app quiet_checks resolve_quiet)+

lemma wp_on_app: "wp (on_app m) Q E s = wp m (\<lambda>x w. Q x (s\<lparr>cs_app := w\<rparr>)) (\<lambda>x w. E x (s\<lparr>cs_app := w\<rparr>)) (cs_app s)"
  by (auto simp: wp_def on_app_def split: prod.splits sum.splits)

lemma access_member:
  "wp (mcp_check_project_access e pid ki) (\<lambda>p w. coll_get p_id (w_projects w) (oid_canon e pid) = Some p \<and>
     (ki_is_admin ki \<or> has_member p (ki_user_id ki))) (\<lambda>_ _. True) w"
  "wp (check_project_access e pid u) (\<lambda>p w. coll_get p_id (w_projects w) (oid_canon e pid) = Some p \<and>
     (u_is_admin u \<or> has_member p (u_id u))) (\<lambda>_ _. True) w"
  by (simp_all add: mcp_check_project_access_def check_project_access_def valid_object_id_def project_get_def wp_simps split: option.split)

lemma member_allowed:
  "wp (on_app (tool_project (ce_base e) ki project))
     (\<lambda>pid s'. allowed e (ki_user_id ki) (ki_is_admin ki) has_member pid (secret_part s')) (\<lambda>_ _. True) s"
  "wp (secret_member e pid u) (\<lambda>_ s'. allowed e (u_id u) (u_is_admin u) has_member pid (secret_part s')) (\<lambda>_ _. True) s"
  unfolding tool_project_def secret_member_def wp_on_app wp_bindP
  by (rule wp_keeps [OF resolve_quiet], rule wp_mono [OF access_member(1)], auto simp: wp_simps allowed_def secret_part_def)
     (rule wp_mono [OF access_member(2)], auto simp: allowed_def secret_part_def)

lemma owner_allowed:
  "wp (tool_owner e ki project) (\<lambda>pid s'. allowed e (ki_user_id ki) (ki_is_admin ki) is_owner pid (secret_part s')) (\<lambda>_ _. True) s"
  "wp (secret_owner e pid u) (\<lambda>_ s'. allowed e (u_id u) (u_is_admin u) is_owner pid (secret_part s')) (\<lambda>_ _. True) s"
  unfolding tool_owner_def secret_owner_def secret_member_def wp_on_app wp_bindP
  by (rule wp_keeps [OF resolve_quiet], rule wp_mono [OF access_member(1)], auto simp: wp_simps allowed_def secret_part_def)
     (rule wp_mono [OF access_member(2)], auto simp: wp_simps allowed_def secret_part_def)

lemma find_secret_value:
  "wp (find_secret pid k) (\<lambda>x s'. x = List.find (\<lambda>x. s_project_id x = pid \<and> s_key x = k) (fst (snd (secret_part s')))) (\<lambda>_ _. True) s"
  by (simp add: find_secret_def wp_simps secret_part_def)

text \<open>The writes as transactions.\<close>

lemma write_logged:
  assumes "\<And>v. P v \<Longrightarrow> allowed e uid adm is_owner pid v \<and> secrets_ok (f (fst (snd v))) \<and> same_but pid k (fst (snd v)) (f (fst (snd v)))"
    and "op \<in> {''set'', ''delete''}"
  shows "transacts secret_part P (secret_step e uid adm)
    (bindP (modify (\<lambda>s. s\<lparr>cs_secrets := f (cs_secrets s)\<rparr>)) (\<lambda>_. bindP (log_secret e pid k op uid a) (\<lambda>_. return r)))"
  unfolding transacts_def log_secret_def
proof (intro allI impI)
  fix s assume "P (secret_part s)"
  from assms(1) [OF this] assms(2)
  show "secret_step e uid adm (secret_part s) (secret_part (snd (bindP (modify (\<lambda>s. s\<lparr>cs_secrets := f (cs_secrets s)\<rparr>))
      (\<lambda>_. bindP (modify (\<lambda>s. s\<lparr>cs_secret_log := coll_insert \<lparr>sl_project_id = pid, sl_secret_key = k, sl_operation = op,
         sl_user_id = uid, sl_auth_kind = a, sl_created_at = now (ce_base e)\<rparr> (cs_secret_log s)\<rparr>)) (\<lambda>_. return r)) s)))"
    by (auto simp: bindP_def modify_def return_def secret_part_def coll_insert_def same_but_def intro!: secret_step.change)
qed

lemma read_logged:
  assumes "\<And>v. P v \<Longrightarrow> allowed e uid adm has_member pid v"
  shows "transacts secret_part P (secret_step e uid adm) (bindP (log_secret e pid k ''get'' uid a) (\<lambda>_. return r))"
  using assms unfolding transacts_def log_secret_def
  by (auto simp: bindP_def modify_def return_def secret_part_def coll_insert_def intro!: secret_step.read)

lemma secret_before:
  assumes "keeps (same secret_part) m" and "\<And>x. transacts secret_part P (secret_step e uid adm) (f x)"
  shows "transacts secret_part P (secret_step e uid adm) (bindP m f)"
  by (rule transacts_before [OF assms(1) _ assms(2)]) (rule secret_step.nothing)

lemma secret_fetch:
  assumes "keeps (same secret_part) m" and "\<And>s. wp m (\<lambda>x s'. Q x (secret_part s')) (\<lambda>_ _. True) s"
    and "\<And>x. transacts secret_part (\<lambda>p. P p \<and> Q x p) (secret_step e uid adm) (f x)"
  shows "transacts secret_part P (secret_step e uid adm) (bindP m f)"
  by (rule transacts_fetch [OF assms(1) _ assms(2,3)]) (rule secret_step.nothing)

lemma secret_guard:
  assumes "b \<Longrightarrow> transacts secret_part P (secret_step e uid adm) (f ())"
  shows "transacts secret_part P (secret_step e uid adm) (bindP (guard b x) f)"
  using assms secret_step.nothing by (cases b) (simp_all add: transacts_wp wp_simps)

lemma secret_some_or:
  assumes "\<And>x. y = Some x \<Longrightarrow> transacts secret_part P (secret_step e uid adm) (f x)"
  shows "transacts secret_part P (secret_step e uid adm) (bindP (some_or y z) f)"
  using assms secret_step.nothing by (cases y) (simp_all add: transacts_wp wp_simps)

lemma secret_option:
  "(y = None \<Longrightarrow> transacts sel P T m) \<Longrightarrow> (\<And>x. y = Some x \<Longrightarrow> transacts sel P T (f x)) \<Longrightarrow>
   transacts sel P T (case y of None \<Rightarrow> m | Some x \<Rightarrow> f x)"
  by (cases y) simp_all

lemmas secret_intros = secret_fetch [OF quiet_secret_checks(1) member_allowed(1)] secret_fetch [OF quiet_secret_checks(3) member_allowed(2)]
  secret_fetch [OF quiet_secret_checks(2) owner_allowed(1)] secret_fetch [OF quiet_secret_checks(4) owner_allowed(2)]
  secret_fetch [OF quiet_secret_checks(7) find_secret_value] secret_before [OF quiet_secret_checks(5)]
  secret_before [OF quiet_secret_checks(6)] secret_guard secret_some_or secret_option

lemma found_secret: "Some x = List.find (\<lambda>x. s_project_id x = pid \<and> s_key x = k) xs \<Longrightarrow> x \<in> set xs \<and> s_project_id x = pid \<and> s_key x = k"
  by (metis (mono_tags, lifting) find_Some_iff nth_mem)

lemma page_quiet: "keeps (same secret_part) (secrets_page e pid limit skip)"
  unfolding secrets_page_def by (intro part.keeps_intros)

lemma insert_logged:
  assumes "\<And>v. P v \<Longrightarrow> secrets_fresh e v \<and> allowed e uid adm is_owner pid v \<and>
      List.find (\<lambda>x. s_project_id x = pid \<and> s_key x = k) (fst (snd v)) = None"
    and "x = new_secret e pid k y d c"
  shows "transacts secret_part P (secret_step e uid adm) (bindP (insert_secret x) (\<lambda>_. bindP (log_secret e pid k ''set'' uid a) (\<lambda>_. return r)))"
  unfolding insert_secret_def
proof (rule write_logged)
  fix v assume "P v"
  from assms(1) [OF this] secret_insert [of "fst (snd v)" x pid k]
  show "allowed e uid adm is_owner pid v \<and> secrets_ok (coll_insert x (fst (snd v))) \<and> same_but pid k (fst (snd v)) (coll_insert x (fst (snd v)))"
    by (simp add: assms(2) secrets_fresh_def new_secret_def)
qed simp

lemma drop_logged:
  assumes "\<And>v. P v \<Longrightarrow> secrets_fresh e v \<and> allowed e uid adm is_owner pid v \<and>
      List.find (\<lambda>x. s_project_id x = pid \<and> s_key x = k) (fst (snd v)) = Some x"
  shows "transacts secret_part P (secret_step e uid adm) (bindP (drop_secret x) (\<lambda>_. bindP (log_secret e pid k ''delete'' uid a) (\<lambda>_. return r)))"
  unfolding drop_secret_def
proof (rule write_logged)
  fix v assume "P v"
  from assms [OF this] have v: "secrets_ok (fst (snd v))" "allowed e uid adm is_owner pid v"
    and x: "x \<in> set (fst (snd v)) \<and> s_project_id x = pid \<and> s_key x = k"
    by (auto simp: secrets_fresh_def dest: found_secret [OF sym])
  with secret_drop [OF v(1), of x pid k]
  show "allowed e uid adm is_owner pid v \<and> secrets_ok (filter (\<lambda>y. s_id y \<noteq> s_id x) (fst (snd v))) \<and>
      same_but pid k (fst (snd v)) (filter (\<lambda>y. s_id y \<noteq> s_id x) (fst (snd v)))"
    by simp
qed simp

lemma save_logged:
  assumes "\<And>v. P v \<Longrightarrow> secrets_fresh e v \<and> allowed e uid adm is_owner pid v \<and>
      List.find (\<lambda>x. s_project_id x = pid \<and> s_key x = k) (fst (snd v)) = Some x"
    and "s_id x' = s_id x" "s_project_id x' = s_project_id x" "s_key x' = s_key x"
  shows "transacts secret_part P (secret_step e uid adm) (bindP (save_secret e x') (\<lambda>y. bindP (log_secret e pid k ''set'' uid a) (\<lambda>_. return (r y))))"
  unfolding save_secret_def Let_def bindP_assoc bindP_return
proof (rule write_logged)
  fix v assume "P v"
  let ?x = "x'\<lparr>s_updated_at := now (ce_base e)\<rparr>"
  from assms(1) [OF \<open>P v\<close>] have v: "secrets_ok (fst (snd v))" "allowed e uid adm is_owner pid v"
    and x: "x \<in> set (fst (snd v)) \<and> s_project_id x = pid \<and> s_key x = k"
    by (auto simp: secrets_fresh_def dest: found_secret [OF sym])
  with secret_save [OF v(1), of x pid k ?x] assms(2-4)
  show "allowed e uid adm is_owner pid v \<and> secrets_ok (coll_save s_id ?x (fst (snd v))) \<and> same_but pid k (fst (snd v)) (coll_save s_id ?x (fst (snd v)))"
    by simp
qed simp

lemma rest_secret_step:
  "transacts secret_part (secrets_fresh e) (secret_step e (u_id u) (u_is_admin u)) (rest_create_secret e pid body u)"
  "transacts secret_part (secrets_fresh e) (secret_step e (u_id u) (u_is_admin u)) (rest_update_secret e pid k c u)"
  "transacts secret_part (secrets_fresh e) (secret_step e (u_id u) (u_is_admin u)) (rest_delete_secret e pid k u)"
  "transacts secret_part (secrets_fresh e) (secret_step e (u_id u) (u_is_admin u)) (get_secret_value e pid k u)"
  unfolding rest_create_secret_def rest_update_secret_def rest_delete_secret_def get_secret_value_def Let_def rest_log_def
  by (intro secret_intros, rule insert_logged, simp, rule refl)
     (intro secret_intros, rule save_logged drop_logged read_logged, simp_all)+

lemma page_step: "transacts secret_part P (secret_step e uid adm) (secrets_page e pid limit skip)"
  by (rule transacts_quiet [OF page_quiet]) (rule secret_step.nothing)

text \<open>Who asks: the user of the session, or the one the credentials of the request name.\<close>

definition mcp_caller :: "content_env \<Rightarrow> mcp_request \<Rightarrow> world \<Rightarrow> (string \<times> bool) option" where
  "mcp_caller e rq w = (case fst (authenticate (ce_base e) rq w) of Inl _ \<Rightarrow> None | Inr ki \<Rightarrow> Some (ki_user_id ki, ki_is_admin ki))"

primrec secret_caller :: "content_env \<Rightarrow> secret_op \<Rightarrow> world \<Rightarrow> (string \<times> bool) option" where
  "secret_caller e (List_secrets rq p n k) w = mcp_caller e rq w"
| "secret_caller e (Set_secret rq p k v d) w = mcp_caller e rq w"
| "secret_caller e (Get_secret rq p k) w = mcp_caller e rq w"
| "secret_caller e (Delete_secret rq p k) w = mcp_caller e rq w"
| "secret_caller e (Read_secrets p n k u) w = Some (u_id u, u_is_admin u)"
| "secret_caller e (Post_secret p b u) w = Some (u_id u, u_is_admin u)"
| "secret_caller e (Put_secret p k b u) w = Some (u_id u, u_is_admin u)"
| "secret_caller e (Remove_secret p k u) w = Some (u_id u, u_is_admin u)"
| "secret_caller e (Read_secret_value p k u) w = Some (u_id u, u_is_admin u)"

definition permitted :: "content_env \<Rightarrow> (string \<times> bool) option \<Rightarrow> secrets_view \<Rightarrow> secrets_view \<Rightarrow> bool" where
  "permitted e caller v v' = (case caller of None \<Rightarrow> v' = v | Some (uid, adm) \<Rightarrow> secret_step e uid adm v v')"

lemma with_caller:
  assumes step: "\<And>ki. transacts secret_part (secrets_fresh e) (secret_step e (ki_user_id ki) (ki_is_admin ki)) (f ki)"
    and ok: "secrets_fresh e (secret_part s)"
  shows "permitted e (mcp_caller e rq (cs_app s)) (secret_part s) (secret_part (snd (bindP (on_app (authenticate (ce_base e) rq)) f s)))"
proof -
  obtain r w where a: "authenticate (ce_base e) rq (cs_app s) = (r, w)" by fastforce
  have quiet: "secret_part (s\<lparr>cs_app := w\<rparr>) = secret_part s"
    using authenticate_quiet [of "ce_base e" rq] a by (auto simp: keeps_def same_store_def secret_part_def) (metis snd_conv)
  show ?thesis
  proof (cases r)
    case (Inl x)
    then show ?thesis using a quiet by (simp add: permitted_def mcp_caller_def bindP_def on_app_def)
  next
    case (Inr ki)
    have "secret_step e (ki_user_id ki) (ki_is_admin ki) (secret_part s) (secret_part (snd (f ki (s\<lparr>cs_app := w\<rparr>))))"
      using step [of ki] ok quiet unfolding transacts_def by metis
    then show ?thesis using a Inr by (simp add: permitted_def mcp_caller_def bindP_def on_app_def)
  qed
qed

lemma secret_permitted:
  assumes "secrets_fresh e (secret_part s)"
  shows "permitted e (secret_caller e op (cs_app s)) (secret_part s) (secret_part (snd (serve_secret e op s)))"
proof -
  have rest: "transacts secret_part (secrets_fresh e) (secret_step e (u_id u) (u_is_admin u)) m \<Longrightarrow>
      permitted e (Some (u_id u, u_is_admin u)) (secret_part s) (secret_part (snd (m s)))" for u and m :: "(content, jdict) prog"
    using assms by (simp add: permitted_def transacts_def)
  note tool = with_caller [OF _ assms]
  show ?thesis
  proof (cases op)
    case List_secrets
    then show ?thesis by (simp only: serve_secret.simps secret_caller.simps mcp_list_secrets_def) (intro tool secret_intros page_step)
  next
    case Set_secret
    then show ?thesis
      by (simp only: serve_secret.simps secret_caller.simps mcp_set_secret_def Let_def tool_log_def)
         (intro tool secret_intros, rule insert_logged, simp, rule refl, rule save_logged, simp_all)
  next
    case Get_secret
    then show ?thesis
      by (simp only: serve_secret.simps secret_caller.simps mcp_get_secret_def tool_log_def) (intro tool secret_intros, rule read_logged, simp)
  next
    case Delete_secret
    then show ?thesis
      by (simp only: serve_secret.simps secret_caller.simps mcp_delete_secret_def tool_log_def) (intro tool secret_intros, rule drop_logged, simp)
  next
    case Read_secrets
    then show ?thesis
      by (simp only: serve_secret.simps secret_caller.simps rest_list_secrets_def) (intro rest secret_intros page_step)
  qed (simp_all add: rest rest_secret_step)
qed

text \<open>A value leaves only together with an entry in the log.\<close>

lemma log_grows: "cs_secret_log s = ls \<Longrightarrow>
    wp (bindP (log_secret e pid k op u a) (\<lambda>_. return r)) (\<lambda>_ s'. \<exists>l. cs_secret_log s' = ls @ [l]) (\<lambda>_ _. True) s"
  by (simp add: log_secret_def wp_simps coll_insert_def)

lemma log_kept:
  assumes "keeps (same secret_part) m" and "\<And>x s'. cs_secret_log s' = ls \<Longrightarrow> wp (f x) Q (\<lambda>_ _. True) s'" and "cs_secret_log s = ls"
  shows "wp (bindP m f) Q (\<lambda>_ _. True) s"
  unfolding wp_bindP by (rule wp_keeps [OF assms(1)]) (auto simp: same_def secret_part_def assms(3) intro: assms(2))

lemma value_logged:
  assumes "reveals op" and "serve_secret e op s = (Inr r, s')"
  shows "\<exists>l. cs_secret_log s' = cs_secret_log s @ [l]"
proof -
  have auth: "keeps (same secret_part) (on_app (authenticate (ce_base e) rq))" for rq by (rule quiet_app [OF authenticate_quiet])
  note kept = log_kept [where ls = "cs_secret_log s", OF auth] log_kept [where ls = "cs_secret_log s", OF quiet_secret_checks(1)] log_kept [where ls = "cs_secret_log s", OF quiet_secret_checks(3)] log_kept [where ls = "cs_secret_log s", OF quiet_secret_checks(5)]
    log_kept [where ls = "cs_secret_log s", OF quiet_secret_checks(6)] log_kept [where ls = "cs_secret_log s", OF quiet_secret_checks(7)] log_kept [where ls = "cs_secret_log s", OF part.keeps_some_or]
  have "wp (serve_secret e op) (\<lambda>_ s'. \<exists>l. cs_secret_log s' = cs_secret_log s @ [l]) (\<lambda>_ _. True) s"
    using assms(1)
  proof (cases op rule: reveals.cases)
    case (1 rq p k)
    show ?thesis
      unfolding 1 serve_secret.simps mcp_get_secret_def tool_log_def
      by (intro kept) (assumption | rule refl | (rule log_grows, assumption))+
  next
    case (2 p k u)
    show ?thesis
      unfolding 2 serve_secret.simps get_secret_value_def rest_log_def
      by (intro kept) (assumption | rule refl | (rule log_grows, assumption))+
  qed auto
  from wp_value [OF this assms(2)] show ?thesis .
qed

inductive_cases secret_stepE: "secret_step e uid adm v v'"

lemma permitted_ok:
  assumes "permitted e c v v'" and "secrets_ok (fst (snd v))"
  shows "secrets_ok (fst (snd v'))"
proof (cases c)
  case None
  then show ?thesis using assms by (simp add: permitted_def)
next
  case (Some p)
  then have "secret_step e (fst p) (snd p) v v'" using assms(1) by (simp add: permitted_def case_prod_unfold)
  then show ?thesis using assms(2) by (cases rule: secret_stepE) auto
qed

end
