(* ===== verification/Url_Lookup.thy ===== *)
theory Url_Lookup
  imports Content_State Url_Contract
begin

text \<open>
  The MCP tools that resolve URLs (mcp/tools/url_lookup.py): the rate limit, the audit log, the
  access check, the resource a URL names, and the three tools. The JSON form that pydantic gives
  a stored document is the parameter \<open>dump\<close>.
\<close>

datatype resource =
    R_task task
  | R_document project_document
  | R_bookmark bookmark
  | R_knowledge knowledge
  | R_page doc_page
  | R_project project

definition url_lookup_rate_limit_per_min :: nat where
  "url_lookup_rate_limit_per_min = 100"

definition not_found_or_denied :: string where
  "not_found_or_denied = ''Not found or access denied''"

definition limit_key :: "content_env \<Rightarrow> string \<Rightarrow> string" where
  "limit_key e user_id = ''ratelimit:url_lookup:'' @ user_id @ '':'' @ str_int (now (ce_base e) div 60000000)"

text \<open>\<open>INCR\<close> and \<open>EXPIRE\<close> of one pipeline; when Redis does not answer, the call is rejected.\<close>

definition check_lookup_limit :: "content_env \<Rightarrow> string \<Rightarrow> (content, bool \<times> int) prog" where
  "check_lookup_limit e user_id =
     (if \<not> redis_up (ce_base e) then return (False, 60)
      else let k = limit_key e user_id; t = now (ce_base e) in
        bindP (gets (\<lambda>s. (case alive t (cs_url_counts s) k of None \<Rightarrow> 0 | Some n \<Rightarrow> n) + 1)) (\<lambda>count.
        bindP (modify (\<lambda>s. s\<lparr>cs_url_counts := (cs_url_counts s)(k \<mapsto> (count, t + 120000000))\<rparr>)) (\<lambda>_.
        if count > url_lookup_rate_limit_per_min then return (False, max 1 (60 - (t div 1000000) mod 60))
        else return (True, 0))))"

definition audit :: "content_env \<Rightarrow> key_info \<Rightarrow> string \<Rightarrow> string \<Rightarrow> string option \<Rightarrow> bool \<Rightarrow> string \<Rightarrow> (content, unit) prog" where
  "audit e ki url kind project_id success message =
     whenP (audit_ok e) (modify (\<lambda>s. s\<lparr>cs_url_log := coll_insert \<lparr>ul_user_id = ki_user_id ki, ul_url = url, ul_kind = kind,
       ul_project_id = project_id, ul_success = success, ul_auth_kind = ki_auth_kind ki, ul_message = message,
       ul_created_at = now (ce_base e)\<rparr> (cs_url_log s)\<rparr>))"

definition present :: "string \<Rightarrow> (string \<Rightarrow> json) \<Rightarrow> string option \<Rightarrow> jdict" where
  "present k f v = (case v of None \<Rightarrow> [] | Some x \<Rightarrow> [(k, f x)])"

definition parsed_to_dict :: "parsed_url \<Rightarrow> jdict" where
  "parsed_to_dict p =
     [(''kind'', JStr (kind_str (pu_kind p)))] @ present ''project_id'' JStr (pu_project_id p) @
     present ''resource_id'' JStr (pu_resource_id p) @ present ''path'' JStr (pu_path p) @ present ''site_id'' JStr (pu_site_id p) @
     [(''had_unknown_params'', JBool (pu_had_unknown_params p))] @ present ''redirect_to'' JStr (pu_redirect_to p)"

definition project_access_or_deny :: "content_env \<Rightarrow> string option \<Rightarrow> key_info \<Rightarrow> (content, bool) prog" where
  "project_access_or_deny e project_id ki =
     (case project_id of
        None \<Rightarrow> return True
      | Some pid \<Rightarrow> catchP (bindP (on_app (mcp_check_project_access (ce_base e) pid ki)) (\<lambda>_. return True))
          (\<lambda>x. case x of McpAuthError _ \<Rightarrow> return False | _ \<Rightarrow> raise x))"

text \<open>What is asked for: a \<open>ParsedUrl\<close>, whose kind the caller of \<open>get_resource\<close> writes as he likes.\<close>

record resource_ref =
  rr_kind :: string
  rr_project_id :: "string option"
  rr_resource_id :: "string option"
  rr_path :: "string option"
  rr_site_id :: "string option"

definition ref_of :: "parsed_url \<Rightarrow> resource_ref" where
  "ref_of p = \<lparr>rr_kind = kind_str (pu_kind p), rr_project_id = pu_project_id p, rr_resource_id = pu_resource_id p,
     rr_path = pu_path p, rr_site_id = pu_site_id p\<rparr>"

definition ref_in_project :: "string option \<Rightarrow> string \<Rightarrow> bool" where
  "ref_in_project pid own = (case pid of None \<Rightarrow> True | Some p \<Rightarrow> own = p)"

definition fetch_task :: "content_env \<Rightarrow> resource_ref \<Rightarrow> string \<Rightarrow> (content, resource option) prog" where
  "fetch_task e r i =
     bindP (on_app (task_get (ce_base e) i)) (\<lambda>t0.
     return (case t0 of None \<Rightarrow> None | Some t \<Rightarrow> if ref_in_project (rr_project_id r) (t_project_id t) then Some (R_task t) else None))"

definition fetch_document :: "content_env \<Rightarrow> resource_ref \<Rightarrow> string \<Rightarrow> (content, resource option) prog" where
  "fetch_document e r i =
     bindP (content_get e d_id cs_documents i) (\<lambda>d0.
     return (case d0 of None \<Rightarrow> None
       | Some d \<Rightarrow> if \<not> d_is_deleted d \<and> ref_in_project (rr_project_id r) (d_project_id d) then Some (R_document d) else None))"

definition fetch_bookmark :: "content_env \<Rightarrow> key_info \<Rightarrow> string \<Rightarrow> (content, resource option) prog" where
  "fetch_bookmark e ki i =
     bindP (content_get e b_id cs_bookmarks i) (\<lambda>b0.
     case b0 of
       None \<Rightarrow> return None
     | Some b \<Rightarrow> bindP (project_access_or_deny e (Some (b_project_id b)) ki) (\<lambda>ok.
         return (if ok then Some (R_bookmark b) else None)))"

definition fetch_page :: "string \<Rightarrow> string \<Rightarrow> (content, resource option) prog" where
  "fetch_page site path = gets (\<lambda>s. map_option R_page (List.find (\<lambda>p. dp_site_id p = site \<and> dp_path p = path) (cs_pages s)))"

definition fetch_kind :: "content_env \<Rightarrow> key_info \<Rightarrow> resource_ref \<Rightarrow> (content, resource option) prog" where
  "fetch_kind e ki r =
     (let kind = rr_kind r; rid = truthy (rr_resource_id r) in
      if kind = ''task'' then (case rid of None \<Rightarrow> return None | Some i \<Rightarrow> fetch_task e r i)
      else if kind \<in> {''document'', ''document_full''} then (case rid of None \<Rightarrow> return None | Some i \<Rightarrow> fetch_document e r i)
      else if kind = ''bookmark'' then (case rid of None \<Rightarrow> return None | Some i \<Rightarrow> fetch_bookmark e ki i)
      else if kind = ''knowledge'' then (case rid of None \<Rightarrow> return None
        | Some i \<Rightarrow> bindP (content_get e k_id cs_knowledge i) (\<lambda>k. return (map_option R_knowledge k)))
      else if kind = ''docsite_page'' then (case (truthy (rr_site_id r), truthy (rr_path r)) of
          (Some site, Some path) \<Rightarrow> fetch_page site path
        | _ \<Rightarrow> return None)
      else if kind = ''project'' then (case truthy (rr_project_id r) of None \<Rightarrow> return None
        | Some pid \<Rightarrow> bindP (on_app (project_get (ce_base e) pid)) (\<lambda>p. return (map_option R_project p)))
      else return None)"

definition fetch_resource :: "content_env \<Rightarrow> key_info \<Rightarrow> resource_ref \<Rightarrow> (content, resource option) prog" where
  "fetch_resource e ki r =
     bindP (project_access_or_deny e (rr_project_id r) ki) (\<lambda>ok.
     if \<not> ok then return None else catchP (fetch_kind e ki r) (\<lambda>_. return None))"

definition resource_json :: "(resource \<Rightarrow> json) \<Rightarrow> resource \<Rightarrow> json" where
  "resource_json dump r = (case r of R_task t \<Rightarrow> task_to_dict t no_extras | _ \<Rightarrow> dump r)"

section \<open>Tools\<close>

definition parsed :: "content_env \<Rightarrow> string \<Rightarrow> (content, parsed_url) prog" where
  "parsed e url = (case parse_url (invalid_host e) url of Inl x \<Rightarrow> raise x | Inr p \<Rightarrow> return p)"

definition mcp_parse_url :: "content_env \<Rightarrow> mcp_request \<Rightarrow> string \<Rightarrow> (content, jdict) prog" where
  "mcp_parse_url e rq url =
     bindP (on_app (authenticate (ce_base e) rq)) (\<lambda>_.
     bindP (parsed e url) (\<lambda>p. return (parsed_to_dict p)))"

definition get_resource ::
  "(resource \<Rightarrow> json) \<Rightarrow> content_env \<Rightarrow> mcp_request \<Rightarrow> string \<Rightarrow> string \<Rightarrow> string option \<Rightarrow> (content, jdict) prog" where
  "get_resource dump e rq kind resource_id project_id =
     (let url = ''<get_resource kind='' @ kind @ '' id='' @ resource_id @ ''>'' in
      bindP (on_app (authenticate (ce_base e) rq)) (\<lambda>ki.
      bindP (fetch_resource e ki \<lparr>rr_kind = kind, rr_project_id = project_id, rr_resource_id = Some resource_id,
        rr_path = None, rr_site_id = None\<rparr>) (\<lambda>found.
      case found of
        None \<Rightarrow>
          bindP (audit e ki url kind project_id False ''not_found_or_denied'') (\<lambda>_.
          return [(''kind'', JStr ''unknown''), (''message'', JStr not_found_or_denied)])
      | Some r \<Rightarrow>
          bindP (audit e ki url kind project_id True '''') (\<lambda>_.
          return [(''kind'', JStr kind), (''project_id'', jopt JStr project_id), (''resource_id'', JStr resource_id),
            (''resource'', resource_json dump r)]))))"

definition layout_query_keys :: json where
  "layout_query_keys = JList [JStr ''group'', JStr ''layout'', JStr ''view'']"

definition lookup_base :: "string \<Rightarrow> parsed_url \<Rightarrow> jdict" where
  "lookup_base url p = [(''url'', JStr url)] @ parsed_to_dict p @ [(''layout_query_keys'', layout_query_keys)]"

definition lookup_denied :: "string \<Rightarrow> parsed_url \<Rightarrow> jdict" where
  "lookup_denied url p = [(''url'', JStr url), (''kind'', JStr ''unknown''), (''had_unknown_params'', JBool (pu_had_unknown_params p)),
     (''message'', JStr not_found_or_denied), (''layout_query_keys'', layout_query_keys)]"

text \<open>What follows the rate limit.\<close>

definition resolve_url ::
  "(resource \<Rightarrow> json) \<Rightarrow> content_env \<Rightarrow> key_info \<Rightarrow> string \<Rightarrow> bool \<Rightarrow> (content, jdict) prog" where
  "resolve_url dump e ki url follow =
     bindP (parsed e url) (\<lambda>p.
     let log = audit e ki url (kind_str (pu_kind p)) (pu_project_id p) in
     if pu_kind p = K_unknown then
       bindP (log False ''parse_failed'') (\<lambda>_. return (lookup_base url p @ [(''message'', JStr not_found_or_denied)]))
     else if \<not> follow then
       bindP (log True '''') (\<lambda>_. return (lookup_base url p))
     else
       bindP (fetch_resource e ki (ref_of p)) (\<lambda>found.
       case found of
         None \<Rightarrow> bindP (log False ''not_found_or_denied'') (\<lambda>_. return (lookup_denied url p))
       | Some r \<Rightarrow> bindP (log True '''') (\<lambda>_. return (lookup_base url p @ [(''resource'', resource_json dump r)]))))"

definition lookup_url ::
  "(resource \<Rightarrow> json) \<Rightarrow> content_env \<Rightarrow> mcp_request \<Rightarrow> string \<Rightarrow> bool \<Rightarrow> (content, jdict) prog" where
  "lookup_url dump e rq url follow =
     bindP (on_app (authenticate (ce_base e) rq)) (\<lambda>ki.
     bindP (check_lookup_limit e (ki_user_id ki)) (\<lambda>verdict.
     if \<not> fst verdict then
       bindP (audit e ki url ''unknown'' None False ''rate_limited'') (\<lambda>_.
       raise (ToolError (''Rate limit exceeded ('' @ str_int (int url_lookup_rate_limit_per_min) @ ''/min). Retry after '' @
         str_int (snd verdict) @ ''s.'')))
     else resolve_url dump e ki url follow))"

end
