(* ===== verification/Url_Safety.thy ===== *)
theory Url_Safety
  imports Url_Lookup Mcp_Safety Auth_Flow
begin

text \<open>
  What the lookup of URLs promises: the answer depends only on what the caller may see, and a user
  gets no more than a hundred answers in a minute.
\<close>

section \<open>What a caller sees\<close>

text \<open>
  The part of the database that a caller may read: the projects he may use with their tasks,
  documents that are not deleted, and bookmarks, and the knowledge entries and pages of document
  sites, which every authenticated caller may read; and the counters of the rate limit.
\<close>

definition usable :: "key_info \<Rightarrow> project \<Rightarrow> bool" where
  "usable ki p \<longleftrightarrow> ki_is_admin ki \<or> ki_user_id ki \<noteq> [] \<and> has_member p (ki_user_id ki)"

definition seen_part ::
  "content_env \<Rightarrow> key_info \<Rightarrow> content \<Rightarrow>
   project list \<times> task list \<times> project_document list \<times> bookmark list \<times> knowledge list \<times> doc_page list \<times> nat expiring" where
  "seen_part e ki s =
     (let mine = may_use (ce_base e) (cs_app s) ki in
      (filter (usable ki) (w_projects (cs_app s)), filter (\<lambda>t. mine (t_project_id t)) (w_tasks (cs_app s)),
       filter (\<lambda>d. \<not> d_is_deleted d \<and> mine (d_project_id d)) (cs_documents s), filter (\<lambda>b. mine (b_project_id b)) (cs_bookmarks s),
       cs_knowledge s, cs_pages s, cs_url_counts s))"

definition ids_unique :: "content \<Rightarrow> bool" where
  "ids_unique s \<longleftrightarrow> keys_distinct p_id (w_projects (cs_app s)) \<and> keys_distinct t_id (w_tasks (cs_app s)) \<and>
     keys_distinct d_id (cs_documents s) \<and> keys_distinct b_id (cs_bookmarks s)"

definition same_sight :: "content_env \<Rightarrow> key_info \<Rightarrow> content \<Rightarrow> content \<Rightarrow> bool" where
  "same_sight e ki s t \<longleftrightarrow> ids_unique s \<and> ids_unique t \<and> seen_part e ki s = seen_part e ki t"

lemma get_filtered:
  assumes "keys_distinct key ds" and "keys_distinct key ds'" and "filter P ds = filter P' ds'"
  shows "coll_get key ds i = Some d \<and> P d \<longleftrightarrow> coll_get key ds' i = Some d \<and> P' d"
  using arg_cong [OF assms(3), of set] by (auto simp: coll_get_Some [OF assms(1)] coll_get_Some [OF assms(2)])

lemma sight_projects:
  assumes "same_sight e ki s t"
  shows "coll_get p_id (w_projects (cs_app s)) i = Some p \<and> usable ki p \<longleftrightarrow> coll_get p_id (w_projects (cs_app t)) i = Some p \<and> usable ki p"
  by (rule get_filtered) (use assms in \<open>simp_all add: same_sight_def ids_unique_def seen_part_def Let_def\<close>)

lemma may_use_usable:
  "may_use e w ki pid \<longleftrightarrow> oid_valid e pid \<and> (\<exists>p. coll_get p_id (w_projects w) (oid_canon e pid) = Some p \<and> usable ki p)"
  by (simp add: may_use_def usable_def)

lemma sight_may_use:
  assumes "same_sight e ki s t"
  shows "may_use (ce_base e) (cs_app s) ki = may_use (ce_base e) (cs_app t) ki"
  by (simp add: fun_eq_iff may_use_usable sight_projects [OF assms])

lemma sight_fields:
  assumes "same_sight e ki s t"
  shows "coll_get t_id (w_tasks (cs_app s)) i = Some x \<and> may_use (ce_base e) (cs_app s) ki (t_project_id x) \<longleftrightarrow>
      coll_get t_id (w_tasks (cs_app t)) i = Some x \<and> may_use (ce_base e) (cs_app t) ki (t_project_id x)"
    and "coll_get d_id (cs_documents s) i = Some d \<and> \<not> d_is_deleted d \<and> may_use (ce_base e) (cs_app s) ki (d_project_id d) \<longleftrightarrow>
      coll_get d_id (cs_documents t) i = Some d \<and> \<not> d_is_deleted d \<and> may_use (ce_base e) (cs_app t) ki (d_project_id d)"
    and "coll_get b_id (cs_bookmarks s) i = Some b \<and> may_use (ce_base e) (cs_app s) ki (b_project_id b) \<longleftrightarrow>
      coll_get b_id (cs_bookmarks t) i = Some b \<and> may_use (ce_base e) (cs_app t) ki (b_project_id b)"
    and "cs_knowledge s = cs_knowledge t" and "cs_pages s = cs_pages t" and "cs_url_counts s = cs_url_counts t"
proof -
  note parts = assms [unfolded same_sight_def ids_unique_def seen_part_def Let_def prod.inject]
  show "cs_knowledge s = cs_knowledge t" "cs_pages s = cs_pages t" "cs_url_counts s = cs_url_counts t" using parts by simp_all
  show "coll_get t_id (w_tasks (cs_app s)) i = Some x \<and> may_use (ce_base e) (cs_app s) ki (t_project_id x) \<longleftrightarrow>
      coll_get t_id (w_tasks (cs_app t)) i = Some x \<and> may_use (ce_base e) (cs_app t) ki (t_project_id x)"
    by (rule get_filtered) (use parts in simp_all)
  show "coll_get d_id (cs_documents s) i = Some d \<and> \<not> d_is_deleted d \<and> may_use (ce_base e) (cs_app s) ki (d_project_id d) \<longleftrightarrow>
      coll_get d_id (cs_documents t) i = Some d \<and> \<not> d_is_deleted d \<and> may_use (ce_base e) (cs_app t) ki (d_project_id d)"
    by (rule get_filtered) (use parts in simp_all)
  show "coll_get b_id (cs_bookmarks s) i = Some b \<and> may_use (ce_base e) (cs_app s) ki (b_project_id b) \<longleftrightarrow>
      coll_get b_id (cs_bookmarks t) i = Some b \<and> may_use (ce_base e) (cs_app t) ki (b_project_id b)"
    by (rule get_filtered) (use parts in simp_all)
qed

section \<open>The access check and the resource\<close>

text \<open>The check tells only whether the caller may use the project, not whether it exists.\<close>

lemma access_outcome:
  "project_access_or_deny e pid ki s =
     (case pid of None \<Rightarrow> Inr True
      | Some p \<Rightarrow> if oid_valid (ce_base e) p then Inr (may_use (ce_base e) (cs_app s) ki p) else Inl (ValidationError p), s)"
  by (auto simp: project_access_or_deny_def mcp_check_project_access_def project_get_def may_use_def on_app_def catchP_def bindP_def
      guard_def return_def raise_def gets_def split: option.splits)

text \<open>What the fetching of a kind gives, when the projects named in the reference may be used.\<close>

definition found_task :: "content_env \<Rightarrow> content \<Rightarrow> string \<Rightarrow> task option" where
  "found_task e s i = (if oid_valid (ce_base e) i then coll_get t_id (w_tasks (cs_app s)) (oid_canon (ce_base e) i) else None)"

definition found_in :: "content_env \<Rightarrow> ('d \<Rightarrow> string) \<Rightarrow> 'd list \<Rightarrow> string \<Rightarrow> 'd option" where
  "found_in e key ds i = (if oid_valid (ce_base e) i then coll_get key ds (oid_canon (ce_base e) i) else None)"

text \<open>A fetch either raises, for a string that is no identifier, or answers; it never changes the state.\<close>

definition yields :: "(content, resource option) prog \<Rightarrow> content \<Rightarrow> resource option \<Rightarrow> bool" where
  "yields m s x \<longleftrightarrow> catchP m (\<lambda>_. return None) s = (Inr x, s)"

lemma yields_task: "yields (fetch_task e r i) s
    (case found_task e s i of None \<Rightarrow> None | Some t \<Rightarrow> if ref_in_project (rr_project_id r) (t_project_id t) then Some (R_task t) else None)"
  by (auto simp: yields_def fetch_task_def found_task_def task_get_def on_app_def catchP_def bindP_def return_def raise_def gets_def
      split: option.splits)

lemma yields_document: "yields (fetch_document e r i) s
    (case found_in e d_id (cs_documents s) i of None \<Rightarrow> None
     | Some d \<Rightarrow> if \<not> d_is_deleted d \<and> ref_in_project (rr_project_id r) (d_project_id d) then Some (R_document d) else None)"
  by (auto simp: yields_def fetch_document_def found_in_def content_get_def catchP_def bindP_def return_def raise_def gets_def
      split: option.splits)

lemma yields_bookmark: "yields (fetch_bookmark e ki i) s
    (case found_in e b_id (cs_bookmarks s) i of None \<Rightarrow> None
     | Some b \<Rightarrow> if may_use (ce_base e) (cs_app s) ki (b_project_id b) then Some (R_bookmark b) else None)"
  by (auto simp: yields_def fetch_bookmark_def found_in_def content_get_def access_outcome catchP_def bindP_def return_def raise_def gets_def
      may_use_def split: option.splits)

lemma yields_knowledge: "yields (bindP (content_get e k_id cs_knowledge i) (\<lambda>k. return (map_option R_knowledge k))) s
    (map_option R_knowledge (found_in e k_id (cs_knowledge s) i))"
  by (auto simp: yields_def found_in_def content_get_def catchP_def bindP_def return_def raise_def gets_def)

lemma yields_project: "yields (bindP (on_app (project_get (ce_base e) p)) (\<lambda>p. return (map_option R_project p))) s
    (map_option R_project (found_in e p_id (w_projects (cs_app s)) p))"
  by (auto simp: yields_def found_in_def project_get_def on_app_def catchP_def bindP_def return_def raise_def gets_def)

lemma yields_page: "yields (fetch_page site path) s (map_option R_page (List.find (\<lambda>p. dp_site_id p = site \<and> dp_path p = path) (cs_pages s)))"
  by (simp add: yields_def fetch_page_def catchP_def gets_def)

lemma yields_none: "yields (return None) s None"
  by (simp add: yields_def catchP_def return_def)

text \<open>Two states give a fetch the same result.\<close>

definition both :: "content \<Rightarrow> content \<Rightarrow> (content, resource option) prog \<Rightarrow> bool" where
  "both s t m \<longleftrightarrow> (\<exists>x. yields m s x \<and> yields m t x)"

lemma bothI: "yields m s x \<Longrightarrow> yields m t y \<Longrightarrow> x = y \<Longrightarrow> both s t m"
  by (auto simp: both_def)

lemma both_none: "both s t (return None)"
  using yields_none by (auto simp: both_def)

lemma both_if: "(b \<Longrightarrow> both s t m) \<Longrightarrow> (\<not> b \<Longrightarrow> both s t n) \<Longrightarrow> both s t (if b then m else n)"
  by simp

lemma both_option: "(\<And>i. x = Some i \<Longrightarrow> both s t (f i)) \<Longrightarrow> both s t (case x of None \<Rightarrow> return None | Some i \<Rightarrow> f i)"
  by (cases x) (simp_all add: both_none)

lemma case_seen:
  assumes "\<And>d. g = Some d \<and> P d \<longleftrightarrow> h = Some d \<and> Q d" and "\<And>d. A d \<Longrightarrow> P d \<and> Q d"
  shows "(case g of None \<Rightarrow> None | Some d \<Rightarrow> if A d then Some (f d) else None) = (case h of None \<Rightarrow> None | Some d \<Rightarrow> if A d then Some (f d) else None)"
proof (cases "\<exists>d. g = Some d \<and> A d")
  case True
  then obtain d where d: "g = Some d" "A d" by blast
  then have "h = Some d" using assms(1) [of d] assms(2) [of d] by blast
  with d show ?thesis by simp
next
  case False
  then have "\<not> (\<exists>d. h = Some d \<and> A d)" using assms by blast
  with False show ?thesis by (auto split: option.splits)
qed

lemma both_owned:
  assumes "same_sight e ki s t" and "rr_project_id r = Some p" and "may_use (ce_base e) (cs_app s) ki p"
  shows "both s t (fetch_task e r i)" and "both s t (fetch_document e r i)"
proof -
  have use: "may_use (ce_base e) (cs_app t) ki p" using assms(3) sight_may_use [OF assms(1)] by simp
  show "both s t (fetch_task e r i)"
    by (rule bothI [OF yields_task yields_task],
        rule case_seen [where P = "\<lambda>x. may_use (ce_base e) (cs_app s) ki (t_project_id x)" and Q = "\<lambda>x. may_use (ce_base e) (cs_app t) ki (t_project_id x)"])
      (use sight_fields(1) [OF assms(1)] assms(2,3) use in \<open>simp_all add: found_task_def ref_in_project_def\<close>)
  show "both s t (fetch_document e r i)"
    by (rule bothI [OF yields_document yields_document],
        rule case_seen [where P = "\<lambda>x. \<not> d_is_deleted x \<and> may_use (ce_base e) (cs_app s) ki (d_project_id x)"
          and Q = "\<lambda>x. \<not> d_is_deleted x \<and> may_use (ce_base e) (cs_app t) ki (d_project_id x)"])
      (use sight_fields(2) [OF assms(1)] assms(2,3) use in \<open>simp_all add: found_in_def ref_in_project_def\<close>)
qed

lemma both_shared:
  assumes "same_sight e ki s t"
  shows "both s t (fetch_bookmark e ki i)"
    and "both s t (bindP (content_get e k_id cs_knowledge i) (\<lambda>k. return (map_option R_knowledge k)))"
    and "both s t (fetch_page site path)"
proof -
  show "both s t (fetch_bookmark e ki i)"
    by (rule bothI [OF yields_bookmark yields_bookmark], unfold sight_may_use [OF assms],
        rule case_seen [where P = "\<lambda>x. may_use (ce_base e) (cs_app s) ki (b_project_id x)" and Q = "\<lambda>x. may_use (ce_base e) (cs_app t) ki (b_project_id x)"])
      (use sight_fields(3) [OF assms] sight_may_use [OF assms] in \<open>simp_all add: found_in_def\<close>)
qed (rule bothI [OF yields_knowledge yields_knowledge] bothI [OF yields_page yields_page], simp add: sight_fields [OF assms])+

lemma both_project:
  assumes "same_sight e ki s t" and "may_use (ce_base e) (cs_app s) ki p"
  shows "both s t (bindP (on_app (project_get (ce_base e) p)) (\<lambda>p. return (map_option R_project p)))"
proof -
  have "\<exists>q. coll_get p_id (w_projects (cs_app s)) (oid_canon (ce_base e) p) = Some q \<and> coll_get p_id (w_projects (cs_app t)) (oid_canon (ce_base e) p) = Some q"
    using assms(2) sight_projects [OF assms(1)] by (auto simp: may_use_usable)
  then show ?thesis by (intro bothI [OF yields_project yields_project]) (auto simp: found_in_def)
qed

text \<open>A reference to a task or a document must name its project.\<close>

definition ref_ok :: "resource_ref \<Rightarrow> bool" where
  "ref_ok r \<longleftrightarrow> (rr_kind r \<in> {''task'', ''document'', ''document_full''} \<longrightarrow> rr_project_id r \<noteq> None)"

lemma both_kind:
  assumes sight: "same_sight e ki s t" and ok: "ref_ok r" and use: "\<forall>p. rr_project_id r = Some p \<longrightarrow> may_use (ce_base e) (cs_app s) ki p"
  shows "both s t (fetch_kind e ki r)"
proof -
  have owned: "both s t (fetch_task e r i)" "both s t (fetch_document e r i)"
    if "rr_kind r \<in> {''task'', ''document'', ''document_full''}" for i
    using that ok use both_owned [OF sight] by (auto simp: ref_ok_def)
  have project: "both s t (bindP (on_app (project_get (ce_base e) p)) (\<lambda>p. return (map_option R_project p)))"
    if "truthy (rr_project_id r) = Some p" for p
    using that use by (intro both_project [OF sight]) (auto simp: truthy_def split: option.splits list.splits)
  show ?thesis
    unfolding fetch_kind_def Let_def prod.case
    by (intro both_if both_option both_shared [OF sight] both_none owned project) simp_all
qed

lemma fetch_same:
  assumes sight: "same_sight e ki s t" and "ref_ok r"
  shows "\<exists>x. fetch_resource e ki r s = (x, s) \<and> fetch_resource e ki r t = (x, t)"
proof (cases "case rr_project_id r of None \<Rightarrow> True | Some p \<Rightarrow> may_use (ce_base e) (cs_app s) ki p")
  case True
  then have "both s t (fetch_kind e ki r)" by (intro both_kind [OF assms]) (auto split: option.splits)
  then obtain x where x: "catchP (fetch_kind e ki r) (\<lambda>_. return None) s = (Inr x, s)" "catchP (fetch_kind e ki r) (\<lambda>_. return None) t = (Inr x, t)"
    by (auto simp: both_def yields_def)
  have "project_access_or_deny e (rr_project_id r) ki s = (Inr True, s)" "project_access_or_deny e (rr_project_id r) ki t = (Inr True, t)"
    using True sight_may_use [OF sight] by (auto simp: access_outcome may_use_def split: option.splits)
  then show ?thesis by (simp add: fetch_resource_def bindP_def x)
next
  case False
  then show ?thesis
    using sight_may_use [OF sight] by (auto simp: fetch_resource_def bindP_def access_outcome return_def split: option.splits)
qed

lemma parsed_ref_ok:
  assumes "parse_url bad_host url = Inr p"
  shows "ref_ok (ref_of p)"
proof -
  have "fields_ok (pu_kind p) (pu_project_id p) (pu_resource_id p) (pu_path p) (pu_site_id p)"
    using parsed_fields [OF assms] by (simp add: url_ok_def)
  then show ?thesis by (cases "pu_kind p"; cases "pu_project_id p") (auto simp: ref_ok_def ref_of_def holds_def)
qed

section \<open>The answers of a lookup\<close>

lemma audit_answer: "bindP (audit e ki url kind pid ok msg) (\<lambda>_. m) s = m (snd (audit e ki url kind pid ok msg s))"
  by (simp add: audit_def bindP_def whenP_def modify_def return_def)

lemma resolve_same:
  assumes "same_sight e ki s t"
  shows "fst (resolve_url dump e ki url follow s) = fst (resolve_url dump e ki url follow t)"
proof (cases "parse_url (invalid_host e) url")
  case (Inl x)
  then show ?thesis by (simp add: resolve_url_def parsed_def bindP_def raise_def)
next
  case (Inr p)
  obtain x where "fetch_resource e ki (ref_of p) s = (x, s)" "fetch_resource e ki (ref_of p) t = (x, t)"
    using fetch_same [OF assms parsed_ref_ok [OF Inr]] by blast
  then show ?thesis
    unfolding resolve_url_def parsed_def Inr sum.case bindP_return Let_def audit_answer
    by (auto simp: bindP_def [of "fetch_resource e ki (ref_of p)"] audit_answer return_def split: sum.split option.split)
qed

lemma limit_same:
  assumes "same_sight e ki s t"
  shows "\<exists>v s' t'. check_lookup_limit e u s = (Inr v, s') \<and> check_lookup_limit e u t = (Inr v, t') \<and> same_sight e ki s' t'"
proof -
  have put: "same_sight e ki (s\<lparr>cs_url_counts := c\<rparr>) (t\<lparr>cs_url_counts := c\<rparr>)" for c
    using assms by (simp add: same_sight_def ids_unique_def seen_part_def Let_def)
  show ?thesis
    using assms put sight_fields(6) [OF assms]
    by (auto simp: check_lookup_limit_def Let_def bindP_def gets_def modify_def return_def)
qed

lemma lookup_same:
  assumes "same_sight e ki (s\<lparr>cs_app := w\<rparr>) (t\<lparr>cs_app := w'\<rparr>)"
    and "authenticate (ce_base e) rq (cs_app s) = (Inr ki, w)" and "authenticate (ce_base e) rq (cs_app t) = (Inr ki, w')"
  shows "fst (lookup_url dump e rq url follow s) = fst (lookup_url dump e rq url follow t)"
proof -
  obtain v s' t' where v: "check_lookup_limit e (ki_user_id ki) (s\<lparr>cs_app := w\<rparr>) = (Inr v, s')"
      "check_lookup_limit e (ki_user_id ki) (t\<lparr>cs_app := w'\<rparr>) = (Inr v, t')" "same_sight e ki s' t'"
    using limit_same [OF assms(1)] by blast
  have "lookup_url dump e rq url follow x =
      (if \<not> fst v then bindP (audit e ki url ''unknown'' None False ''rate_limited'') (\<lambda>_. raise (ToolError (''Rate limit exceeded ('' @
          str_int (int url_lookup_rate_limit_per_min) @ ''/min). Retry after '' @ str_int (snd v) @ ''s.'')))
       else resolve_url dump e ki url follow) x'"
    if "authenticate (ce_base e) rq (cs_app x) = (Inr ki, y)" "check_lookup_limit e (ki_user_id ki) (x\<lparr>cs_app := y\<rparr>) = (Inr v, x')" for x x' y
    using that by (simp add: lookup_url_def bindP_def on_app_def)
  from this [OF assms(2) v(1)] this [OF assms(3) v(2)] show ?thesis
    using resolve_same [OF v(3), of dump url follow] by (simp add: audit_answer raise_def)
qed

section \<open>The rate limit\<close>

text \<open>Keys of different minutes differ.\<close>

lemma digit_facts: "m < 10 \<Longrightarrow> hex_digit m \<in> set ''0123456789'' \<and> of_char (hex_digit m) - 48 = m"
proof -
  have "list_all (\<lambda>m. hex_digit m \<in> set ''0123456789'' \<and> of_char (hex_digit m) - 48 = m) [0..<10]" by code_simp
  then show "m < 10 \<Longrightarrow> hex_digit m \<in> set ''0123456789'' \<and> of_char (hex_digit m) - 48 = m" by (simp only: list_all_iff set_upt) simp
qed

lemma dec_digits: "set (dec n) \<subseteq> set ''0123456789''"
proof (induction n rule: dec.induct)
  case (1 n)
  then show ?case using digit_facts [of n] digit_facts [of "n mod 10"] by (subst dec.simps) simp
qed

lemma str_int_colon: "CHR '':'' \<notin> set (str_int i)"
  using dec_digits [of "nat i"] dec_digits [of "nat (- i)"] by (auto simp: str_int_def)

definition undec :: "string \<Rightarrow> nat" where
  "undec s = foldl (\<lambda>n c. 10 * n + (of_char c - 48)) 0 s"

lemma undec_dec: "undec (dec n) = n"
proof (induction n rule: dec.induct)
  case (1 n)
  then show ?case using digit_facts [of n] digit_facts [of "n mod 10"] by (subst dec.simps) (simp add: undec_def)
qed

lemma dec_Cons: "dec n \<noteq> CHR ''-'' # s"
proof
  assume "dec n = CHR ''-'' # s"
  then have "CHR ''-'' \<in> set (dec n)" by simp
  then show False using dec_digits [of n] by auto
qed

lemma str_int_inject: "str_int i = str_int j \<longleftrightarrow> i = j"
proof
  assume eq: "str_int i = str_int j"
  have inj: "dec m = dec n \<Longrightarrow> m = n" for m n using undec_dec by metis
  show "i = j" using eq dec_Cons dec_Cons [symmetric] by (auto simp: str_int_def split: if_splits dest!: inj)
qed simp

lemma colon_split: "a @ CHR '':'' # x = b @ CHR '':'' # y \<Longrightarrow> CHR '':'' \<notin> set x \<Longrightarrow> CHR '':'' \<notin> set y \<Longrightarrow> a = b \<and> x = y"
proof (induction a arbitrary: b)
  case Nil
  then show ?case by (cases b) auto
next
  case (Cons c a)
  then show ?case by (cases b) auto
qed

definition minute_of :: "content_env \<Rightarrow> int" where
  "minute_of e = now (ce_base e) div 60000000"

definition minute_key :: "string \<Rightarrow> int \<Rightarrow> string" where
  "minute_key uid m = ''ratelimit:url_lookup:'' @ uid @ '':'' @ str_int m"

lemma limit_key_minute: "limit_key e uid = minute_key uid (minute_of e)"
  by (simp add: limit_key_def minute_key_def minute_of_def)

lemma minute_key_inject: "minute_key u m = minute_key v n \<longleftrightarrow> u = v \<and> m = n"
  using colon_split [OF _ str_int_colon str_int_colon, of u m v n] by (auto simp: minute_key_def str_int_inject)

text \<open>A lookup as a step, the user it is for, and whether it gets an answer.\<close>

type_synonym lookup = "(resource \<Rightarrow> json) \<times> content_env \<times> mcp_request \<times> string \<times> bool"

definition lookup_step :: "lookup \<Rightarrow> content \<Rightarrow> content" where
  "lookup_step = (\<lambda>(dump, e, rq, url, follow) s. snd (lookup_url dump e rq url follow s))"

definition answered :: "string \<Rightarrow> int \<Rightarrow> lookup \<Rightarrow> content \<Rightarrow> bool" where
  "answered uid m = (\<lambda>(dump, e, rq, url, follow) s. minute_of e = m \<and>
     (\<exists>ki w. authenticate (ce_base e) rq (cs_app s) = (Inr ki, w) \<and> ki_user_id ki = uid) \<and>
     (\<exists>d s'. lookup_url dump e rq url follow s = (Inr d, s')))"

text \<open>The answers left to a user in a minute, when the counter lasts until its end.\<close>

definition answers_left :: "string \<Rightarrow> int \<Rightarrow> content \<Rightarrow> nat" where
  "answers_left uid m s = (case cs_url_counts s (minute_key uid m) of None \<Rightarrow> 100
     | Some (n, x) \<Rightarrow> if (m + 1) * 60000000 \<le> x then 100 - n else 100)"

lemma keeps_counts: "keeps (same cs_url_counts) (audit e ki url kind pid ok msg)" "keeps (same cs_url_counts) (on_app m)"
  unfolding audit_def by (intro part.keeps_intros part.keeps_modify; simp add: same_def)
    (simp add: keeps_def same_def on_app_def case_prod_unfold)

lemma keeps_counts_fetch: "keeps (same cs_url_counts) (fetch_resource e ki r)"
proof -
  have access: "keeps (same cs_url_counts) (project_access_or_deny e pid ki)" for pid
    unfolding project_access_or_deny_def
    by (intro part.keeps_intros keeps_counts(2)) (simp split: exn.split add: part.keeps_return part.keeps_raise)
  have get: "keeps (same cs_url_counts) (content_get e key docs i)" for key :: "'d \<Rightarrow> string" and docs i
    unfolding content_get_def by (intro part.keeps_intros)
  show ?thesis
    unfolding fetch_resource_def fetch_kind_def fetch_task_def fetch_document_def fetch_bookmark_def fetch_page_def prod.case
    by (intro part.keeps_intros keeps_counts(2) access get)
qed

lemma keeps_counts_resolve: "keeps (same cs_url_counts) (resolve_url dump e ki url follow)"
proof -
  have "keeps (same cs_url_counts) (parsed e url)" unfolding parsed_def by (simp add: part.keeps_raise part.keeps_return split: sum.split)
  then show ?thesis unfolding resolve_url_def Let_def by (intro part.keeps_intros keeps_counts(1) keeps_counts_fetch)
qed

text \<open>What a lookup does to the counters: one is counted up, and past the limit there is no answer.\<close>

definition counted :: "content_env \<Rightarrow> string \<Rightarrow> content \<Rightarrow> nat" where
  "counted e uid s = (case alive (now (ce_base e)) (cs_url_counts s) (limit_key e uid) of None \<Rightarrow> 0 | Some n \<Rightarrow> n) + 1"

lemma limit_counts:
  "wp (check_lookup_limit e uid)
     (\<lambda>v s'. cs_url_counts s' = (if redis_up (ce_base e) then (cs_url_counts s)(limit_key e uid \<mapsto> (counted e uid s, now (ce_base e) + 120000000)) else cs_url_counts s) \<and>
        (fst v \<longrightarrow> redis_up (ce_base e) \<and> counted e uid s \<le> 100))
     (\<lambda>_ _. False) s"
  by (simp add: check_lookup_limit_def wp_simps counted_def Let_def url_lookup_rate_limit_per_min_def)

lemma lookup_counts:
  assumes "authenticate (ce_base e) rq (cs_app s) = (Inr ki, w)"
  defines "cs' \<equiv> if redis_up (ce_base e) then (cs_url_counts s)(limit_key e (ki_user_id ki) \<mapsto> (counted e (ki_user_id ki) s, now (ce_base e) + 120000000)) else cs_url_counts s"
  shows "wp (lookup_url dump e rq url follow)
    (\<lambda>_ s'. cs_url_counts s' = cs' \<and> redis_up (ce_base e) \<and> counted e (ki_user_id ki) s \<le> 100) (\<lambda>_ s'. cs_url_counts s' = cs') s"
proof -
  let ?s = "s\<lparr>cs_app := w\<rparr>"
  have auth: "wp (on_app (authenticate (ce_base e) rq)) Q E s = Q ki ?s" for Q E using assms(1) by (simp add: wp_def on_app_def)
  have limit: "wp (check_lookup_limit e (ki_user_id ki)) (\<lambda>v s'. cs_url_counts s' = cs' \<and>
      (fst v \<longrightarrow> redis_up (ce_base e) \<and> counted e (ki_user_id ki) s \<le> 100)) (\<lambda>_ _. False) ?s"
    by (rule wp_mono [OF limit_counts]) (simp_all add: cs'_def counted_def)
  show ?thesis
    unfolding lookup_url_def wp_bindP [of "on_app _"] auth wp_bindP [of "check_lookup_limit _ _"] wp_if
    by (rule wp_mono [OF limit]) (auto simp: same_def audit_def wp_simps intro!: wp_keeps [OF keeps_counts_resolve])
qed

interpretation lookups: metered lookup_step "\<lambda>_. True" "answered uid m" "answers_left uid m" "\<lambda>_ _. 0" for uid m
proof
  fix q :: lookup and s :: content
  obtain dump e rq url follow where q: "q = (dump, e, rq, url, follow)" by (cases q)
  obtain r w where a: "authenticate (ce_base e) rq (cs_app s) = (r, w)" by fastforce
  show "of_bool (answered uid m q s) + answers_left uid m (lookup_step q s) \<le> answers_left uid m s + 0"
  proof (cases r)
    case (Inl x)
    then have "cs_url_counts (lookup_step q s) = cs_url_counts s" and "\<not> answered uid m q s"
      using a by (simp_all add: q lookup_step_def lookup_url_def bindP_def on_app_def answered_def)
    then show ?thesis by (simp add: answers_left_def)
  next
    case (Inr ki)
    let ?t = "now (ce_base e)" and ?k = "limit_key e (ki_user_id ki)" and ?n = "counted e (ki_user_id ki) s"
    note run = lookup_counts [OF a [unfolded Inr], of dump url follow]
    have counts: "cs_url_counts (lookup_step q s) = (if redis_up (ce_base e) then (cs_url_counts s)(?k \<mapsto> (?n, ?t + 120000000)) else cs_url_counts s)"
      using run unfolding q lookup_step_def prod.case by (auto simp: wp_def split: prod.splits sum.splits)
    have allowed: "redis_up (ce_base e) \<and> ?n \<le> 100 \<and> ki_user_id ki = uid \<and> minute_of e = m" if "answered uid m q s"
    proof -
      from that obtain d s' where "lookup_url dump e rq url follow s = (Inr d, s')" by (auto simp: q answered_def)
      from wp_value [OF run this] that show ?thesis using a Inr by (auto simp: q answered_def)
    qed
    have key: "minute_key uid m = ?k \<longleftrightarrow> ki_user_id ki = uid \<and> minute_of e = m"
      unfolding limit_key_minute minute_key_inject by auto
    show ?thesis
    proof (cases "redis_up (ce_base e) \<and> ki_user_id ki = uid \<and> minute_of e = m")
      case True
      then have "?t < (m + 1) * 60000000" and "m * 60000000 \<le> ?t"
        by (auto simp: minute_of_def)
      moreover have "answers_left uid m (lookup_step q s) = 100 - ?n" using True counts key calculation by (simp add: answers_left_def)
      ultimately show ?thesis
        using True key allowed by (auto simp: answers_left_def counted_def alive_def split: option.splits prod.splits)
    next
      case False
      then have "answers_left uid m (lookup_step q s) = answers_left uid m s" and "\<not> answered uid m q s"
        using counts key allowed by (auto simp: answers_left_def)
      then show ?thesis by simp
    qed
  qed
qed

end
