(* ===== verification/Content_Behaviour.thy ===== *)
theory Content_Behaviour
  imports Document_History Knowledge_Safety Secret_Safety Url_Safety Mcp_Behaviour
begin

text \<open>
  The properties of documents, knowledge entries, secrets and the lookup of URLs, with a demonstration database.
\<close>

section \<open>A demonstration database\<close>

definition demo_env :: content_env where
  "demo_env = \<lparr>ce_base = plain_env, document_indexer = True, knowledge_indexer = True, document_search = None, knowledge_search = None,
     audit_ok = True, invalid_host = (\<lambda>_. None)\<rparr>"

definition demo_document :: project_document where
  "demo_document = new_document demo_env ''d'' ''p'' ''old title'' [] Cat_spec ''body'' ''u''"

definition demo_secret :: project_secret where
  "demo_secret = \<lparr>s_id = ''s'', s_project_id = ''p'', s_key = ''TOKEN'', s_value = ''hidden'', s_description = '''',
     s_created_by = ''u'', s_updated_by = ''u'', s_created_at = 0, s_updated_at = 0\<rparr>"

definition demo_content :: content where
  "demo_content = \<lparr>cs_app = demo_mcp_world, cs_documents = [demo_document], cs_versions = [], cs_knowledge = [],
     cs_secrets = [demo_secret], cs_secret_log = [], cs_bookmarks = [], cs_pages = [], cs_url_log = [],
     cs_url_counts = Map.empty, cs_index = []\<rparr>"

lemma demo_docs_ok: "docs_ok (doc_part demo_content)"
  by (simp add: docs_ok_def doc_part_def demo_content_def keys_distinct_def versions_for_def demo_document_def new_document_def)

section \<open>Documents\<close>

text \<open>
  C22. Documents are append-only histories: whatever request is served (creating, reading, updating,
  deleting, listing, searching or reordering, by MCP or REST, successful or not), the versions stay
  numbered without gaps, and the histories of all documents either stay, or a new one starts, or one
  of them gets one more revision at its end.
\<close>

theorem documents_refine_histories:
  assumes "docs_ok (doc_part s)" and "new_oid (ce_base e) 0 \<notin> d_id ` set (cs_documents s)"
  shows "docs_ok (doc_part (snd (serve_document e op s))) \<and>
    history_step (history (doc_part s)) (history (doc_part (snd (serve_document e op s))))"
proof -
  have "fresh_for e (doc_part s)" using assms by (simp add: fresh_for_def doc_part_def)
  then show ?thesis using serve_transaction [of e op] by (simp add: transacts_def refines_def)
qed

definition demo_change :: document_changes where
  "demo_change = \<lparr>dc_title = Some ''new title'', dc_content = None, dc_tags = None, dc_category = None, dc_task_id = None, dc_change_summary = None\<rparr>"

lemma demo_content_fresh: "new_oid (ce_base demo_env) 0 \<notin> d_id ` set (cs_documents demo_content)"
  by (simp add: demo_env_def demo_content_def demo_document_def new_document_def plain_env_def)

theorem documents_refine_histories_witness:
  "docs_ok (doc_part (snd (serve_document demo_env (Patch_document ''p'' ''d'' demo_change demo_user) demo_content))) \<and>
   history_step (history (doc_part demo_content))
     (history (doc_part (snd (serve_document demo_env (Patch_document ''p'' ''d'' demo_change demo_user) demo_content))))"
  by (rule documents_refine_histories [OF demo_docs_ok demo_content_fresh])

text \<open>
  C23. Nothing that was ever written to a document is lost: after any sequence of requests, a caller who
  can read the document finds each earlier state of it, title, text, tags and category, either as the
  document itself or as the version of that number.
\<close>

theorem every_revision_readable:
  assumes "docs_ok (doc_part s)" and "document_run s s'" and "coll_get d_id (cs_documents s) i = Some d"
    and "mcp_get_document e rq j s' = (Inr r, s'')" and "oid_canon (ce_base e) j = i"
  shows "(\<exists>d'. r = document_to_dict d' \<and> d_version d' = d_version d \<and> revision_of d' = revision_of d) \<or>
    (\<exists>v t. mcp_get_document_version e rq j (int (d_version d)) s' = (Inr (document_version_to_dict v), t) \<and>
       v_document_id v = i \<and> v_version v = d_version d \<and> revision_at v = revision_of d)"
proof -
  obtain d' t where d': "r = document_to_dict d'" "coll_get d_id (cs_documents s') i = Some d'" "doc_part t = doc_part s'"
    and read: "\<And>n. mcp_get_document_version e rq j n s' =
      bindP (find_version (d_id d') n) (\<lambda>v0. bindP (some_or v0 (ToolError (''Version '' @ str_int n @ '' not found for document '' @ j)))
        (\<lambda>v. return (document_version_to_dict v))) t"
    using get_document_value [OF assms(4)] assms(5) by blast
  note grown = run_grows [OF assms(2,1)]
  have get: "coll_get d_id (fst (doc_part s)) i = Some d" "coll_get d_id (fst (doc_part s')) i = Some d'"
    using assms(3) d'(2) by (simp_all add: doc_part_def)
  note before = history_length [OF assms(1) get(1)]
  note after = history_length [OF conjunct1 [OF grown] get(2)]
  obtain rs where rs: "map revision_at (versions_for i (doc_part s')) @ [revision_of d'] =
      map revision_at (versions_for i (doc_part s)) @ revision_of d # rs"
    using conjunct2 [OF grown, rule_format, OF before(1)] after(1) by auto
  have nth: "(map revision_at (versions_for i (doc_part s')) @ [revision_of d']) ! (d_version d - 1) = revision_of d"
    using rs before(2) by (metis length_map nth_append_length)
  have len: "d_version d \<le> d_version d'"
    using arg_cong [OF rs, of length] before(2,3) after(2,3) by simp
  show ?thesis
  proof (cases "d_version d = d_version d'")
    case True
    then have "revision_of d' = revision_of d" using nth after(2) by (metis length_map nth_append_length)
    then show ?thesis using d'(1) True by auto
  next
    case False
    then have less: "d_version d < d_version d'" using len by simp
    from found_version [OF conjunct1 [OF grown] get(2) before(3) less] obtain v where
      v: "List.find (\<lambda>v. v_document_id v = i \<and> int (v_version v) = int (d_version d)) (cs_versions s') = Some v"
        "v_document_id v = i" "v_version v = d_version d" "v = versions_for i (doc_part s') ! (d_version d - 1)"
      by (auto simp: doc_part_def)
    have "revision_at v = revision_of d" using nth v(4) less before(3) after(2) by (auto simp: nth_append split: if_splits)
    moreover have "d_id d' = i" using coll_get_in [OF d'(2)] by simp
    then have "mcp_get_document_version e rq j (int (d_version d)) s' = (Inr (document_version_to_dict v), t)"
      using v(1) d'(3) by (simp add: read find_version_def doc_part_def bindP_def gets_def some_or_def return_def)
    ultimately show ?thesis using v(2,3) by blast
  qed
qed

definition demo_updated :: content where
  "demo_updated = snd (serve_document demo_env (Patch_document ''p'' ''d'' demo_change demo_user) demo_content)"

lemma demo_run: "document_run demo_content demo_updated"
  unfolding demo_updated_def by (rule document_run.request [OF document_run.start demo_content_fresh])

lemma demo_updated_state: "cs_app demo_updated = demo_mcp_world \<and>
  cs_documents demo_updated = [apply_changes demo_change demo_document\<lparr>d_updated_at := 0\<rparr>]"
  unfolding demo_updated_def
  by (simp add: rest_update_document_def writable_project_def rest_project_def on_app_def check_project_access_def valid_object_id_def
      project_get_def check_not_locked_def project_doc_def content_get_def revise_document_def save_document_def index_document_def
      index_entity_def coll_get_def coll_save_def coll_insert_def demo_content_def demo_document_def new_document_def demo_env_def demo_change_def
      apply_changes_def demo_defs has_member_def bindP_def return_def gets_def guard_def modify_def Let_def)

lemma demo_read: "\<exists>r s''. mcp_get_document demo_env demo_request ''d'' demo_updated = (Inr r, s'')"
proof -
  obtain w where a: "authenticate plain_env demo_request demo_mcp_world = (Inr demo_caller, w)" using demo_authenticates by blast
  then have "w_projects w = [demo_project]" using authenticate_quiet [of plain_env demo_request] unfolding keeps_def same_store_def
    by (metis demo_mcp_fields(2) snd_conv)
  then show ?thesis
    using a demo_updated_state
    by (simp add: mcp_get_document_def tool_document_def on_app_def content_get_def mcp_check_project_access_def project_get_def
        demo_env_def coll_get_def bindP_def return_def gets_def guard_def demo_document_def new_document_def demo_change_def
        apply_changes_def demo_defs demo_caller_def has_member_def)
qed

theorem every_revision_readable_witness:
  "\<exists>r s''. mcp_get_document demo_env demo_request ''d'' demo_updated = (Inr r, s'') \<and>
    ((\<exists>d'. r = document_to_dict d' \<and> d_version d' = d_version demo_document \<and> revision_of d' = revision_of demo_document) \<or>
     (\<exists>v t. mcp_get_document_version demo_env demo_request ''d'' (int (d_version demo_document)) demo_updated = (Inr (document_version_to_dict v), t) \<and>
       v_document_id v = ''d'' \<and> v_version v = d_version demo_document \<and> revision_at v = revision_of demo_document))"
proof -
  obtain r s'' where read: "mcp_get_document demo_env demo_request ''d'' demo_updated = (Inr r, s'')" using demo_read by blast
  have "coll_get d_id (cs_documents demo_content) ''d'' = Some demo_document"
    by (simp add: coll_get_def demo_content_def demo_document_def new_document_def)
  from every_revision_readable [OF demo_docs_ok demo_run this read] read show ?thesis
    by (simp add: demo_env_def)
qed

section \<open>Knowledge\<close>

text \<open>
  C29. Deleting a knowledge entry is final as far as the tools and endpoints of knowledge entries go:
  whatever they are asked afterwards, in any order and imports included, the entry stays stored as it
  was and deleted, and every request that names it, to read, change or delete it, fails. (The tools
  that look up URLs read entries without testing the mark and are not meant.)
\<close>

theorem knowledge_deletion_final:
  assumes "keys_distinct k_id (cs_knowledge s)" and "k \<in> set (cs_knowledge s)" and "k_is_deleted k"
    and "knowledge_run s t" and "names_entry e (k_id k) op"
  shows "k \<in> set (cs_knowledge t) \<and> (\<exists>x. fst (serve_knowledge e op t) = Inl x)"
proof -
  have "buried (cs_knowledge s) (cs_knowledge t)" by (rule run_buries [OF assms(4,1)])
  then have t: "keys_distinct k_id (cs_knowledge t)" "k \<in> set (cs_knowledge t)" using assms(2,3) by (auto simp: buried_def)
  have "wp (serve_knowledge e op) (\<lambda>_ _. False) (\<lambda>_ _. True) t" using named_fails [OF t assms(3,5)] by (simp add: fails_on_def)
  then have "\<exists>x. fst (serve_knowledge e op t) = Inl x" by (cases "serve_knowledge e op t"; cases "fst (serve_knowledge e op t)") (auto simp: wp_def)
  with t show ?thesis by blast
qed

definition deleted_entry :: knowledge where
  "deleted_entry = (new_knowledge demo_env ''e'' ''title'' ''body'' [] Cat_tip None ''u'')\<lparr>k_is_deleted := True\<rparr>"

definition demo_upload :: markdown_upload where
  "demo_upload = \<lparr>mu_filename = Some ''a.md'', mu_bytes = 4, mu_text = Some ''text''\<rparr>"

definition with_deleted_entry :: content where
  "with_deleted_entry = demo_content\<lparr>cs_knowledge := [deleted_entry]\<rparr>"

definition after_import :: content where
  "after_import = snd (serve_knowledge demo_env (Import_knowledge [demo_upload] demo_user) with_deleted_entry)"

theorem knowledge_deletion_final_witness:
  "deleted_entry \<in> set (cs_knowledge after_import) \<and>
   (\<exists>x. fst (serve_knowledge demo_env (Read_knowledge ''e'' demo_user) after_import) = Inl x)"
proof -
  have "inj (new_oid plain_env)" by (rule injI) (simp add: plain_env_def replicate_eq_replicate)
  moreover have "new_oid plain_env i \<noteq> ''e''" for i by (simp add: plain_env_def)
  ultimately have unused: "unused_ids demo_env 0 (cs_knowledge with_deleted_entry)"
    by (auto simp: unused_ids_def keys_distinct_def with_deleted_entry_def deleted_entry_def new_knowledge_def demo_env_def)
  have run: "knowledge_run with_deleted_entry after_import"
    unfolding after_import_def by (rule knowledge_run.request [OF knowledge_run.start unused])
  have "names_entry demo_env (k_id deleted_entry) (Read_knowledge ''e'' demo_user)"
    by (simp add: deleted_entry_def new_knowledge_def demo_env_def)
  from knowledge_deletion_final [OF _ _ _ run this] show ?thesis
    by (simp add: with_deleted_entry_def deleted_entry_def keys_distinct_def)
qed

section \<open>Secrets\<close>

text \<open>
  C24. The tools and endpoints of secrets keep the values hidden: two databases that differ in nothing
  but the values of secrets answer every request to them alike, except the two kinds that read a
  value, and they stay alike. (Remote commands that have secrets injected read values too; they are
  not part of these requests.)
\<close>

theorem secret_values_confined:
  assumes "without_values s = without_values t" and "\<not> reveals op"
  shows "fst (serve_secret e op s) = fst (serve_secret e op t) \<and>
    without_values (snd (serve_secret e op s)) = without_values (snd (serve_secret e op t))"
  using hidden_secret [OF assms(2), of e, unfolded alike_def, rule_format, OF assms(1)] by (simp add: sum.rel_eq)

theorem secret_values_confined_witness:
  "demo_content \<noteq> demo_content\<lparr>cs_secrets := [demo_secret\<lparr>s_value := ''other''\<rparr>]\<rparr> \<and>
   fst (serve_secret demo_env (Read_secrets ''p'' 50 0 demo_user) demo_content) =
   fst (serve_secret demo_env (Read_secrets ''p'' 50 0 demo_user) (demo_content\<lparr>cs_secrets := [demo_secret\<lparr>s_value := ''other''\<rparr>]\<rparr>))"
proof -
  let ?other = "demo_content\<lparr>cs_secrets := [demo_secret\<lparr>s_value := ''other''\<rparr>]\<rparr>"
  have "s_value (cs_secrets demo_content ! 0) \<noteq> s_value (cs_secrets ?other ! 0)" by (simp add: demo_content_def demo_secret_def)
  then have "demo_content \<noteq> ?other" by metis
  moreover have "without_values demo_content = without_values ?other"
    by (simp add: without_values_def hide_value_def demo_content_def demo_secret_def)
  from secret_values_confined [OF this, of "Read_secrets ''p'' 50 0 demo_user" demo_env]
  have "fst (serve_secret demo_env (Read_secrets ''p'' 50 0 demo_user) demo_content) = fst (serve_secret demo_env (Read_secrets ''p'' 50 0 demo_user) ?other)"
    by simp
  ultimately show ?thesis ..
qed

text \<open>
  C25. The tools and endpoints of secrets guard them: a request of a caller who is not authenticated
  changes nothing; otherwise the request changes nothing, or is a logged read by a member of the
  project, or a logged change of the named secret by an owner (administrators may do both). Values
  leave only together with an entry in the log, and no two secrets agree on the key and on the
  project identifier as it was written (identifiers in another letter case count as different here),
  if none did before and identifiers of new documents are new.
\<close>

theorem secrets_guarded:
  assumes "secrets_fresh e (secret_part s)"
  shows "permitted e (secret_caller e op (cs_app s)) (secret_part s) (secret_part (snd (serve_secret e op s))) \<and>
    (reveals op \<and> \<not> isl (fst (serve_secret e op s)) \<longrightarrow> (\<exists>l. cs_secret_log (snd (serve_secret e op s)) = cs_secret_log s @ [l])) \<and>
    secrets_ok (cs_secrets (snd (serve_secret e op s)))"
proof -
  note permitted = secret_permitted [OF assms, of op]
  have "\<exists>l. cs_secret_log (snd (serve_secret e op s)) = cs_secret_log s @ [l]" if shown: "reveals op" "\<not> isl (fst (serve_secret e op s))"
  proof -
    obtain r s' where r: "serve_secret e op s = (Inr r, s')" using shown(2) by (cases "serve_secret e op s"; cases "fst (serve_secret e op s)") auto
    then show ?thesis using value_logged [OF shown(1) r] by simp
  qed
  moreover have "secrets_ok (cs_secrets (snd (serve_secret e op s)))"
    using permitted_ok [OF permitted] assms by (simp add: secrets_fresh_def secret_part_def)
  ultimately show ?thesis using permitted by blast
qed

theorem secrets_guarded_witness:
  "permitted demo_env (Some (''u'', False)) (secret_part demo_content)
     (secret_part (snd (serve_secret demo_env (Read_secret_value ''p'' ''TOKEN'' demo_user) demo_content))) \<and>
   (\<exists>l. cs_secret_log (snd (serve_secret demo_env (Read_secret_value ''p'' ''TOKEN'' demo_user) demo_content)) = [l])"
proof -
  have fresh: "secrets_fresh demo_env (secret_part demo_content)"
    by (simp add: secrets_fresh_def secret_part_def secrets_ok_def keys_distinct_def demo_content_def demo_secret_def demo_env_def plain_env_def)
  have "wp (serve_secret demo_env (Read_secret_value ''p'' ''TOKEN'' demo_user)) (\<lambda>_ _. True) (\<lambda>_ _. False) demo_content"
    unfolding serve_secret.simps get_secret_value_def secret_member_def rest_key_def find_secret_def rest_log_def log_secret_def
    by (simp add: wp_simps wp_on_app check_project_access_def valid_object_id_def project_get_def demo_content_def demo_env_def demo_secret_def
        demo_defs has_member_def coll_get_def py_strip_def py_space_def key_re_def key_letter_def)
  then have "\<not> isl (fst (serve_secret demo_env (Read_secret_value ''p'' ''TOKEN'' demo_user) demo_content))"
    by (auto simp: wp_def split: prod.splits sum.splits)
  then show ?thesis
    using secrets_guarded [OF fresh, of "Read_secret_value ''p'' ''TOKEN'' demo_user"]
    by (simp add: demo_defs demo_content_def)
qed

section \<open>Lookup of URLs\<close>

text \<open>
  C26. A lookup tells a caller nothing about what he may not see. When two databases agree on what the
  caller may read (the projects he may use, with their tasks, bookmarks and the documents that are
  not deleted, all knowledge entries and pages of document sites, which every authenticated caller
  may read, and the counters of the rate limit), then a lookup gives the same answer or the same
  error in both, whatever projects and resources there are besides: what is missing and what is
  denied cannot be told apart. Identifiers are taken to be unique within each collection.
\<close>

theorem lookup_url_confined:
  assumes "authenticate (ce_base e) rq (cs_app s) = (Inr ki, w)" and "authenticate (ce_base e) rq (cs_app t) = (Inr ki, w')"
    and "same_sight e ki (s\<lparr>cs_app := w\<rparr>) (t\<lparr>cs_app := w'\<rparr>)"
  shows "fst (lookup_url dump e rq url follow s) = fst (lookup_url dump e rq url follow t)"
  by (rule lookup_same [OF assms(3,1,2)])

definition other_project :: content where
  "other_project = demo_content\<lparr>cs_app := demo_mcp_world\<lparr>w_projects := [demo_project\<lparr>p_members := []\<rparr>]\<rparr>\<rparr>"

definition no_project :: content where
  "no_project = demo_content\<lparr>cs_app := demo_mcp_world\<lparr>w_projects := [], w_tasks := []\<rparr>, cs_documents := []\<rparr>"

lemma demo_caller_known:
  assumes "w_api_keys w0 = w_api_keys demo_mcp_world" and "w_users w0 = w_users demo_mcp_world" and "w_auth_cache w0 = w_auth_cache demo_mcp_world"
  shows "\<exists>w. authenticate plain_env demo_request w0 = (Inr demo_caller, w) \<and> same_store w0 w"
proof -
  have "wp (authenticate plain_env demo_request) (\<lambda>ki _. ki = demo_caller) (\<lambda>_ _. False) w0"
    using assms unfolding authenticate_def demo_request_def resolve_api_key_user_def cache_lookup_def key_owner_def touch_key_def
    by (simp add: wp_simps truthy_def get_valid_def demo_mcp_world_def demo_key_def demo_caller_def demo_defs coll_get_def Let_def)
  then obtain w where "authenticate plain_env demo_request w0 = (Inr demo_caller, w)"
    unfolding wp_total [symmetric] by blast
  moreover have "same_store w0 w"
    using authenticate_quiet [of plain_env demo_request, unfolded keeps_def, rule_format, of w0] calculation by simp
  ultimately show ?thesis by blast
qed

theorem lookup_url_confined_witness:
  "w_tasks (cs_app other_project) \<noteq> w_tasks (cs_app no_project) \<and>
   fst (lookup_url (\<lambda>_. JNull) demo_env demo_request ''/projects/000000000000000000000001?task=000000000000000000000002'' True other_project) =
   fst (lookup_url (\<lambda>_. JNull) demo_env demo_request ''/projects/000000000000000000000001?task=000000000000000000000002'' True no_project)"
proof -
  obtain w where w: "authenticate plain_env demo_request (cs_app other_project) = (Inr demo_caller, w)" "same_store (cs_app other_project) w"
    using demo_caller_known [of "cs_app other_project"] by (auto simp: other_project_def)
  obtain w' where w': "authenticate plain_env demo_request (cs_app no_project) = (Inr demo_caller, w')" "same_store (cs_app no_project) w'"
    using demo_caller_known [of "cs_app no_project"] by (auto simp: no_project_def)
  have "same_sight demo_env demo_caller (other_project\<lparr>cs_app := w\<rparr>) (no_project\<lparr>cs_app := w'\<rparr>)"
    using w(2) w'(2)
    by (simp add: same_sight_def ids_unique_def seen_part_def usable_def may_use_def same_store_def other_project_def no_project_def
        demo_content_def demo_env_def keys_distinct_def demo_caller_def demo_defs coll_get_def has_member_def demo_document_def new_document_def)
  from lookup_url_confined [OF _ _ this] w(1) w'(1) show ?thesis
    by (simp add: demo_env_def other_project_def no_project_def demo_content_def demo_tasks_def)
qed

text \<open>
  C27. The rate limit holds: among any lookups, by any callers and in any order, no more than a hundred
  of one user in one minute get an answer.
\<close>

theorem lookups_bounded: "count_uses lookup_step (answered uid m) qs s \<le> 100"
proof -
  have "tally lookup_step (\<lambda>_ _. 0) qs s = 0" by (induction qs arbitrary: s) simp_all
  moreover have "answers_left uid m s \<le> 100" by (simp add: answers_left_def split: option.split)
  ultimately show ?thesis using lookups.uses_within_budget [of qs uid m s] by (simp add: list_all_iff)
qed

text \<open>
  C28. \<open>get_resource\<close> gives out any task: without a project identifier the membership is not checked, and
  every authenticated caller gets the task he names, whatever project it is in.
\<close>

theorem get_resource_skips_membership:
  assumes "authenticate (ce_base e) rq (cs_app s) = (Inr ki, w)" and "oid_valid (ce_base e) i" and "i \<noteq> []"
    and "coll_get t_id (w_tasks w) (oid_canon (ce_base e) i) = Some t"
  shows "\<exists>s'. get_resource dump e rq ''task'' i None s =
    (Inr [(''kind'', JStr ''task''), (''project_id'', JNull), (''resource_id'', JStr i), (''resource'', task_to_dict t no_extras)], s')"
proof -
  have "truthy (Some i) = Some i" using assms(3) by (cases i) (simp_all add: truthy_def)
  then have "fetch_resource e ki \<lparr>rr_kind = ''task'', rr_project_id = None, rr_resource_id = Some i, rr_path = None, rr_site_id = None\<rparr>
      (s\<lparr>cs_app := w\<rparr>) = (Inr (Some (R_task t)), s\<lparr>cs_app := w\<rparr>)"
    using assms(2,4)
    by (simp add: fetch_resource_def project_access_or_deny_def fetch_kind_def fetch_task_def Let_def ref_in_project_def on_app_def task_get_def
        bindP_def catchP_def return_def gets_def)
  then show ?thesis
    using assms(1)
    by (simp add: get_resource_def Let_def on_app_def bindP_def audit_def whenP_def modify_def return_def resource_json_def jopt_def)
qed

theorem get_resource_skips_membership_witness:
  "\<exists>w s'. authenticate plain_env demo_request (cs_app other_project) = (Inr demo_caller, w) \<and> \<not> may_use plain_env w demo_caller ''p'' \<and>
    get_resource (\<lambda>_. JNull) demo_env demo_request ''task'' ''a'' None other_project =
      (Inr [(''kind'', JStr ''task''), (''project_id'', JNull), (''resource_id'', JStr ''a''),
        (''resource'', task_to_dict (demo_task ''a'' [''b''] []) no_extras)], s')"
proof -
  obtain w where a: "authenticate plain_env demo_request (cs_app other_project) = (Inr demo_caller, w)" and same: "same_store (cs_app other_project) w"
    using demo_caller_known [of "cs_app other_project"] by (auto simp: other_project_def)
  have w: "w_tasks w = demo_tasks" "w_projects w = [demo_project\<lparr>p_members := []\<rparr>]"
    using same by (simp_all add: same_store_def other_project_def)
  have "\<not> may_use plain_env w demo_caller ''p''"
    by (simp add: may_use_def w coll_get_def demo_caller_def demo_defs has_member_def)
  moreover have "coll_get t_id (w_tasks w) (oid_canon plain_env ''a'') = Some (demo_task ''a'' [''b''] [])"
    by (simp add: w coll_get_def demo_defs)
  ultimately show ?thesis
    using get_resource_skips_membership [of demo_env demo_request other_project demo_caller w "''a''" "demo_task ''a'' [''b''] []" "\<lambda>_. JNull"] a
    by (simp add: demo_env_def plain_env_def)
qed

end
