(* ===== verification/Markdown_Roundtrip.thy ===== *)
theory Markdown_Roundtrip
  imports Markdown_Import
begin

text \<open>
  A Markdown file with a header, as the description of the parser shows it, parses to the title,
  tags, category and body it was written with.
\<close>

section \<open>Files\<close>

definition render_markdown :: "string \<Rightarrow> string list \<Rightarrow> string \<Rightarrow> string \<Rightarrow> string" where
  "render_markdown title tags category body =
     ''---'' @ [CHR 10] @ ''title: '' @ title @ [CHR 10] @ ''tags: ['' @ join_with '', '' tags @ '']'' @ [CHR 10] @
     ''category: '' @ category @ [CHR 10] @ ''---'' @ [CHR 10, CHR 10] @ body"

text \<open>A value that stands for itself on a line: no white space or quotes at its ends, no line ends.\<close>

definition plain_value :: "string \<Rightarrow> bool" where
  "plain_value v \<longleftrightarrow> v \<noteq> [] \<and> \<not> py_space (hd v) \<and> \<not> py_space (last v) \<and> strip_quotes v = v \<and> (\<forall>c \<in> set v. \<not> line_end c)"

definition plain_scalar :: "string \<Rightarrow> bool" where
  "plain_scalar v \<longleftrightarrow> plain_value v \<and> hd v \<noteq> CHR ''[''"

definition plain_tag :: "string \<Rightarrow> bool" where
  "plain_tag t \<longleftrightarrow> plain_value t \<and> py_lower t = t \<and> CHR '','' \<notin> set t"

section \<open>Text\<close>

lemma line_end_space: "line_end c \<Longrightarrow> py_space c"
  by (auto simp: line_end_def py_space_def Let_def)

lemma not_ends: "\<forall>c \<in> set l. \<not> line_end c \<Longrightarrow> CHR 10 \<notin> set l \<and> CHR 13 \<notin> set l"
  by (auto simp: line_end_def)

lemma strip_id: "\<not> py_space (hd v) \<Longrightarrow> \<not> py_space (last v) \<Longrightarrow> py_strip v = v"
proof -
  assume ends: "\<not> py_space (hd v)" "\<not> py_space (last v)"
  then have "dropWhile py_space v = v" by (cases v) simp_all
  moreover have "dropWhile py_space (rev v) = rev v" using ends(2) by (cases v rule: rev_cases) simp_all
  ultimately show ?thesis by (simp add: py_strip_def)
qed

lemma strip_blank: "py_space c \<Longrightarrow> py_strip (c # v) = py_strip v"
  by (simp add: py_strip_def)

lemma splitlines_line: "\<forall>c \<in> set l. \<not> line_end c \<Longrightarrow> splitlines_from cur (l @ CHR 10 # s) = (rev cur @ l) # splitlines_from [] s"
  by (induction l arbitrary: cur) (auto simp: line_end_def)

lemma splitlines_last: "\<forall>c \<in> set l. \<not> line_end c \<Longrightarrow> splitlines_from cur l = (if cur = [] \<and> l = [] then [] else [rev cur @ l])"
  by (induction l arbitrary: cur) auto

lemma header_line:
  assumes "CHR 10 \<notin> set l" and "CHR 13 \<notin> set l"
  shows "split_header acc (l @ s) = split_header (rev l @ acc) s"
  using assms by (induction l arbitrary: acc) auto

lemma header_newline: "c \<noteq> CHR ''-'' \<Longrightarrow> split_header acc (CHR 10 # c # s) = split_header (CHR 10 # acc) (c # s)"
  by simp

lemma header_end: "split_header acc (CHR 10 # ''---'' @ s) = Some (rev acc, dropWhile py_space s)"
  by simp

section \<open>Lists of tags\<close>

lemma plain_tag_piece: "plain_tag t \<Longrightarrow> py_strip t \<noteq> [] \<and> strip_quotes t = t \<and> py_strip (CHR 32 # t) \<noteq> [] \<and> strip_quotes (CHR 32 # t) = t"
proof -
  assume "plain_tag t"
  then have t: "strip_quotes t = t" "py_strip t = t" "t \<noteq> []" by (auto simp: plain_tag_def plain_value_def strip_id)
  have "py_strip (CHR 32 # t) = t" using t(2) by (simp add: strip_blank py_space_def)
  then show ?thesis using t unfolding strip_quotes_def by simp
qed

lemma split_more_tags:
  "list_all plain_tag ts \<Longrightarrow> ts \<noteq> [] \<Longrightarrow>
   map strip_quotes (filter (\<lambda>p. py_strip p \<noteq> []) (split_on CHR '','' (CHR 32 # join_with '', '' ts))) = ts"
proof (induction ts rule: induct_list012)
  case (2 t)
  then show ?case using plain_tag_piece [of t] by (simp add: split_on_no_sep plain_tag_def)
next
  case (3 t u us)
  have "split_on CHR '','' ((CHR 32 # t) @ CHR '','' # CHR 32 # join_with '', '' (u # us)) =
      (CHR 32 # t) # split_on CHR '','' (CHR 32 # join_with '', '' (u # us))"
    by (rule split_on_append) (use 3 in \<open>simp add: plain_tag_def\<close>)
  with 3 show ?case using plain_tag_piece [of t] by simp
qed simp

lemma split_tags:
  assumes "list_all plain_tag ts"
  shows "map strip_quotes (filter (\<lambda>p. py_strip p \<noteq> []) (split_on CHR '','' (join_with '', '' ts))) = ts"
proof (cases ts rule: remdups_adj.cases)
  case 1
  then show ?thesis by (simp add: py_strip_def)
next
  case (2 t)
  with assms show ?thesis using plain_tag_piece [of t] by (simp add: split_on_no_sep plain_tag_def)
next
  case (3 t u us)
  have "split_on CHR '','' (t @ CHR '','' # CHR 32 # join_with '', '' (u # us)) = t # split_on CHR '','' (CHR 32 # join_with '', '' (u # us))"
    by (rule split_on_append) (use assms 3 in \<open>simp add: plain_tag_def\<close>)
  with assms 3 show ?thesis using plain_tag_piece [of t] split_more_tags [of "u # us"] by simp
qed

section \<open>The header\<close>

text \<open>A line with a key and a value that is not empty.\<close>

lemma header_entry:
  assumes "k \<noteq> []" and "\<forall>c \<in> set k. \<not> py_space c \<and> c \<noteq> CHR '':'' \<and> c \<noteq> CHR ''#''" and "v \<noteq> []" and "\<not> py_space (hd v)" and "\<not> py_space (last v)"
  shows "parse_frontmatter_lines ((k @ CHR '':'' # CHR 32 # v) # ls) out = parse_frontmatter_lines ls
    ((k, if take 1 v = ''['' \<and> ends_with '']'' v then Items (parse_inline_list v) else Scalar (strip_quotes v)) # out)"
proof -
  let ?l = "k @ CHR '':'' # CHR 32 # v"
  have ends: "\<not> py_space (hd ?l)" "\<not> py_space (last ?l)" using assms by auto
  have line: "py_strip ?l = ?l" by (rule strip_id [OF ends])
  have key: "takeWhile (\<lambda>c. c \<noteq> CHR '':'') ?l = k" "tl (dropWhile (\<lambda>c. c \<noteq> CHR '':'') ?l) = CHR 32 # v"
    using assms(2) by (simp_all add: takeWhile_append2 dropWhile_append2)
  have "py_strip k = k" by (rule strip_id) (use assms(1,2) in auto)
  moreover have "py_strip (CHR 32 # v) = v" using strip_id [OF assms(4,5)] by (simp add: strip_blank py_space_def)
  moreover have "take 1 ?l \<noteq> ''#''" using assms(1,2) by (cases k) auto
  ultimately show ?thesis using assms(1,3) by (simp add: line key Let_def)
qed

lemma inline_tags:
  assumes "list_all plain_tag ts"
  shows "parse_inline_list (''['' @ join_with '', '' ts @ '']'') = ts"
proof -
  have "py_strip (''['' @ join_with '', '' ts @ '']'') = ''['' @ join_with '', '' ts @ '']''" by (rule strip_id) (simp_all add: py_space_def)
  then show ?thesis using split_tags [OF assms] by (simp add: parse_inline_list_def ends_with_def)
qed

lemma join_chars: "c \<in> set (join_with sep xs) \<Longrightarrow> c \<in> set sep \<or> (\<exists>x \<in> set xs. c \<in> set x)"
  by (induction xs rule: induct_list012) auto

lemma tags_line: "list_all plain_tag ts \<Longrightarrow> \<forall>c \<in> set (''tags: ['' @ join_with '', '' ts @ '']''). \<not> line_end c"
  using join_chars [of _ "'', ''" ts] by (fastforce simp: list_all_iff plain_tag_def plain_value_def line_end_def)

lemma rendered_header:
  assumes "plain_scalar title" and "list_all plain_tag tags" and "plain_scalar category"
  shows "parse_frontmatter (''title: '' @ title @ [CHR 10] @ ''tags: ['' @ join_with '', '' tags @ '']'' @ [CHR 10] @ ''category: '' @ category) =
    [(''category'', Scalar category), (''tags'', Items tags), (''title'', Scalar title)]"
proof -
  let ?t = "''title: '' @ title" and ?g = "''tags: ['' @ join_with '', '' tags @ '']''" and ?c = "''category: '' @ category"
  have lines: "\<forall>c \<in> set ?t. \<not> line_end c" "\<forall>c \<in> set ?g. \<not> line_end c" "\<forall>c \<in> set ?c. \<not> line_end c"
    using assms(1,3) tags_line [OF assms(2)] by (auto simp: plain_scalar_def plain_value_def line_end_def)
  have split: "splitlines (?t @ CHR 10 # ?g @ CHR 10 # ?c) = [?t, ?g, ?c]"
    unfolding splitlines_def splitlines_line [OF lines(1)] splitlines_line [OF lines(2)] splitlines_last [OF lines(3)] by simp
  have scalar: "take 1 v \<noteq> ''[''" "strip_quotes v = v" "v \<noteq> []" "\<not> py_space (hd v)" "\<not> py_space (last v)" if "plain_scalar v" for v
    using that by (cases v; auto simp: plain_scalar_def plain_value_def)+
  have title: "parse_frontmatter_lines (?t # ls) out = parse_frontmatter_lines ls ((''title'', Scalar title) # out)" for ls out
    using header_entry [of "''title''" title ls out] scalar [OF assms(1)] by (simp add: py_space_def)
  have category: "parse_frontmatter_lines (?c # ls) out = parse_frontmatter_lines ls ((''category'', Scalar category) # out)" for ls out
    using header_entry [of "''category''" category ls out] scalar [OF assms(3)] by (simp add: py_space_def)
  have tags: "parse_frontmatter_lines (?g # ls) out = parse_frontmatter_lines ls ((''tags'', Items tags) # out)" for ls out
    using header_entry [of "''tags''" "''['' @ join_with '', '' tags @ '']''" ls out] inline_tags [OF assms(2)]
    by (simp add: py_space_def ends_with_def)
  show ?thesis using split title tags category by (simp add: parse_frontmatter_def)
qed

lemma rendered_match:
  assumes "plain_scalar title" and "list_all plain_tag tags" and "plain_scalar category" and "body = [] \<or> \<not> py_space (hd body)"
  shows "frontmatter_match (render_markdown title tags category body) =
    Some (''title: '' @ title @ [CHR 10] @ ''tags: ['' @ join_with '', '' tags @ '']'' @ [CHR 10] @ ''category: '' @ category, body)"
proof -
  let ?t = "''title: '' @ title" and ?g = "''tags: ['' @ join_with '', '' tags @ '']''" and ?c = "''category: '' @ category"
  let ?rest = "?t @ CHR 10 # ?g @ CHR 10 # ?c @ CHR 10 # ''---'' @ [CHR 10, CHR 10] @ body"
  have lines: "\<forall>c \<in> set ?t. \<not> line_end c" "\<forall>c \<in> set ?g. \<not> line_end c" "\<forall>c \<in> set ?c. \<not> line_end c"
    using assms(1,3) tags_line [OF assms(2)] by (auto simp: plain_scalar_def plain_value_def line_end_def)
  note plain = lines [THEN not_ends]
  have body: "dropWhile py_space ([CHR 10, CHR 10] @ body) = body"
    using assms(4) by (cases body) (auto simp: py_space_def)
  have "split_header [] ?rest = Some (?t @ [CHR 10] @ ?g @ [CHR 10] @ ?c, body)"
  proof -
    have "split_header [] ?rest = split_header (rev ?t) (CHR 10 # ?g @ CHR 10 # ?c @ CHR 10 # ''---'' @ [CHR 10, CHR 10] @ body)"
      using header_line [of ?t "[]"] plain(1) by simp
    also have "\<dots> = split_header (CHR 10 # rev ?t) (?g @ CHR 10 # ?c @ CHR 10 # ''---'' @ [CHR 10, CHR 10] @ body)"
      using header_newline [of "CHR ''t''" "rev ?t"] by (simp del: split_header.simps)
    also have "\<dots> = split_header (rev ?g @ CHR 10 # rev ?t) (CHR 10 # ?c @ CHR 10 # ''---'' @ [CHR 10, CHR 10] @ body)"
      using header_line [of ?g "CHR 10 # rev ?t"] plain(2) by blast
    also have "\<dots> = split_header (CHR 10 # rev ?g @ CHR 10 # rev ?t) (?c @ CHR 10 # ''---'' @ [CHR 10, CHR 10] @ body)"
      using header_newline [of "CHR ''c''" "rev ?g @ CHR 10 # rev ?t"] by (simp del: split_header.simps)
    also have "\<dots> = split_header (rev ?c @ CHR 10 # rev ?g @ CHR 10 # rev ?t) (CHR 10 # ''---'' @ [CHR 10, CHR 10] @ body)"
      using header_line [of ?c "CHR 10 # rev ?g @ CHR 10 # rev ?t"] plain(3) by blast
    also have "\<dots> = Some (rev (rev ?c @ CHR 10 # rev ?g @ CHR 10 # rev ?t), body)"
      unfolding header_end body ..
    finally show ?thesis by (simp del: split_header.simps)
  qed
  moreover have "drop 3 (render_markdown title tags category body) = CHR 10 # ?rest" "is_prefix ''---'' (render_markdown title tags category body)"
    by (simp_all add: render_markdown_def)
  moreover have "takeWhile py_space (CHR 10 # ?rest) = [CHR 10]" by (simp add: py_space_def)
  ultimately show ?thesis
    unfolding frontmatter_match_def Let_def by (simp add: first_line_ends_def)
qed

section \<open>The round trip\<close>

lemma plain_tags_normal: "list_all plain_tag ts \<Longrightarrow> normalize_tags ts = ts"
  by (induction ts) (auto simp: normalize_tags_def plain_tag_def plain_value_def strip_id)

text \<open>
  C30. A Markdown file whose header gives a title, a list of tags and a category parses to exactly these
  and to the text behind the header, whatever the name of the file is, if they are plain: not
  empty, on one line, without quotes or white space at either end, the title and the category
  without a bracket in front, the tags in lower case and without commas, and the text not starting
  with white space, which the parser drops (\<open>indentation_lost\<close>).
\<close>

theorem markdown_roundtrip:
  assumes "plain_scalar title" and "list_all plain_tag tags" and "plain_scalar category" and "body = [] \<or> \<not> py_space (hd body)"
  shows "parse_markdown_file name (render_markdown title tags category body) =
    \<lparr>pm_title = title, pm_content = body, pm_tags = tags, pm_category = Some category\<rparr>"
proof -
  have strip: "py_strip v = v" "v \<noteq> []" if "plain_scalar v" for v using that by (auto simp: plain_scalar_def plain_value_def strip_id)
  have "dropWhile (\<lambda>c. c = CHR 10) body = body" using assms(4) by (cases body) (auto simp: py_space_def)
  then show ?thesis
    using strip [OF assms(1)] strip [OF assms(3)]
    unfolding parse_markdown_file_def rendered_match [OF assms] option.case prod.case rendered_header [OF assms(1-3)] Let_def
    by (simp add: meta_title_def meta_tags_def meta_category_def plain_tags_normal [OF assms(2)])
qed

theorem markdown_roundtrip_witness:
  "parse_markdown_file ''notes.md'' (render_markdown ''Authentication design'' [''auth'', ''security''] ''design'' ''# Auth design'') =
    \<lparr>pm_title = ''Authentication design'', pm_content = ''# Auth design'', pm_tags = [''auth'', ''security''], pm_category = Some ''design''\<rparr>"
proof (rule markdown_roundtrip)
  show "plain_scalar ''Authentication design''" by code_simp
  show "list_all plain_tag [''auth'', ''security'']" by code_simp
  show "plain_scalar ''design''" by code_simp
  show "''# Auth design'' = [] \<or> \<not> py_space (hd ''# Auth design'')" by code_simp
qed

text \<open>The white space behind the header is skipped together with the indentation of the first line.\<close>

lemma indentation_lost:
  "pm_content (parse_markdown_file ''a.md'' (render_markdown ''t'' [] ''c'' ''    code'')) = ''code''"
  by code_simp

end
