(* ===== verification/Spec2Isabelle.thy ===== *)
theory Spec2Isabelle
  imports Error_Store Auth_Behaviour Content_Behaviour Markdown_Roundtrip
begin

text \<open>
  A verification library for the backend of claude-todo (src/backend/app), a project and task
  manager that people use over REST, agents over MCP, that keeps documents, knowledge and secrets
  beside the tasks, and that collects the errors of web clients and turns them into tasks.

  \<^bold>\<open>The program and its parts.\<close> The documents live in MongoDB: tasks with comments, an activity log
  and two-sided dependencies (\<open>blocks\<close> and \<open>blocked_by\<close>), projects with members, users, API keys,
  documents with their versions, knowledge entries, secrets with the log of their accesses, error
  issues and daily collections of error events. Redis carries published events, the stream of
  incoming error events, expiring counters, the counts of events that are not yet in the database,
  and the values of login and OAuth that live for a limited time (identifiers of refresh tokens,
  failed logins, consent requests, codes and tokens). People log in by password or Google account
  and hold cookies with signed tokens; agents present an API key or an access token of the built-in
  OAuth provider, which a person grants on a consent screen. REST requests and MCP tool calls change
  tasks through shared services: the dependency service refuses cycles, the approval service
  approves all subtasks, completing or archiving a task resolves or ignores the error issues linked
  to it. The error tracker takes envelopes of Sentry
  clients, checks key, origin and rate, and puts their events on the stream; a worker scrubs,
  groups, counts and stores them and opens a task for a new issue; further jobs flush the counters,
  claim what a crashed worker left, and drop old days. The URL contract names all resources by URLs
  and reads such URLs back; the lookup tools fetch what a URL names, under a rate limit and with an
  audit log.

  \<^bold>\<open>How the model corresponds to the code.\<close> A handler is a program over the state that returns a
  value or an exception and leaves a state behind (\<open>Prelude\<close>); what it sees of the deployment and of
  third-party code is the argument \<open>env\<close> (\<open>et_env\<close> for the error tracker, \<open>auth_env\<close> for login and
  OAuth, \<open>content_env\<close> for documents, secrets and lookups): clocks, identifiers of new documents,
  digests, signatures, the JSON and date parsers, search results, outages, the order in which a query
  returns documents with equal sort keys, files that resist deletion, documents the database
  refuses. The command \<open>XAUTOCLAIM\<close> of Redis is an argument of the claiming loop, with its documented
  behaviour as the locale \<open>autoclaim\<close>. Functions keep the names of the source, with a prefix where
  REST and MCP use the same one.

  \<^item> \<open>Prelude\<close>: JSON values, exceptions, the program monad with its weakest preconditions, frames
    (the locale \<open>frame\<close>), document collections (the locale \<open>doc_store\<close>), text functions of Python.
  \<^item> \<open>Task_Model\<close> (models/task.py, services/serializers.py) and \<open>World\<close> (models/project.py, user.py,
    error_tracker.py, core/validators.py, services/events.py, index_notifications.py,
    error_tracker/lifecycle.py): the documents, the state \<open>world\<close> and the shared primitives.
  \<^item> \<open>Link_Search\<close>, \<open>Task_Links\<close> (services/task_links.py) and \<open>Task_Approval\<close>
    (services/task_approval.py): the graph searches, link and unlink, the cascade.
  \<^item> \<open>Task_Rest\<close> (api/v1/endpoints/tasks): every endpoint, and the dispatcher \<open>route\<close>. \<open>Task_Safety\<close>
    and \<open>Task_Behaviour\<close> hold its properties.
  \<^item> \<open>Mcp_Auth\<close> (mcp/auth.py), \<open>Mcp_Projects\<close> (mcp/tools/projects.py), \<open>Mcp_Task_Read\<close> and
    \<open>Mcp_Task_Write\<close> (mcp/tools/tasks.py, mcp/server.py): authentication with its cache, the tools,
    and the dispatcher \<open>call_tool\<close>. \<open>Mcp_Safety\<close> and \<open>Mcp_Behaviour\<close> hold their properties, the
    states reachable over REST and MCP, and the agreement of both. \<open>Calendar\<close> is what they use of
    Python's dates.
  \<^item> \<open>Url_Contract\<close> (lib/url_contract.py, with the part of urllib it calls): \<open>parse_url\<close>, \<open>build_url\<close> and
    their properties.
  \<^item> \<open>Py_Regex\<close>, \<open>Error_Scrub\<close>, \<open>Error_Envelope\<close>, \<open>Error_Ingest\<close> (services/error_tracker/scrubber.py,
    envelope.py, auth.py, rate_limit.py, stream.py and api/error_tracker_ingest.py): the path of a
    request up to the stream. \<open>Error_Pipeline\<close> (fingerprint.py, counters.py, auto_task.py, events.py,
    pipeline.py, worker.py): from the stream to the stored documents. \<open>Error_Worker\<close>: rotation,
    claiming and flushing. \<open>Error_Behaviour\<close>, \<open>Error_Jobs\<close> and \<open>Error_Store\<close> hold the properties.

  \<^item> \<open>Auth_State\<close>, \<open>Rest_Auth\<close> (core/security.py, core/deps.py, models/allowed_email.py,
    api/v1/endpoints/auth) and \<open>Oauth_Provider\<close> (mcp/oauth, mcp/oauth_consent.py): sessions and login,
    clients, consent, codes and tokens. \<open>Auth_Flow\<close> (the steps and what they use up), \<open>Oauth_Grants\<close>
    (where tokens come from) and \<open>Auth_Behaviour\<close> hold the properties.
  \<^item> \<open>Content_State\<close> (models/document.py, knowledge.py, secret.py, bookmark.py, docsite.py,
    url_lookup_audit.py), \<open>Documents\<close>, \<open>Knowledge\<close>, \<open>Secrets\<close> (the modules of these names under mcp/tools
    and api/v1/endpoints), \<open>Markdown_Import\<close> (services/markdown_import.py and the import endpoints)
    and \<open>Url_Lookup\<close> (mcp/tools/url_lookup.py). \<open>Document_History\<close>, \<open>Markdown_Roundtrip\<close>,
    \<open>Knowledge_Safety\<close>, \<open>Secret_Safety\<close>, \<open>Url_Safety\<close> and \<open>Content_Behaviour\<close> hold the properties.

  \<^bold>\<open>What is shown.\<close>

  \<^item> Tasks: in every reachable state the dependency graph is symmetric, acyclic and without dangling
    entries and every document satisfies its own invariant; link succeeds exactly when it may, and
    unlink undoes it; the searches decide their graph questions; the cascade approves exactly the
    descendants. Requests that link, unlink or delete tasks must spell identifiers canonically, as
    the database returns them: the code accepts upper-case digits too but compares strings, so that
    other spellings break the graph (\<open>self_link_by_case\<close>).
  \<^item> Access: without membership or with a locked project nothing changes; what a tool call may write;
    a revoked key stops working when its cache entry ends; the cache is bounded; REST and MCP agree.
  \<^item> Error tracker: only requests with credentials reach the stream; scrubbed events hold no value
    under the name of a secret, by a list of names that does not depend on the expressions of the
    code; counts are exact while the database takes the updates, limits hold, issues are unique and
    so are events within a day, a replay stores nothing; the claiming loop ends, and entries stay
    pending exactly if they were handled and failed; the rotation respects the retention; the
    envelope format round-trips.
  \<^item> URLs: both round trips for plain arguments, what a parsed URL looks like, and that foreign hosts
    name nothing; what \<open>lookup_url\<close> answers depends only on what the caller may read, as a
    noninterference theorem, and the answers of a minute are bounded.
  \<^item> Login and OAuth: every access token stands for a consent of the user it acts for; refresh
    tokens, codes and consent requests work once; guessing passwords is bounded; a session
    authenticates the user it was issued to.
  \<^item> Documents: requests and imports refine an abstract specification, histories that only grow, and
    every earlier revision can be read; the reader of Markdown files undoes a writer of them, for
    plain titles, tags and texts. A deleted knowledge entry stays as it is and unreadable for the
    tools and endpoints of knowledge entries.
  \<^item> Secrets: values leave their tools and endpoints only through the operations that read a value, as
    a noninterference theorem; only owners change them, and every value read is logged. Remote
    commands with injected secrets are not covered.
  \<^item> Where the code departs from its comments and documents, theorems say so (reordering under a lock,
    self-links by letter case, the answer during an outage of Redis, URLs without a scheme, a
    refresh after the session has ended, \<open>get_resource\<close> without a membership check).

  The contracts between parts are locales, interpreted on the definitions of the model: \<open>frame\<close> (what
  a handler leaves alone) and its extension \<open>tool_frame\<close>, \<open>doc_store\<close> (interpreted on the collections
  of tasks, projects, users, documents and knowledge entries), \<open>ttl_cache\<close>, \<open>event_counter\<close>,
  \<open>window_cap\<close>, \<open>stream_handler\<close> and \<open>autoclaim\<close> with their union \<open>reclaim\<close>, \<open>metered\<close> (uses that spend a budget: failed logins,
  lookups) and \<open>one_time\<close>, a sublocale of it (refresh tokens, codes, consent requests).

  \<^bold>\<open>Loops and bounds.\<close> The searches, the cascade, the envelope parser and the regular expressions are
  total functions with termination proofs. The loop that claims entries may in principle run
  forever and is a partial function into \<open>option\<close>; that it ends, for every server that answers as
  documented, is a theorem. \<open>walk_back\<close>, which reads a
  path from the dictionary of predecessors, has the size of the dictionary as its fuel, and the
  theorem about the search shows that the path is complete. Numbers are unbounded, as in Python;
  times are microseconds since the epoch.

  \<^bold>\<open>What is not modelled.\<close> The tools and endpoints of bookmarks with their web clips (a browser and HTML
  libraries), document sites (files on disk), usage statistics (aggregation pipelines of the
  database), the error tracker's own tools and endpoints, the REST endpoints of projects, users,
  keys and backups; passkeys, which rest on a library throughout; remote agents and supervisors
  (WebSockets and processes); the MCP transport; exports to Markdown, HTML and PDF; the search
  indexes behind their interface; start, configuration and command line, which are wiring; and the
  parts in other languages (frontend, agent, supervisor).
  Within the error tracker, provisioning (random keys), the capture of the backend's own errors, and
  the placeholder handler are left out. Two requests do not interleave within one handler: each
  handler runs to its end. Writes of single documents succeed, but for those with a parameter that
  refuses them (events and issues of the tracker, bulk inserts); a REST body with an explicit null
  for a field whose type has none is outside the model. Characters are bytes: text is held in its
  UTF-8 encoding, and letter case and classes of characters are those of the first 256 code points,
  except for the digits of the ingest path.
\<close>

end
